(* ===== verification/Prelude.thy ===== *)
theory Prelude
  imports "HOL-Library.Word"
begin

text \<open>
  Shared vocabulary of the development: bytes, Python slices and slice assignment on
  \<^verbatim>\<open>bytearray\<close> values, little-endian integers, and the algebra of \<^emph>\<open>disjoint writes\<close>
  into an image that every image builder of the repository rests on.  Nothing in this
  theory is specific to one script.
\<close>

unbundle bit_operations_syntax

named_theorems layout \<open>unfolding rules for the numeric layout constants of the scripts\<close>
named_theorems slice_simps \<open>lengths and reads of sliced and spliced byte lists\<close>

type_synonym byte = "8 word"
type_synonym bytes = "byte list"

section \<open>Slices\<close>

text \<open>
  \<open>sub xs off n\<close> is Python's \<^verbatim>\<open>xs[off:off+n]\<close>, and \<open>slice_set a b ys xs\<close> is the list
  after \<^verbatim>\<open>xs[a:b] = ys\<close> (for \<open>0 \<le> a\<close>, \<open>0 \<le> b\<close>): the replaced range and the new
  content may differ in length, so a \<^verbatim>\<open>bytearray\<close> can grow or shrink, and an offset past
  the end appends.
\<close>

definition sub :: "'a list \<Rightarrow> nat \<Rightarrow> nat \<Rightarrow> 'a list" where
  "sub xs off n = take n (drop off xs)"

definition slice_set :: "nat \<Rightarrow> nat \<Rightarrow> 'a list \<Rightarrow> 'a list \<Rightarrow> 'a list" where
  "slice_set a b ys xs = take a xs @ ys @ drop (max a b) xs"

definition put_at :: "nat \<Rightarrow> 'a list \<Rightarrow> 'a list \<Rightarrow> 'a list" where
  "put_at off ys xs = slice_set off (off + length ys) ys xs"

definition zeros :: "nat \<Rightarrow> bytes" where
  "zeros n = replicate n 0"

lemma length_zeros [simp]: "length (zeros n) = n"
  by (simp add: zeros_def)

lemma zeros_0 [simp]: "zeros 0 = []"
  by (simp add: zeros_def)

lemma nth_zeros [simp]: "i < n \<Longrightarrow> zeros n ! i = 0"
  by (simp add: zeros_def)

lemma set_zeros: "set (zeros n) \<subseteq> {0}"
  by (auto simp: zeros_def)

lemma sub_zeros: "off + n \<le> m \<Longrightarrow> sub (zeros m) off n = zeros n"
  by (simp add: sub_def zeros_def)

lemma length_sub [slice_simps]: "length (sub xs off n) = min n (length xs - off)"
  by (simp add: sub_def)

lemma length_sub_in [simp]: "off + n \<le> length xs \<Longrightarrow> length (sub xs off n) = n"
  by (simp add: sub_def)

lemma nth_sub: "i < n \<Longrightarrow> off + i < length xs \<Longrightarrow> sub xs off n ! i = xs ! (off + i)"
  by (simp add: sub_def)

lemma sub_0 [simp]: "sub xs off 0 = []"
  by (simp add: sub_def)

lemma sub_append_left: "off + n \<le> length xs \<Longrightarrow> sub (xs @ ys) off n = sub xs off n"
  by (simp add: sub_def)

lemma sub_append_right: "length xs \<le> off \<Longrightarrow> sub (xs @ ys) off n = sub ys (off - length xs) n"
  by (simp add: sub_def)

lemma sub_add: "sub xs off (m + n) = sub xs off m @ sub xs (off + m) n"
  by (simp add: sub_def take_add add.commute)

lemma sub_sub: "off + n \<le> m \<Longrightarrow> sub (sub xs base m) off n = sub xs (base + off) n"
  by (simp add: sub_def drop_take add.commute min_def)

lemma take_eq_sub: "take n xs = sub xs 0 n"
  by (simp add: sub_def)

lemma length_slice_set [slice_simps]:
  "length (slice_set a b ys xs) = min a (length xs) + length ys + (length xs - max a b)"
  by (simp add: slice_set_def min.commute)

lemma length_put_at [simp]:
  "off + length ys \<le> length xs \<Longrightarrow> length (put_at off ys xs) = length xs"
  by (simp add: put_at_def slice_set_def)

lemma nth_put_at:
  assumes "off + length ys \<le> length xs" and "i < length xs"
  shows "put_at off ys xs ! i =
    (if off \<le> i \<and> i < off + length ys then ys ! (i - off) else xs ! i)"
  using assms by (auto simp: put_at_def slice_set_def nth_append min_def)

lemma sub_put_at_same [simp]:
  "off + length ys \<le> length xs \<Longrightarrow> sub (put_at off ys xs) off (length ys) = ys"
  by (simp add: sub_def put_at_def slice_set_def)

lemma sub_put_at_disjoint:
  assumes "off + length ys \<le> length xs"
    and "o2 + n \<le> off \<or> off + length ys \<le> o2"
  shows "sub (put_at off ys xs) o2 n = sub xs o2 n"
proof (rule nth_equalityI)
  show "length (sub (put_at off ys xs) o2 n) = length (sub xs o2 n)"
    using assms(1) by (simp add: length_sub)
  fix i assume "i < length (sub (put_at off ys xs) o2 n)"
  then have "i < n" "o2 + i < length xs"
    using assms(1) by (auto simp: length_sub)
  then show "sub (put_at off ys xs) o2 n ! i = sub xs o2 n ! i"
    using assms by (auto simp: nth_sub nth_put_at)
qed

text \<open>A read inside a spliced range sees the new content.\<close>

lemma sub_put_at_inside:
  assumes "off + length ys \<le> length xs" and "k + n \<le> length ys"
  shows "sub (put_at off ys xs) (off + k) n = sub ys k n"
proof -
  have "sub (put_at off ys xs) (off + k) n = sub (sub (put_at off ys xs) off (length ys)) k n"
    using assms(2) by (simp add: sub_sub)
  with assms(1) show ?thesis by simp
qed

lemma put_at_Nil [simp]: "put_at off [] xs = xs"
  by (simp add: put_at_def slice_set_def)

section \<open>Logs of disjoint writes\<close>

text \<open>
  Building an image is a sequence of writes \<open>(offset, content)\<close>.  \<open>apply_writes\<close> replays a
  log; when the logged ranges are pairwise disjoint and inside the image, every entry can
  be read back at the end and everything outside the log is unchanged.
\<close>

type_synonym wlog = "(nat \<times> bytes) list"

primrec apply_writes :: "wlog \<Rightarrow> bytes \<Rightarrow> bytes" where
  "apply_writes [] xs = xs"
| "apply_writes (w # ws) xs = apply_writes ws (put_at (fst w) (snd w) xs)"

definition apart :: "nat \<times> bytes \<Rightarrow> nat \<times> bytes \<Rightarrow> bool" where
  "apart w v \<longleftrightarrow> fst w + length (snd w) \<le> fst v \<or> fst v + length (snd v) \<le> fst w"

definition in_range :: "nat \<Rightarrow> nat \<times> bytes \<Rightarrow> bool" where
  "in_range n w \<longleftrightarrow> fst w + length (snd w) \<le> n"

lemma apart_sym: "apart w v \<longleftrightarrow> apart v w"
  by (auto simp: apart_def)

lemma apply_writes_append: "apply_writes (ws @ vs) xs = apply_writes vs (apply_writes ws xs)"
  by (induction ws arbitrary: xs) auto

lemma apply_writes_comp: "apply_writes (ws @ vs) = (\<lambda>xs. apply_writes vs (apply_writes ws xs))"
  by (rule ext) (rule apply_writes_append)

lemma length_apply_writes [simp]:
  "list_all (in_range (length xs)) ws \<Longrightarrow> length (apply_writes ws xs) = length xs"
  by (induction ws arbitrary: xs) (auto simp: in_range_def)

text \<open>A range that no logged write touches keeps its content.\<close>

lemma sub_apply_writes_frame:
  assumes "list_all (in_range (length xs)) ws"
    and "\<And>w. w \<in> set ws \<Longrightarrow> off + n \<le> fst w \<or> fst w + length (snd w) \<le> off"
  shows "sub (apply_writes ws xs) off n = sub xs off n"
  using assms
proof (induction ws arbitrary: xs)
  case Nil
  then show ?case by simp
next
  case (Cons w ws)
  have w: "fst w + length (snd w) \<le> length xs" using Cons.prems(1) by (simp add: in_range_def)
  have "sub (apply_writes ws (put_at (fst w) (snd w) xs)) off n
      = sub (put_at (fst w) (snd w) xs) off n"
    using Cons.prems w by (intro Cons.IH) auto
  also have "\<dots> = sub xs off n"
    using w Cons.prems(2)[of w] by (intro sub_put_at_disjoint) auto
  finally show ?case by simp
qed

text \<open>Every entry of a pairwise disjoint log is read back.\<close>

lemma sub_apply_writes_in:
  assumes "list_all (in_range (length xs)) ws" and "sorted_wrt apart ws" and "(off, d) \<in> set ws"
  shows "sub (apply_writes ws xs) off (length d) = d"
  using assms
proof (induction ws arbitrary: xs)
  case Nil
  then show ?case by simp
next
  case (Cons w ws)
  let ?xs = "put_at (fst w) (snd w) xs"
  have w: "fst w + length (snd w) \<le> length xs" using Cons.prems(1) by (simp add: in_range_def)
  have len: "length ?xs = length xs" using w by simp
  show ?case
  proof (cases "(off, d) \<in> set ws")
    case True
    then show ?thesis using Cons.IH[of ?xs] Cons.prems len by simp
  next
    case False
    then have wd: "w = (off, d)" using Cons.prems(3) by simp
    have "sub (apply_writes ws ?xs) off (length d) = sub ?xs off (length d)"
      using Cons.prems len wd
      by (intro sub_apply_writes_frame) (auto simp: apart_def)
    also have "\<dots> = d" using w wd by simp
    finally show ?thesis by simp
  qed
qed

lemma sub_apply_writes_inside:
  assumes "list_all (in_range (length xs)) ws" and "sorted_wrt apart ws" and "(off, d) \<in> set ws"
    and "k + n \<le> length d"
  shows "sub (apply_writes ws xs) (off + k) n = sub d k n"
proof -
  have "sub (apply_writes ws xs) (off + k) n
      = sub (sub (apply_writes ws xs) off (length d)) k n"
    using assms(4) by (simp add: sub_sub)
  then show ?thesis using sub_apply_writes_in[OF assms(1-3)] by simp
qed

section \<open>Overwriting\<close>

lemma put_at_overwrite:
  assumes "length ys = length zs" and "off + length zs \<le> length xs"
  shows "put_at off ys (put_at off zs xs) = put_at off ys xs"
  using assms by (intro nth_equalityI) (auto simp: nth_put_at)

lemma put_at_commute:
  assumes "off + length ys \<le> length xs" and "o2 + length zs \<le> length xs"
    and "off + length ys \<le> o2 \<or> o2 + length zs \<le> off"
  shows "put_at off ys (put_at o2 zs xs) = put_at o2 zs (put_at off ys xs)"
  using assms by (intro nth_equalityI) (auto simp: nth_put_at)

section \<open>Chunks\<close>

text \<open>Splitting a list into chunks and concatenating them again.\<close>

lemma concat_chunks:
  assumes "length data \<le> n * B"
  shows "concat (map (\<lambda>i. sub data (i * B) B) [0..<n]) = data"
proof -
  have "concat (map (\<lambda>i. sub data (i * B) B) [0..<n]) = take (n * B) data"
  proof (induction n)
    case (Suc n)
    have "take (n * B + B) data = take (n * B) data @ take B (drop (n * B) data)" by (rule take_add)
    with Suc show ?case by (simp add: sub_def add.commute)
  qed simp
  then show ?thesis using assms by simp
qed

text \<open>
  The last block is read in full although only its beginning was written: the surplus is
  cut off by the size.
\<close>

lemma take_concat_padded:
  assumes "length xss = length yss"
    and "\<And>i. i < length xss \<Longrightarrow> \<exists>pad. yss ! i = xss ! i @ pad \<and> (Suc i < length xss \<longrightarrow> pad = [])"
  shows "take (length (concat xss)) (concat yss) = concat xss"
  using assms
proof (induction xss yss rule: list_induct2)
  case (Cons x xs y ys)
  obtain pad where y: "y = x @ pad" and pad: "xs \<noteq> [] \<longrightarrow> pad = []"
    using Cons.prems[of 0] by auto
  have "\<exists>pad. ys ! i = xs ! i @ pad \<and> (Suc i < length xs \<longrightarrow> pad = [])" if "i < length xs" for i
    using Cons.prems[of "Suc i"] that by auto
  then have "take (length (concat xs)) (concat ys) = concat xs" by (rule Cons.IH)
  then show ?case using y pad by (cases "xs = []") auto
qed simp

lemma chunks_read:
  assumes cover: "length data \<le> n * B" and inner: "\<And>i. Suc i < n \<Longrightarrow> Suc i * B \<le> length data"
    and len: "\<And>i. i < n \<Longrightarrow> length (g i) \<le> B"
    and holds: "\<And>i. i < n \<Longrightarrow> take (length (sub data (i * B) B)) (g i) = sub data (i * B) B"
  shows "take (length data) (concat (map g [0..<n])) = data"
proof -
  let ?xss = "map (\<lambda>i. sub data (i * B) B) [0..<n]" and ?yss = "map g [0..<n]"
  have "\<exists>pad. ?yss ! i = ?xss ! i @ pad \<and> (Suc i < length ?xss \<longrightarrow> pad = [])" if "i < length ?xss" for i
  proof -
    let ?d = "sub data (i * B) B"
    have i: "i < n" using that by simp
    have "g i = ?d @ drop (length ?d) (g i)" using holds[OF i] by (metis append_take_drop_id)
    moreover have "length ?d = B" if "Suc i < n" using inner[OF that] by (simp add: length_sub)
    ultimately show ?thesis using i len[OF i] by force
  qed
  then have "take (length (concat ?xss)) (concat ?yss) = concat ?xss" by (intro take_concat_padded) simp_all
  then show ?thesis using concat_chunks[OF cover] by simp
qed

end
