(* ===== verification/Py_Runtime.thy ===== *)
theory Py_Runtime
  imports Prelude
begin

text \<open>
  What the scripts use of Python and its standard library: exceptions as values, the
  \<^verbatim>\<open>struct\<close> module (\<^verbatim>\<open>pack\<close>, \<^verbatim>\<open>pack_into\<close>, \<^verbatim>\<open>unpack_from\<close> with the standard sizes
  of the \<^verbatim>\<open><\<close> and \<^verbatim>\<open>>\<close> modes), \<^verbatim>\<open>str.encode\<close>, \<^verbatim>\<open>math.ceil\<close> of a quotient, and
  closures that mutate captured variables, modelled as a state and exception monad.
\<close>

section \<open>Exceptions\<close>

datatype error =
    StructError            \<comment> \<open>\<^verbatim>\<open>struct.error\<close>: a value out of range, or a buffer too small\<close>
  | UnicodeEncodeError     \<comment> \<open>\<^verbatim>\<open>name.encode('ascii')\<close> on a non-ASCII character\<close>
  | AssertionError
  | IndexError
  | FileNotFoundError      \<comment> \<open>\<^verbatim>\<open>open(path, 'rb')\<close> on a missing file\<close>
  | SystemExit int         \<comment> \<open>\<^verbatim>\<open>sys.exit(code)\<close>\<close>
  | Diverges               \<comment> \<open>a loop whose state repeats: the call never returns\<close>

type_synonym 'a result = "error + 'a"

definition res_bind :: "'a result \<Rightarrow> ('a \<Rightarrow> 'b result) \<Rightarrow> 'b result" where
  "res_bind m f = (case m of Inl e \<Rightarrow> Inl e | Inr a \<Rightarrow> f a)"

lemma res_bind_simps [simp]:
  "res_bind (Inl e) f = Inl e"
  "res_bind (Inr a) f = f a"
  by (simp_all add: res_bind_def)

lemma res_bind_Inr_iff:
  "res_bind m f = Inr b \<longleftrightarrow> (\<exists>a. m = Inr a \<and> f a = Inr b)"
  by (auto simp: res_bind_def split: sum.splits)

section \<open>Little-endian and big-endian integers\<close>

primrec le_bytes :: "nat \<Rightarrow> nat \<Rightarrow> bytes" where
  "le_bytes 0 v = []"
| "le_bytes (Suc n) v = word_of_nat (v mod 256) # le_bytes n (v div 256)"

primrec le_val :: "bytes \<Rightarrow> nat" where
  "le_val [] = 0"
| "le_val (b # bs) = unat b + 256 * le_val bs"

definition be_bytes :: "nat \<Rightarrow> nat \<Rightarrow> bytes" where
  "be_bytes n v = rev (le_bytes n v)"

definition be_val :: "bytes \<Rightarrow> nat" where
  "be_val bs = le_val (rev bs)"

lemma unat_byte_mod [simp]: "unat (word_of_nat (v mod 256) :: byte) = v mod 256"
  by (simp add: unat_of_nat)

lemma unat_byte_less: "unat (b :: byte) < 256"
  using unsigned_less[of b, where 'a = nat] by simp

lemma unat_byte_small: "v < 256 \<Longrightarrow> unat (word_of_nat v :: byte) = v"
  by (simp add: unat_of_nat)

lemma length_le_bytes [simp]: "length (le_bytes n v) = n"
  by (induction n arbitrary: v) auto

lemma length_be_bytes [simp]: "length (be_bytes n v) = n"
  by (simp add: be_bytes_def)

lemma le_val_le_bytes: "le_val (le_bytes n v) = v mod 256 ^ n"
proof (induction n arbitrary: v)
  case (Suc n)
  have "v mod (256 * 256 ^ n) = 256 * (v div 256 mod 256 ^ n) + v mod 256"
    by (rule mod_mult2_eq)
  with Suc show ?case by simp
qed simp

lemma le_val_less: "le_val bs < 256 ^ length bs"
proof (induction bs)
  case (Cons b bs)
  have "unat b < 256" by (rule unat_byte_less)
  with Cons show ?case by simp
qed simp

lemma le_bytes_le_val: "le_bytes (length bs) (le_val bs) = bs"
proof (induction bs)
  case (Cons b bs)
  have "unat b < 256" by (rule unat_byte_less)
  with Cons show ?case by simp
qed simp

lemma le_bytes_zero: "le_bytes n 0 = zeros n"
  by (induction n) (simp_all add: zeros_def)

lemma le_val_zeros [simp]: "le_val (zeros n) = 0"
  using le_val_le_bytes[of n 0] by (simp add: le_bytes_zero)

lemma le_val_le_bytes_small [simp]: "v < 256 ^ n \<Longrightarrow> le_val (le_bytes n v) = v"
  by (simp add: le_val_le_bytes)

lemma be_val_be_bytes_small [simp]: "v < 256 ^ n \<Longrightarrow> be_val (be_bytes n v) = v"
  by (simp add: be_val_def be_bytes_def)

lemma le_bytes_inject:
  "\<lbrakk>u < 256 ^ n; v < 256 ^ n; le_bytes n u = le_bytes n v\<rbrakk> \<Longrightarrow> u = v"
  using le_val_le_bytes_small by metis

section \<open>The \<^verbatim>\<open>struct\<close> module\<close>

text \<open>
  A format is a list of fields: \<open>U n v\<close> packs the integer \<open>v\<close> into \<open>n\<close> unsigned bytes
  (\<^verbatim>\<open>B\<close>, \<^verbatim>\<open>H\<close>, \<^verbatim>\<open>I\<close>, \<^verbatim>\<open>Q\<close> are 1, 2, 4, 8) and raises \<^verbatim>\<open>struct.error\<close> when \<open>v\<close> is
  negative or too large; \<open>S n bs\<close> is \<^verbatim>\<open>ns\<close>, truncated or padded with zero bytes.
\<close>

datatype field = U nat int | S nat bytes

fun field_size :: "field \<Rightarrow> nat" where
  "field_size (U n v) = n"
| "field_size (S n bs) = n"

fun field_ok :: "field \<Rightarrow> bool" where
  "field_ok (U n v) \<longleftrightarrow> 0 \<le> v \<and> v < 256 ^ n"
| "field_ok (S n bs) \<longleftrightarrow> True"

fun field_le :: "field \<Rightarrow> bytes" where
  "field_le (U n v) = le_bytes n (nat v)"
| "field_le (S n bs) = take n (bs @ zeros n)"

fun field_be :: "field \<Rightarrow> bytes" where
  "field_be (U n v) = be_bytes n (nat v)"
| "field_be (S n bs) = take n (bs @ zeros n)"

definition pack_le :: "field list \<Rightarrow> bytes result" where
  "pack_le fs = (if list_all field_ok fs then Inr (concat (map field_le fs)) else Inl StructError)"

definition pack_be :: "field list \<Rightarrow> bytes result" where
  "pack_be fs = (if list_all field_ok fs then Inr (concat (map field_be fs)) else Inl StructError)"

definition pack_into :: "field list \<Rightarrow> nat \<Rightarrow> bytes \<Rightarrow> bytes result" where
  "pack_into fs off buf =
     res_bind (pack_le fs) (\<lambda>bs.
       if off + length bs \<le> length buf then Inr (put_at off bs buf) else Inl StructError)"

text \<open>\<^verbatim>\<open>struct.unpack_from('<H', buf, off)[0]\<close> and its wider variants.\<close>

definition unpack_from :: "nat \<Rightarrow> bytes \<Rightarrow> nat \<Rightarrow> nat result" where
  "unpack_from n buf off =
     (if off + n \<le> length buf then Inr (le_val (sub buf off n)) else Inl StructError)"

lemma length_field_le [simp]: "length (field_le f) = field_size f"
  by (cases f) auto

lemma length_field_be [simp]: "length (field_be f) = field_size f"
  by (cases f) auto

lemma pack_le_length: "pack_le fs = Inr bs \<Longrightarrow> length bs = sum_list (map field_size fs)"
  by (auto simp: pack_le_def length_concat comp_def split: if_splits)

lemma pack_be_length: "pack_be fs = Inr bs \<Longrightarrow> length bs = sum_list (map field_size fs)"
  by (auto simp: pack_be_def length_concat comp_def split: if_splits)

text \<open>The round trip of the module on one field: what was packed is unpacked.\<close>

lemma field_le_val: "field_ok (U n v) \<Longrightarrow> int (le_val (field_le (U n v))) = v"
proof -
  assume ok: "field_ok (U n v)"
  then have "nat v < 256 ^ n" by (simp add: nat_less_iff)
  with ok show ?thesis by simp
qed

lemma sub_concat_field:
  assumes "k < length xss" and "off = sum_list (map length (take k xss))"
  shows "sub (concat xss) off (length (xss ! k)) = xss ! k"
  using assms
proof (induction xss arbitrary: k off)
  case (Cons xs xss)
  show ?case
  proof (cases k)
    case 0
    with Cons.prems show ?thesis by (simp add: sub_def)
  next
    case (Suc j)
    have "sub (concat xss) (off - length xs) (length (xss ! j)) = xss ! j"
      using Cons.prems Suc by (intro Cons.IH) auto
    with Cons.prems Suc show ?thesis by (simp add: sub_def)
  qed
qed simp

lemma pack_le_field:
  assumes "pack_le fs = Inr bs" and "k < length fs"
    and "off = sum_list (map field_size (take k fs))"
  shows "sub bs off (field_size (fs ! k)) = field_le (fs ! k)"
proof -
  have bs: "bs = concat (map field_le fs)"
    using assms(1) by (auto simp: pack_le_def split: if_splits)
  have "sub (concat (map field_le fs)) off (length (map field_le fs ! k)) = map field_le fs ! k"
    using assms(2,3) by (intro sub_concat_field) (auto simp: take_map comp_def)
  with bs assms(2) show ?thesis by simp
qed

section \<open>Strings and rounding\<close>

definition encode_ascii :: "string \<Rightarrow> bytes result" where
  "encode_ascii s =
     (if list_all (\<lambda>c. (of_char c :: nat) < 128) s
      then Inr (map (\<lambda>c. word_of_nat (of_char c)) s) else Inl UnicodeEncodeError)"

definition is_ascii :: "string \<Rightarrow> bool" where
  "is_ascii s \<longleftrightarrow> list_all (\<lambda>c. (of_char c :: nat) < 128) s"

definition raw_bytes :: "string \<Rightarrow> bytes" where
  "raw_bytes s = map (\<lambda>c. word_of_nat (of_char c)) s"

definition ascii_decode :: "bytes \<Rightarrow> string" where
  "ascii_decode bs = map (\<lambda>b. char_of (unat b)) bs"

text \<open>\<^verbatim>\<open>math.ceil(a / b)\<close> on natural numbers (exact here: both operands are below \<open>2 ^ 53\<close>).\<close>

definition ceil_div :: "nat \<Rightarrow> nat \<Rightarrow> nat" where
  "ceil_div a b = (a + b - 1) div b"

lemma encode_ascii_eq: "is_ascii s \<Longrightarrow> encode_ascii s = Inr (raw_bytes s)"
  by (simp add: encode_ascii_def is_ascii_def raw_bytes_def)

lemma encode_ascii_Inr: "encode_ascii s = Inr bs \<longleftrightarrow> is_ascii s \<and> bs = raw_bytes s"
  by (auto simp: encode_ascii_def is_ascii_def raw_bytes_def)

lemma length_raw_bytes [simp]: "length (raw_bytes s) = length s"
  by (simp add: raw_bytes_def)

lemma ascii_decode_raw: "ascii_decode (raw_bytes s) = s"
proof -
  have "char_of (unat (word_of_nat (of_char c) :: byte)) = c" for c
  proof -
    show ?thesis by (simp add: unat_byte_small)
  qed
  then show ?thesis by (simp add: ascii_decode_def raw_bytes_def comp_def)
qed

lemma ceil_div_bounds:
  assumes "0 < b"
  shows "a \<le> ceil_div a b * b" and "0 < a \<Longrightarrow> (ceil_div a b - 1) * b < a"
    and "ceil_div a b * b < a + b"
proof -
  let ?q = "(a + b - 1) div b"
  have q: "?q * b + (a + b - 1) mod b = a + b - 1" by (rule div_mult_mod_eq)
  have r: "(a + b - 1) mod b < b" using assms by simp
  show "a \<le> ceil_div a b * b" unfolding ceil_div_def using q r assms by linarith
  show *: "ceil_div a b * b < a + b" unfolding ceil_div_def using q assms by linarith
  show "(ceil_div a b - 1) * b < a" if "0 < a"
    using * that assms by (cases "ceil_div a b") (auto simp: ceil_div_def)
qed

lemma ceil_div_0 [simp]: "0 < b \<Longrightarrow> ceil_div 0 b = 0"
  by (simp add: ceil_div_def)

lemma ceil_div_pos: "0 < a \<Longrightarrow> 0 < b \<Longrightarrow> 0 < ceil_div a b"
  using ceil_div_bounds(1)[of b a] by (cases "ceil_div a b") auto

section \<open>Filling a buffer\<close>

text \<open>
  A sequence of \<^verbatim>\<open>struct.pack_into(fmt, buf, off, ...)\<close> statements.  On fields that can be
  packed and ranges inside the buffer it is the replay of a log of writes.
\<close>

type_synonym pack_stmt = "nat \<times> field list"

fun pack_seq :: "pack_stmt list \<Rightarrow> bytes \<Rightarrow> bytes result" where
  "pack_seq [] buf = Inr buf"
| "pack_seq ((off, fs) # ps) buf = res_bind (pack_into fs off buf) (pack_seq ps)"

definition fields_bytes :: "field list \<Rightarrow> bytes" where
  "fields_bytes fs = concat (map field_le fs)"

definition fields_size :: "field list \<Rightarrow> nat" where
  "fields_size fs = sum_list (map field_size fs)"

definition pack_log :: "pack_stmt list \<Rightarrow> wlog" where
  "pack_log ps = map (\<lambda>(off, fs). (off, fields_bytes fs)) ps"

definition stmt_ok :: "nat \<Rightarrow> pack_stmt \<Rightarrow> bool" where
  "stmt_ok n p \<longleftrightarrow> list_all field_ok (snd p) \<and> fst p + fields_size (snd p) \<le> n"

lemma length_fields_bytes [simp]: "length (fields_bytes fs) = fields_size fs"
  by (simp add: fields_bytes_def fields_size_def length_concat comp_def)

lemma fields_size_simps [simp]:
  "fields_size [] = 0" "fields_size (f # fs) = field_size f + fields_size fs"
  by (simp_all add: fields_size_def)

lemma fields_bytes_simps:
  "fields_bytes [] = []" "fields_bytes (f # fs) = field_le f @ fields_bytes fs"
  by (simp_all add: fields_bytes_def)

lemma pack_log_simps [simp]:
  "pack_log [] = []" "pack_log ((off, fs) # ps) = (off, fields_bytes fs) # pack_log ps"
  by (simp_all add: pack_log_def)

lemma pack_into_run:
  "stmt_ok (length buf) (off, fs) \<Longrightarrow> pack_into fs off buf = Inr (put_at off (fields_bytes fs) buf)"
  by (simp add: pack_into_def pack_le_def stmt_ok_def flip: fields_bytes_def)

lemma pack_seq_run:
  "list_all (stmt_ok (length buf)) ps \<Longrightarrow> pack_seq ps buf = Inr (apply_writes (pack_log ps) buf)"
  by (induction ps arbitrary: buf) (auto simp: pack_into_run, auto simp: stmt_ok_def)

lemma pack_log_in_range: "list_all (stmt_ok n) ps \<Longrightarrow> list_all (in_range n) (pack_log ps)"
  by (auto simp: list_all_iff pack_log_def stmt_ok_def in_range_def)

text \<open>Statements with increasing, non-overlapping ranges.\<close>

fun stmts_ordered :: "nat \<Rightarrow> pack_stmt list \<Rightarrow> bool" where
  "stmts_ordered lo [] \<longleftrightarrow> True"
| "stmts_ordered lo ((off, fs) # ps) \<longleftrightarrow> lo \<le> off \<and> stmts_ordered (off + fields_size fs) ps"

lemma stmts_ordered_ge:
  "stmts_ordered lo ps \<Longrightarrow> (off, d) \<in> set (pack_log ps) \<Longrightarrow> lo \<le> off"
  by (induction lo ps rule: stmts_ordered.induct) fastforce+

lemma stmts_ordered_apart: "stmts_ordered lo ps \<Longrightarrow> sorted_wrt apart (pack_log ps)"
proof (induction lo ps rule: stmts_ordered.induct)
  case (2 lo off fs ps)
  have "apart (off, fields_bytes fs) w" if "w \<in> set (pack_log ps)" for w
    using stmts_ordered_ge[of "off + fields_size fs" ps "fst w" "snd w"] that "2.prems"
    by (simp add: apart_def)
  with 2 show ?case by simp
qed simp

text \<open>The field at position \<open>k\<close> of a packed format.\<close>

lemma fields_bytes_field:
  assumes "k < length fs" and "off = fields_size (take k fs)"
  shows "sub (fields_bytes fs) off (field_size (fs ! k)) = field_le (fs ! k)"
  using sub_concat_field[of k "map field_le fs" off] assms
  by (simp add: fields_bytes_def fields_size_def take_map comp_def)

text \<open>Every field of a sequence of ordered statements is read back.\<close>

lemma pack_seq_field:
  assumes ok: "list_all (stmt_ok (length buf)) ps" and ord: "stmts_ordered 0 ps"
    and st: "(off, fs) \<in> set ps" and k: "k < length fs"
    and pos: "pos = off + fields_size (take k fs)" "n = field_size (fs ! k)"
  shows "sub (apply_writes (pack_log ps) buf) pos n = field_le (fs ! k)"
proof -
  have "(off, fields_bytes fs) \<in> set (pack_log ps)" using st by (force simp: pack_log_def)
  moreover have "fields_size (take k fs) + n \<le> fields_size fs"
  proof -
    have "fields_size fs = fields_size (take k fs) + fields_size (drop k fs)"
      unfolding fields_size_def by (metis append_take_drop_id map_append sum_list_append)
    then show ?thesis using k pos(2) by (simp flip: Cons_nth_drop_Suc)
  qed
  ultimately show ?thesis
    unfolding pos(1)
    using sub_apply_writes_inside[OF pack_log_in_range[OF ok] stmts_ordered_apart[OF ord]]
      fields_bytes_field[OF k refl] pos(2) by simp
qed

text \<open>
  A field is read back when no later statement touches it, whatever was written before.
\<close>

definition clear_of :: "nat \<Rightarrow> nat \<Rightarrow> pack_stmt \<Rightarrow> bool" where
  "clear_of pos n p \<longleftrightarrow> pos + n \<le> fst p \<or> fst p + fields_size (snd p) \<le> pos"

lemma pack_seq_last_field:
  assumes ok: "list_all (stmt_ok (length buf)) (pre @ (off, fs) # post)" and k: "k < length fs"
    and pos: "pos = off + fields_size (take k fs)" "n = field_size (fs ! k)"
    and cl: "list_all (clear_of pos n) post"
  shows "sub (apply_writes (pack_log (pre @ (off, fs) # post)) buf) pos n = field_le (fs ! k)"
proof -
  let ?b = "apply_writes (pack_log pre) buf"
  have rp: "list_all (in_range (length buf)) (pack_log pre)" "list_all (in_range (length buf)) (pack_log post)"
    using ok by (auto intro: pack_log_in_range)
  have lb: "length ?b = length buf" using rp by simp
  have o': "off + fields_size fs \<le> length buf" using ok by (simp add: stmt_ok_def)
  let ?c = "put_at off (fields_bytes fs) ?b"
  have lc: "length ?c = length buf" using o' lb by simp
  have "fields_size (take k fs) + n \<le> fields_size fs"
  proof -
    have "fields_size fs = fields_size (take k fs) + fields_size (drop k fs)"
      unfolding fields_size_def by (metis append_take_drop_id map_append sum_list_append)
    then show ?thesis using k pos(2) by (simp flip: Cons_nth_drop_Suc)
  qed
  then have "sub ?c pos n = field_le (fs ! k)"
    using o' lb fields_bytes_field[OF k refl] pos by (simp add: sub_put_at_inside)
  moreover have "sub (apply_writes (pack_log post) ?c) pos n = sub ?c pos n"
    using rp(2) lc cl
    by (intro sub_apply_writes_frame) (auto simp: pack_log_def list_all_iff clear_of_def)
  ultimately show ?thesis by (simp add: pack_log_def apply_writes_append)
qed

lemma pack_seq_nth:
  assumes "list_all (stmt_ok (length buf)) ps" and "j < length ps" and "ps ! j = (off, fs)" and "k < length fs"
    and "pos = off + fields_size (take k fs)" "n = field_size (fs ! k)"
    and "list_all (clear_of pos n) (drop (Suc j) ps)"
  shows "sub (apply_writes (pack_log ps) buf) pos n = field_le (fs ! k)"
proof -
  have ps: "ps = take j ps @ (off, fs) # drop (Suc j) ps" using assms(2,3) id_take_nth_drop by fastforce
  show ?thesis
    by (subst ps, rule pack_seq_last_field) (use assms ps in \<open>simp_all del: append_take_drop_id\<close>)
qed

lemma of_char_nonzero: "c \<noteq> CHR 0x00 \<Longrightarrow> of_char c \<noteq> (0 :: nat)"
proof
  assume c: "c \<noteq> CHR 0x00" and z: "of_char c = (0 :: nat)"
  have "of_char (CHR 0x00) = (0 :: nat)" by simp
  with z have "of_char c = (of_char (CHR 0x00) :: nat)" by (rule trans[OF _ sym])
  then have "c = CHR 0x00" by (rule of_char_eq_iff[THEN iffD1])
  with c show False ..
qed

lemma raw_bytes_inject [simp]: "raw_bytes a = raw_bytes b \<longleftrightarrow> a = b"
  using ascii_decode_raw by metis

end
