(* ===== verification/Py_Monad.thy ===== *)
theory Py_Monad
  imports Py_Runtime
begin

text \<open>
  The nested functions of the scripts' \<^verbatim>\<open>main\<close> read and rebind captured variables
  (\<^verbatim>\<open>nonlocal\<close>) and may leave through an exception or \<^verbatim>\<open>sys.exit\<close>.  A call is a function
  from the state to either an exception or a value with the new state.
\<close>

named_theorems py_run \<open>how each operation of the monad runs on a state\<close>

type_synonym ('s, 'a) py = "'s \<Rightarrow> error + 'a \<times> 's"

definition py_ret :: "'a \<Rightarrow> ('s, 'a) py" where
  "py_ret a = (\<lambda>s. Inr (a, s))"

definition py_bind :: "('s, 'a) py \<Rightarrow> ('a \<Rightarrow> ('s, 'b) py) \<Rightarrow> ('s, 'b) py" where
  "py_bind m f = (\<lambda>s. case m s of Inl e \<Rightarrow> Inl e | Inr (a, s') \<Rightarrow> f a s')"

definition py_seq :: "('s, unit) py \<Rightarrow> ('s, 'b) py \<Rightarrow> ('s, 'b) py" where
  "py_seq m k = py_bind m (\<lambda>_. k)"

definition py_raise :: "error \<Rightarrow> ('s, 'a) py" where
  "py_raise e = (\<lambda>s. Inl e)"

definition py_get :: "('s \<Rightarrow> 'a) \<Rightarrow> ('s, 'a) py" where
  "py_get f = (\<lambda>s. Inr (f s, s))"

definition py_mod :: "('s \<Rightarrow> 's) \<Rightarrow> ('s, unit) py" where
  "py_mod f = (\<lambda>s. Inr ((), f s))"

definition py_lift :: "'a result \<Rightarrow> ('s, 'a) py" where
  "py_lift r = (\<lambda>s. case r of Inl e \<Rightarrow> Inl e | Inr a \<Rightarrow> Inr (a, s))"

text \<open>
  Loops: \<open>py_times n m\<close> collects the results of \<open>n\<close> calls, \<open>py_each f xs\<close> is
  \<^verbatim>\<open>for x in xs: f(x)\<close>, \<open>py_collect f xs\<close> also gathers what each round returns, and
  \<open>py_fold f xs a\<close> threads an accumulator.
\<close>

primrec py_times :: "nat \<Rightarrow> ('s, 'a) py \<Rightarrow> ('s, 'a list) py" where
  "py_times 0 m = py_ret []"
| "py_times (Suc n) m = py_bind m (\<lambda>x. py_bind (py_times n m) (\<lambda>xs. py_ret (x # xs)))"

primrec py_each :: "('x \<Rightarrow> ('s, unit) py) \<Rightarrow> 'x list \<Rightarrow> ('s, unit) py" where
  "py_each f [] = py_ret ()"
| "py_each f (x # xs) = py_seq (f x) (py_each f xs)"

primrec py_collect :: "('x \<Rightarrow> ('s, 'a) py) \<Rightarrow> 'x list \<Rightarrow> ('s, 'a list) py" where
  "py_collect f [] = py_ret []"
| "py_collect f (x # xs) = py_bind (f x) (\<lambda>y. py_bind (py_collect f xs) (\<lambda>ys. py_ret (y # ys)))"

primrec py_fold :: "('x \<Rightarrow> 'a \<Rightarrow> ('s, 'a) py) \<Rightarrow> 'x list \<Rightarrow> 'a \<Rightarrow> ('s, 'a) py" where
  "py_fold f [] a = py_ret a"
| "py_fold f (x # xs) a = py_bind (f x a) (py_fold f xs)"

section \<open>Running\<close>

lemma py_ret_run [py_run, simp]: "py_ret a s = Inr (a, s)"
  by (simp add: py_ret_def)

lemma py_get_run [py_run, simp]: "py_get f s = Inr (f s, s)"
  by (simp add: py_get_def)

lemma py_mod_run [py_run, simp]: "py_mod f s = Inr ((), f s)"
  by (simp add: py_mod_def)

lemma py_raise_run [py_run, simp]: "py_raise e s = Inl e"
  by (simp add: py_raise_def)

lemma py_lift_Inr [py_run, simp]: "py_lift (Inr a) s = Inr (a, s)"
  by (simp add: py_lift_def)

lemma py_lift_Inl [py_run, simp]: "py_lift (Inl e) s = Inl e"
  by (simp add: py_lift_def)

lemma py_bind_run [py_run]: "m s = Inr (a, s') \<Longrightarrow> py_bind m f s = f a s'"
  by (simp add: py_bind_def)

lemma py_seq_run [py_run]: "m s = Inr ((), s') \<Longrightarrow> py_seq m k s = k s'"
  by (simp add: py_seq_def py_bind_def)

lemma py_bind_fail: "m s = Inl e \<Longrightarrow> py_bind m f s = Inl e"
  by (simp add: py_bind_def)

lemma py_bind_Inr_iff:
  "py_bind m f s = Inr (b, t) \<longleftrightarrow> (\<exists>a s'. m s = Inr (a, s') \<and> f a s' = Inr (b, t))"
  by (auto simp: py_bind_def split: sum.splits prod.splits)

lemma py_seq_Inr_iff:
  "py_seq m k s = Inr (b, t) \<longleftrightarrow> (\<exists>s'. m s = Inr ((), s') \<and> k s' = Inr (b, t))"
  by (auto simp: py_seq_def py_bind_Inr_iff)

lemma py_bind_Inl_iff:
  "py_bind m f s = Inl e \<longleftrightarrow> m s = Inl e \<or> (\<exists>a s'. m s = Inr (a, s') \<and> f a s' = Inl e)"
  by (auto simp: py_bind_def split: sum.splits prod.splits)

lemma py_lift_Inr_iff: "py_lift r s = Inr (a, t) \<longleftrightarrow> r = Inr a \<and> t = s"
  by (auto simp: py_lift_def split: sum.splits)

lemma py_each_append:
  "py_each f (xs @ ys) s = py_seq (py_each f xs) (py_each f ys) s"
  by (induction xs arbitrary: s)
     (auto simp: py_seq_def py_bind_def split: sum.splits prod.splits)

lemma py_bind_ret [simp]: "py_bind (py_ret a) f = f a"
  by (rule ext) (simp add: py_bind_def)

text \<open>
  The monad laws, used to regroup the statements of a script into phases.
\<close>

lemma py_bind_assoc: "py_bind (py_bind m f) g = py_bind m (\<lambda>a. py_bind (f a) g)"
  by (rule ext) (auto simp: py_bind_def split: sum.splits prod.splits)

lemma py_seq_assoc: "py_seq (py_seq a b) c = py_seq a (py_seq b c)"
  by (simp add: py_seq_def py_bind_assoc)

lemma py_bind_ret_right: "py_bind m py_ret = m"
  by (rule ext) (auto simp: py_bind_def py_ret_def split: sum.splits prod.splits)

lemmas py_elims = py_bind_Inr_iff py_seq_Inr_iff py_lift_Inr_iff

lemma py_each_map: "py_each f (map g xs) = py_each (\<lambda>x. f (g x)) xs"
  by (induction xs) simp_all

lemma py_each_cong:
  "(\<And>x. x \<in> set xs \<Longrightarrow> f x = g x) \<Longrightarrow> py_each f xs = py_each g xs"
  by (induction xs) simp_all

text \<open>An invariant that every round keeps holds after the loop.\<close>

lemma py_each_inv:
  assumes "\<And>x s t. x \<in> set xs \<Longrightarrow> P s \<Longrightarrow> f x s = Inr ((), t) \<Longrightarrow> P t"
    and "py_each f xs s = Inr ((), t)" and "P s"
  shows "P t"
  using assms
proof (induction xs arbitrary: s)
  case (Cons x xs)
  from Cons.prems(2) obtain s' where x: "f x s = Inr ((), s')" and xs: "py_each f xs s' = Inr ((), t)"
    by (auto simp: py_seq_Inr_iff)
  have "P s'" using Cons.prems(1)[OF _ Cons.prems(3) x] by simp
  then show ?case using Cons.prems(1) xs by (intro Cons.IH[of s']) auto
qed simp

lemma py_fold_Nil: "py_fold f [] = py_ret"
  by (rule ext) simp

lemma py_fold_snoc: "py_fold f (xs @ [x]) a = py_bind (py_fold f xs a) (f x)"
proof (induction xs arbitrary: a)
  case (Cons y xs)
  have "py_fold f (xs @ [x]) = (\<lambda>b. py_bind (py_fold f xs b) (f x))"
    by (rule ext) (rule Cons.IH)
  then show ?case by (simp add: py_bind_assoc)
qed (simp add: py_fold_Nil py_bind_ret_right)

lemma py_bind_seq: "py_bind m (\<lambda>a. py_seq (f a) k) = py_seq (py_bind m f) k"
  by (simp add: py_seq_def py_bind_assoc)

end
