(* ===== verification/Image_Core.thy ===== *)
theory Image_Core
  imports Py_Monad
begin

text \<open>
  The state every file-system image builder shares (\<^verbatim>\<open>make_ext2_img.py\<close>,
  \<^verbatim>\<open>make_ext3_img.py\<close>, \<^verbatim>\<open>make_ext4_img.py\<close>): the image, the block and inode counters and
  the tree statistics; \<^verbatim>\<open>write_block\<close>, which the three scripts have in the same words; the
  contract of a block allocator as a locale; and the block-level view of an image in which
  the later theories state what was written.
\<close>

section \<open>Constants shared by the three builders\<close>

definition BLOCK_SIZE :: nat where
  "BLOCK_SIZE = 4096"

definition TOTAL_BLOCKS :: nat where
  "TOTAL_BLOCKS = 262144"

definition ADDRS_PER_INDIRECT :: nat where
  "ADDRS_PER_INDIRECT = BLOCK_SIZE div 4"

definition EXT2_SUPER_MAGIC :: int where
  "EXT2_SUPER_MAGIC = 0xEF53"

definition FT_REG :: int where
  "FT_REG = 1"

definition FT_DIR :: int where
  "FT_DIR = 2"

declare BLOCK_SIZE_def [layout] TOTAL_BLOCKS_def [layout] ADDRS_PER_INDIRECT_def [layout]
  EXT2_SUPER_MAGIC_def [layout] FT_REG_def [layout] FT_DIR_def [layout]

lemma BLOCK_SIZE_pos [simp]: "0 < BLOCK_SIZE"
  by (simp add: layout)

lemma ADDRS_pos [simp]: "0 < ADDRS_PER_INDIRECT"
  by (simp add: layout)

lemma ADDRS_4: "4 * ADDRS_PER_INDIRECT = BLOCK_SIZE"
  by (simp add: layout)

section \<open>State\<close>

record core =
  img :: bytes
  next_block :: nat
  next_inode :: nat
  tree_files_added :: nat
  tree_dirs_created :: nat

text \<open>
  \<^verbatim>\<open>write_block\<close> assigns to the slice \<^verbatim>\<open>img[offset:offset + len(data)]\<close> the first block of
  \<^verbatim>\<open>data\<close>: when \<^verbatim>\<open>data\<close> is longer than a block the slice is longer than its replacement,
  and the \<^verbatim>\<open>bytearray\<close> shrinks.
\<close>

definition write_block :: "nat \<Rightarrow> bytes \<Rightarrow> ('a core_scheme, unit) py" where
  "write_block block_num data =
     (let offset = block_num * BLOCK_SIZE in
      py_mod (img_update (slice_set offset (offset + length data) (take BLOCK_SIZE data))))"

text \<open>The image slice assignment \<^verbatim>\<open>img[offset:offset + len(data)] = data\<close>.\<close>

definition write_at :: "nat \<Rightarrow> bytes \<Rightarrow> ('a core_scheme, unit) py" where
  "write_at offset data = py_mod (img_update (put_at offset data))"

lemma write_block_run [py_run]:
  "length data \<le> BLOCK_SIZE \<Longrightarrow>
   write_block b data s = Inr ((), img_update (put_at (b * BLOCK_SIZE) data) s)"
  by (simp add: write_block_def put_at_def Let_def)

lemma write_at_run [py_run]: "write_at off data s = Inr ((), img_update (put_at off data) s)"
  by (simp add: write_at_def)

section \<open>Block-level view\<close>

definition block_at :: "bytes \<Rightarrow> nat \<Rightarrow> bytes" where
  "block_at im b = sub im (b * BLOCK_SIZE) BLOCK_SIZE"

definition u16_at :: "bytes \<Rightarrow> nat \<Rightarrow> nat" where
  "u16_at im off = le_val (sub im off 2)"

definition u32_at :: "bytes \<Rightarrow> nat \<Rightarrow> nat" where
  "u32_at im off = le_val (sub im off 4)"

definition full_image :: "'a core_scheme \<Rightarrow> bool" where
  "full_image s \<longleftrightarrow> length (img s) = TOTAL_BLOCKS * BLOCK_SIZE"

text \<open>A log of block writes: distinct blocks, at most a block each.\<close>

definition block_log :: "(nat \<times> bytes) list \<Rightarrow> wlog" where
  "block_log bds = map (\<lambda>(b, d). (b * BLOCK_SIZE, d)) bds"

lemma block_log_Nil [simp]: "block_log [] = []"
  by (simp add: block_log_def)

lemma block_log_append: "block_log (xs @ ys) = block_log xs @ block_log ys"
  by (simp add: block_log_def)

lemma block_log_Cons: "block_log (bd # ys) = (fst bd * BLOCK_SIZE, snd bd) # block_log ys"
  by (simp add: block_log_def split: prod.splits)

lemma apart_blocks:
  assumes "b \<noteq> c" and "length d \<le> BLOCK_SIZE" and "length e \<le> BLOCK_SIZE"
  shows "apart (b * BLOCK_SIZE, d) (c * BLOCK_SIZE, e)"
proof -
  have "Suc b * BLOCK_SIZE \<le> c * BLOCK_SIZE \<or> Suc c * BLOCK_SIZE \<le> b * BLOCK_SIZE"
    using assms(1) by (metis Suc_leI linorder_neqE_nat mult_le_mono1)
  with assms(2,3) show ?thesis by (auto simp: apart_def)
qed

lemma block_log_apart:
  assumes "distinct (map fst bds)" and "\<And>b d. (b, d) \<in> set bds \<Longrightarrow> length d \<le> BLOCK_SIZE"
  shows "sorted_wrt apart (block_log bds)"
  using assms
proof (induction bds)
  case (Cons bd bds)
  have "apart (fst bd * BLOCK_SIZE, snd bd) w" if "w \<in> set (block_log bds)" for w
  proof -
    from that obtain c e where ce: "(c, e) \<in> set bds" and w: "w = (c * BLOCK_SIZE, e)"
      by (auto simp: block_log_def)
    have "fst bd \<noteq> c" using imageI[OF ce, of fst] Cons.prems(1) by auto
    moreover have "length (snd bd) \<le> BLOCK_SIZE" using Cons.prems(2)[of "fst bd" "snd bd"] by simp
    moreover have "length e \<le> BLOCK_SIZE" using ce Cons.prems(2)[of c e] by simp
    ultimately show ?thesis unfolding w by (rule apart_blocks)
  qed
  moreover have "sorted_wrt apart (block_log bds)"
    using Cons.prems by (intro Cons.IH) auto
  ultimately show ?case by (auto simp: block_log_Cons)
qed simp

lemma block_log_in_range:
  assumes "\<And>b d. (b, d) \<in> set bds \<Longrightarrow> b < n \<and> length d \<le> BLOCK_SIZE"
    and "n * BLOCK_SIZE \<le> m"
  shows "list_all (in_range m) (block_log bds)"
proof -
  have "b * BLOCK_SIZE + length d \<le> m" if "(b, d) \<in> set bds" for b d
  proof -
    have "Suc b * BLOCK_SIZE \<le> n * BLOCK_SIZE"
      using assms(1)[OF that] by (intro mult_le_mono1) simp
    then show ?thesis using assms(1)[OF that] assms(2) by simp
  qed
  then show ?thesis by (auto simp: list_all_iff block_log_def in_range_def)
qed

text \<open>A loop of \<^verbatim>\<open>write_block\<close> calls replays its log.\<close>

lemma write_blocks_run:
  assumes "\<And>b d. (b, d) \<in> set bds \<Longrightarrow> length d \<le> BLOCK_SIZE"
  shows "py_each (\<lambda>(b, d). write_block b d) bds s =
    Inr ((), img_update (apply_writes (block_log bds)) s)"
  using assms
proof (induction bds arbitrary: s)
  case (Cons bd bds)
  obtain b d where bd: "bd = (b, d)" by (cases bd)
  have d: "length d \<le> BLOCK_SIZE" using Cons.prems bd by auto
  have "py_each (\<lambda>(b, d). write_block b d) bds t =
      Inr ((), img_update (apply_writes (block_log bds)) t)" for t :: "'a core_scheme"
    using Cons.prems by (intro Cons.IH) auto
  then show ?case
    using d by (simp add: bd py_seq_run write_block_run block_log_Cons comp_def)
qed simp

section \<open>The contract of a block allocator\<close>

text \<open>
  Each script has its own \<^verbatim>\<open>alloc_block\<close>: two zones in \<^verbatim>\<open>make_ext2_img.py\<close>, one counter in
  \<^verbatim>\<open>make_ext3_img.py\<close>, a counter and a set of used blocks in \<^verbatim>\<open>make_ext4_img.py\<close>.  What the
  code that calls it relies on: blocks are handed out in order from \<open>nxt s\<close> up to
  \<open>limit s\<close>, the script exits when they run out, and nothing but the allocator's own
  variables changes.  \<open>bump n s\<close> is the state after \<open>n\<close> allocations.
\<close>

locale block_source =
  fixes alloc :: "('a core_scheme, nat) py"
    and nxt :: "'a core_scheme \<Rightarrow> nat"
    and limit :: "'a core_scheme \<Rightarrow> nat"
    and bump :: "nat \<Rightarrow> 'a core_scheme \<Rightarrow> 'a core_scheme"
  assumes alloc_ok: "nxt s < limit s \<Longrightarrow> alloc s = Inr (nxt s, bump 1 s)"
    and alloc_full: "\<not> nxt s < limit s \<Longrightarrow> alloc s = Inl (SystemExit 1)"
    and bump_0: "bump 0 s = s"
    and bump_bump: "bump m (bump n s) = bump (n + m) s"
    and nxt_bump: "nxt (bump n s) = nxt s + n"
    and limit_bump: "limit (bump n s) = limit s"
    and img_bump: "img (bump n s) = img s"
    and next_inode_bump: "next_inode (bump n s) = next_inode s"
    and bump_img: "bump n (img_update f s) = img_update f (bump n s)"
    and nxt_img: "nxt (img_update f s) = nxt s"
    and limit_img: "limit (img_update f s) = limit s"
    and bump_ino: "bump n (next_inode_update g s) = next_inode_update g (bump n s)"
    and nxt_ino: "nxt (next_inode_update g s) = nxt s"
    and limit_ino: "limit (next_inode_update g s) = limit s"
    and nxt_tree: "nxt (tree_files_added_update g s) = nxt s" "nxt (tree_dirs_created_update g s) = nxt s"
    and limit_tree: "limit (tree_files_added_update g s) = limit s"
      "limit (tree_dirs_created_update g s) = limit s"
    and limit_le: "limit s \<le> TOTAL_BLOCKS"
begin

lemmas source_simps = bump_0 bump_bump nxt_bump limit_bump img_bump next_inode_bump
  bump_img nxt_img limit_img bump_ino nxt_ino limit_ino nxt_tree limit_tree

lemma alloc_run: "nxt s < limit s \<Longrightarrow> py_bind alloc f s = f (nxt s) (bump 1 s)"
  by (simp add: py_bind_run alloc_ok)

lemma times_alloc:
  "nxt s + n \<le> limit s \<Longrightarrow> py_times n alloc s = Inr ([nxt s..<nxt s + n], bump n s)"
proof (induction n arbitrary: s)
  case 0
  then show ?case by (simp add: bump_0)
next
  case (Suc n)
  have "py_times n alloc (bump 1 s) = Inr ([nxt s + 1..<nxt s + 1 + n], bump (1 + n) s)"
    using Suc.prems Suc.IH[of "bump 1 s"] by (simp add: source_simps)
  then show ?case
    using Suc.prems by (simp add: alloc_run py_bind_run upt_conv_Cons)
qed

text \<open>Running out of blocks ends the script with exit status 1, never with a wrong block.\<close>

lemma times_alloc_full:
  "nxt s \<le> limit s \<Longrightarrow> limit s < nxt s + n \<Longrightarrow> py_times n alloc s = Inl (SystemExit 1)"
proof (induction n arbitrary: s)
  case (Suc n)
  show ?case
  proof (cases "nxt s < limit s")
    case True
    then have "py_times n alloc (bump 1 s) = Inl (SystemExit 1)"
      using Suc.prems by (intro Suc.IH) (simp_all add: source_simps)
    with True show ?thesis by (simp add: alloc_run py_bind_fail)
  next
    case False
    then show ?thesis by (simp add: alloc_full py_bind_fail)
  qed
qed simp

end

end
