(* ===== verification/Allocators.thy ===== *)
theory Allocators
  imports Image_Core
begin

text \<open>
  The block and inode allocators of the three image builders.  \<^verbatim>\<open>make_ext2_img.py\<close> keeps
  two zones: blocks the kernel's bitmap can track, and an overflow zone above them that is
  filled while \<^verbatim>\<open>use_high_zone\<close> is set.  \<^verbatim>\<open>make_ext3_img.py\<close> has one counter, and
  \<^verbatim>\<open>make_ext4_img.py\<close> also records every block in \<^verbatim>\<open>allocated_blocks\<close>.  Each is shown to
  meet the contract \<open>block_source\<close>.
\<close>

section \<open>make\_ext2\_img.py\<close>

definition e2_INODES_PER_GROUP :: nat where
  "e2_INODES_PER_GROUP = 32768"

definition e2_INODE_TABLE_BLOCKS :: nat where
  "e2_INODE_TABLE_BLOCKS = (e2_INODES_PER_GROUP * 128) div BLOCK_SIZE"

definition e2_FIRST_DATA_BLOCK :: nat where
  "e2_FIRST_DATA_BLOCK = 4 + e2_INODE_TABLE_BLOCKS"

definition BITMAP_CAPACITY :: nat where
  "BITMAP_CAPACITY = BLOCK_SIZE * 8"

declare e2_INODES_PER_GROUP_def [layout] e2_INODE_TABLE_BLOCKS_def [layout]
  e2_FIRST_DATA_BLOCK_def [layout] BITMAP_CAPACITY_def [layout]

record ext2_state = core +
  high_block :: nat
  use_high_zone :: bool

definition e2_alloc_block :: "(ext2_state, nat) py" where
  "e2_alloc_block =
     py_bind (py_get use_high_zone) (\<lambda>high.
     if high then
       py_bind (py_get high_block) (\<lambda>b.
       py_seq (py_mod (high_block_update (\<lambda>n. n + 1)))
       (if b \<ge> TOTAL_BLOCKS then py_raise (SystemExit 1) else py_ret b))
     else
       py_bind (py_get next_block) (\<lambda>b.
       py_seq (py_mod (next_block_update (\<lambda>n. n + 1)))
       (if b \<ge> BITMAP_CAPACITY then py_raise (SystemExit 1) else py_ret b)))"

definition e2_alloc_inode :: "(ext2_state, nat) py" where
  "e2_alloc_inode =
     py_bind (py_get next_inode) (\<lambda>i.
     py_seq (py_mod (next_inode_update (\<lambda>n. n + 1)))
     (if i > e2_INODES_PER_GROUP then py_raise (SystemExit 1) else py_ret i))"

definition set_high_zone :: "bool \<Rightarrow> (ext2_state, unit) py" where
  "set_high_zone z = py_mod (use_high_zone_update (\<lambda>_. z))"

definition e2_init :: ext2_state where
  "e2_init = \<lparr>img = zeros (TOTAL_BLOCKS * BLOCK_SIZE), next_block = e2_FIRST_DATA_BLOCK,
     next_inode = 12, tree_files_added = 0, tree_dirs_created = 0,
     high_block = BITMAP_CAPACITY, use_high_zone = False\<rparr>"

text \<open>The contract's view: the next block of the zone in use, and the end of that zone.\<close>

definition e2_nxt :: "ext2_state \<Rightarrow> nat" where
  "e2_nxt s = (if use_high_zone s then high_block s else next_block s)"

definition e2_limit :: "ext2_state \<Rightarrow> nat" where
  "e2_limit s = (if use_high_zone s then TOTAL_BLOCKS else BITMAP_CAPACITY)"

definition e2_bump :: "nat \<Rightarrow> ext2_state \<Rightarrow> ext2_state" where
  "e2_bump n s = (if use_high_zone s then s\<lparr>high_block := high_block s + n\<rparr>
                  else s\<lparr>next_block := next_block s + n\<rparr>)"

interpretation e2: block_source e2_alloc_block e2_nxt e2_limit e2_bump
  by unfold_locales
     (auto simp: e2_alloc_block_def e2_nxt_def e2_limit_def e2_bump_def py_bind_def py_seq_def layout
       split: if_splits)

section \<open>make\_ext3\_img.py\<close>

definition e3_INODES_PER_GROUP :: nat where
  "e3_INODES_PER_GROUP = 16384"

definition e3_INODE_TABLE_BLOCKS :: nat where
  "e3_INODE_TABLE_BLOCKS = (e3_INODES_PER_GROUP * 128) div BLOCK_SIZE"

definition e3_FIRST_DATA_BLOCK :: nat where
  "e3_FIRST_DATA_BLOCK = 4 + e3_INODE_TABLE_BLOCKS"

declare e3_INODES_PER_GROUP_def [layout] e3_INODE_TABLE_BLOCKS_def [layout]
  e3_FIRST_DATA_BLOCK_def [layout]

definition e3_alloc_block :: "(core, nat) py" where
  "e3_alloc_block =
     py_bind (py_get next_block) (\<lambda>b.
     py_seq (py_mod (next_block_update (\<lambda>n. n + 1)))
     (if b \<ge> TOTAL_BLOCKS then py_raise (SystemExit 1) else py_ret b))"

definition e3_alloc_inode :: "(core, nat) py" where
  "e3_alloc_inode =
     py_bind (py_get next_inode) (\<lambda>i.
     py_seq (py_mod (next_inode_update (\<lambda>n. n + 1)))
     (if i > e3_INODES_PER_GROUP then py_raise (SystemExit 1) else py_ret i))"

definition e3_init :: core where
  "e3_init = \<lparr>img = zeros (TOTAL_BLOCKS * BLOCK_SIZE), next_block = e3_FIRST_DATA_BLOCK,
     next_inode = 12, tree_files_added = 0, tree_dirs_created = 0\<rparr>"

definition e3_bump :: "nat \<Rightarrow> core \<Rightarrow> core" where
  "e3_bump n s = s\<lparr>next_block := next_block s + n\<rparr>"

interpretation e3: block_source e3_alloc_block next_block "\<lambda>_. TOTAL_BLOCKS" e3_bump
  by unfold_locales
     (auto simp: e3_alloc_block_def e3_bump_def py_bind_def py_seq_def split: if_splits)

section \<open>make\_ext4\_img.py\<close>

definition e4_BLOCKS_PER_GROUP :: nat where
  "e4_BLOCKS_PER_GROUP = 32768"

definition NUM_GROUPS :: nat where
  "NUM_GROUPS = TOTAL_BLOCKS div e4_BLOCKS_PER_GROUP"

definition e4_INODES_PER_GROUP :: nat where
  "e4_INODES_PER_GROUP = 4096"

definition e4_INODE_SIZE :: nat where
  "e4_INODE_SIZE = 256"

definition INODE_TABLE_BLOCKS_PER_GROUP :: nat where
  "INODE_TABLE_BLOCKS_PER_GROUP = (e4_INODES_PER_GROUP * e4_INODE_SIZE) div BLOCK_SIZE"

definition TOTAL_INODES :: nat where
  "TOTAL_INODES = e4_INODES_PER_GROUP * NUM_GROUPS"

definition BGDT_BLOCK :: nat where
  "BGDT_BLOCK = 1"

definition BB_START :: nat where
  "BB_START = 2"

definition IB_START :: nat where
  "IB_START = BB_START + NUM_GROUPS"

definition IT_START :: nat where
  "IT_START = IB_START + NUM_GROUPS"

definition METADATA_END :: nat where
  "METADATA_END = IT_START + NUM_GROUPS * INODE_TABLE_BLOCKS_PER_GROUP"

definition e4_FIRST_DATA_BLOCK :: nat where
  "e4_FIRST_DATA_BLOCK = METADATA_END"

declare e4_BLOCKS_PER_GROUP_def [layout] NUM_GROUPS_def [layout] e4_INODES_PER_GROUP_def [layout]
  e4_INODE_SIZE_def [layout] INODE_TABLE_BLOCKS_PER_GROUP_def [layout] TOTAL_INODES_def [layout]
  BGDT_BLOCK_def [layout] BB_START_def [layout] IB_START_def [layout] IT_START_def [layout]
  METADATA_END_def [layout] e4_FIRST_DATA_BLOCK_def [layout]

record ext4_state = core +
  allocated_blocks :: "nat set"

definition e4_alloc_block :: "(ext4_state, nat) py" where
  "e4_alloc_block =
     py_bind (py_get next_block) (\<lambda>b.
     py_seq (py_mod (next_block_update (\<lambda>n. n + 1)))
     (if b \<ge> TOTAL_BLOCKS then py_raise (SystemExit 1)
      else py_seq (py_mod (allocated_blocks_update (insert b))) (py_ret b)))"

definition e4_alloc_inode :: "(ext4_state, nat) py" where
  "e4_alloc_inode =
     py_bind (py_get next_inode) (\<lambda>i.
     py_seq (py_mod (next_inode_update (\<lambda>n. n + 1)))
     (if i > TOTAL_INODES then py_raise (SystemExit 1) else py_ret i))"

definition e4_init :: ext4_state where
  "e4_init = \<lparr>img = zeros (TOTAL_BLOCKS * BLOCK_SIZE), next_block = e4_FIRST_DATA_BLOCK,
     next_inode = 12, tree_files_added = 0, tree_dirs_created = 0,
     allocated_blocks = set [0..<METADATA_END]\<rparr>"

definition e4_bump :: "nat \<Rightarrow> ext4_state \<Rightarrow> ext4_state" where
  "e4_bump n s = s\<lparr>next_block := next_block s + n,
     allocated_blocks := allocated_blocks s \<union> {next_block s..<next_block s + n}\<rparr>"

interpretation e4: block_source e4_alloc_block next_block "\<lambda>_. TOTAL_BLOCKS" e4_bump
  by unfold_locales
     (auto simp: e4_alloc_block_def e4_bump_def py_bind_def py_seq_def ivl_disj_un_two(3) Un_assoc
       add.assoc
       split: if_splits)

section \<open>Fresh blocks\<close>

text \<open>
  A run of \<^verbatim>\<open>make_ext2_img.py\<close> as the allocator sees it: allocations, switches of
  \<^verbatim>\<open>use_high_zone\<close>, and any other work that leaves the two counters alone.
\<close>

inductive zone_run :: "ext2_state \<Rightarrow> nat list \<Rightarrow> ext2_state \<Rightarrow> bool" where
  start: "zone_run s [] s"
| alloc: "zone_run s bs t \<Longrightarrow> e2_alloc_block t = Inr (b, u) \<Longrightarrow> zone_run s (bs @ [b]) u"
| switch: "zone_run s bs t \<Longrightarrow> set_high_zone z t = Inr ((), u) \<Longrightarrow> zone_run s bs u"
| other: "zone_run s bs t \<Longrightarrow> next_block u = next_block t \<Longrightarrow> high_block u = high_block t \<Longrightarrow>
    zone_run s bs u"

definition zone_inv :: "nat list \<Rightarrow> ext2_state \<Rightarrow> bool" where
  "zone_inv bs s \<longleftrightarrow> distinct bs \<and>
     set bs = {e2_FIRST_DATA_BLOCK..<next_block s} \<union> {BITMAP_CAPACITY..<high_block s} \<and>
     e2_FIRST_DATA_BLOCK \<le> next_block s \<and> next_block s \<le> BITMAP_CAPACITY \<and>
     BITMAP_CAPACITY \<le> high_block s \<and> high_block s \<le> TOTAL_BLOCKS"

lemma e2_alloc_block_cases:
  assumes "e2_alloc_block t = Inr (b, u)"
  obtains (high) "use_high_zone t" "b = high_block t" "b < TOTAL_BLOCKS"
      "u = t\<lparr>high_block := Suc (high_block t)\<rparr>"
    | (low) "\<not> use_high_zone t" "b = next_block t" "b < BITMAP_CAPACITY"
      "u = t\<lparr>next_block := Suc (next_block t)\<rparr>"
  using assms
  by (auto simp: e2_alloc_block_def py_bind_def py_seq_def split: if_splits)

lemma zone_run_inv: "zone_run s bs t \<Longrightarrow> zone_inv [] s \<Longrightarrow> zone_inv bs t"
proof (induction rule: zone_run.induct)
  case (alloc s bs t b u)
  from alloc have inv: "zone_inv bs t" by simp
  from \<open>e2_alloc_block t = Inr (b, u)\<close> show ?case
  proof (cases rule: e2_alloc_block_cases)
    case high
    then show ?thesis using inv unfolding zone_inv_def by (simp add: atLeastLessThanSuc)
  next
    case low
    then show ?thesis using inv unfolding zone_inv_def by (simp add: atLeastLessThanSuc)
  qed
next
  case (switch s bs t z u)
  from switch.hyps have u: "u = t\<lparr>use_high_zone := z\<rparr>" by (simp add: set_high_zone_def)
  from switch have "zone_inv bs t" by simp
  then show ?case unfolding u zone_inv_def by simp
next
  case (other s bs t u)
  then show ?case by (simp add: zone_inv_def)
qed simp

text \<open>
  C6: the blocks \<^verbatim>\<open>make_ext2_img.py\<close> hands out from its start state are pairwise distinct, lie
  outside the superblock, the descriptor, the bitmaps and the inode table, and stay inside
  the image, whatever the interleaving of allocations and zone switches; the counters
  say exactly which blocks are in use.
\<close>

theorem e2_blocks_fresh:
  assumes "zone_run e2_init bs t"
  shows "distinct bs \<and>
    set bs = {e2_FIRST_DATA_BLOCK..<next_block t} \<union> {BITMAP_CAPACITY..<high_block t} \<and>
    next_block t \<le> BITMAP_CAPACITY \<and> high_block t \<le> TOTAL_BLOCKS"
proof -
  have "zone_inv [] e2_init" by (simp add: zone_inv_def e2_init_def layout)
  with assms have "zone_inv bs t" by (rule zone_run_inv)
  then show ?thesis unfolding zone_inv_def by blast
qed

theorem e2_blocks_fresh_witness:
  "\<exists>t. zone_run e2_init [1028, 32768, 1029] t \<and>
     {1028, 32768, 1029} = {e2_FIRST_DATA_BLOCK..<next_block t} \<union> {BITMAP_CAPACITY..<high_block t}"
proof -
  let ?t1 = "e2_init\<lparr>next_block := 1029\<rparr>"
  let ?t2 = "?t1\<lparr>use_high_zone := True\<rparr>"
  let ?t3 = "?t2\<lparr>high_block := 32769\<rparr>"
  let ?t4 = "?t3\<lparr>use_high_zone := False\<rparr>"
  let ?t5 = "?t4\<lparr>next_block := 1030\<rparr>"
  note defs = e2_alloc_block_def set_high_zone_def py_bind_def py_seq_def e2_init_def layout
  have "zone_run e2_init ([] @ [1028]) ?t1"
    by (rule zone_run.alloc[OF zone_run.start]) (simp add: defs)
  then have "zone_run e2_init [1028] ?t1" by simp
  then have "zone_run e2_init [1028] ?t2"
    by (rule zone_run.switch[where z = True]) (simp add: defs)
  then have "zone_run e2_init ([1028] @ [32768]) ?t3"
    by (rule zone_run.alloc) (simp add: defs)
  then have "zone_run e2_init [1028, 32768] ?t3" by simp
  then have "zone_run e2_init [1028, 32768] ?t4"
    by (rule zone_run.switch[where z = False]) (simp add: defs)
  then have "zone_run e2_init ([1028, 32768] @ [1029]) ?t5"
    by (rule zone_run.alloc) (simp add: defs)
  then have r: "zone_run e2_init [1028, 32768, 1029] ?t5" by simp
  from e2_blocks_fresh[OF r] r show ?thesis by (intro exI[of _ ?t5]) simp
qed

text \<open>
  An inode number is handed out at most once and never beyond the inode table; when the
  table is full \<^verbatim>\<open>alloc_inode\<close> ends the script with status 1.
\<close>

theorem e2_alloc_inodes:
  "py_times n e2_alloc_inode s =
    (if n = 0 \<or> next_inode s + n \<le> e2_INODES_PER_GROUP + 1
     then Inr ([next_inode s..<next_inode s + n], s\<lparr>next_inode := next_inode s + n\<rparr>)
     else Inl (SystemExit 1))"
proof (induction n arbitrary: s)
  case (Suc n)
  let ?s = "s\<lparr>next_inode := next_inode s + 1\<rparr>"
  have run: "e2_alloc_inode s =
      (if next_inode s \<le> e2_INODES_PER_GROUP then Inr (next_inode s, ?s) else Inl (SystemExit 1))"
    by (auto simp: e2_alloc_inode_def py_bind_def py_seq_def)
  show ?case
    using Suc.IH[of ?s] by (cases n) (auto simp: run py_bind_def upt_conv_Cons)
qed simp

end
