(* ===== verification/Bitmaps.thy ===== *)
theory Bitmaps
  imports Allocators
begin

text \<open>
  The block and inode bitmaps of the three builders: one bit per block or inode, set in a
  zero-filled block by \<^verbatim>\<open>bitmap[i // 8] |= (1 << (i % 8))\<close>.  A bitmap has exactly the bits that
  were set, so the number of clear bits is the free count the superblock and the descriptors
  advertise.
\<close>

section \<open>Setting bits\<close>

definition set_bit_at :: "nat \<Rightarrow> bytes \<Rightarrow> bytes result" where
  "set_bit_at i bm =
     (if i div 8 < length bm then Inr (bm[i div 8 := (bm ! (i div 8)) OR push_bit (i mod 8) 1])
      else Inl IndexError)"

fun set_bits :: "nat list \<Rightarrow> bytes \<Rightarrow> bytes result" where
  "set_bits [] bm = Inr bm"
| "set_bits (i # is) bm = res_bind (set_bit_at i bm) (set_bits is)"

definition bit_of :: "bytes \<Rightarrow> nat \<Rightarrow> bool" where
  "bit_of bm i \<longleftrightarrow> bit (bm ! (i div 8)) (i mod 8)"

lemma bit_one_shift: "a < 8 \<Longrightarrow> bit (push_bit a 1 :: byte) b \<longleftrightarrow> b = a"
  by (auto simp: bit_exp_iff)

lemma bit_of_update:
  assumes "i div 8 < length bm"
  shows "bit_of (bm[i div 8 := (bm ! (i div 8)) OR push_bit (i mod 8) 1]) j \<longleftrightarrow> bit_of bm j \<or> j = i"
proof (cases "j div 8 = i div 8")
  case True
  have "j = i \<longleftrightarrow> j mod 8 = i mod 8" using True by (metis div_mult_mod_eq)
  moreover have "i mod 8 < 8" "j mod 8 < 8" by simp_all
  ultimately show ?thesis
    using assms True bit_one_shift[of "i mod 8" "j mod 8"] by (auto simp: bit_of_def bit_or_iff simp del: push_bit_of_1)
next
  case False
  then show ?thesis using assms by (auto simp: bit_of_def)
qed

lemma set_bits_run:
  assumes "list_all (\<lambda>i. i < 8 * length bm) is"
  shows "\<exists>bm'. set_bits is bm = Inr bm' \<and> length bm' = length bm \<and>
    (\<forall>j. bit_of bm' j \<longleftrightarrow> bit_of bm j \<or> j \<in> set is)"
  using assms
proof (induction "is" arbitrary: bm)
  case (Cons i "is")
  let ?bm = "bm[i div 8 := (bm ! (i div 8)) OR push_bit (i mod 8) 1]"
  have i: "i div 8 < length bm" using Cons.prems by (simp add: less_mult_imp_div_less mult.commute)
  then obtain bm' where "set_bits is ?bm = Inr bm'" "length bm' = length bm"
    "\<forall>j. bit_of bm' j \<longleftrightarrow> bit_of ?bm j \<or> j \<in> set is"
    using Cons.IH[of ?bm] Cons.prems by auto
  moreover have "set_bit_at i bm = Inr ?bm" using i by (simp add: set_bit_at_def)
  ultimately show ?case using bit_of_update[OF i] by (intro exI[of _ bm']) auto
qed simp

lemma bit_of_zeros: "j < 8 * n \<Longrightarrow> \<not> bit_of (zeros n) j"
  by (simp add: bit_of_def less_mult_imp_div_less mult.commute)

section \<open>Bitmaps of the first two builders\<close>

definition block_bitmap :: "nat \<Rightarrow> bytes result" where
  "block_bitmap nb = set_bits [0..<min nb (BLOCK_SIZE * 8)] (zeros BLOCK_SIZE)"

definition inode_bitmap :: "nat \<Rightarrow> bytes result" where
  "inode_bitmap ni =
     (let bm = (zeros BLOCK_SIZE)[0 := 0x03];
          bm = bm[0 := bm ! 0 OR 0xFC];
          bm = bm[1 := bm ! 1 OR 0x03];
          bm = bm[1 := bm ! 1 OR push_bit 2 1]
      in set_bits (map (\<lambda>ino. ino - 1) [12..<ni]) bm)"

text \<open>Bit \<open>b\<close> of the block bitmap says whether block \<open>b\<close> is in use.\<close>

lemma block_bitmap_bits:
  "\<exists>bm. block_bitmap nb = Inr bm \<and> length bm = BLOCK_SIZE \<and>
    (\<forall>b < BLOCK_SIZE * 8. bit_of bm b \<longleftrightarrow> b < nb)"
proof -
  have "list_all (\<lambda>i. i < 8 * length (zeros BLOCK_SIZE)) [0..<min nb (BLOCK_SIZE * 8)]"
    by (auto simp: list_all_iff)
  from set_bits_run[OF this] obtain bm where "block_bitmap nb = Inr bm" "length bm = BLOCK_SIZE"
    "\<forall>j. bit_of bm j \<longleftrightarrow> bit_of (zeros BLOCK_SIZE) j \<or> j \<in> set [0..<min nb (BLOCK_SIZE * 8)]"
    by (auto simp: block_bitmap_def)
  then show ?thesis using bit_of_zeros[of _ BLOCK_SIZE] by (auto simp: mult.commute)
qed

lemma less_8: "k < (8 :: nat) \<Longrightarrow> k \<in> {0, 1, 2, 3, 4, 5, 6, 7}"
  by auto

lemma reserved_bits: "k < 8 \<Longrightarrow> bit (0xFF :: byte) k" "k < 8 \<Longrightarrow> bit (0x07 :: byte) k \<longleftrightarrow> k < 3"
  using less_8[of k] by auto

text \<open>Bit \<open>i\<close> of the inode bitmap says whether inode \<open>i + 1\<close> is in use: the reserved ones and
  all that were handed out.\<close>

lemma inode_bitmap_bits:
  assumes "12 \<le> ni" and "ni \<le> BLOCK_SIZE * 8 + 1"
  shows "\<exists>bm. inode_bitmap ni = Inr bm \<and> length bm = BLOCK_SIZE \<and>
    (\<forall>i < BLOCK_SIZE * 8. bit_of bm i \<longleftrightarrow> i + 1 < ni)"
proof -
  let ?b = "(zeros BLOCK_SIZE)[0 := 0xFF, 1 := 0x07]"
  have eq: "inode_bitmap ni = set_bits (map (\<lambda>ino. ino - 1) [12..<ni]) ?b"
    by (simp add: inode_bitmap_def Let_def BLOCK_SIZE_def)
  have b: "bit_of ?b i \<longleftrightarrow> i < 11" if "i < BLOCK_SIZE * 8" for i
  proof -
    have d: "i div 8 < BLOCK_SIZE" using that by (simp add: less_mult_imp_div_less)
    have m: "i mod 8 < 8" by simp
    consider "i div 8 = 0" | "i div 8 = 1" | "2 \<le> i div 8" by linarith
    then show ?thesis
    proof cases
      case 1
      then have "i < 8" by simp
      then show ?thesis using reserved_bits(1)[OF m] by (simp add: bit_of_def layout)
    next
      case 2
      then have "i = 8 + i mod 8" by (metis div_mult_mod_eq mult_1)
      then have "i < 11 \<longleftrightarrow> i mod 8 < 3" by linarith
      then show ?thesis using 2 reserved_bits(2)[OF m] by (simp add: bit_of_def layout)
    next
      case 3
      then have "\<not> i < 11" by linarith
      then show ?thesis using 3 d by (simp add: bit_of_def)
    qed
  qed
  have "list_all (\<lambda>i. i < 8 * length ?b) (map (\<lambda>ino. ino - 1) [12..<ni])"
    using assms(2) by (auto simp: list_all_iff)
  from set_bits_run[OF this] obtain bm where bm: "inode_bitmap ni = Inr bm" "length bm = BLOCK_SIZE"
    "\<forall>j. bit_of bm j \<longleftrightarrow> bit_of ?b j \<or> j \<in> set (map (\<lambda>ino. ino - 1) [12..<ni])"
    by (auto simp: eq)
  have "j \<in> set (map (\<lambda>ino. ino - 1) [12..<ni]) \<longleftrightarrow> 11 \<le> j \<and> j + 1 < ni" for j
  proof -
    have "j \<in> (\<lambda>ino. ino - 1) ` {12..<ni}" if "11 \<le> j" "j + 1 < ni"
      using that by (intro image_eqI[of _ _ "j + 1"]) auto
    then show ?thesis by auto
  qed
  with bm b assms(1) show ?thesis by auto
qed

text \<open>Counting clear bits.\<close>

definition clear_bits :: "bytes \<Rightarrow> nat \<Rightarrow> nat" where
  "clear_bits bm n = length (filter (\<lambda>i. \<not> bit_of bm i) [0..<n])"

lemma clear_bits_below:
  assumes "\<And>i. i < n \<Longrightarrow> bit_of bm i \<longleftrightarrow> i < k"
  shows "clear_bits bm n = n - k"
proof -
  have "filter (\<lambda>i. \<not> bit_of bm i) [0..<n] = filter (\<lambda>i. k \<le> i) [0..<n]"
    using assms by (auto intro: filter_cong)
  moreover have "length (filter (\<lambda>i. k \<le> i) [0..<n]) = n - k" by (induction n) auto
  ultimately show ?thesis by (simp add: clear_bits_def)
qed

end
