(* ===== verification/Dir_Entries.thy ===== *)
theory Dir_Entries
  imports Image_Core
begin

text \<open>
  Directory entries: \<^verbatim>\<open>make_dir_entry\<close>, which the three builders share, and the reader of a
  directory block, which follows the \<^verbatim>\<open>rec_len\<close> chain as the kernel does.  A block is a
  chain of entries with record lengths; the reader returns the entries exactly when the
  chain covers the block.
\<close>

type_synonym dirent = "nat \<times> string \<times> int"

definition min_rec_len :: "nat \<Rightarrow> nat" where
  "min_rec_len name_len = ((8 + name_len + 3) div 4) * 4"

definition make_dir_entry :: "nat \<Rightarrow> string \<Rightarrow> int \<Rightarrow> int option \<Rightarrow> bytes result" where
  "make_dir_entry inode name file_type rec_len =
     res_bind (encode_ascii name) (\<lambda>name_bytes.
     let name_len = length name_bytes;
         rl = (case rec_len of None \<Rightarrow> int (min_rec_len name_len) | Some r \<Rightarrow> r) in
     res_bind (pack_le [U 4 (int inode), U 2 rl, U 1 (int name_len), U 1 file_type]) (\<lambda>hdr.
     let entry = hdr @ name_bytes in
     Inr (entry @ zeros (nat (rl - int (length entry))))))"

section \<open>Entries and their bytes\<close>

text \<open>What \<^verbatim>\<open>make_dir_entry\<close> can encode.\<close>

definition dirent_ok :: "dirent \<Rightarrow> bool" where
  "dirent_ok e = (case e of (ino, name, ft) \<Rightarrow>
     ino < 2 ^ 32 \<and> is_ascii name \<and> length name < 256 \<and> 0 \<le> ft \<and> ft < 256)"

definition ent_bytes :: "dirent \<Rightarrow> nat \<Rightarrow> bytes" where
  "ent_bytes e rl = (case e of (ino, name, ft) \<Rightarrow>
     le_bytes 4 ino @ le_bytes 2 rl @ le_bytes 1 (length name) @ le_bytes 1 (nat ft) @ raw_bytes name @
     zeros (rl - (8 + length name)))"

definition ent_min :: "dirent \<Rightarrow> nat" where
  "ent_min e = min_rec_len (length (fst (snd e)))"

definition name_len_of :: "dirent \<Rightarrow> nat" where
  "name_len_of e = length (fst (snd e))"

lemma min_rec_len_bounds: "8 + n \<le> min_rec_len n" "min_rec_len n < 12 + n" "8 \<le> min_rec_len n"
  unfolding min_rec_len_def by linarith+

lemma min_rec_len_dvd: "4 dvd min_rec_len n"
  by (simp add: min_rec_len_def)

lemma ent_min_bounds: "8 + name_len_of e \<le> ent_min e" "ent_min e < 12 + name_len_of e"
  by (simp_all add: ent_min_def name_len_of_def min_rec_len_bounds)

lemma ent_min_small: "dirent_ok e \<Longrightarrow> ent_min e < 2 ^ 16 \<and> 8 \<le> ent_min e"
  using ent_min_bounds[of e] by (auto simp: dirent_ok_def name_len_of_def)

lemma length_ent_bytes:
  "length (ent_bytes e rl) = max rl (8 + name_len_of e)"
  by (cases e) (simp add: ent_bytes_def name_len_of_def)

lemma make_dir_entry_run:
  assumes "dirent_ok (ino, name, ft)"
  shows "make_dir_entry ino name ft None = Inr (ent_bytes (ino, name, ft) (ent_min (ino, name, ft)))"
    and "rl < 2 ^ 16 \<Longrightarrow> make_dir_entry ino name ft (Some (int rl)) = Inr (ent_bytes (ino, name, ft) rl)"
proof -
  have pk: "pack_le [U 4 (int ino), U 2 (int r), U 1 (int (length name)), U 1 ft] =
      Inr (le_bytes 4 ino @ le_bytes 2 r @ le_bytes 1 (length name) @ le_bytes 1 (nat ft))"
    if "r < 2 ^ 16" for r
    using assms that by (simp add: pack_le_def dirent_ok_def del: One_nat_def le_bytes.simps)
  have enc: "encode_ascii name = Inr (raw_bytes name)"
    using assms by (simp add: dirent_ok_def encode_ascii_eq)
  have diff: "nat (int r - (8 + int (length name))) = r - (8 + length name)" for r by simp
  show "make_dir_entry ino name ft None = Inr (ent_bytes (ino, name, ft) (ent_min (ino, name, ft)))"
    using ent_min_small[OF assms]
    by (simp add: make_dir_entry_def enc Let_def pk ent_min_def ent_bytes_def diff del: One_nat_def le_bytes.simps)
  show "make_dir_entry ino name ft (Some (int rl)) = Inr (ent_bytes (ino, name, ft) rl)" if "rl < 2 ^ 16"
    using that by (simp add: make_dir_entry_def enc Let_def pk ent_bytes_def diff del: One_nat_def le_bytes.simps)
qed

text \<open>
  A name of 256 bytes or more does not fit the one-byte length: \<^verbatim>\<open>struct.pack\<close> raises.
\<close>

lemma make_dir_entry_long_name:
  "is_ascii name \<Longrightarrow> 256 \<le> length name \<Longrightarrow> make_dir_entry ino name ft rec_len = Inl StructError"
  by (simp add: make_dir_entry_def encode_ascii_eq Let_def pack_le_def)

section \<open>Reading a directory block\<close>

text \<open>
  \<open>read_dir buf pos\<close>: the entries from \<open>pos\<close> to the end of the block, \<open>None\<close> when the chain
  is broken: a header or a name that sticks out, a record length below the entry's own
  size, or a record past the end.
\<close>

function read_dir :: "bytes \<Rightarrow> nat \<Rightarrow> dirent list option" where
  "read_dir buf pos =
     (if pos = length buf then Some []
      else if length buf < pos + 8 then None
      else let rl = u16_at buf (pos + 4); nl = le_val (sub buf (pos + 6) 1) in
        if rl < 8 + nl \<or> length buf < pos + rl then None
        else map_option (\<lambda>es. (u32_at buf pos, ascii_decode (sub buf (pos + 8) nl),
                                int (le_val (sub buf (pos + 7) 1))) # es)
               (read_dir buf (pos + rl)))"
  by pat_completeness auto
termination
  by (relation "measure (\<lambda>(buf, pos). length buf - pos)") auto

declare read_dir.simps [simp del]

text \<open>Unused entries have inode 0; a directory lists the others.\<close>

definition live :: "dirent list \<Rightarrow> dirent list" where
  "live es = filter (\<lambda>e. fst e \<noteq> 0) es"

definition chain_bytes :: "(dirent \<times> nat) list \<Rightarrow> bytes" where
  "chain_bytes ers = concat (map (\<lambda>(e, rl). ent_bytes e rl) ers)"

definition chain_ok :: "(dirent \<times> nat) list \<Rightarrow> bool" where
  "chain_ok ers = list_all (\<lambda>(e, rl). dirent_ok e \<and> 8 + name_len_of e \<le> rl \<and> rl < 2 ^ 16) ers"

lemma chain_bytes_simps [simp]:
  "chain_bytes [] = []"
  "chain_bytes ((e, rl) # ers) = ent_bytes e rl @ chain_bytes ers"
  "chain_bytes (ers @ ers') = chain_bytes ers @ chain_bytes ers'"
  by (simp_all add: chain_bytes_def)

lemma chain_ok_simps [simp]:
  "chain_ok []"
  "chain_ok ((e, rl) # ers) \<longleftrightarrow> dirent_ok e \<and> 8 + name_len_of e \<le> rl \<and> rl < 2 ^ 16 \<and> chain_ok ers"
  "chain_ok (ers @ ers') \<longleftrightarrow> chain_ok ers \<and> chain_ok ers'"
  by (auto simp: chain_ok_def)

lemma length_chain_bytes: "chain_ok ers \<Longrightarrow> length (chain_bytes ers) = sum_list (map snd ers)"
  by (induction ers) (auto simp: length_ent_bytes)

text \<open>The fields of an entry inside a larger buffer.\<close>

lemma ent_fields:
  assumes ok: "dirent_ok e" and rl: "8 + name_len_of e \<le> rl" "rl < 2 ^ 16"
    and buf: "buf = pre @ ent_bytes e rl @ post" and pos: "pos = length pre"
  shows "u32_at buf pos = fst e" and "u16_at buf (pos + 4) = rl"
    and "le_val (sub buf (pos + 6) 1) = name_len_of e"
    and "int (le_val (sub buf (pos + 7) 1)) = snd (snd e)"
    and "ascii_decode (sub buf (pos + 8) (name_len_of e)) = fst (snd e)"
proof -
  obtain ino name ft where e: "e = (ino, name, ft)" by (cases e)
  let ?tail = "raw_bytes name @ zeros (rl - (8 + length name)) @ post"
  have at: "sub buf (pos + k) n = sub (ent_bytes e rl @ post) k n" for k n
    by (simp add: buf pos sub_append_right)
  have b: "ent_bytes e rl @ post =
      le_bytes 4 ino @ le_bytes 2 rl @ le_bytes 1 (length name) @ le_bytes 1 (nat ft) @ ?tail"
    by (simp add: e ent_bytes_def)
  have f: "sub (ent_bytes e rl @ post) 0 4 = le_bytes 4 ino"
    "sub (ent_bytes e rl @ post) 4 2 = le_bytes 2 rl"
    "sub (ent_bytes e rl @ post) 6 1 = le_bytes 1 (length name)"
    "sub (ent_bytes e rl @ post) 7 1 = le_bytes 1 (nat ft)"
    "sub (ent_bytes e rl @ post) 8 (length name) = raw_bytes name"
    unfolding b by (simp_all only: sub_def) (simp_all del: le_bytes.simps)
  show "u32_at buf pos = fst e"
    using at[of 0 4] f(1) ok by (simp add: u32_at_def e dirent_ok_def)
  show "u16_at buf (pos + 4) = rl" using rl by (simp add: at f u16_at_def)
  show "le_val (sub buf (pos + 6) 1) = name_len_of e"
    unfolding at f(3) using ok by (simp add: e name_len_of_def dirent_ok_def del: One_nat_def)
  show "int (le_val (sub buf (pos + 7) 1)) = snd (snd e)"
  proof -
    have "nat ft < 256 ^ 1" "0 \<le> ft" using ok by (auto simp: e dirent_ok_def)
    then have "int (le_val (le_bytes 1 (nat ft))) = ft" by (simp only: le_val_le_bytes_small int_nat_eq if_True)
    then show ?thesis by (simp only: at f(4)[unfolded e] e snd_conv)
  qed
  show "ascii_decode (sub buf (pos + 8) (name_len_of e)) = fst (snd e)"
    using f(5) by (simp add: at e name_len_of_def ascii_decode_raw)
qed

text \<open>Reading a chain of entries gives the entries.\<close>

lemma read_dir_chain:
  "chain_ok ers \<Longrightarrow> read_dir (pre @ chain_bytes ers) (length pre) = Some (map fst ers)"
proof (induction ers arbitrary: pre)
  case Nil
  then show ?case by (simp add: read_dir.simps)
next
  case (Cons er ers)
  obtain e rl where er: "er = (e, rl)" by (cases er)
  have ok: "dirent_ok e" "8 + name_len_of e \<le> rl" "rl < 2 ^ 16" "chain_ok ers"
    using Cons.prems er by auto
  let ?buf = "pre @ ent_bytes e rl @ chain_bytes ers"
  note f = ent_fields[OF ok(1-3), of ?buf pre "chain_bytes ers" "length pre", simplified]
  have len: "length ?buf = length pre + rl + length (chain_bytes ers)"
    using ok(2) by (simp add: length_ent_bytes max_def)
  have IH: "read_dir ?buf (length pre + rl) = Some (map fst ers)"
    using Cons.IH[OF ok(4), of "pre @ ent_bytes e rl"] ok(2) by (simp add: length_ent_bytes max_def)
  show ?case
    using ok f len IH
    by (subst read_dir.simps) (simp add: er Let_def)
qed

lemma read_dir_chain_0: "chain_ok ers \<Longrightarrow> read_dir (chain_bytes ers) 0 = Some (map fst ers)"
  using read_dir_chain[of ers "[]"] by simp

end
