(* ===== verification/Dir_Blocks.thy ===== *)
theory Dir_Blocks
  imports Dir_Entries Allocators
begin

text \<open>
  \<^verbatim>\<open>write_dir_blocks\<close> of the three builders.  They share the loop over the entries and differ
  in how a block that is full is filled up: \<^verbatim>\<open>make_ext2_img.py\<close> walks to the last entry and
  extends its record length, the other two append an unused entry when at least 12 bytes
  are left.  A directory is described by its \<open>dir_chains\<close>, one chain of entries per block; the
  bytes the scripts write are those chains, and reading the blocks back gives the entries
  exactly when every chain covers its block.
\<close>

section \<open>Filling up a block\<close>

text \<open>
  The walk to the last entry.  A record length of 0 would leave \<^verbatim>\<open>pos\<close> unchanged, and the
  \<^verbatim>\<open>while\<close> loop would not end.
\<close>

function walk_last :: "bytes \<Rightarrow> nat \<Rightarrow> nat \<Rightarrow> nat result" where
  "walk_last buf pos last_pos =
     (if pos < length buf then
        (case unpack_from 2 buf (pos + 4) of
           Inl e \<Rightarrow> Inl e
         | Inr rl \<Rightarrow> if rl = 0 then Inl Diverges else walk_last buf (pos + rl) pos)
      else Inr last_pos)"
  by pat_completeness auto
termination
  by (relation "measure (\<lambda>(buf, pos, last_pos). length buf - pos)") auto

declare walk_last.simps [simp del]

definition e2_pad :: "bytes \<Rightarrow> bytes result" where
  "e2_pad cur =
     (let remaining = BLOCK_SIZE - length cur in
      if remaining > 0 then
        res_bind (walk_last cur 0 0) (\<lambda>last_pos.
        res_bind (unpack_from 2 cur (last_pos + 4)) (\<lambda>old_rec_len.
        let new_rec_len = old_rec_len + remaining in
        res_bind (pack_le [U 2 (int new_rec_len)]) (\<lambda>rl.
        Inr (take (last_pos + 4) cur @ rl @ drop (last_pos + 6) cur @ zeros remaining))))
      else Inr cur)"

definition e3_pad :: "bytes \<Rightarrow> bytes result" where
  "e3_pad cur =
     (let remaining = BLOCK_SIZE - length cur in
      if remaining \<ge> 12 then
        res_bind (make_dir_entry 0 '''' 0 (Some (int remaining))) (\<lambda>e. Inr (cur @ e))
      else Inr cur)"

section \<open>The loop\<close>

definition dir_round ::
  "(bytes \<Rightarrow> bytes result) \<Rightarrow> ('a core_scheme, nat) py \<Rightarrow> nat \<Rightarrow> nat \<times> dirent \<Rightarrow>
   nat list \<times> bytes \<Rightarrow> ('a core_scheme, nat list \<times> bytes) py" where
  "dir_round pad alloc count = (\<lambda>(idx, inode, name, file_type) (dir_blocks, cur).
     let is_last = (int idx = int count - 1) in
     py_bind (py_lift (encode_ascii name)) (\<lambda>name_bytes.
     let entry_min_size = min_rec_len (length name_bytes) in
     py_bind
       (if is_last \<or> length cur + entry_min_size > BLOCK_SIZE then
          (if \<not> is_last \<and> length cur + entry_min_size > BLOCK_SIZE then
             (if cur \<noteq> [] then
                py_bind (py_lift (pad cur)) (\<lambda>cur.
                py_bind alloc (\<lambda>blk.
                py_seq (write_block blk cur) (py_ret (dir_blocks @ [blk], []))))
              else py_ret (dir_blocks, cur))
           else py_ret (dir_blocks, cur))
        else py_ret (dir_blocks, cur)) (\<lambda>(dir_blocks, cur).
     if is_last then
       let remaining = int BLOCK_SIZE - int (length cur) in
       py_bind (py_lift (make_dir_entry inode name file_type (Some remaining))) (\<lambda>entry.
       let cur = cur @ entry in
       py_bind alloc (\<lambda>blk.
       py_seq (write_block blk cur) (py_ret (dir_blocks @ [blk], cur))))
     else
       py_bind (py_lift (make_dir_entry inode name file_type None)) (\<lambda>entry.
       py_ret (dir_blocks, cur @ entry)))))"

definition write_dir_blocks ::
  "(bytes \<Rightarrow> bytes result) \<Rightarrow> ('a core_scheme, nat) py \<Rightarrow> dirent list \<Rightarrow>
   ('a core_scheme, nat list) py" where
  "write_dir_blocks pad alloc entries_list =
     py_bind (py_fold (dir_round pad alloc (length entries_list))
        (List.enumerate 0 entries_list) ([], []))
       (\<lambda>(dir_blocks, cur). py_ret dir_blocks)"

definition e2_write_dir_blocks :: "dirent list \<Rightarrow> (ext2_state, nat list) py" where
  "e2_write_dir_blocks = write_dir_blocks e2_pad e2_alloc_block"

definition e3_write_dir_blocks :: "dirent list \<Rightarrow> (core, nat list) py" where
  "e3_write_dir_blocks = write_dir_blocks e3_pad e3_alloc_block"

definition e4_write_dir_blocks :: "dirent list \<Rightarrow> (ext4_state, nat list) py" where
  "e4_write_dir_blocks = write_dir_blocks e3_pad e4_alloc_block"

section \<open>Chains\<close>

type_synonym chain = "(dirent \<times> nat) list"

definition clen :: "chain \<Rightarrow> nat" where
  "clen c = sum_list (map snd c)"

text \<open>
  \<open>dir_chains P c es\<close>: the chains of a directory whose current block holds \<open>c\<close> and whose
  remaining entries are \<open>es\<close>, when a full block is filled up by \<open>P\<close>.
\<close>

fun dir_chains :: "(chain \<Rightarrow> chain) \<Rightarrow> chain \<Rightarrow> dirent list \<Rightarrow> chain list" where
  "dir_chains P c [] = []"
| "dir_chains P c [e] = [c @ [(e, BLOCK_SIZE - clen c)]]"
| "dir_chains P c (e # e' # es) =
     (if clen c + ent_min e > BLOCK_SIZE then P c # dir_chains P [(e, ent_min e)] (e' # es)
      else dir_chains P (c @ [(e, ent_min e)]) (e' # es))"

definition e2_pad_chain :: "chain \<Rightarrow> chain" where
  "e2_pad_chain c = butlast c @ [(fst (last c), snd (last c) + (BLOCK_SIZE - clen c))]"

definition e3_pad_chain :: "chain \<Rightarrow> chain" where
  "e3_pad_chain c = (if BLOCK_SIZE - clen c \<ge> 12 then c @ [((0, '''', 0), BLOCK_SIZE - clen c)] else c)"

lemma clen_simps [simp]:
  "clen [] = 0" "clen ((e, rl) # c) = rl + clen c" "clen (c @ c') = clen c + clen c'"
  by (simp_all add: clen_def)

lemma length_chain [simp]: "chain_ok c \<Longrightarrow> length (chain_bytes c) = clen c"
  by (simp add: length_chain_bytes clen_def)

lemma chain_bytes_Nil_iff: "chain_ok c \<Longrightarrow> chain_bytes c = [] \<longleftrightarrow> c = []"
  by (cases c) (auto simp: ent_bytes_def split: prod.splits)

lemma dir_chains_nonempty: "es \<noteq> [] \<Longrightarrow> dir_chains P c es \<noteq> []"
  by (induction P c es rule: dir_chains.induct) auto

lemma ent_min_le: "dirent_ok e \<Longrightarrow> ent_min e \<le> BLOCK_SIZE"
  using ent_min_bounds(2)[of e] by (auto simp: dirent_ok_def name_len_of_def layout)

lemma chain_ok_min: "dirent_ok e \<Longrightarrow> chain_ok [(e, ent_min e)]"
  using ent_min_small[of e] ent_min_bounds(1)[of e] by simp

text \<open>The log of a directory: its chains in consecutive blocks.\<close>

definition dir_log :: "nat \<Rightarrow> chain list \<Rightarrow> (nat \<times> bytes) list" where
  "dir_log nb cs = zip [nb..<nb + length cs] (map chain_bytes cs)"

lemma dir_log_Cons: "dir_log nb (c # cs) = (nb, chain_bytes c) # dir_log (Suc nb) cs"
  by (simp add: dir_log_def upt_conv_Cons del: upt_Suc)

text \<open>
  What the loop needs of a way to fill up a block: on the bytes of a chain it returns the
  bytes of the filled chain.
\<close>

locale dir_padding = block_source alloc nxt limit bump
  for alloc :: "('a core_scheme, nat) py" and nxt limit bump +
  fixes pad :: "bytes \<Rightarrow> bytes result" and pad_chain :: "chain \<Rightarrow> chain"
  assumes pad_run: "chain_ok c \<Longrightarrow> c \<noteq> [] \<Longrightarrow> clen c \<le> BLOCK_SIZE \<Longrightarrow>
      pad (chain_bytes c) = Inr (chain_bytes (pad_chain c))"
    and pad_live: "c \<noteq> [] \<Longrightarrow> live (map fst (pad_chain c)) = live (map fst c)"
begin

lemma round_middle:
  assumes "dirent_ok e" and "int idx \<noteq> int count - 1" and "chain_ok c"
    and "clen c + ent_min e \<le> BLOCK_SIZE"
  shows "dir_round pad alloc count (idx, e) (dbs, chain_bytes c) s =
    Inr ((dbs, chain_bytes (c @ [(e, ent_min e)])), s)"
  using assms make_dir_entry_run(1)[of "fst e" "fst (snd e)" "snd (snd e)"]
  by (cases e) (simp add: dir_round_def Let_def py_bind_run encode_ascii_eq dirent_ok_def ent_min_def)

lemma round_flush:
  assumes "dirent_ok e" and "int idx \<noteq> int count - 1" and "chain_ok c" "clen c \<le> BLOCK_SIZE"
    and "clen c + ent_min e > BLOCK_SIZE" and "length (chain_bytes (pad_chain c)) \<le> BLOCK_SIZE"
    and "nxt s < limit s"
  shows "dir_round pad alloc count (idx, e) (dbs, chain_bytes c) s =
    Inr ((dbs @ [nxt s], chain_bytes [(e, ent_min e)]),
      img_update (put_at (nxt s * BLOCK_SIZE) (chain_bytes (pad_chain c))) (bump 1 s))"
proof -
  have c: "c \<noteq> []" using assms(1,5) ent_min_le[of e] by auto
  then have "chain_bytes c \<noteq> []" using assms(3) by (simp add: chain_bytes_Nil_iff)
  then show ?thesis
    using assms c pad_run[of c] make_dir_entry_run(1)[of "fst e" "fst (snd e)" "snd (snd e)"]
    by (cases e) (simp add: dir_round_def Let_def py_bind_run py_seq_run encode_ascii_eq dirent_ok_def
        ent_min_def alloc_run write_block_run)
qed

lemma round_last:
  assumes "dirent_ok e" and "int idx = int count - 1" and "chain_ok c" "clen c \<le> BLOCK_SIZE"
    and "nxt s < limit s"
  defines "cur \<equiv> chain_bytes (c @ [(e, BLOCK_SIZE - clen c)])"
  shows "dir_round pad alloc count (idx, e) (dbs, chain_bytes c) s =
    Inr ((dbs @ [nxt s], cur),
      img_update (slice_set (nxt s * BLOCK_SIZE) (nxt s * BLOCK_SIZE + length cur) (take BLOCK_SIZE cur))
        (bump 1 s))"
proof -
  have rem: "int BLOCK_SIZE - int (clen c) = int (BLOCK_SIZE - clen c)" using assms(4) by simp
  have small: "BLOCK_SIZE - clen c < 2 ^ 16" by (simp add: layout)
  show ?thesis
    using assms make_dir_entry_run(2)[of "fst e" "fst (snd e)" "snd (snd e)", OF _ small]
    by (cases e) (simp add: dir_round_def Let_def py_bind_run py_seq_run encode_ascii_eq dirent_ok_def
        rem alloc_run write_block_def del: of_nat_diff)
qed

lemma dir_fold_run:
  assumes "es \<noteq> []" and "list_all dirent_ok es" and "chain_ok c" "clen c \<le> BLOCK_SIZE"
    and "int count = int idx + int (length es)"
    and "\<And>d. d \<in> set (dir_chains pad_chain c es) \<Longrightarrow> length (chain_bytes d) \<le> BLOCK_SIZE"
    and "nxt s + length (dir_chains pad_chain c es) \<le> limit s"
  shows "\<exists>cur. py_fold (dir_round pad alloc count) (List.enumerate idx es) (dbs, chain_bytes c) s =
    Inr ((dbs @ [nxt s..<nxt s + length (dir_chains pad_chain c es)], cur),
      img_update (apply_writes (block_log (dir_log (nxt s) (dir_chains pad_chain c es))))
        (bump (length (dir_chains pad_chain c es)) s))"
  using assms
proof (induction es arbitrary: c idx dbs s rule: induct_list012)
  case (2 e)
  then show ?case
    by (simp add: round_last py_bind_run dir_log_def block_log_Cons put_at_def enumerate_simps)
next
  case (3 e e' es)
  let ?es = "e' # es"
  have e: "dirent_ok e" "list_all dirent_ok ?es" and idx: "int idx \<noteq> int count - 1"
    using "3.prems" by auto
  show ?case
  proof (cases "clen c + ent_min e > BLOCK_SIZE")
    case True
    let ?cs = "dir_chains pad_chain [(e, ent_min e)] ?es"
    let ?s = "img_update (put_at (nxt s * BLOCK_SIZE) (chain_bytes (pad_chain c))) (bump 1 s)"
    have step: "dir_round pad alloc count (idx, e) (dbs, chain_bytes c) s =
      Inr ((dbs @ [nxt s], chain_bytes [(e, ent_min e)]), ?s)"
      using "3.prems" True e idx by (intro round_flush) auto
    have "\<exists>cur. py_fold (dir_round pad alloc count) (List.enumerate (Suc idx) ?es)
        (dbs @ [nxt s], chain_bytes [(e, ent_min e)]) ?s =
      Inr (((dbs @ [nxt s]) @ [nxt ?s..<nxt ?s + length ?cs], cur),
        img_update (apply_writes (block_log (dir_log (nxt ?s) ?cs))) (bump (length ?cs) ?s))"
      using "3.prems" True e ent_min_le[OF e(1)] chain_ok_min[OF e(1)]
      by (intro "3.IH"(2)) (auto simp: source_simps)
    then show ?thesis using True step
      by (auto simp: py_bind_run source_simps dir_log_Cons block_log_Cons comp_def upt_conv_Cons
          enumerate_simps simp del: upt_Suc)
  next
    case False
    let ?c = "c @ [(e, ent_min e)]"
    have step: "dir_round pad alloc count (idx, e) (dbs, chain_bytes c) s =
      Inr ((dbs, chain_bytes ?c), s)"
      using "3.prems" False e idx by (intro round_middle) auto
    have "\<exists>cur. py_fold (dir_round pad alloc count) (List.enumerate (Suc idx) ?es) (dbs, chain_bytes ?c) s =
      Inr ((dbs @ [nxt s..<nxt s + length (dir_chains pad_chain ?c ?es)], cur),
        img_update (apply_writes (block_log (dir_log (nxt s) (dir_chains pad_chain ?c ?es))))
          (bump (length (dir_chains pad_chain ?c ?es)) s))"
      using "3.prems" False e chain_ok_min[OF e(1)] by (intro "3.IH"(2)) auto
    then show ?thesis using False step by (auto simp: py_bind_run enumerate_simps)
  qed
qed simp

lemma write_dir_blocks_run:
  assumes "es \<noteq> []" and "list_all dirent_ok es"
    and "\<And>d. d \<in> set (dir_chains pad_chain [] es) \<Longrightarrow> length (chain_bytes d) \<le> BLOCK_SIZE"
    and "nxt s + length (dir_chains pad_chain [] es) \<le> limit s"
  shows "write_dir_blocks pad alloc es s =
    Inr ([nxt s..<nxt s + length (dir_chains pad_chain [] es)],
      img_update (apply_writes (block_log (dir_log (nxt s) (dir_chains pad_chain [] es))))
        (bump (length (dir_chains pad_chain [] es)) s))"
  using dir_fold_run[of es "[]" "length es" 0 s "[]"] assms
  by (auto simp: write_dir_blocks_def py_bind_run)

lemma chains_live:
  assumes "list_all dirent_ok es" "es \<noteq> []"
  shows "live (concat (map (map fst) (dir_chains pad_chain c es))) = live (map fst c @ es)"
  using assms
proof (induction es arbitrary: c rule: induct_list012)
  case (3 e e' es)
  have "c \<noteq> []" if "clen c + ent_min e > BLOCK_SIZE"
    using that "3.prems" ent_min_le[of e] by auto
  then show ?case using "3.IH"(2) "3.prems" pad_live[of c] by (auto simp: live_def)
qed (simp_all add: live_def)

end

section \<open>The scripts' ways to fill up a block\<close>

lemma walk_last_chain:
  "chain_ok c \<Longrightarrow> c \<noteq> [] \<Longrightarrow>
   walk_last (pre @ chain_bytes c) (length pre) lp = Inr (length pre + clen (butlast c))"
proof (induction c arbitrary: pre lp)
  case (Cons er c)
  obtain e rl where er: "er = (e, rl)" by (cases er)
  have ok: "dirent_ok e" "8 + name_len_of e \<le> rl" "rl < 2 ^ 16" "chain_ok c"
    using Cons.prems er by auto
  let ?buf = "pre @ ent_bytes e rl @ chain_bytes c"
  have len: "length ?buf = length pre + rl + clen c"
    using ok by (simp add: length_ent_bytes max_def)
  have u: "unpack_from 2 ?buf (length pre + 4) = Inr rl"
    using ent_fields(2)[OF ok(1-3), of ?buf pre "chain_bytes c" "length pre"] len ok(2)
    by (simp add: unpack_from_def u16_at_def)
  have nxt: "walk_last ?buf (length pre + rl) (length pre) =
      Inr (length pre + clen (butlast ((e, rl) # c)))"
  proof (cases c)
    case Nil
    then show ?thesis using len by (subst walk_last.simps) simp
  next
    case (Cons x xs)
    then show ?thesis
      using Cons.IH[OF ok(4), of "pre @ ent_bytes e rl" "length pre"] ok(2)
      by (simp add: length_ent_bytes max_def)
  qed
  show ?case
    using nxt u len ok(2) by (subst walk_last.simps) (simp add: er)
qed simp

text \<open>Extending a record length is the same as writing the entry with the larger one.\<close>

lemma ent_bytes_extend:
  assumes "8 + name_len_of e \<le> rl"
  shows "take 4 (ent_bytes e rl) @ le_bytes 2 (rl + k) @ drop 6 (ent_bytes e rl) @ zeros k =
    ent_bytes e (rl + k)"
proof -
  obtain ino name ft where e: "e = (ino, name, ft)" by (cases e)
  have "rl + k - (8 + length name) = (rl - (8 + length name)) + k"
    using assms by (simp add: e name_len_of_def)
  then have z: "zeros (rl + k - (8 + length name)) = zeros (rl - (8 + length name)) @ zeros k"
    by (simp add: zeros_def replicate_add)
  show ?thesis by (simp add: e ent_bytes_def z del: le_bytes.simps)
qed

lemma e2_pad_run:
  assumes "chain_ok c" "c \<noteq> []" "clen c \<le> BLOCK_SIZE"
  shows "e2_pad (chain_bytes c) = Inr (chain_bytes (e2_pad_chain c))"
proof -
  obtain c0 e rl where c: "c = c0 @ [(e, rl)]"
    using assms(2) by (metis append_butlast_last_id surj_pair)
  have ok: "dirent_ok e" "8 + name_len_of e \<le> rl" "rl < 2 ^ 16" "chain_ok c0"
    using assms(1) c by auto
  let ?b = "chain_bytes c0 @ ent_bytes e rl" and ?k = "BLOCK_SIZE - (clen c0 + rl)"
  have w: "walk_last ?b 0 0 = Inr (clen c0)"
    using walk_last_chain[OF assms(1,2), of "[]" 0] by (simp add: c)
  have u: "unpack_from 2 ?b (clen c0 + 4) = Inr rl"
    using ent_fields(2)[OF ok(1-3), of ?b "chain_bytes c0" "[]" "clen c0"] ok
    by (simp add: unpack_from_def u16_at_def length_ent_bytes)
  have k: "rl + ?k = BLOCK_SIZE - clen c0" using assms(3) c by simp
  have p: "pack_le [U 2 (int (BLOCK_SIZE - clen c0))] = Inr (le_bytes 2 (BLOCK_SIZE - clen c0))"
    by (simp add: pack_le_def layout del: of_nat_diff)
  have z: "clen c0 + rl = BLOCK_SIZE \<Longrightarrow> BLOCK_SIZE - clen c0 = rl" by simp
  show ?thesis
    using ent_bytes_extend[OF ok(2), of ?k] ok assms(3) z
    by (simp add: e2_pad_def e2_pad_chain_def c Let_def w u p k length_ent_bytes max_def
        del: of_nat_diff of_nat_add)
qed

lemma e3_pad_run:
  assumes "chain_ok c" "clen c \<le> BLOCK_SIZE"
  shows "e3_pad (chain_bytes c) = Inr (chain_bytes (e3_pad_chain c))"
proof -
  have "dirent_ok (0, '''', 0)" and "BLOCK_SIZE - clen c < 2 ^ 16"
    by (simp_all add: dirent_ok_def is_ascii_def layout)
  then show ?thesis
    using assms make_dir_entry_run(2)[of 0 "''''" 0 "BLOCK_SIZE - clen c"]
    by (simp add: e3_pad_def e3_pad_chain_def Let_def del: of_nat_diff)
qed

interpretation e2_dir: dir_padding e2_alloc_block e2_nxt e2_limit e2_bump e2_pad e2_pad_chain
proof unfold_locales
  show "live (map fst (e2_pad_chain c)) = live (map fst c)" if "c \<noteq> []" for c
    using that by (cases c rule: rev_cases) (simp_all add: e2_pad_chain_def)
qed (rule e2_pad_run)

interpretation e3_dir: dir_padding e3_alloc_block next_block "\<lambda>_. TOTAL_BLOCKS" e3_bump e3_pad e3_pad_chain
  by unfold_locales (simp_all add: e3_pad_run e3_pad_chain_def live_def)

interpretation e4_dir: dir_padding e4_alloc_block next_block "\<lambda>_. TOTAL_BLOCKS" e4_bump e3_pad e3_pad_chain
  by unfold_locales (simp_all add: e3_pad_run e3_pad_chain_def live_def)

end
