(* ===== verification/Dir_Read.thy ===== *)
theory Dir_Read
  imports Dir_Blocks
begin

text \<open>
  What a directory written by \<^verbatim>\<open>write_dir_blocks\<close> reads back as.  \<open>dir_rest\<close> is the fill level
  of the block the last entry goes to and \<open>dir_gaps\<close> lists what is left in the blocks before
  it.  When the last entry fits and the script's way to fill up a block closes every gap,
  the directory reads back as its entries; the other two cases are the defects of the
  loop, and the theory shows what they do to the image.
\<close>

section \<open>Reading a directory\<close>

fun read_blocks :: "bytes \<Rightarrow> nat list \<Rightarrow> dirent list option" where
  "read_blocks im [] = Some []"
| "read_blocks im (b # bs) =
     (case read_dir (block_at im b) 0 of
        None \<Rightarrow> None
      | Some es \<Rightarrow> map_option (\<lambda>r. es @ r) (read_blocks im bs))"

definition read_directory :: "bytes \<Rightarrow> nat list \<Rightarrow> dirent list option" where
  "read_directory im bs = map_option live (read_blocks im bs)"

fun dir_rest :: "nat \<Rightarrow> dirent list \<Rightarrow> nat" where
  "dir_rest used [] = used"
| "dir_rest used [e] = used"
| "dir_rest used (e # e' # es) =
     (if used + ent_min e > BLOCK_SIZE then dir_rest (ent_min e) (e' # es)
      else dir_rest (used + ent_min e) (e' # es))"

fun dir_gaps :: "nat \<Rightarrow> dirent list \<Rightarrow> nat list" where
  "dir_gaps used [] = []"
| "dir_gaps used [e] = []"
| "dir_gaps used (e # e' # es) =
     (if used + ent_min e > BLOCK_SIZE then (BLOCK_SIZE - used) # dir_gaps (ent_min e) (e' # es)
      else dir_gaps (used + ent_min e) (e' # es))"

definition last_fits :: "dirent list \<Rightarrow> bool" where
  "last_fits es \<longleftrightarrow> es \<noteq> [] \<and> dir_rest 0 es + 8 + name_len_of (last es) \<le> BLOCK_SIZE"

definition dir_span :: "dirent list \<Rightarrow> nat" where
  "dir_span es = Suc (length (dir_gaps 0 es))"

definition entries_ok :: "dirent list \<Rightarrow> bool" where
  "entries_ok es \<longleftrightarrow> list_all (\<lambda>e. dirent_ok e \<and> fst e \<noteq> 0) es"

lemma length_dir_chains: "es \<noteq> [] \<Longrightarrow> length (dir_chains P c es) = Suc (length (dir_gaps (clen c) es))"
  by (induction P c es rule: dir_chains.induct) auto

lemma live_entries: "entries_ok es \<Longrightarrow> live es = es"
  by (simp add: entries_ok_def live_def filter_id_conv list_all_iff)

lemma entries_dirent_ok: "entries_ok es \<Longrightarrow> list_all dirent_ok es"
  by (simp add: entries_ok_def list_all_iff)

text \<open>
  A directory whose entries fit one block: the usual case.
\<close>

lemma one_block:
  assumes "used + sum_list (map ent_min (butlast es)) \<le> BLOCK_SIZE"
  shows "dir_gaps used es = []" and "dir_rest used es = used + sum_list (map ent_min (butlast es))"
  using assms by (induction es arbitrary: used rule: induct_list012) auto

lemma small_directory:
  assumes "es \<noteq> []" and "sum_list (map ent_min es) \<le> BLOCK_SIZE"
  shows "last_fits es" and "dir_gaps 0 es = []" and "dir_span es = 1"
proof -
  obtain xs e where es: "es = xs @ [e]" using assms(1) by (metis rev_exhaust)
  have "0 + sum_list (map ent_min (butlast es)) \<le> BLOCK_SIZE" using assms(2) by (simp add: es)
  note ob = one_block[OF this]
  show "dir_gaps 0 es = []" by (rule ob(1))
  then show "dir_span es = 1" by (simp add: dir_span_def)
  show "last_fits es" unfolding last_fits_def ob(2)
    using assms(2) ent_min_bounds(1)[of e] by (simp add: es)
qed

text \<open>Zero bytes after a chain are not an entry.\<close>

lemma read_dir_zero_tail:
  assumes "chain_ok c" and "0 < k"
  shows "read_dir (pre @ chain_bytes c @ zeros k) (length pre) = None"
  using assms(1)
proof (induction c arbitrary: pre)
  case Nil
  have "u16_at (pre @ zeros k) (length pre + 4) = 0" if "8 \<le> k"
    using that by (simp add: u16_at_def sub_append_right sub_zeros)
  then show ?case using assms(2) by (subst read_dir.simps) (simp add: Let_def)
next
  case (Cons er c)
  obtain e rl where er: "er = (e, rl)" by (cases er)
  have ok: "dirent_ok e" "8 + name_len_of e \<le> rl" "rl < 2 ^ 16" "chain_ok c"
    using Cons.prems er by auto
  let ?post = "chain_bytes c @ zeros k"
  let ?buf = "pre @ ent_bytes e rl @ ?post"
  note f = ent_fields[OF ok(1-3), of ?buf pre ?post "length pre", simplified]
  have len: "length ?buf = length pre + rl + length ?post"
    using ok(2) by (simp add: length_ent_bytes max_def)
  have IH: "read_dir ?buf (length pre + rl) = None"
    using Cons.IH[OF ok(4), of "pre @ ent_bytes e rl"] ok(2) by (simp add: length_ent_bytes max_def)
  show ?case
    using ok f len IH by (subst read_dir.simps) (simp add: er Let_def)
qed

lemma read_blocks_None: "b \<in> set bs \<Longrightarrow> read_dir (block_at im b) 0 = None \<Longrightarrow> read_blocks im bs = None"
  by (induction bs) (auto split: option.splits)

lemma read_blocks_chains:
  assumes "\<And>i. i < length cs \<Longrightarrow> block_at im (nb + i) = chain_bytes (cs ! i)"
    and "list_all chain_ok cs"
  shows "read_blocks im [nb..<nb + length cs] = Some (concat (map (map fst) cs))"
  using assms
proof (induction cs arbitrary: nb)
  case (Cons c cs)
  have "read_blocks im [Suc nb..<Suc nb + length cs] = Some (concat (map (map fst) cs))"
  proof (rule Cons.IH)
    show "block_at im (Suc nb + i) = chain_bytes (cs ! i)" if "i < length cs" for i
      using Cons.prems(1)[of "Suc i"] that by simp
  qed (use Cons.prems in simp)
  moreover have "block_at im nb = chain_bytes c" using Cons.prems(1)[of 0] by simp
  ultimately show ?case
    using Cons.prems(2) by (simp add: upt_conv_Cons read_dir_chain_0 del: upt_Suc)
qed simp

section \<open>The log of a directory\<close>

lemma dir_log_nth: "(b, d) \<in> set (dir_log nb cs) \<longleftrightarrow> (\<exists>i < length cs. b = nb + i \<and> d = chain_bytes (cs ! i))"
  by (force simp: dir_log_def set_zip)

lemma fst_dir_log: "map fst (dir_log nb cs) = [nb..<nb + length cs]"
  by (simp add: dir_log_def)

lemma dir_log_writes:
  assumes "list_all (\<lambda>c. length (chain_bytes c) \<le> BLOCK_SIZE) cs" and "nb + length cs \<le> TOTAL_BLOCKS"
  shows "sorted_wrt apart (block_log (dir_log nb cs))"
    and "list_all (in_range (TOTAL_BLOCKS * BLOCK_SIZE)) (block_log (dir_log nb cs))"
proof -
  show "sorted_wrt apart (block_log (dir_log nb cs))"
  proof (rule block_log_apart)
    show "distinct (map fst (dir_log nb cs))" by (simp add: fst_dir_log)
  qed (use assms(1) in \<open>auto simp: dir_log_nth list_all_length\<close>)
  show "list_all (in_range (TOTAL_BLOCKS * BLOCK_SIZE)) (block_log (dir_log nb cs))"
    by (rule block_log_in_range[of _ TOTAL_BLOCKS]) (use assms in \<open>auto simp: dir_log_nth list_all_length\<close>)
qed

lemma dir_log_read:
  assumes "list_all (\<lambda>c. chain_ok c \<and> clen c = BLOCK_SIZE) cs" and "nb + length cs \<le> TOTAL_BLOCKS"
    and "length im = TOTAL_BLOCKS * BLOCK_SIZE"
  shows "read_blocks (apply_writes (block_log (dir_log nb cs)) im) [nb..<nb + length cs] =
    Some (concat (map (map fst) cs))"
proof (rule read_blocks_chains)
  have le: "list_all (\<lambda>c. length (chain_bytes c) \<le> BLOCK_SIZE) cs"
    using assms(1) by (simp add: list_all_iff)
  note w = dir_log_writes[OF le assms(2)]
  fix i assume i: "i < length cs"
  let ?d = "chain_bytes (cs ! i)"
  have d: "length ?d = BLOCK_SIZE" using assms(1) i by (simp add: list_all_length)
  have "((nb + i) * BLOCK_SIZE, ?d) \<in> set (block_log (dir_log nb cs))"
    using i by (force simp: block_log_def dir_log_nth)
  then show "block_at (apply_writes (block_log (dir_log nb cs)) im) (nb + i) = ?d"
    using sub_apply_writes_in[of im _ "(nb + i) * BLOCK_SIZE" ?d] w assms(3) d
    by (simp add: block_at_def)
qed (use assms(1) in \<open>simp add: list_all_iff\<close>)

section \<open>When a directory reads back\<close>

text \<open>
  \<open>gap_ok g\<close>: the script closes a gap of \<open>g\<close> bytes at the end of a block.
\<close>

locale dir_cover = dir_padding alloc nxt limit bump pad pad_chain
  for alloc :: "('a core_scheme, nat) py" and nxt limit bump pad pad_chain +
  fixes gap_ok :: "nat \<Rightarrow> bool"
  assumes pad_cover: "chain_ok c \<Longrightarrow> c \<noteq> [] \<Longrightarrow> clen c \<le> BLOCK_SIZE \<Longrightarrow> gap_ok (BLOCK_SIZE - clen c) \<Longrightarrow>
      chain_ok (pad_chain c) \<and> clen (pad_chain c) = BLOCK_SIZE"
begin

lemma chains_cover:
  assumes "list_all dirent_ok es" "es \<noteq> []" "chain_ok c" "clen c \<le> BLOCK_SIZE"
    and "list_all gap_ok (dir_gaps (clen c) es)"
    and "dir_rest (clen c) es + 8 + name_len_of (last es) \<le> BLOCK_SIZE"
  shows "list_all (\<lambda>c. chain_ok c \<and> clen c = BLOCK_SIZE) (dir_chains pad_chain c es)"
  using assms
proof (induction es arbitrary: c rule: induct_list012)
  case (2 e)
  then show ?case by (simp add: layout) linarith
next
  case (3 e e' es)
  have e: "dirent_ok e" using "3.prems" by simp
  have "c \<noteq> []" if "clen c + ent_min e > BLOCK_SIZE" using that e ent_min_le[of e] by auto
  then show ?case
    using "3.IH"(2)[of "[(e, ent_min e)]"] "3.IH"(2)[of "c @ [(e, ent_min e)]"] "3.prems"
      ent_min_le[OF e] chain_ok_min[OF e] pad_cover[of c]
    by (simp split: if_splits)
qed simp

lemma directory_run:
  assumes "entries_ok es" and "last_fits es" and "list_all gap_ok (dir_gaps 0 es)"
    and "full_image s" and "nxt s + dir_span es \<le> limit s"
  defines "cs \<equiv> dir_chains pad_chain [] es"
  shows "write_dir_blocks pad alloc es s = Inr ([nxt s..<nxt s + dir_span es],
      img_update (apply_writes (block_log (dir_log (nxt s) cs))) (bump (dir_span es) s))"
    and "list_all (\<lambda>c. chain_ok c \<and> clen c = BLOCK_SIZE) cs" and "length cs = dir_span es"
    and "read_directory (apply_writes (block_log (dir_log (nxt s) cs)) (img s))
      [nxt s..<nxt s + dir_span es] = Some es"
proof -
  have ne: "es \<noteq> []" using assms(2) by (simp add: last_fits_def)
  show len: "length cs = dir_span es" using length_dir_chains[OF ne] by (simp add: cs_def dir_span_def)
  show cov: "list_all (\<lambda>c. chain_ok c \<and> clen c = BLOCK_SIZE) cs"
    unfolding cs_def using assms entries_dirent_ok ne by (intro chains_cover) (auto simp: last_fits_def)
  show "write_dir_blocks pad alloc es s = Inr ([nxt s..<nxt s + dir_span es],
      img_update (apply_writes (block_log (dir_log (nxt s) cs))) (bump (dir_span es) s))"
    using write_dir_blocks_run[OF ne entries_dirent_ok[OF assms(1)], of s] cov len assms(5)
    by (auto simp: cs_def list_all_iff)
  have "nxt s + length cs \<le> TOTAL_BLOCKS" using assms(5) len limit_le[of s] by simp
  from dir_log_read[OF cov this] assms(4)
  show "read_directory (apply_writes (block_log (dir_log (nxt s) cs)) (img s))
      [nxt s..<nxt s + dir_span es] = Some es"
    using chains_live[OF entries_dirent_ok[OF assms(1)] ne, of "[]"] live_entries[OF assms(1)] len
    by (simp add: read_directory_def full_image_def cs_def)
qed

end

lemma e2_pad_cover:
  assumes "chain_ok c" "c \<noteq> []" "clen c \<le> BLOCK_SIZE"
  shows "chain_ok (e2_pad_chain c) \<and> clen (e2_pad_chain c) = BLOCK_SIZE"
  using assms by (cases c rule: rev_cases) (auto simp: e2_pad_chain_def layout)

interpretation e2_dir: dir_cover e2_alloc_block e2_nxt e2_limit e2_bump e2_pad e2_pad_chain "\<lambda>_. True"
  by unfold_locales (rule e2_pad_cover)

lemma e3_pad_cover:
  assumes "chain_ok c" "clen c \<le> BLOCK_SIZE" "BLOCK_SIZE - clen c = 0 \<or> 12 \<le> BLOCK_SIZE - clen c"
  shows "chain_ok (e3_pad_chain c) \<and> clen (e3_pad_chain c) = BLOCK_SIZE"
  using assms by (auto simp: e3_pad_chain_def layout dirent_ok_def is_ascii_def name_len_of_def)

interpretation e3_dir: dir_cover e3_alloc_block next_block "\<lambda>_. TOTAL_BLOCKS" e3_bump e3_pad e3_pad_chain
  "\<lambda>g. g = 0 \<or> 12 \<le> g"
  by unfold_locales (rule e3_pad_cover)

interpretation e4_dir: dir_cover e4_alloc_block next_block "\<lambda>_. TOTAL_BLOCKS" e4_bump e3_pad e3_pad_chain
  "\<lambda>g. g = 0 \<or> 12 \<le> g"
  by unfold_locales (rule e3_pad_cover)

section \<open>Directories of the three scripts\<close>

text \<open>Everything below the first block of the directory and above its last one is unchanged.\<close>

lemma dir_log_frame:
  assumes "list_all (\<lambda>c. chain_ok c \<and> clen c = BLOCK_SIZE) cs" and "nb + length cs \<le> TOTAL_BLOCKS"
    and "length im = TOTAL_BLOCKS * BLOCK_SIZE"
  shows "length (apply_writes (block_log (dir_log nb cs)) im) = TOTAL_BLOCKS * BLOCK_SIZE"
    and "b \<notin> {nb..<nb + length cs} \<Longrightarrow>
      block_at (apply_writes (block_log (dir_log nb cs)) im) b = block_at im b"
proof -
  have le: "list_all (\<lambda>c. length (chain_bytes c) \<le> BLOCK_SIZE) cs"
    using assms(1) by (simp add: list_all_iff)
  note w = dir_log_writes(2)[OF le assms(2), folded assms(3)]
  show "length (apply_writes (block_log (dir_log nb cs)) im) = TOTAL_BLOCKS * BLOCK_SIZE"
    using w assms(3) by simp
  assume b: "b \<notin> {nb..<nb + length cs}"
  show "block_at (apply_writes (block_log (dir_log nb cs)) im) b = block_at im b"
    unfolding block_at_def
  proof (rule sub_apply_writes_frame[OF w])
    fix v assume "v \<in> set (block_log (dir_log nb cs))"
    then obtain c d where cd: "(c, d) \<in> set (dir_log nb cs)" and v: "v = (c * BLOCK_SIZE, d)"
      by (auto simp: block_log_def)
    have "b \<noteq> c" and "length d = BLOCK_SIZE"
      using cd b assms(1) by (auto simp: dir_log_nth list_all_length)
    then show "b * BLOCK_SIZE + BLOCK_SIZE \<le> fst v \<or> fst v + length (snd v) \<le> b * BLOCK_SIZE"
      using apart_blocks[of b c "zeros BLOCK_SIZE" d] v by (auto simp: apart_def)
  qed
qed

text \<open>
  C7: writing a directory with \<^verbatim>\<open>make_ext2_img.py\<close> whose last entry fits the block it falls
  into takes consecutive fresh blocks, changes no other block of the image, and following
  the \<^verbatim>\<open>rec_len\<close> chains of those blocks returns exactly the entries, in order.
\<close>

theorem e2_directory_roundtrip:
  assumes "entries_ok es" and "last_fits es" and "full_image s" and "e2_nxt s + dir_span es \<le> e2_limit s"
  shows "\<exists>t. e2_write_dir_blocks es s = Inr ([e2_nxt s..<e2_nxt s + dir_span es], t) \<and>
    full_image t \<and> e2_nxt t = e2_nxt s + dir_span es \<and>
    read_directory (img t) [e2_nxt s..<e2_nxt s + dir_span es] = Some es \<and>
    (\<forall>b. b \<notin> {e2_nxt s..<e2_nxt s + dir_span es} \<longrightarrow> block_at (img t) b = block_at (img s) b)"
proof -
  have g: "list_all (\<lambda>_. True) (dir_gaps 0 es)" by (simp add: list_all_iff)
  note r = e2_dir.directory_run[OF assms(1,2) g assms(3,4)]
  have le: "e2_nxt s + length (dir_chains e2_pad_chain [] es) \<le> TOTAL_BLOCKS"
    using r(3) assms(4) e2.limit_le[of s] by simp
  note f = dir_log_frame[OF r(2) le assms(3)[unfolded full_image_def]]
  show ?thesis
    unfolding e2_write_dir_blocks_def r(1)
    using f r(3,4) by (auto simp: full_image_def e2.source_simps)
qed

text \<open>
  C8: the same for \<^verbatim>\<open>make_ext3_img.py\<close>, where besides every gap that a full block leaves must
  be empty or have room for an unused entry.
\<close>

theorem e3_directory_roundtrip:
  assumes "entries_ok es" and "last_fits es" and "list_all (\<lambda>g. g = 0 \<or> 12 \<le> g) (dir_gaps 0 es)"
    and "full_image s" and "next_block s + dir_span es \<le> TOTAL_BLOCKS"
  shows "\<exists>t. e3_write_dir_blocks es s = Inr ([next_block s..<next_block s + dir_span es], t) \<and>
    full_image t \<and> next_block t = next_block s + dir_span es \<and>
    read_directory (img t) [next_block s..<next_block s + dir_span es] = Some es \<and>
    (\<forall>b. b \<notin> {next_block s..<next_block s + dir_span es} \<longrightarrow> block_at (img t) b = block_at (img s) b)"
proof -
  note r = e3_dir.directory_run[OF assms]
  have le: "next_block s + length (dir_chains e3_pad_chain [] es) \<le> TOTAL_BLOCKS"
    using r(3) assms(5) by simp
  note f = dir_log_frame[OF r(2) le assms(4)[unfolded full_image_def]]
  show ?thesis
    unfolding e3_write_dir_blocks_def r(1)
    using f r(3,4) by (auto simp: full_image_def e3_bump_def)
qed

text \<open>
  C9: the same for \<^verbatim>\<open>make_ext4_img.py\<close>; the blocks are also recorded as allocated, for the
  block bitmaps.
\<close>

theorem e4_directory_roundtrip:
  assumes "entries_ok es" and "last_fits es" and "list_all (\<lambda>g. g = 0 \<or> 12 \<le> g) (dir_gaps 0 es)"
    and "full_image s" and "next_block s + dir_span es \<le> TOTAL_BLOCKS"
  shows "\<exists>t. e4_write_dir_blocks es s = Inr ([next_block s..<next_block s + dir_span es], t) \<and>
    full_image t \<and>
    allocated_blocks t = allocated_blocks s \<union> {next_block s..<next_block s + dir_span es} \<and>
    read_directory (img t) [next_block s..<next_block s + dir_span es] = Some es \<and>
    (\<forall>b. b \<notin> {next_block s..<next_block s + dir_span es} \<longrightarrow> block_at (img t) b = block_at (img s) b)"
proof -
  note r = e4_dir.directory_run[OF assms]
  have le: "next_block s + length (dir_chains e3_pad_chain [] es) \<le> TOTAL_BLOCKS"
    using r(3) assms(5) by simp
  note f = dir_log_frame[OF r(2) le assms(4)[unfolded full_image_def]]
  show ?thesis
    unfolding e4_write_dir_blocks_def r(1)
    using f r(3,4) by (auto simp: full_image_def e4_bump_def)
qed

section \<open>A concrete directory\<close>

lemma sample_directory:
  fixes es :: "dirent list"
  defines "es \<equiv> [(12, ''.'', 2), (2, ''..'', 2), (13, ''hello.txt'', 1)]"
  shows "entries_ok es" and "last_fits es" and "dir_gaps 0 es = []" and "dir_span es = 1"
proof -
  show "entries_ok es" by (simp add: es_def entries_ok_def dirent_ok_def is_ascii_def)
  have "sum_list (map ent_min es) \<le> BLOCK_SIZE"
    by (simp add: es_def ent_min_def min_rec_len_def layout)
  then show "last_fits es" "dir_gaps 0 es = []" "dir_span es = 1"
    by (intro small_directory; simp add: es_def)+
qed

theorem e2_directory_roundtrip_witness:
  "\<exists>t. e2_write_dir_blocks [(12, ''.'', 2), (2, ''..'', 2), (13, ''hello.txt'', 1)] e2_init = Inr ([1028], t) \<and>
    read_directory (img t) [1028] = Some [(12, ''.'', 2), (2, ''..'', 2), (13, ''hello.txt'', 1)]"
proof -
  have s: "full_image e2_init" "e2_nxt e2_init = 1028" "e2_limit e2_init = 32768"
    by (simp_all add: full_image_def e2_init_def e2_nxt_def e2_limit_def e2_FIRST_DATA_BLOCK_def
        e2_INODE_TABLE_BLOCKS_def e2_INODES_PER_GROUP_def BITMAP_CAPACITY_def BLOCK_SIZE_def)
  then show ?thesis
    using e2_directory_roundtrip[OF sample_directory(1,2), of e2_init] sample_directory(4) by auto
qed

theorem e3_directory_roundtrip_witness:
  "\<exists>t. e3_write_dir_blocks [(12, ''.'', 2), (2, ''..'', 2), (13, ''hello.txt'', 1)] e3_init = Inr ([516], t) \<and>
    read_directory (img t) [516] = Some [(12, ''.'', 2), (2, ''..'', 2), (13, ''hello.txt'', 1)]"
proof -
  have s: "full_image e3_init" "next_block e3_init = 516" "TOTAL_BLOCKS = 262144"
    by (simp_all add: full_image_def e3_init_def e3_FIRST_DATA_BLOCK_def
        e3_INODE_TABLE_BLOCKS_def e3_INODES_PER_GROUP_def BLOCK_SIZE_def TOTAL_BLOCKS_def)
  then show ?thesis
    using e3_directory_roundtrip[OF sample_directory(1,2), of e3_init] sample_directory(3,4) by auto
qed

theorem e4_directory_roundtrip_witness:
  "\<exists>t. e4_write_dir_blocks [(12, ''.'', 2), (2, ''..'', 2), (13, ''hello.txt'', 1)] e4_init = Inr ([2066], t) \<and>
    read_directory (img t) [2066] = Some [(12, ''.'', 2), (2, ''..'', 2), (13, ''hello.txt'', 1)]"
proof -
  have s: "full_image e4_init" "next_block e4_init = 2066" "TOTAL_BLOCKS = 262144"
    by (simp_all add: full_image_def e4_init_def layout)
  then show ?thesis
    using e4_directory_roundtrip[OF sample_directory(1,2), of e4_init] sample_directory(3,4) by auto
qed

end
