(* ===== verification/Stable.thy ===== *)
theory Stable
  imports Image_Core
begin

text \<open>
  Framing for images that grow: blocks are taken from a counter and inode slots are filled
  one by one.  \<open>agrees lo slot w im im' nb I\<close> says that two images have the same length, the
  same data blocks from \<open>lo\<close> to \<open>nb\<close>, and the same inode slots for the inodes in \<open>I\<close> (slot
  \<open>i\<close> has \<open>w\<close> bytes at \<open>slot i\<close>).  A read that only depends on those parts keeps its result
  while an image is extended.
\<close>

definition same_range :: "bytes \<Rightarrow> bytes \<Rightarrow> nat \<Rightarrow> nat \<Rightarrow> bool" where
  "same_range im im' a b \<longleftrightarrow> sub im' a (b - a) = sub im a (b - a)"

definition agrees ::
  "nat \<Rightarrow> (nat \<Rightarrow> nat) \<Rightarrow> nat \<Rightarrow> bytes \<Rightarrow> bytes \<Rightarrow> nat \<Rightarrow> nat set \<Rightarrow> bool" where
  "agrees lo slot w im im' nb I \<longleftrightarrow> length im' = length im \<and>
     same_range im im' (lo * BLOCK_SIZE) (nb * BLOCK_SIZE) \<and>
     (\<forall>i \<in> I. sub im' (slot i) w = sub im (slot i) w)"

lemma same_range_sub:
  assumes "same_range im im' a b" and "a \<le> off" and "off + n \<le> b"
  shows "sub im' off n = sub im off n"
proof -
  have "sub im' (a + (off - a)) n = sub (sub im' a (b - a)) (off - a) n"
    "sub im (a + (off - a)) n = sub (sub im a (b - a)) (off - a) n"
    using assms(2,3) by (simp_all add: sub_sub)
  then show ?thesis using assms(1,2) by (simp add: same_range_def)
qed

lemma same_range_refl [simp]: "same_range im im a b"
  by (simp add: same_range_def)

lemma same_range_narrow: "same_range im im' a b \<Longrightarrow> a \<le> c \<Longrightarrow> d \<le> b \<Longrightarrow> same_range im im' c d"
proof (cases "c \<le> d")
  case True
  assume "same_range im im' a b" "a \<le> c" "d \<le> b"
  with True show ?thesis unfolding same_range_def[of _ _ c d] by (intro same_range_sub) auto
qed (simp add: same_range_def)

lemma same_range_trans: "same_range im im' a b \<Longrightarrow> same_range im' im'' a b \<Longrightarrow> same_range im im'' a b"
  by (simp add: same_range_def)

lemma agrees_refl [simp]: "agrees lo slot w im im nb I"
  by (simp add: agrees_def)

lemma agrees_trans:
  "agrees lo slot w im im' nb I \<Longrightarrow> agrees lo slot w im' im'' nb I \<Longrightarrow> agrees lo slot w im im'' nb I"
  by (auto simp: agrees_def intro: same_range_trans)

lemma agrees_weaken:
  "agrees lo slot w im im' nb I \<Longrightarrow> nb' \<le> nb \<Longrightarrow> J \<subseteq> I \<Longrightarrow> agrees lo slot w im im' nb' J"
  by (auto simp: agrees_def intro!: same_range_narrow[of im im' "lo * BLOCK_SIZE" "nb * BLOCK_SIZE"])

lemma agrees_length: "agrees lo slot w im im' nb I \<Longrightarrow> length im' = length im"
  by (simp add: agrees_def)

lemma agrees_blocks:
  assumes "agrees lo slot w im im' nb I" and "lo \<le> a" and "b \<le> nb"
  shows "same_range im im' (a * BLOCK_SIZE) (b * BLOCK_SIZE)"
proof -
  have "same_range im im' (lo * BLOCK_SIZE) (nb * BLOCK_SIZE)" using assms(1) by (simp add: agrees_def)
  moreover have "lo * BLOCK_SIZE \<le> a * BLOCK_SIZE" using assms(2) by (rule mult_le_mono1)
  moreover have "b * BLOCK_SIZE \<le> nb * BLOCK_SIZE" using assms(3) by (rule mult_le_mono1)
  ultimately show ?thesis by (rule same_range_narrow)
qed

lemma agrees_slot: "agrees lo slot w im im' nb I \<Longrightarrow> i \<in> I \<Longrightarrow> same_range im im' (slot i) (slot i + w)"
  by (simp add: agrees_def same_range_def)

lemma same_range_u32: "same_range im im' a b \<Longrightarrow> a \<le> off \<Longrightarrow> off + 4 \<le> b \<Longrightarrow> u32_at im' off = u32_at im off"
  by (simp add: u32_at_def same_range_sub)

lemma same_range_u16: "same_range im im' a b \<Longrightarrow> a \<le> off \<Longrightarrow> off + 2 \<le> b \<Longrightarrow> u16_at im' off = u16_at im off"
  by (simp add: u16_at_def same_range_sub)

lemma same_range_block:
  assumes "same_range im im' (a * BLOCK_SIZE) (b * BLOCK_SIZE)" and "a \<le> c" and "c < b"
  shows "block_at im' c = block_at im c"
proof -
  have "a * BLOCK_SIZE \<le> c * BLOCK_SIZE" using assms(2) by (rule mult_le_mono1)
  moreover have "c * BLOCK_SIZE + BLOCK_SIZE \<le> b * BLOCK_SIZE"
    using mult_le_mono1[of "Suc c" b BLOCK_SIZE] assms(3) by simp
  ultimately show ?thesis unfolding block_at_def by (intro same_range_sub[OF assms(1)])
qed

text \<open>A log of writes keeps every range it does not touch.\<close>

lemma apply_writes_same_range:
  assumes "list_all (in_range (length im)) ws"
    and "\<And>w. w \<in> set ws \<Longrightarrow> b \<le> fst w \<or> fst w + length (snd w) \<le> a"
  shows "same_range im (apply_writes ws im) a b"
proof (cases "a \<le> b")
  case True
  then show ?thesis
    unfolding same_range_def using assms by (intro sub_apply_writes_frame) auto
qed (simp add: same_range_def)

text \<open>
  A log that writes to blocks from \<open>nb\<close> on and to the slot of one inode agrees with the image
  on everything before.
\<close>

lemma apply_writes_agrees:
  assumes rng: "list_all (in_range (length im)) ws"
    and wr: "\<And>v. v \<in> set ws \<Longrightarrow> nb * BLOCK_SIZE \<le> fst v \<or>
      (\<exists>j. fst v = slot j \<and> length (snd v) = w \<and> slot j + w \<le> lo * BLOCK_SIZE \<and> j \<in> J)"
    and slots: "\<And>i. i \<in> I \<Longrightarrow> slot i + w \<le> nb * BLOCK_SIZE"
    and apart: "\<And>i j. i \<in> I \<Longrightarrow> j \<in> J \<Longrightarrow> slot i + w \<le> slot j \<or> slot j + w \<le> slot i"
  shows "agrees lo slot w im (apply_writes ws im) nb I"
proof -
  have "same_range im (apply_writes ws im) (lo * BLOCK_SIZE) (nb * BLOCK_SIZE)"
    using wr by (intro apply_writes_same_range[OF rng]) fastforce
  moreover have "sub (apply_writes ws im) (slot i) w = sub im (slot i) w" if i: "i \<in> I" for i
  proof (rule sub_apply_writes_frame[OF rng])
    fix v assume v: "v \<in> set ws"
    from wr[OF v] show "slot i + w \<le> fst v \<or> fst v + length (snd v) \<le> slot i"
    proof
      assume "nb * BLOCK_SIZE \<le> fst v"
      with slots[OF i] show ?thesis by linarith
    next
      assume "\<exists>j. fst v = slot j \<and> length (snd v) = w \<and> slot j + w \<le> lo * BLOCK_SIZE \<and> j \<in> J"
      then obtain j where j: "fst v = slot j" "length (snd v) = w" "j \<in> J" by blast
      then show ?thesis using apart[OF i j(3)] by simp
    qed
  qed
  ultimately show ?thesis using rng by (simp add: agrees_def)
qed

end
