(* ===== verification/Host_Tree.thy ===== *)
theory Host_Tree
  imports Dir_Read Stable "HOL-Library.List_Lexorder" "HOL-Library.Char_ord"
begin

text \<open>
  \<^verbatim>\<open>add_tree\<close>, the recursive copy of a host directory into the image, which the three builders
  have with their own way to store a file and to write a directory.  The host file system is
  a value of type \<open>host\<close>; the image side is the locale \<open>tree_target\<close>, whose laws the three
  scripts meet.  The theory shows once that the whole tree can be read back from the image.
\<close>

section \<open>The host side\<close>

text \<open>
  What \<^verbatim>\<open>os.path.islink\<close>, \<^verbatim>\<open>isfile\<close>, \<^verbatim>\<open>isdir\<close>, \<^verbatim>\<open>os.access(.., os.X_OK)\<close> and \<^verbatim>\<open>os.listdir\<close> tell of
  a path; \<open>HDir None\<close> is a directory that cannot be listed (\<^verbatim>\<open>OSError\<close>), \<open>HOther\<close> a socket, a
  device or a name that is gone.
\<close>

datatype host =
    HLink
  | HFile bytes bool
  | HDir "(string \<times> host) list option"
  | HOther

fun listdir :: "host \<Rightarrow> (string \<times> host) list option" where
  "listdir (HDir cs) = cs"
| "listdir _ = None"

definition file_mode :: "bool \<Rightarrow> int" where
  "file_mode x = (if x then 0x81ED else 0x81A4)"

lemma py_fold_cong [fundef_cong]:
  "xs = ys \<Longrightarrow> a = b \<Longrightarrow> (\<And>x c. x \<in> set ys \<Longrightarrow> f x c = g x c) \<Longrightarrow> py_fold f xs a = py_fold g ys b"
  by (induction xs arbitrary: ys a b) (auto simp: py_bind_def split: sum.splits prod.splits intro!: ext)

lemma py_bind_cong [fundef_cong]: "m = m' \<Longrightarrow> (\<And>a. f a = g a) \<Longrightarrow> py_bind m f = py_bind m' g"
  by (rule arg_cong2[of m m' f g py_bind]) auto

lemma size_child: "(name, c) \<in> set cs \<Longrightarrow> size c < size (HDir (Some cs))"
proof -
  assume "(name, c) \<in> set cs"
  then have "size_prod (\<lambda>_. 0) size (name, c) \<le> size_list (size_prod (\<lambda>_. 0) size) cs"
    by (intro size_list_estimation') auto
  then show ?thesis by simp
qed

function add_tree ::
  "(int \<Rightarrow> bytes \<Rightarrow> ('a core_scheme, nat) py) \<Rightarrow> ('a core_scheme, nat) py \<Rightarrow>
   (nat \<Rightarrow> dirent list \<Rightarrow> int \<Rightarrow> ('a core_scheme, unit) py) \<Rightarrow> host \<Rightarrow> nat \<Rightarrow> nat \<Rightarrow>
   ('a core_scheme, dirent list) py" where
  "add_tree store alloc_inode mkdir host_dir self_ino parent_ino =
     (case listdir host_dir of
        None \<Rightarrow> py_ret []
      | Some names \<Rightarrow>
          py_fold (\<lambda>(name, full) entries.
            case full of
              HLink \<Rightarrow> py_ret entries
            | HFile data executable \<Rightarrow>
                py_bind (store (file_mode executable) data) (\<lambda>ino.
                py_seq (py_mod (tree_files_added_update (\<lambda>n. n + 1)))
                (py_ret (entries @ [(ino, name, FT_REG)])))
            | HDir _ \<Rightarrow>
                py_bind alloc_inode (\<lambda>ino.
                py_bind (add_tree store alloc_inode mkdir full ino self_ino) (\<lambda>child_entries.
                let dir_entries_list = [(ino, ''.'', FT_DIR), (self_ino, ''..'', FT_DIR)] @ child_entries;
                    nlink = 2 + int (length (filter (\<lambda>e. snd (snd e) = FT_DIR) child_entries)) in
                py_bind (mkdir ino dir_entries_list nlink) (\<lambda>_.
                py_seq (py_mod (tree_dirs_created_update (\<lambda>n. n + 1)))
                (py_ret (entries @ [(ino, name, FT_DIR)])))))
            | HOther \<Rightarrow> py_ret entries)
          (sort_key fst names) [])"
  by pat_completeness auto

termination
proof (relation "measure (\<lambda>(st, al, mk, d, self, parent). size d)")
  show "wf (measure (\<lambda>(st, al, mk, d, self, parent). size d))" by simp
next
  fix store :: "int \<Rightarrow> bytes \<Rightarrow> ('a core_scheme, nat) py" and alloc_inode mkdir d self parent names x c name full o' a
  assume "listdir d = Some names" "x \<in> set (sort_key fst names)" "(name, full) = x" "full = HDir o'"
  then have "(name, HDir o') \<in> set names" "d = HDir (Some names)" by (auto elim: listdir.elims)
  from size_child[OF this(1)] this(2) \<open>full = HDir o'\<close>
  show "((store, alloc_inode, mkdir, full, a, self), store, alloc_inode, mkdir, d, self, parent)
      \<in> measure (\<lambda>(st, al, mk, d, self, parent). size d)" by simp
qed

declare add_tree.simps [simp del]

section \<open>Reading a tree back\<close>

text \<open>
  What a copy keeps of the host tree: names in order, without links and special files; a
  directory that cannot be listed is empty.
\<close>

fun copied :: "host \<Rightarrow> bool" where
  "copied (HFile _ _) = True"
| "copied (HDir _) = True"
| "copied _ = False"

definition visible :: "(string \<times> host) list \<Rightarrow> (string \<times> host) list" where
  "visible cs = filter (\<lambda>c. copied (snd c)) (sort_key fst cs)"

definition children :: "host \<Rightarrow> (string \<times> host) list" where
  "children d = (case listdir d of None \<Rightarrow> [] | Some cs \<Rightarrow> visible cs)"

lemma size_children: "(n, c) \<in> set (children d) \<Longrightarrow> size c < size d"
  using size_child by (cases d) (auto simp: children_def visible_def split: option.splits)

function prune :: "host \<Rightarrow> host" where
  "prune d = (case d of HDir _ \<Rightarrow> HDir (Some (map (\<lambda>(n, c). (n, prune c)) (children d))) | _ \<Rightarrow> d)"
  by pat_completeness auto

termination
  by (relation "measure size") (auto dest: size_children)

declare prune.simps [simp del]

lemma prune_file: "prune (HFile data x) = HFile data x"
  by (simp add: prune.simps)

lemma prune_dir: "prune (HDir cs) = HDir (Some (map (\<lambda>(n, c). (n, prune c)) (children (HDir cs))))"
  by (simp add: prune.simps)

text \<open>
  The reader: \<open>rf\<close> reads the mode and the content of a file, \<open>rd\<close> the entries of a directory,
  through an inode; \<open>read_node n\<close> follows directories to depth \<open>n\<close> and checks that \<^verbatim>\<open>.\<close> and
  \<^verbatim>\<open>..\<close> name the directory and its parent.
\<close>

primrec read_node ::
  "(bytes \<Rightarrow> nat \<Rightarrow> int \<times> bytes) \<Rightarrow> (bytes \<Rightarrow> nat \<Rightarrow> dirent list option) \<Rightarrow> nat \<Rightarrow> bytes \<Rightarrow> nat \<Rightarrow>
   dirent \<Rightarrow> host option" where
  "read_node rf rd 0 im self e = None"
| "read_node rf rd (Suc n) im self e =
     (case e of (ino, name, ft) \<Rightarrow>
      if ft = FT_REG then Some (HFile (snd (rf im ino)) (fst (rf im ino) = file_mode True))
      else case rd im ino of
        Some (d0 # d1 # es) \<Rightarrow>
          if d0 = (ino, ''.'', FT_DIR) \<and> d1 = (self, ''..'', FT_DIR)
          then map_option (\<lambda>cs. HDir (Some cs))
            (those (map (\<lambda>e. map_option (Pair (fst (snd e))) (read_node rf rd n im ino e)) es))
          else None
      | _ \<Rightarrow> None)"

text \<open>The blocks, the inodes and the depth a tree needs, and the names of a directory.\<close>

definition dot_names :: "host \<Rightarrow> string list" where
  "dot_names d = ''.'' # ''..'' # map fst (children d)"

function node_blocks :: "(bytes \<Rightarrow> nat) \<Rightarrow> (string list \<Rightarrow> nat) \<Rightarrow> host \<Rightarrow> nat" where
  "node_blocks fs ds d =
     (case d of
        HFile data _ \<Rightarrow> fs data
      | HDir _ \<Rightarrow> sum_list (map (\<lambda>(n, c). node_blocks fs ds c) (children d)) + ds (dot_names d)
      | _ \<Rightarrow> 0)"
  by pat_completeness auto
termination
  by (relation "measure (\<lambda>(fs, ds, d). size d)") (auto dest: size_children)

function node_inodes :: "host \<Rightarrow> nat" where
  "node_inodes d =
     (case d of
        HFile data _ \<Rightarrow> 1
      | HDir _ \<Rightarrow> sum_list (map (\<lambda>(n, c). node_inodes c) (children d)) + 1
      | _ \<Rightarrow> 0)"
  by pat_completeness auto
termination
  by (relation "measure size") (auto dest: size_children)

function node_height :: "host \<Rightarrow> nat" where
  "node_height d =
     (case d of
        HDir _ \<Rightarrow> Suc (foldr max (map (\<lambda>(n, c). node_height c) (children d)) 0)
      | _ \<Rightarrow> 1)"
  by pat_completeness auto
termination
  by (relation "measure size") (auto dest: size_children)

function node_ok :: "(string list \<Rightarrow> bool) \<Rightarrow> host \<Rightarrow> bool" where
  "node_ok dok d =
     (case d of
        HFile data _ \<Rightarrow> length data < 2 ^ 32
      | HDir _ \<Rightarrow> dok (dot_names d) \<and> length (children d) < 65000 \<and>
          list_all (\<lambda>(n, c). is_ascii n \<and> length n < 256 \<and> node_ok dok c) (children d)
      | _ \<Rightarrow> True)"
  by pat_completeness auto
termination
  by (relation "measure (\<lambda>(dok, d). size d)") (auto dest: size_children)

declare node_blocks.simps [simp del] node_inodes.simps [simp del] node_height.simps [simp del]
  node_ok.simps [simp del]

definition tree_blocks :: "(bytes \<Rightarrow> nat) \<Rightarrow> (string list \<Rightarrow> nat) \<Rightarrow> (string \<times> host) list \<Rightarrow> nat" where
  "tree_blocks fs ds cs = sum_list (map (\<lambda>(n, c). node_blocks fs ds c) cs)"

definition tree_inodes :: "(string \<times> host) list \<Rightarrow> nat" where
  "tree_inodes cs = sum_list (map (\<lambda>(n, c). node_inodes c) cs)"

definition tree_ok :: "(string list \<Rightarrow> bool) \<Rightarrow> (string \<times> host) list \<Rightarrow> bool" where
  "tree_ok dok cs = list_all (\<lambda>(n, c). is_ascii n \<and> length n < 256 \<and> node_ok dok c) cs"

lemma tree_simps [simp]:
  "tree_blocks fs ds [] = 0" "tree_blocks fs ds ((n, c) # cs) = node_blocks fs ds c + tree_blocks fs ds cs"
  "tree_inodes [] = 0" "tree_inodes ((n, c) # cs) = node_inodes c + tree_inodes cs"
  "tree_ok dok []" "tree_ok dok ((n, c) # cs) \<longleftrightarrow> is_ascii n \<and> length n < 256 \<and> node_ok dok c \<and> tree_ok dok cs"
  by (simp_all add: tree_blocks_def tree_inodes_def tree_ok_def)

lemma node_dir_simps:
  "node_blocks fs ds (HDir cs) = tree_blocks fs ds (children (HDir cs)) + ds (dot_names (HDir cs))"
  "node_inodes (HDir cs) = tree_inodes (children (HDir cs)) + 1"
  "node_ok dok (HDir cs) \<longleftrightarrow> dok (dot_names (HDir cs)) \<and> length (children (HDir cs)) < 65000 \<and>
     tree_ok dok (children (HDir cs))"
  "node_blocks fs ds (HFile data x) = fs data" "node_inodes (HFile data x) = 1"
  "node_ok dok (HFile data x) \<longleftrightarrow> length data < 2 ^ 32"
  by (simp_all add: node_blocks.simps[of fs ds "HDir cs"] node_blocks.simps[of fs ds "HFile data x"]
      node_inodes.simps[of "HDir cs"] node_inodes.simps[of "HFile data x"] node_ok.simps[of dok "HDir cs"]
      node_ok.simps[of dok "HFile data x"] tree_blocks_def tree_inodes_def tree_ok_def)

lemma height_child:
  assumes "(n, c) \<in> set (children (HDir cs))"
  shows "node_height c < node_height (HDir cs)"
proof -
  have "h \<le> foldr max hs 0" if "h \<in> set hs" for h and hs :: "nat list"
    using that by (induction hs) auto
  then have "node_height c \<le> foldr max (map (\<lambda>(n, c). node_height c) (children (HDir cs))) 0"
    using assms by force
  then show ?thesis by (subst node_height.simps[of "HDir cs"]) simp
qed

lemma height_file: "node_height (HFile data x) = 1"
  by (simp add: node_height.simps)

section \<open>The image side\<close>

definition entry_names :: "dirent list \<Rightarrow> string list" where
  "entry_names es = map (\<lambda>e. fst (snd e)) es"

text \<open>
  What \<^verbatim>\<open>add_tree\<close> relies on.  \<open>ready\<close> is the builder's invariant, \<open>fspan\<close> and \<open>dspan\<close> are the
  blocks a file and a directory take, \<open>dok\<close> says which directories the script can write; each
  operation changes only fresh blocks and the slot of its own inode, and what it wrote can be
  read from every image that agrees with the current one on the blocks in use and on that
  slot.
\<close>

locale tree_target =
  fixes store :: "int \<Rightarrow> bytes \<Rightarrow> ('a core_scheme, nat) py"
    and alloc_ino :: "('a core_scheme, nat) py"
    and mkdir :: "nat \<Rightarrow> dirent list \<Rightarrow> int \<Rightarrow> ('a core_scheme, unit) py"
    and ready :: "'a core_scheme \<Rightarrow> bool"
    and nxt limit :: "'a core_scheme \<Rightarrow> nat"
    and lo :: nat and slot :: "nat \<Rightarrow> nat" and w :: nat and max_ino :: nat
    and fspan :: "bytes \<Rightarrow> nat" and dspan :: "string list \<Rightarrow> nat" and dok :: "string list \<Rightarrow> bool"
    and rf :: "bytes \<Rightarrow> nat \<Rightarrow> int \<times> bytes" and rd :: "bytes \<Rightarrow> nat \<Rightarrow> dirent list option"
  assumes store_law: "\<lbrakk>ready s; next_inode s \<le> max_ino; nxt s + fspan data \<le> limit s;
        0 \<le> mode; mode < 2 ^ 16; length data < 2 ^ 32\<rbrakk> \<Longrightarrow>
      \<exists>t. store mode data s = Inr (next_inode s, t) \<and> ready t \<and> nxt t = nxt s + fspan data \<and>
        next_inode t = next_inode s + 1 \<and> limit t = limit s \<and>
        agrees lo slot w (img s) (img t) (nxt s) ({1..max_ino} - {next_inode s}) \<and>
        (\<forall>im. agrees lo slot w (img t) im (nxt t) {next_inode s} \<longrightarrow> rf im (next_inode s) = (mode, data))"
    and mkdir_law: "\<lbrakk>ready s; 1 \<le> ino; ino \<le> max_ino; entries_ok es; dok (entry_names es);
        nxt s + dspan (entry_names es) \<le> limit s; 0 \<le> nlink; nlink < 2 ^ 16\<rbrakk> \<Longrightarrow>
      \<exists>t. mkdir ino es nlink s = Inr ((), t) \<and> ready t \<and> nxt t = nxt s + dspan (entry_names es) \<and>
        next_inode t = next_inode s \<and> limit t = limit s \<and>
        agrees lo slot w (img s) (img t) (nxt s) ({1..max_ino} - {ino}) \<and>
        (\<forall>im. agrees lo slot w (img t) im (nxt t) {ino} \<longrightarrow> rd im ino = Some es)"
    and alloc_law: "ready s \<Longrightarrow> next_inode s \<le> max_ino \<Longrightarrow>
      alloc_ino s = Inr (next_inode s, next_inode_update (\<lambda>n. n + 1) s) \<and>
      ready (next_inode_update (\<lambda>n. n + 1) s)"
    and ready_ino: "ready s \<Longrightarrow> 1 \<le> next_inode s"
    and ready_tree: "ready (tree_files_added_update g s) = ready s" "ready (tree_dirs_created_update g s) = ready s"
    and nxt_other: "nxt (next_inode_update g s) = nxt s" "nxt (tree_files_added_update g s) = nxt s"
      "nxt (tree_dirs_created_update g s) = nxt s"
    and limit_other: "limit (next_inode_update g s) = limit s" "limit (tree_files_added_update g s) = limit s"
      "limit (tree_dirs_created_update g s) = limit s"
    and max_ino_less: "max_ino < 2 ^ 32"
begin

abbreviation agree :: "bytes \<Rightarrow> bytes \<Rightarrow> nat \<Rightarrow> nat set \<Rightarrow> bool" where
  "agree \<equiv> agrees lo slot w"

text \<open>
  The postcondition of copying the nodes \<open>cs\<close>, from \<open>s\<close> to \<open>t\<close>, with the entries \<open>es\<close>.
\<close>

definition grown :: "'a core_scheme \<Rightarrow> 'a core_scheme \<Rightarrow> nat \<Rightarrow> nat \<Rightarrow> bool" where
  "grown s t nb ni \<longleftrightarrow> ready t \<and> nxt t = nxt s + nb \<and> next_inode t = next_inode s + ni \<and> limit t = limit s \<and>
     agree (img s) (img t) (nxt s) ({1..max_ino} - {next_inode s..<next_inode t})"

definition copies :: "nat \<Rightarrow> 'a core_scheme \<Rightarrow> 'a core_scheme \<Rightarrow> (string \<times> host) list \<Rightarrow> dirent list \<Rightarrow> bool" where
  "copies self s t cs es \<longleftrightarrow>
     grown s t (tree_blocks fspan dspan cs) (tree_inodes cs) \<and>
     entries_ok es \<and> entry_names es = map fst cs \<and>
     (\<forall>n im. (\<forall>c \<in> set cs. node_height (snd c) \<le> n) \<longrightarrow>
        agree (img t) im (nxt t) {next_inode s..<next_inode t} \<longrightarrow>
        map (read_node rf rd n im self) es = map (\<lambda>c. Some (prune (snd c))) cs)"

lemma grown_refl: "ready s \<Longrightarrow> grown s s 0 0"
  by (simp add: grown_def)

lemma grown_trans:
  assumes "grown s t nb ni" and "grown t u nb' ni'"
  shows "grown s u (nb + nb') (ni + ni')"
proof -
  have st: "agree (img s) (img t) (nxt s) ({1..max_ino} - {next_inode s..<next_inode u})"
    using assms by (auto simp: grown_def elim!: agrees_weaken)
  have "agree (img t) (img u) (nxt s) ({1..max_ino} - {next_inode s..<next_inode u})"
    using assms by (auto simp: grown_def elim!: agrees_weaken)
  with st show ?thesis using assms by (auto simp: grown_def intro: agrees_trans)
qed

text \<open>What was copied earlier is still there after the image has grown.\<close>

lemma grown_keeps:
  assumes "grown t u nb ni" and "agree (img u) im (nxt u) I" and "J \<subseteq> I"
    and "J \<subseteq> {1..max_ino}" and "J \<inter> {next_inode t..<next_inode u} = {}"
  shows "agree (img t) im (nxt t) J"
proof (rule agrees_trans)
  show "agree (img t) (img u) (nxt t) J"
    using assms(1,4,5) by (auto simp: grown_def elim!: agrees_weaken)
  show "agree (img u) im (nxt t) J"
    using assms(1,2,3) by (auto simp: grown_def elim!: agrees_weaken)
qed

lemma copies_append:
  assumes "copies self s t cs es" and "copies self t u cs' es'" and "ready s"
    and bound: "next_inode u \<le> max_ino + 1"
  shows "copies self s u (cs @ cs') (es @ es')"
proof -
  have g: "grown s t (tree_blocks fspan dspan cs) (tree_inodes cs)"
    "grown t u (tree_blocks fspan dspan cs') (tree_inodes cs')"
    using assms(1,2) by (simp_all add: copies_def)
  have sum: "tree_blocks fspan dspan (cs @ cs') = tree_blocks fspan dspan cs + tree_blocks fspan dspan cs'"
    "tree_inodes (cs @ cs') = tree_inodes cs + tree_inodes cs'"
    by (simp_all add: tree_blocks_def tree_inodes_def)
  have ino: "next_inode s \<le> next_inode t" "next_inode t \<le> next_inode u" "1 \<le> next_inode s"
    using g ready_ino[OF assms(3)] by (simp_all add: grown_def)
  have rd: "map (read_node rf rd n im self) (es @ es') = map (\<lambda>c. Some (prune (snd c))) (cs @ cs')"
    if h: "\<forall>c \<in> set (cs @ cs'). node_height (snd c) \<le> n"
      and a: "agree (img u) im (nxt u) {next_inode s..<next_inode u}" for n im
  proof -
    have "agree (img t) im (nxt t) {next_inode s..<next_inode t}"
      using ino bound by (intro grown_keeps[OF g(2) a]) auto
    moreover have "agree (img u) im (nxt u) {next_inode t..<next_inode u}"
      using a ino by (auto elim!: agrees_weaken)
    ultimately show ?thesis using assms(1,2) h by (simp add: copies_def)
  qed
  show ?thesis
    using grown_trans[OF g] assms(1,2) rd
    by (auto simp: copies_def sum entries_ok_def entry_names_def)
qed

end

lemma those_map_Some: "those (map Some xs) = Some xs"
  by (induction xs) simp_all

lemma those_read:
  assumes "map f es = map (\<lambda>c. Some (g (snd c))) cs" and "map h es = map fst cs"
  shows "those (map (\<lambda>e. map_option (Pair (h e)) (f e)) es) = Some (map (\<lambda>(n, c). (n, g c)) cs)"
proof -
  have len: "length es = length cs" using assms(1) map_eq_imp_length_eq by blast
  have "map (\<lambda>e. map_option (Pair (h e)) (f e)) es = map Some (map (\<lambda>(n, c). (n, g c)) cs)"
  proof (rule nth_equalityI)
    show "length (map (\<lambda>e. map_option (Pair (h e)) (f e)) es) = length (map Some (map (\<lambda>(n, c). (n, g c)) cs))"
      using len by simp
    fix i assume "i < length (map (\<lambda>e. map_option (Pair (h e)) (f e)) es)"
    then have i: "i < length es" "i < length cs" using len by simp_all
    have "f (es ! i) = Some (g (snd (cs ! i)))" "h (es ! i) = fst (cs ! i)"
      using arg_cong[OF assms(1), of "\<lambda>l. l ! i"] arg_cong[OF assms(2), of "\<lambda>l. l ! i"] i by simp_all
    then show "map (\<lambda>e. map_option (Pair (h e)) (f e)) es ! i = map Some (map (\<lambda>(n, c). (n, g c)) cs) ! i"
      using i by (simp split: prod.splits)
  qed
  then show ?thesis by (simp only: those_map_Some)
qed

lemma file_mode_simps: "(file_mode x = file_mode True) = x" "0 \<le> file_mode x" "file_mode x < 2 ^ 16"
  by (simp_all add: file_mode_def)

context tree_target
begin

lemma copy_file:
  assumes "ready s" "next_inode s \<le> max_ino" "nxt s + fspan data \<le> limit s"
    and "is_ascii name" "length name < 256" "length data < 2 ^ 32"
  shows "\<exists>t. store (file_mode x) data s = Inr (next_inode s, t) \<and>
    copies self s (tree_files_added_update g t) [(name, HFile data x)] [(next_inode s, name, FT_REG)]"
proof -
  obtain t where t: "store (file_mode x) data s = Inr (next_inode s, t)" "ready t" "nxt t = nxt s + fspan data"
    "next_inode t = next_inode s + 1" "limit t = limit s"
    "agree (img s) (img t) (nxt s) ({1..max_ino} - {next_inode s})"
    and rd: "\<And>im. agree (img t) im (nxt t) {next_inode s} \<Longrightarrow> rf im (next_inode s) = (file_mode x, data)"
    using store_law[OF assms(1-3) file_mode_simps(2,3) assms(6)] by metis
  have slot: "{next_inode s..<next_inode s + 1} = {next_inode s}" by auto
  have "map (read_node rf rd n im self) [(next_inode s, name, FT_REG)] = [Some (prune (HFile data x))]"
    if "1 \<le> n" "agree (img t) im (nxt t) {next_inode s}" for n im
    using that rd[OF that(2)] by (cases n) (simp_all add: prune_file file_mode_simps)
  moreover have "entries_ok [(next_inode s, name, FT_REG)]"
    using assms ready_ino[OF assms(1)] max_ino_less by (simp add: entries_ok_def dirent_ok_def FT_REG_def)
  ultimately show ?thesis
    using t slot by (simp add: copies_def grown_def node_dir_simps ready_tree nxt_other limit_other entry_names_def height_file)
qed

lemma copy_dir:
  assumes "ready s" and ino: "next_inode s + node_inodes (HDir cs) \<le> max_ino + 1"
    and room: "nxt s + node_blocks fspan dspan (HDir cs) \<le> limit s"
    and ok: "node_ok dok (HDir cs)" and self: "1 \<le> self" "self \<le> max_ino"
    and name: "is_ascii name" "length name < 256"
    and ch: "copies (next_inode s) (next_inode_update (\<lambda>n. n + 1) s) s2 (children (HDir cs)) ces"
  defines "es \<equiv> [(next_inode s, ''.'', FT_DIR), (self, ''..'', FT_DIR)] @ ces"
    and "nlink \<equiv> 2 + int (length (filter (\<lambda>e. snd (snd e) = FT_DIR) ces))"
  shows "\<exists>t. mkdir (next_inode s) es nlink s2 = Inr ((), t) \<and>
    copies self s (tree_dirs_created_update g t) [(name, HDir cs)] [(next_inode s, name, FT_DIR)]"
proof -
  let ?i = "next_inode s" and ?cs = "children (HDir cs)"
  have s2: "ready s2" "nxt s2 = nxt s + tree_blocks fspan dspan ?cs" "limit s2 = limit s"
    "next_inode s2 = ?i + 1 + tree_inodes ?cs"
    "agree (img s) (img s2) (nxt s) ({1..max_ino} - {?i + 1..<next_inode s2})"
    and ces: "entries_ok ces" "entry_names ces = map fst ?cs"
    using ch by (auto simp: copies_def grown_def nxt_other limit_other)
  have i: "1 \<le> ?i" "?i \<le> max_ino" "next_inode s2 \<le> max_ino + 1"
    using ready_ino[OF assms(1)] ino s2(4) by (simp_all add: node_dir_simps)
  have es: "entries_ok es" "entry_names es = dot_names (HDir cs)"
    using ces i self max_ino_less
    by (simp_all add: es_def entries_ok_def dirent_ok_def FT_DIR_def is_ascii_def entry_names_def dot_names_def)
  have "length ces = length ?cs" using ces(2) by (metis entry_names_def length_map)
  then have "length (filter (\<lambda>e. snd (snd e) = FT_DIR) ces) < 65000"
    using ok length_filter_le[of "\<lambda>e. snd (snd e) = FT_DIR" ces] by (simp add: node_dir_simps)
  then have nl: "0 \<le> nlink" "nlink < 2 ^ 16" by (simp_all add: nlink_def)
  have "dok (entry_names es)" "nxt s2 + dspan (entry_names es) \<le> limit s2"
    using ok room s2 by (simp_all add: es node_dir_simps)
  from mkdir_law[OF s2(1) i(1,2) es(1) this nl] obtain t where
    t: "mkdir ?i es nlink s2 = Inr ((), t)" "ready t" "nxt t = nxt s2 + dspan (dot_names (HDir cs))"
    "next_inode t = next_inode s2" "limit t = limit s2"
    and at: "agree (img s2) (img t) (nxt s2) ({1..max_ino} - {?i})"
    and rd: "\<And>im. agree (img t) im (nxt t) {?i} \<Longrightarrow> rd im ?i = Some es"
    unfolding es(2) by metis
  have g: "agree (img s) (img t) (nxt s) ({1..max_ino} - {?i..<next_inode t})"
  proof (rule agrees_trans)
    show "agree (img s) (img s2) (nxt s) ({1..max_ino} - {?i..<next_inode t})"
      using t(4) by (auto intro: agrees_weaken[OF s2(5)])
    show "agree (img s2) (img t) (nxt s) ({1..max_ino} - {?i..<next_inode t})"
      using s2(2,4) t(4) by (intro agrees_weaken[OF at]) auto
  qed
  have read: "map (read_node rf rd n im self) [(?i, name, FT_DIR)] = [Some (prune (HDir cs))]"
    if n: "node_height (HDir cs) \<le> n" and a: "agree (img t) im (nxt t) {?i..<next_inode t}" for n im
  proof -
    obtain m where m: "n = Suc m" using n by (cases n) (simp_all add: node_height.simps)
    have h: "\<forall>c \<in> set ?cs. node_height (snd c) \<le> m"
    proof
      fix c assume "c \<in> set ?cs"
      then show "node_height (snd c) \<le> m" using height_child[of "fst c" "snd c" cs] n m by simp
    qed
    have "agree (img t) im (nxt t) {?i}" using s2(4) t(4) by (intro agrees_weaken[OF a]) auto
    from rd[OF this] have r: "rd im ?i = Some es" .
    have "agree (img s2) im (nxt s2) {?i + 1..<next_inode s2}"
    proof (rule agrees_trans)
      show "agree (img s2) (img t) (nxt s2) {?i + 1..<next_inode s2}"
        using i by (intro agrees_weaken[OF at]) auto
      show "agree (img t) im (nxt s2) {?i + 1..<next_inode s2}"
        using t(3,4) by (intro agrees_weaken[OF a]) auto
    qed
    then have "map (read_node rf rd m im ?i) ces = map (\<lambda>c. Some (prune (snd c))) ?cs"
      using ch h by (simp add: copies_def)
    from those_read[OF this, of "\<lambda>e. fst (snd e)"] ces(2) show ?thesis
      by (simp add: m r es_def FT_DIR_def FT_REG_def prune_dir entry_names_def)
  qed
  have "entries_ok [(?i, name, FT_DIR)]"
    using i max_ino_less name by (simp add: entries_ok_def dirent_ok_def FT_DIR_def)
  then show ?thesis
    using t g read s2 by (simp add: copies_def grown_def ready_tree nxt_other limit_other node_dir_simps entry_names_def)
qed

end

context tree_target
begin

text \<open>One round of the loop of \<^verbatim>\<open>add_tree\<close>.\<close>

abbreviation tree_round :: "nat \<Rightarrow> string \<times> host \<Rightarrow> dirent list \<Rightarrow> ('a core_scheme, dirent list) py" where
  "tree_round self \<equiv> (\<lambda>(name, full) entries.
     case full of
       HLink \<Rightarrow> py_ret entries
     | HFile data executable \<Rightarrow>
         py_bind (store (file_mode executable) data) (\<lambda>ino.
         py_seq (py_mod (tree_files_added_update (\<lambda>n. n + 1)))
         (py_ret (entries @ [(ino, name, FT_REG)])))
     | HDir _ \<Rightarrow>
         py_bind alloc_ino (\<lambda>ino.
         py_bind (add_tree store alloc_ino mkdir full ino self) (\<lambda>child_entries.
         let dir_entries_list = [(ino, ''.'', FT_DIR), (self, ''..'', FT_DIR)] @ child_entries;
             nlink = 2 + int (length (filter (\<lambda>e. snd (snd e) = FT_DIR) child_entries)) in
         py_bind (mkdir ino dir_entries_list nlink) (\<lambda>_.
         py_seq (py_mod (tree_dirs_created_update (\<lambda>n. n + 1)))
         (py_ret (entries @ [(ino, name, FT_DIR)])))))
     | HOther \<Rightarrow> py_ret entries)"

lemma fold_copied: "py_fold (tree_round self) xs a = py_fold (tree_round self) (filter (\<lambda>c. copied (snd c)) xs) a"
proof (induction xs arbitrary: a)
  case (Cons x xs)
  obtain n c where x: "x = (n, c)" by (cases x)
  show ?case
  proof (cases "copied c")
    case True
    have "py_fold (tree_round self) xs = py_fold (tree_round self) (filter (\<lambda>c. copied (snd c)) xs)"
      by (rule ext) (rule Cons.IH)
    with True show ?thesis by (simp add: x)
  next
    case False
    then have "tree_round self x a = py_ret a" by (cases c) (simp_all add: x)
    with False Cons.IH show ?thesis by (simp add: x)
  qed
qed simp

definition copyable :: "host \<Rightarrow> bool" where
  "copyable d \<longleftrightarrow> (\<forall>s self parent. ready s \<longrightarrow> tree_ok dok (children d) \<longrightarrow>
     next_inode s + tree_inodes (children d) \<le> max_ino + 1 \<longrightarrow>
     nxt s + tree_blocks fspan dspan (children d) \<le> limit s \<longrightarrow> 1 \<le> self \<longrightarrow> self \<le> max_ino \<longrightarrow>
     (\<exists>es t. add_tree store alloc_ino mkdir d self parent s = Inr (es, t) \<and> copies self s t (children d) es))"

lemma round_run:
  assumes "ready s" "copied c" "is_ascii name" "length name < 256" "node_ok dok c" "1 \<le> self" "self \<le> max_ino"
    and ino: "next_inode s + node_inodes c \<le> max_ino + 1" and room: "nxt s + node_blocks fspan dspan c \<le> limit s"
    and sub: "\<And>cs. c = HDir cs \<Longrightarrow> copyable c"
  shows "\<exists>e t. tree_round self (name, c) acc s = Inr (acc @ [e], t) \<and> copies self s t [(name, c)] [e]"
proof (cases c)
  case (HFile data x)
  have "next_inode s \<le> max_ino" "nxt s + fspan data \<le> limit s" "length data < 2 ^ 32"
    using assms HFile by (simp_all add: node_dir_simps)
  from copy_file[OF assms(1) this(1,2) assms(3,4) this(3), of x self "\<lambda>n. n + 1"]
  obtain t where "store (file_mode x) data s = Inr (next_inode s, t)"
    "copies self s (tree_files_added_update (\<lambda>n. n + 1) t) [(name, HFile data x)] [(next_inode s, name, FT_REG)]"
    by blast
  then show ?thesis using HFile by (auto simp: py_bind_run py_seq_run)
next
  case (HDir cs)
  let ?s = "next_inode_update (\<lambda>n. n + 1) s" and ?i = "next_inode s"
  have i: "?i \<le> max_ino" using ino HDir by (simp add: node_dir_simps)
  have a: "alloc_ino s = Inr (?i, ?s)" "ready ?s" using alloc_law[OF assms(1) i] by auto
  have "\<exists>es t. add_tree store alloc_ino mkdir c ?i self ?s = Inr (es, t) \<and> copies ?i ?s t (children c) es"
    using sub[OF HDir] a(2) assms(5) ino room ready_ino[OF assms(1)] i
    unfolding copyable_def by (simp add: HDir node_dir_simps nxt_other limit_other)
  then obtain ces s2 where ch: "add_tree store alloc_ino mkdir c ?i self ?s = Inr (ces, s2)"
    "copies ?i ?s s2 (children c) ces" by blast
  from copy_dir[OF assms(1) ino[unfolded HDir] room[unfolded HDir] assms(5)[unfolded HDir] assms(6,7,3,4)
      ch(2)[unfolded HDir]]
  obtain t where "mkdir ?i ([(?i, ''.'', FT_DIR), (self, ''..'', FT_DIR)] @ ces)
      (2 + int (length (filter (\<lambda>e. snd (snd e) = FT_DIR) ces))) s2 = Inr ((), t)"
    "copies self s (tree_dirs_created_update (\<lambda>n. n + 1) t) [(name, HDir cs)] [(?i, name, FT_DIR)]"
    by blast
  then show ?thesis using a ch(1) HDir by (auto simp: py_bind_run py_seq_run Let_def)
qed (use assms in simp_all)

lemma fold_run:
  assumes "ready s" "list_all (\<lambda>c. copied (snd c)) cs" "tree_ok dok cs" "1 \<le> self" "self \<le> max_ino"
    and "next_inode s + tree_inodes cs \<le> max_ino + 1" and "nxt s + tree_blocks fspan dspan cs \<le> limit s"
    and "\<And>n c. (n, c) \<in> set cs \<Longrightarrow> copyable c"
  shows "\<exists>es t. py_fold (tree_round self) cs acc s = Inr (acc @ es, t) \<and> copies self s t cs es"
  using assms
proof (induction cs arbitrary: s acc)
  case Nil
  then show ?case by (auto simp: copies_def grown_refl entries_ok_def entry_names_def)
next
  case (Cons x cs)
  obtain n c where x: "x = (n, c)" by (cases x)
  have "\<exists>e t. tree_round self (n, c) acc s = Inr (acc @ [e], t) \<and> copies self s t [(n, c)] [e]"
    using Cons.prems by (intro round_run) (auto simp: x)
  then obtain e t where e: "tree_round self (n, c) acc s = Inr (acc @ [e], t)" "copies self s t [(n, c)] [e]"
    by blast
  have g: "ready t" "nxt t = nxt s + node_blocks fspan dspan c" "next_inode t = next_inode s + node_inodes c"
    "limit t = limit s"
    using e(2) by (simp_all add: copies_def grown_def)
  have "\<exists>es u. py_fold (tree_round self) cs (acc @ [e]) t = Inr ((acc @ [e]) @ es, u) \<and> copies self t u cs es"
    using Cons.prems g by (intro Cons.IH) (auto simp: x)
  then obtain es u where u: "py_fold (tree_round self) cs (acc @ [e]) t = Inr ((acc @ [e]) @ es, u)"
    "copies self t u cs es" by blast
  have "next_inode u \<le> max_ino + 1" using u(2) g Cons.prems(6) by (simp add: copies_def grown_def x)
  from copies_append[OF e(2) u(2) Cons.prems(1) this] have "copies self s u (x # cs) (e # es)" by (simp add: x)
  then show ?case using e(1) u(1) by (intro exI[of _ "e # es"] exI[of _ u]) (simp add: x py_bind_run)
qed

text \<open>The copy of a whole tree.\<close>

lemma add_tree_copies: "copyable d"
proof (induction d rule: measure_induct_rule[of size])
  case (less d)
  show ?case
  proof (cases "listdir d")
    case None
    then have "add_tree store alloc_ino mkdir d self parent = py_ret []" for self parent
      by (simp add: add_tree.simps)
    with None show ?thesis
      by (auto simp: copyable_def children_def copies_def grown_refl entries_ok_def entry_names_def)
  next
    case (Some cs)
    have sub: "copyable c" if "(n, c) \<in> set (children d)" for n c
      using less.IH size_children[OF that] by blast
    have eq: "add_tree store alloc_ino mkdir d self parent = py_fold (tree_round self) (children d) []" for self parent
      unfolding children_def visible_def using Some fold_copied[of self "sort_key fst cs" "[]"]
      by (subst add_tree.simps) simp
    have "list_all (\<lambda>c. copied (snd c)) (children d)"
      using Some by (simp add: children_def visible_def list_all_iff)
    then show ?thesis
      unfolding copyable_def eq using fold_run[where acc = "[]"] sub by fastforce
  qed
qed

end

end
