(* ===== verification/Phases.thy ===== *)
theory Phases
  imports Host_Tree
begin

text \<open>
  How the straight-line part of a builder's \<^verbatim>\<open>main\<close> is reasoned about.  A phase takes blocks and
  inode numbers, fills the slots of the inodes in a set \<open>J\<close>, and leaves something behind that can
  be read from every image that agrees with the current one on the blocks in use and on \<open>J\<close>.
  Phases that fill different slots compose.
\<close>

context tree_target
begin

definition stepped :: "'a core_scheme \<Rightarrow> 'a core_scheme \<Rightarrow> nat set \<Rightarrow> nat \<Rightarrow> nat \<Rightarrow> bool" where
  "stepped s t J nb ni \<longleftrightarrow> ready t \<and> nxt t = nxt s + nb \<and> next_inode t = next_inode s + ni \<and> limit t = limit s \<and>
     agree (img s) (img t) (nxt s) ({1..max_ino} - J)"

definition holds :: "'a core_scheme \<Rightarrow> nat set \<Rightarrow> (bytes \<Rightarrow> bool) \<Rightarrow> bool" where
  "holds s I P \<longleftrightarrow> I \<subseteq> {1..max_ino} \<and> (\<forall>im. agree (img s) im (nxt s) I \<longrightarrow> P im)"

definition phase ::
  "('a core_scheme, 'r) py \<Rightarrow> 'a core_scheme \<Rightarrow> 'r \<Rightarrow> nat set \<Rightarrow> nat \<Rightarrow> nat \<Rightarrow> (bytes \<Rightarrow> bool) \<Rightarrow> bool" where
  "phase m s r J nb ni P \<longleftrightarrow> (\<exists>t. m s = Inr (r, t) \<and> stepped s t J nb ni \<and> holds t J P)"

lemma stepped_trans:
  assumes "stepped s t J nb ni" and "stepped t u K nb' ni'"
  shows "stepped s u (J \<union> K) (nb + nb') (ni + ni')"
proof -
  have "agree (img s) (img t) (nxt s) ({1..max_ino} - (J \<union> K))"
    "agree (img t) (img u) (nxt s) ({1..max_ino} - (J \<union> K))"
    using assms by (auto simp: stepped_def elim!: agrees_weaken)
  then show ?thesis using assms by (auto simp: stepped_def intro: agrees_trans)
qed

lemma holds_stepped:
  assumes "holds s I P" and "stepped s t J nb ni" and "I \<inter> J = {}"
  shows "holds t I P"
proof -
  have I: "I \<subseteq> {1..max_ino}" using assms(1) by (simp add: holds_def)
  have "agree (img s) im (nxt s) I" if "agree (img t) im (nxt t) I" for im
  proof (rule agrees_trans)
    show "agree (img s) (img t) (nxt s) I" using assms(2,3) I by (auto simp: stepped_def elim!: agrees_weaken)
    show "agree (img t) im (nxt s) I" using that assms(2) by (auto simp: stepped_def elim!: agrees_weaken)
  qed
  then show ?thesis using assms(1) by (simp add: holds_def)
qed

lemma holds_conj:
  assumes "holds s I P" and "holds s K Q"
  shows "holds s (I \<union> K) (\<lambda>im. P im \<and> Q im)"
proof -
  have "agree (img s) im (nxt s) I" "agree (img s) im (nxt s) K" if "agree (img s) im (nxt s) (I \<union> K)" for im
    using agrees_weaken[OF that order.refl] by auto
  then show ?thesis using assms by (auto simp: holds_def)
qed

lemma holds_mono: "holds s I P \<Longrightarrow> (\<And>im. P im \<Longrightarrow> Q im) \<Longrightarrow> holds s I Q"
  by (simp add: holds_def)

lemma phase_bind:
  assumes m: "phase m s r J nb ni P"
    and f: "\<And>t. ready t \<Longrightarrow> nxt t = nxt s + nb \<Longrightarrow> next_inode t = next_inode s + ni \<Longrightarrow> limit t = limit s \<Longrightarrow>
      phase (f r) t r' K nb' ni' Q"
    and "J \<inter> K = {}"
  shows "phase (py_bind m f) s r' (J \<union> K) (nb + nb') (ni + ni') (\<lambda>im. P im \<and> Q im)"
proof -
  obtain t where t: "m s = Inr (r, t)" "stepped s t J nb ni" "holds t J P" using m by (auto simp: phase_def)
  obtain u where u: "f r t = Inr (r', u)" "stepped t u K nb' ni'" "holds u K Q"
    using f[of t] t(2) by (auto simp: phase_def stepped_def)
  have "holds u J P" using t(3) u(2) assms(3) by (rule holds_stepped)
  with u(3) have "holds u (J \<union> K) (\<lambda>im. P im \<and> Q im)" by (intro holds_conj)
  moreover have "py_bind m f s = Inr (r', u)" using t(1) u(1) by (simp add: py_bind_run)
  ultimately show ?thesis using stepped_trans[OF t(2) u(2)] by (auto simp: phase_def)
qed

lemma phase_seq:
  assumes "phase m s () J nb ni P"
    and "\<And>t. ready t \<Longrightarrow> nxt t = nxt s + nb \<Longrightarrow> next_inode t = next_inode s + ni \<Longrightarrow> limit t = limit s \<Longrightarrow>
      phase k t r' K nb' ni' Q"
    and "J \<inter> K = {}"
  shows "phase (py_seq m k) s r' (J \<union> K) (nb + nb') (ni + ni') (\<lambda>im. P im \<and> Q im)"
  unfolding py_seq_def using assms by (rule phase_bind)

lemma phase_ret: "ready s \<Longrightarrow> phase (py_ret r) s r {} 0 0 (\<lambda>_. True)"
  by (simp add: phase_def stepped_def holds_def)

lemma phase_mono:
  "phase m s r J nb ni P \<Longrightarrow> r = r' \<Longrightarrow> J = J' \<Longrightarrow> nb = nb' \<Longrightarrow> ni = ni' \<Longrightarrow> (\<And>im. P im \<Longrightarrow> Q im) \<Longrightarrow>
   phase m s r' J' nb' ni' Q"
  unfolding phase_def using holds_mono by blast

lemma phase_alloc:
  "ready s \<Longrightarrow> next_inode s \<le> max_ino \<Longrightarrow> phase alloc_ino s (next_inode s) {} 0 1 (\<lambda>_. True)"
  using alloc_law[of s] by (auto simp: phase_def stepped_def holds_def nxt_other limit_other)

text \<open>A file whose inode number is taken first.\<close>

lemma phase_store:
  assumes "ready s" "next_inode s \<le> max_ino" "nxt s + fspan data \<le> limit s" "0 \<le> mode" "mode < 2 ^ 16" "length data < 2 ^ 32"
  shows "phase (store mode data) s (next_inode s) {next_inode s} (fspan data) 1 (\<lambda>im. rf im (next_inode s) = (mode, data))"
  using store_law[OF assms] ready_ino[OF assms(1)] assms(2) by (auto simp: phase_def stepped_def holds_def)

lemma phase_mkdir:
  assumes "ready s" "1 \<le> ino" "ino \<le> max_ino" "entries_ok es" "dok (entry_names es)"
    "nxt s + dspan (entry_names es) \<le> limit s" "0 \<le> nlink" "nlink < 2 ^ 16"
  shows "phase (mkdir ino es nlink) s () {ino} (dspan (entry_names es)) 0 (\<lambda>im. rd im ino = Some es)"
  using mkdir_law[OF assms] assms(2,3) by (auto simp: phase_def stepped_def holds_def)

text \<open>The tree copy as a phase.\<close>

lemma phase_add_tree:
  assumes "ready s" "tree_ok dok (children d)" "next_inode s + tree_inodes (children d) \<le> max_ino + 1"
    "nxt s + tree_blocks fspan dspan (children d) \<le> limit s" "1 \<le> self" "self \<le> max_ino"
  shows "\<exists>es. phase (add_tree store alloc_ino mkdir d self parent) s es
      {next_inode s..<next_inode s + tree_inodes (children d)}
      (tree_blocks fspan dspan (children d)) (tree_inodes (children d))
      (\<lambda>im. \<forall>n. (\<forall>c \<in> set (children d). node_height (snd c) \<le> n) \<longrightarrow>
         map (read_node rf rd n im self) es = map (\<lambda>c. Some (prune (snd c))) (children d)) \<and>
    entries_ok es \<and> entry_names es = map fst (children d)"
proof -
  obtain es t where t: "add_tree store alloc_ino mkdir d self parent s = Inr (es, t)" "copies self s t (children d) es"
    using add_tree_copies[of d] assms unfolding copyable_def by blast
  then show ?thesis
    using ready_ino[OF assms(1)] assms(3)
    by (intro exI[of _ es]) (auto simp: phase_def copies_def grown_def stepped_def holds_def)
qed

text \<open>A directory of the image that holds a whole host tree.\<close>

lemma phase_tree_dir:
  assumes "ready s" and ok: "node_ok dok (HDir cs)" and ino: "next_inode s + node_inodes (HDir cs) \<le> max_ino + 1"
    and room: "nxt s + node_blocks fspan dspan (HDir cs) \<le> limit s" and self: "1 \<le> self" "self \<le> max_ino"
    and name: "is_ascii name" "length name < 256"
  shows "phase (py_bind alloc_ino (\<lambda>i. py_bind (add_tree store alloc_ino mkdir (HDir cs) i self) (\<lambda>es.
        py_seq (mkdir i ([(i, ''.'', FT_DIR), (self, ''..'', FT_DIR)] @ es)
          (2 + int (length (filter (\<lambda>e. snd (snd e) = FT_DIR) es)))) (py_ret i)))) s (next_inode s)
      {next_inode s..<next_inode s + node_inodes (HDir cs)} (node_blocks fspan dspan (HDir cs)) (node_inodes (HDir cs))
      (\<lambda>im. \<forall>n. node_height (HDir cs) \<le> n \<longrightarrow>
         read_node rf rd n im self (next_inode s, name, FT_DIR) = Some (prune (HDir cs)))"
proof -
  let ?i = "next_inode s" and ?s = "next_inode_update (\<lambda>n. n + 1) s"
  have i: "?i \<le> max_ino" "1 \<le> ?i" using ino ready_ino[OF assms(1)] by (simp_all add: node_dir_simps)
  have a: "alloc_ino s = Inr (?i, ?s)" "ready ?s" using alloc_law[OF assms(1) i(1)] by auto
  have "\<exists>es t. add_tree store alloc_ino mkdir (HDir cs) ?i self ?s = Inr (es, t) \<and> copies ?i ?s t (children (HDir cs)) es"
    using add_tree_copies[of "HDir cs"] a(2) ok ino room i unfolding copyable_def
    by (simp add: node_dir_simps nxt_other limit_other)
  then obtain es t where t: "add_tree store alloc_ino mkdir (HDir cs) ?i self ?s = Inr (es, t)"
    "copies ?i ?s t (children (HDir cs)) es" by blast
  from copy_dir[OF assms(1) ino room ok self name t(2), of id] obtain u where
    u: "mkdir ?i ([(?i, ''.'', FT_DIR), (self, ''..'', FT_DIR)] @ es)
      (2 + int (length (filter (\<lambda>e. snd (snd e) = FT_DIR) es))) t = Inr ((), u)"
    "copies self s (tree_dirs_created_update id u) [(name, HDir cs)] [(?i, name, FT_DIR)]" by blast
  have "tree_dirs_created_update id u = u" by simp
  then have c: "copies self s u [(name, HDir cs)] [(?i, name, FT_DIR)]" using u(2) by (simp only:)
  then have "stepped s u {?i..<?i + node_inodes (HDir cs)} (node_blocks fspan dspan (HDir cs)) (node_inodes (HDir cs))"
    by (auto simp: copies_def grown_def stepped_def)
  moreover have "holds u {?i..<?i + node_inodes (HDir cs)} (\<lambda>im. \<forall>n. node_height (HDir cs) \<le> n \<longrightarrow>
         read_node rf rd n im self (?i, name, FT_DIR) = Some (prune (HDir cs)))"
    using c i ino by (auto simp: copies_def grown_def holds_def)
  ultimately show ?thesis
    unfolding phase_def using a(1) t(1) u(1) by (intro exI[of _ u]) (simp add: py_bind_run py_seq_run)
qed

end

end
