(* ===== verification/File_Blocks.thy ===== *)
theory File_Blocks
  imports Image_Core
begin

text \<open>
  Block-mapped files of \<^verbatim>\<open>make_ext2_img.py\<close> and \<^verbatim>\<open>make_ext3_img.py\<close> (the two scripts have
  these functions in the same words): \<^verbatim>\<open>alloc_file_blocks\<close>, \<^verbatim>\<open>write_file_data\<close> and
  \<^verbatim>\<open>write_inode\<close>, each over the script's own \<^verbatim>\<open>alloc_block\<close>.  The theory ends with the
  closed form of where every block of a file goes and the log of writes the two functions
  produce; \<open>File_Read\<close> shows that the file is read back.
\<close>

section \<open>Operations\<close>

text \<open>A pointer that is \<^verbatim>\<open>None\<close> or \<^verbatim>\<open>0\<close> is false in a Python condition.\<close>

fun truthy :: "nat option \<Rightarrow> bool" where
  "truthy None = False"
| "truthy (Some n) = (n \<noteq> 0)"

definition num_blocks_of :: "bytes \<Rightarrow> nat" where
  "num_blocks_of data = (if 0 < length data then ceil_div (length data) BLOCK_SIZE else 0)"

definition alloc_file_blocks ::
  "('a core_scheme, nat) py \<Rightarrow> bytes \<Rightarrow> ('a core_scheme, nat list \<times> nat option \<times> nat option) py" where
  "alloc_file_blocks alloc data =
     (let num_blocks = num_blocks_of data in
      py_bind (py_times (min num_blocks 12) alloc) (\<lambda>direct.
      py_bind (if num_blocks > 12
               then py_bind alloc (\<lambda>indirect.
                    let sindirect_count = min (num_blocks - 12) ADDRS_PER_INDIRECT in
                    py_bind (py_times sindirect_count alloc) (\<lambda>more.
                    py_ret (direct @ more, Some indirect)))
               else py_ret (direct, None)) (\<lambda>(blocks, indirect).
      py_bind (if num_blocks > 12 + ADDRS_PER_INDIRECT
               then py_bind alloc (\<lambda>dindirect.
                    let remaining = num_blocks - 12 - ADDRS_PER_INDIRECT in
                    py_bind (py_times remaining alloc) (\<lambda>more.
                    py_ret (blocks @ more, Some dindirect)))
               else py_ret (blocks, None)) (\<lambda>(blocks, dindirect).
      py_ret (blocks, indirect, dindirect)))))"

text \<open>
  A block of pointers: \<^verbatim>\<open>struct.pack('<I', blk)\<close> for each block, padded with zero bytes
  to a block.
\<close>

definition pointer_block :: "nat list \<Rightarrow> bytes result" where
  "pointer_block blks =
     res_bind (pack_le (map (\<lambda>b. U 4 (int b)) blks)) (\<lambda>d. Inr (d @ zeros (BLOCK_SIZE - length d)))"

text \<open>The loop that writes the content, which \<^verbatim>\<open>make_ext4_img.py\<close> has as well.\<close>

definition write_chunks :: "bytes \<Rightarrow> nat list \<Rightarrow> ('a core_scheme, unit) py" where
  "write_chunks data blocks =
     py_each (\<lambda>(i, blk).
        let start = i * BLOCK_SIZE; stop = min (start + BLOCK_SIZE) (length data) in
        if start < length data then write_block blk (sub data start (stop - start))
        else py_ret ()) (List.enumerate 0 blocks)"

definition write_file_data ::
  "('a core_scheme, nat) py \<Rightarrow> bytes \<Rightarrow> nat list \<Rightarrow> nat option \<Rightarrow> nat option \<Rightarrow>
   ('a core_scheme, unit) py" where
  "write_file_data alloc data blocks indirect dindirect =
     py_seq (write_chunks data blocks)
     (py_seq (if truthy indirect
        then let sindirect_blocks = take ADDRS_PER_INDIRECT (drop 12 blocks) in
             py_bind (py_lift (pointer_block sindirect_blocks)) (\<lambda>indirect_data.
             write_block (the indirect) indirect_data)
        else py_ret ())
     (if truthy dindirect
        then let dind_blocks = drop (12 + ADDRS_PER_INDIRECT) blocks;
                 num_ind_blocks = ceil_div (length dind_blocks) ADDRS_PER_INDIRECT in
             py_bind (py_collect (\<lambda>g.
               py_bind alloc (\<lambda>ind_blk.
               let group = sub dind_blocks (g * ADDRS_PER_INDIRECT) ADDRS_PER_INDIRECT in
               py_bind (py_lift (pointer_block group)) (\<lambda>ind_data.
               py_seq (write_block ind_blk ind_data) (py_ret ind_blk)))) [0..<num_ind_blocks])
             (\<lambda>ind_block_ptrs.
             py_bind (py_lift (pointer_block ind_block_ptrs)) (\<lambda>dind_data.
             write_block (the dindirect) dind_data))
        else py_ret ()))"

definition INODE_SIZE :: nat where
  "INODE_SIZE = 128"

declare INODE_SIZE_def [layout]

text \<open>\<^verbatim>\<open>i_blocks\<close>: 512-byte sectors of data, indirect and double-indirect blocks.\<close>

definition inode_sectors :: "nat \<Rightarrow> nat option \<Rightarrow> nat option \<Rightarrow> nat" where
  "inode_sectors blocks indirect dindirect =
     (let total_blks = blocks + (if truthy indirect then 1 else 0);
          dind_data_blocks =
            (if blocks > 12 + ADDRS_PER_INDIRECT then blocks - 12 - ADDRS_PER_INDIRECT else 0);
          dind_ind_blocks = ceil_div dind_data_blocks ADDRS_PER_INDIRECT;
          total_blks = (if truthy dindirect then total_blks + 1 + dind_ind_blocks else total_blks)
      in total_blks * (BLOCK_SIZE div 512))"

definition i_block_field :: "nat list \<Rightarrow> nat option \<Rightarrow> nat option \<Rightarrow> nat \<Rightarrow> field" where
  "i_block_field block_ptrs indirect dindirect i =
     U 4 (if i < 12 then (if i < length block_ptrs then int (block_ptrs ! i) else 0)
          else if i = 12 then (if truthy indirect then int (the indirect) else 0)
          else if i = 13 then (if truthy dindirect then int (the dindirect) else 0)
          else 0)"

definition inode_bytes ::
  "int \<Rightarrow> int \<Rightarrow> nat \<Rightarrow> nat \<Rightarrow> nat list \<Rightarrow> int \<Rightarrow> nat option \<Rightarrow> nat option \<Rightarrow> int \<Rightarrow> int \<Rightarrow>
   bytes result" where
  "inode_bytes now mode i_size blocks block_ptrs nlink indirect dindirect uid gid =
     res_bind (pack_le
       [U 2 mode, U 2 uid, U 4 (int i_size), U 4 now, U 4 now, U 4 now, U 4 0,
        U 2 gid, U 2 nlink, U 4 (int (inode_sectors blocks indirect dindirect)), U 4 0, U 4 0])
     (\<lambda>data. res_bind (pack_le (map (i_block_field block_ptrs indirect dindirect) [0..<15]))
     (\<lambda>ptrs. let data = data @ ptrs in Inr (data @ zeros (INODE_SIZE - length data))))"

definition inode_offset :: "nat \<Rightarrow> nat" where
  "inode_offset ino = 4 * BLOCK_SIZE + (ino - 1) * INODE_SIZE"

definition write_inode ::
  "int \<Rightarrow> nat \<Rightarrow> int \<Rightarrow> nat \<Rightarrow> nat \<Rightarrow> nat list \<Rightarrow> int \<Rightarrow> nat option \<Rightarrow> nat option \<Rightarrow> int \<Rightarrow> int \<Rightarrow>
   ('a core_scheme, unit) py" where
  "write_inode now ino mode i_size blocks block_ptrs nlink indirect dindirect uid gid =
     py_bind (py_lift (inode_bytes now mode i_size blocks block_ptrs nlink indirect dindirect uid gid))
       (\<lambda>data. py_mod (img_update
          (slice_set (inode_offset ino) (inode_offset ino + INODE_SIZE) data)))"

section \<open>Where the blocks of a file go\<close>

text \<open>
  With \<open>nb\<close> the first free block, block \<open>i\<close> of the file is \<open>file_block nb i\<close>: the indirect
  block sits between the direct and the singly indirect run, the double-indirect root
  between that and the rest, and the second-level indirect blocks follow the data.
\<close>

definition file_block :: "nat \<Rightarrow> nat \<Rightarrow> nat" where
  "file_block nb i =
     (if i < 12 then nb + i else if i < 12 + ADDRS_PER_INDIRECT then nb + i + 1 else nb + i + 2)"

definition file_blocks :: "nat \<Rightarrow> nat \<Rightarrow> nat list" where
  "file_blocks nb n = map (file_block nb) [0..<n]"

definition indirect_of :: "nat \<Rightarrow> nat \<Rightarrow> nat option" where
  "indirect_of nb n = (if n > 12 then Some (nb + 12) else None)"

definition dindirect_of :: "nat \<Rightarrow> nat \<Rightarrow> nat option" where
  "dindirect_of nb n =
     (if n > 12 + ADDRS_PER_INDIRECT then Some (nb + 13 + ADDRS_PER_INDIRECT) else None)"

definition data_span :: "nat \<Rightarrow> nat" where
  "data_span n = n + (if n > 12 then 1 else 0) + (if n > 12 + ADDRS_PER_INDIRECT then 1 else 0)"

definition dind_groups :: "nat \<Rightarrow> nat" where
  "dind_groups n = ceil_div (n - (12 + ADDRS_PER_INDIRECT)) ADDRS_PER_INDIRECT"

definition file_span :: "nat \<Rightarrow> nat" where
  "file_span n = data_span n + dind_groups n"

lemma length_file_blocks [simp]: "length (file_blocks nb n) = n"
  by (simp add: file_blocks_def)

lemma nth_file_blocks [simp]: "i < n \<Longrightarrow> file_blocks nb n ! i = file_block nb i"
  by (simp add: file_blocks_def)

lemma file_block_mono: "i < j \<Longrightarrow> file_block nb i < file_block nb j"
  by (simp add: file_block_def)

lemma file_block_inj: "file_block nb i = file_block nb j \<longleftrightarrow> i = j"
  by (metis file_block_mono less_irrefl linorder_neqE_nat)

lemma file_block_bounds: "i < n \<Longrightarrow> nb \<le> file_block nb i \<and> file_block nb i < nb + data_span n"
  by (simp add: file_block_def data_span_def)

lemma file_block_not_indirect:
  "file_block nb i \<noteq> nb + 12" "file_block nb i \<noteq> nb + 13 + ADDRS_PER_INDIRECT"
  by (simp_all add: file_block_def)

lemma distinct_file_blocks: "distinct (file_blocks nb n)"
  by (simp add: file_blocks_def distinct_map inj_on_def file_block_inj)

lemma file_blocks_direct: "n \<le> 12 \<Longrightarrow> file_blocks nb n = [nb..<nb + n]"
  by (rule nth_equalityI) (simp_all add: file_block_def)

lemma file_blocks_single:
  assumes "12 < n" "n \<le> 12 + ADDRS_PER_INDIRECT"
  shows "file_blocks nb n = [nb..<nb + 12] @ [nb + 13..<nb + 13 + (n - 12)]"
  using assms by (intro nth_equalityI) (auto simp: file_block_def nth_append)

lemma file_blocks_double:
  assumes "12 + ADDRS_PER_INDIRECT < n"
  shows "file_blocks nb n = ([nb..<nb + 12] @ [nb + 13..<nb + 13 + ADDRS_PER_INDIRECT]) @
    [nb + 14 + ADDRS_PER_INDIRECT..<nb + 14 + ADDRS_PER_INDIRECT + (n - 12 - ADDRS_PER_INDIRECT)]"
  using assms by (intro nth_equalityI) (auto simp: file_block_def nth_append)

section \<open>Allocation and the write log\<close>

text \<open>The content of file block \<open>i\<close>, the pointer blocks and the inode, as one log.\<close>

definition data_log :: "nat \<Rightarrow> bytes \<Rightarrow> (nat \<times> bytes) list" where
  "data_log nb data =
     map (\<lambda>i. (file_block nb i, sub data (i * BLOCK_SIZE) BLOCK_SIZE)) [0..<num_blocks_of data]"

definition ptrs_bytes :: "nat list \<Rightarrow> bytes" where
  "ptrs_bytes blks = (let d = concat (map (le_bytes 4) blks) in d @ zeros (BLOCK_SIZE - length d))"

definition ind_log :: "nat \<Rightarrow> nat \<Rightarrow> (nat \<times> bytes) list" where
  "ind_log nb n =
     (if n > 12 then [(nb + 12, ptrs_bytes (take ADDRS_PER_INDIRECT (drop 12 (file_blocks nb n))))]
      else [])"

definition group_log :: "nat \<Rightarrow> nat \<Rightarrow> (nat \<times> bytes) list" where
  "group_log nb n =
     map (\<lambda>g. (nb + data_span n + g,
               ptrs_bytes (sub (drop (12 + ADDRS_PER_INDIRECT) (file_blocks nb n))
                 (g * ADDRS_PER_INDIRECT) ADDRS_PER_INDIRECT))) [0..<dind_groups n]"

definition dind_log :: "nat \<Rightarrow> nat \<Rightarrow> (nat \<times> bytes) list" where
  "dind_log nb n =
     (if n > 12 + ADDRS_PER_INDIRECT
      then group_log nb n @
        [(nb + 13 + ADDRS_PER_INDIRECT, ptrs_bytes [nb + data_span n..<nb + data_span n + dind_groups n])]
      else [])"

definition file_log :: "nat \<Rightarrow> bytes \<Rightarrow> (nat \<times> bytes) list" where
  "file_log nb data =
     (let n = num_blocks_of data in data_log nb data @ ind_log nb n @ dind_log nb n)"

lemma length_concat_ptrs [simp]: "length (concat (map (le_bytes 4) blks)) = 4 * length blks"
  by (induction blks) auto

lemma length_ptrs_bytes [simp]:
  "length blks \<le> ADDRS_PER_INDIRECT \<Longrightarrow> length (ptrs_bytes blks) = BLOCK_SIZE"
  using ADDRS_4 by (simp add: ptrs_bytes_def Let_def)

lemma pointer_block_eq:
  assumes "\<And>b. b \<in> set blks \<Longrightarrow> b < 2 ^ 32"
  shows "pointer_block blks = Inr (ptrs_bytes blks)"
proof -
  have "list_all field_ok (map (\<lambda>b. U 4 (int b)) blks)"
    using assms by (force simp: list_all_iff)
  moreover have "concat (map field_le (map (\<lambda>b. U 4 (int b)) blks)) = concat (map (le_bytes 4) blks)"
    by (simp add: comp_def)
  ultimately show ?thesis by (simp add: pointer_block_def pack_le_def ptrs_bytes_def Let_def)
qed

lemma dind_groups_pos: "12 + ADDRS_PER_INDIRECT < n \<Longrightarrow> 0 < dind_groups n"
  by (simp add: dind_groups_def ceil_div_pos)

lemma dind_groups_0: "n \<le> 12 + ADDRS_PER_INDIRECT \<Longrightarrow> dind_groups n = 0"
  by (simp add: dind_groups_def)

text \<open>The loop over the content is the replay of a log of one chunk per block.\<close>

definition chunk_log :: "bytes \<Rightarrow> nat list \<Rightarrow> (nat \<times> bytes) list" where
  "chunk_log data blocks = map (\<lambda>i. (blocks ! i, sub data (i * BLOCK_SIZE) BLOCK_SIZE)) [0..<length blocks]"

lemma chunk_start: "i < num_blocks_of data \<Longrightarrow> i * BLOCK_SIZE < length data"
proof -
  assume i: "i < num_blocks_of data"
  have "0 < length data" using i by (cases "0 < length data") (simp_all add: num_blocks_of_def)
  then have "(num_blocks_of data - 1) * BLOCK_SIZE < length data"
    using ceil_div_bounds(2)[of BLOCK_SIZE "length data"] by (simp add: num_blocks_of_def)
  moreover have "i * BLOCK_SIZE \<le> (num_blocks_of data - 1) * BLOCK_SIZE" using i by (intro mult_le_mono1) simp
  ultimately show ?thesis by (rule order.strict_trans1[rotated])
qed

lemma write_chunks_run:
  assumes n: "length blocks = num_blocks_of data"
  shows "write_chunks data blocks s =
    Inr ((), img_update (apply_writes (block_log (chunk_log data blocks))) s)"
proof -
  let ?n = "num_blocks_of data"
  let ?body = "\<lambda>i. let start = i * BLOCK_SIZE; stop = min (start + BLOCK_SIZE) (length data) in
      if start < length data then write_block (blocks ! i) (sub data start (stop - start)) else py_ret ()"
  have enum: "List.enumerate 0 blocks = map (\<lambda>i. (i, blocks ! i)) [0..<?n]"
    by (rule nth_equalityI) (simp_all add: nth_enumerate_eq n)
  have chunk: "sub data (i * BLOCK_SIZE) (min (i * BLOCK_SIZE + BLOCK_SIZE) (length data) - i * BLOCK_SIZE)
      = sub data (i * BLOCK_SIZE) BLOCK_SIZE" for i
    by (simp add: sub_def min_def)
  have "py_each ?body [0..<?n] =
      py_each (\<lambda>i. write_block (blocks ! i) (sub data (i * BLOCK_SIZE) BLOCK_SIZE)) [0..<?n]"
    by (rule py_each_cong) (simp add: Let_def chunk_start chunk)
  also have "\<dots> = py_each (\<lambda>(b, d). write_block b d) (chunk_log data blocks)"
    by (simp add: chunk_log_def py_each_map n)
  finally have eq: "py_each ?body [0..<?n] = py_each (\<lambda>(b, d). write_block b d) (chunk_log data blocks)" .
  have "py_each (\<lambda>(b, d). write_block b d) (chunk_log data blocks) s =
      Inr ((), img_update (apply_writes (block_log (chunk_log data blocks))) s)"
    by (rule write_blocks_run) (auto simp: chunk_log_def length_sub)
  then show ?thesis unfolding write_chunks_def by (simp only: enum py_each_map prod.case eq)
qed

lemma data_loop:
  "write_chunks data (file_blocks nb (num_blocks_of data)) s =
    Inr ((), img_update (apply_writes (block_log (data_log nb data))) s)"
proof -
  have "chunk_log data (file_blocks nb (num_blocks_of data)) = data_log nb data"
    by (auto simp: chunk_log_def data_log_def)
  then show ?thesis by (simp add: write_chunks_run)
qed

context block_source
begin

text \<open>Allocation: total when the zone has room, and exactly the blocks of the closed form.\<close>

lemma alloc_file_blocks_run:
  assumes room: "nxt s + data_span (num_blocks_of data) \<le> limit s"
  shows "alloc_file_blocks alloc data s =
    (let n = num_blocks_of data; nb = nxt s in
     Inr ((file_blocks nb n, indirect_of nb n, dindirect_of nb n), bump (data_span n) s))"
proof -
  let ?n = "num_blocks_of data" and ?nb = "nxt s"
  consider "?n \<le> 12" | "12 < ?n" "?n \<le> 12 + ADDRS_PER_INDIRECT" | "12 + ADDRS_PER_INDIRECT < ?n"
    by linarith
  then show ?thesis
  proof cases
    case 1
    then have "py_times ?n alloc s = Inr ([?nb..<?nb + ?n], bump ?n s)"
      using room by (intro times_alloc) (simp add: data_span_def)
    with 1 show ?thesis
      by (simp add: alloc_file_blocks_def Let_def py_bind_run file_blocks_direct indirect_of_def
          dindirect_of_def data_span_def min_def)
  next
    case 2
    have t12: "py_times 12 alloc s = Inr ([?nb..<?nb + 12], bump 12 s)"
      using room 2 by (intro times_alloc) (simp add: data_span_def)
    have a: "alloc (bump 12 s) = Inr (?nb + 12, bump 13 s)"
      using room 2 by (subst alloc_ok) (simp_all add: data_span_def source_simps)
    have t: "py_times (?n - 12) alloc (bump 13 s) =
        Inr ([?nb + 13..<?nb + 13 + (?n - 12)], bump (?n + 1) s)"
      using room 2 by (subst times_alloc) (simp_all add: data_span_def source_simps)
    have m: "min ?n 12 = 12" "min (?n - 12) ADDRS_PER_INDIRECT = ?n - 12" using 2 by auto
    show ?thesis using 2
      by (simp add: alloc_file_blocks_def Let_def py_bind_run m t12 a t file_blocks_single
          indirect_of_def dindirect_of_def data_span_def)
  next
    case 3
    let ?A = ADDRS_PER_INDIRECT
    have t12: "py_times 12 alloc s = Inr ([?nb..<?nb + 12], bump 12 s)"
      using room 3 by (intro times_alloc) (simp add: data_span_def)
    have a: "alloc (bump 12 s) = Inr (?nb + 12, bump 13 s)"
      using room 3 by (subst alloc_ok) (simp_all add: data_span_def source_simps)
    have t: "py_times ?A alloc (bump 13 s) = Inr ([?nb + 13..<?nb + 13 + ?A], bump (13 + ?A) s)"
      using room 3 by (subst times_alloc) (simp_all add: data_span_def source_simps)
    have b: "alloc (bump (13 + ?A) s) = Inr (?nb + 13 + ?A, bump (14 + ?A) s)"
      using room 3 by (subst alloc_ok) (simp_all add: data_span_def source_simps)
    define more where
      "more = [?nb + 14 + ?A..<?nb + 14 + ?A + (?n - 12 - ?A)]"
    have r: "py_times (?n - (12 + ?A)) alloc (bump (14 + ?A) s) = Inr (more, bump (?n + 2) s)"
      using room 3 unfolding more_def
      by (subst times_alloc) (simp_all add: data_span_def source_simps ac_simps)
    have fb: "file_blocks ?nb ?n = [?nb..<?nb + 12] @ [?nb + 13..<?nb + 13 + ?A] @ more"
      using file_blocks_double[OF 3, of ?nb] by (simp only: more_def append_assoc)
    have m: "min ?n 12 = 12" "min (?n - 12) ?A = ?A" using 3 by auto
    show ?thesis using 3
      by (simp add: alloc_file_blocks_def Let_def py_bind_run m t12 a t b r fb
          indirect_of_def dindirect_of_def data_span_def)
  qed
qed

text \<open>A loop that allocates a block and fills it, as the double-indirect branch does.\<close>

lemma collect_alloc_write:
  assumes "nxt s + m \<le> limit s"
    and "\<And>g. k \<le> g \<Longrightarrow> g < k + m \<Longrightarrow> content g = Inr (c g) \<and> length (c g) \<le> BLOCK_SIZE"
  shows "py_collect (\<lambda>g. py_bind alloc (\<lambda>b. py_bind (py_lift (content g)) (\<lambda>d.
      py_seq (write_block b d) (py_ret b)))) [k..<k + m] s =
    Inr ([nxt s..<nxt s + m],
      img_update (apply_writes (block_log (map (\<lambda>j. (nxt s + j, c (k + j))) [0..<m]))) (bump m s))"
  using assms
proof (induction m arbitrary: k s)
  case 0
  then show ?case by (simp add: bump_0)
next
  case (Suc m)
  let ?t = "img_update (put_at (nxt s * BLOCK_SIZE) (c k)) (bump 1 s)"
  have k: "content k = Inr (c k)" "length (c k) \<le> BLOCK_SIZE" using Suc.prems(2)[of k] by auto
  have IH: "py_collect (\<lambda>g. py_bind alloc (\<lambda>b. py_bind (py_lift (content g)) (\<lambda>d.
      py_seq (write_block b d) (py_ret b)))) [Suc k..<Suc k + m] ?t =
    Inr ([nxt ?t..<nxt ?t + m],
      img_update (apply_writes (block_log (map (\<lambda>j. (nxt ?t + j, c (Suc k + j))) [0..<m]))) (bump m ?t))"
    using Suc.prems by (intro Suc.IH) (simp_all add: source_simps)
  have upt: "[k..<k + Suc m] = k # [Suc k..<Suc k + m]"
    "[nxt s..<nxt s + Suc m] = nxt s # [Suc (nxt s)..<Suc (nxt s) + m]"
    by (simp_all add: upt_conv_Cons)
  have head: "py_bind alloc (\<lambda>b. py_bind (py_lift (content k)) (\<lambda>d.
      py_seq (write_block b d) (py_ret b))) s = Inr (nxt s, ?t)"
    using Suc.prems(1) by (simp add: alloc_run py_bind_run py_seq_run write_block_run k)
  show ?case
    unfolding upt py_collect.simps
    using Suc.prems(1) IH
    by (simp add: head py_bind_run source_simps map_upt_Suc block_log_Cons comp_def
        del: upt_Suc)
qed

text \<open>Writing: the whole of \<^verbatim>\<open>write_file_data\<close> is the replay of \<open>file_log\<close>.\<close>

lemma write_file_data_run:
  fixes data :: bytes
  defines "n \<equiv> num_blocks_of data"
  assumes nb: "0 < nb" and nxt: "nxt s = nb + data_span n" and room: "nxt s + dind_groups n \<le> limit s"
  shows "write_file_data alloc data (file_blocks nb n) (indirect_of nb n) (dindirect_of nb n) s =
    Inr ((), img_update (apply_writes (block_log (file_log nb data))) (bump (dind_groups n) s))"
proof -
  let ?A = ADDRS_PER_INDIRECT and ?fb = "file_blocks nb n"
  have small: "b < 2 ^ 32" if "b < nxt s + dind_groups n" for b
    using that room limit_le[of s] by (simp add: layout)
  have fb_small: "b < 2 ^ 32" if b: "b \<in> set ?fb" for b
  proof -
    obtain i where "i < n" "b = file_block nb i" using b by (auto simp: file_blocks_def)
    then show ?thesis using file_block_bounds[of i n nb] nxt by (intro small) simp
  qed
  define s1 where "s1 = img_update (apply_writes (block_log (data_log nb data))) s"
  have p1: "pointer_block (take ?A (drop 12 ?fb)) = Inr (ptrs_bytes (take ?A (drop 12 ?fb)))"
    by (rule pointer_block_eq) (meson fb_small in_set_dropD in_set_takeD)
  define s2 where "s2 = img_update (apply_writes (block_log (ind_log nb n))) s1"
  have step2: "(if truthy (indirect_of nb n)
        then let sindirect_blocks = take ?A (drop 12 ?fb) in
             py_bind (py_lift (pointer_block sindirect_blocks)) (\<lambda>indirect_data.
             write_block (the (indirect_of nb n)) indirect_data)
        else py_ret ()) s1 = Inr ((), s2)"
    by (simp add: indirect_of_def p1 py_bind_run write_block_run s2_def ind_log_def block_log_Cons)
  have step3: "(if truthy (dindirect_of nb n)
        then let dind_blocks = drop (12 + ?A) ?fb;
                 num_ind_blocks = ceil_div (length dind_blocks) ?A in
             py_bind (py_collect (\<lambda>g.
               py_bind alloc (\<lambda>ind_blk.
               let group = sub dind_blocks (g * ?A) ?A in
               py_bind (py_lift (pointer_block group)) (\<lambda>ind_data.
               py_seq (write_block ind_blk ind_data) (py_ret ind_blk)))) [0..<num_ind_blocks])
             (\<lambda>ind_block_ptrs.
             py_bind (py_lift (pointer_block ind_block_ptrs)) (\<lambda>dind_data.
             write_block (the (dindirect_of nb n)) dind_data))
        else py_ret ()) s2 =
      Inr ((), img_update (apply_writes (block_log (dind_log nb n))) (bump (dind_groups n) s2))"
  proof (cases "12 + ?A < n")
    case False
    then show ?thesis by (simp add: dindirect_of_def dind_log_def dind_groups_0 bump_0)
  next
    case True
    let ?grp = "\<lambda>g. sub (drop (12 + ?A) ?fb) (g * ?A) ?A"
    have nxt2: "nxt s2 = nb + data_span n" "limit s2 = limit s"
      by (simp_all add: s2_def s1_def source_simps nxt)
    have pg: "pointer_block (?grp g) = Inr (ptrs_bytes (?grp g))" for g
      by (rule pointer_block_eq, rule fb_small) (auto simp: sub_def dest!: in_set_takeD in_set_dropD)
    have col: "py_collect (\<lambda>g. py_bind alloc (\<lambda>b. py_bind (py_lift (pointer_block (?grp g))) (\<lambda>d.
          py_seq (write_block b d) (py_ret b)))) [0..<0 + dind_groups n] s2 =
        Inr ([nxt s2..<nxt s2 + dind_groups n],
          img_update (apply_writes (block_log (map (\<lambda>j. (nxt s2 + j, ptrs_bytes (?grp (0 + j))))
            [0..<dind_groups n]))) (bump (dind_groups n) s2))"
      using room nxt nxt2 by (intro collect_alloc_write) (simp_all add: pg length_sub)
    have pd: "pointer_block [nb + data_span n..<nb + data_span n + dind_groups n] =
        Inr (ptrs_bytes [nb + data_span n..<nb + data_span n + dind_groups n])"
      by (rule pointer_block_eq, rule small) (simp add: nxt)
    have glen: "dind_groups n \<le> ?A"
      using room nxt limit_le[of s] True unfolding dind_groups_def ceil_div_def data_span_def
      by (simp add: layout)
    show ?thesis
      using True col
      by (simp add: dindirect_of_def Let_def dind_groups_def[symmetric] py_bind_run nxt2 pd write_block_run glen
          dind_log_def group_log_def block_log_append apply_writes_comp block_log_Cons comp_def)
  qed
  show ?thesis
    unfolding write_file_data_def
    using data_loop[of data nb s] step2 step3
    by (simp add: py_seq_run n_def[symmetric] s1_def[symmetric])
       (simp add: s2_def s1_def source_simps file_log_def n_def[symmetric] block_log_append
         apply_writes_comp comp_def Let_def)
qed

end

end
