(* ===== verification/File_Read.thy ===== *)
theory File_Read
  imports File_Blocks
begin

text \<open>
  The reader's side of a block-mapped file, after the on-disk format of ext2: the size and
  the fifteen pointers of an inode, followed through the indirect and double-indirect
  blocks.  It is the specification the writers of \<open>File_Blocks\<close> are held to: a file that
  was stored is read back byte for byte, at every size the layout can hold.
\<close>

section \<open>Reading a file through its inode\<close>

definition i_size_at :: "bytes \<Rightarrow> nat \<Rightarrow> nat" where
  "i_size_at im ioff = u32_at im (ioff + 4)"

definition i_block_at :: "bytes \<Rightarrow> nat \<Rightarrow> nat \<Rightarrow> nat" where
  "i_block_at im ioff i = u32_at im (ioff + 40 + 4 * i)"

definition bmap :: "bytes \<Rightarrow> nat \<Rightarrow> nat \<Rightarrow> nat" where
  "bmap im ioff k =
     (if k < 12 then i_block_at im ioff k
      else if k < 12 + ADDRS_PER_INDIRECT
      then u32_at im (i_block_at im ioff 12 * BLOCK_SIZE + 4 * (k - 12))
      else let j = k - (12 + ADDRS_PER_INDIRECT);
               ind = u32_at im (i_block_at im ioff 13 * BLOCK_SIZE + 4 * (j div ADDRS_PER_INDIRECT))
           in u32_at im (ind * BLOCK_SIZE + 4 * (j mod ADDRS_PER_INDIRECT)))"

definition read_file :: "bytes \<Rightarrow> nat \<Rightarrow> bytes" where
  "read_file im ioff =
     (let sz = i_size_at im ioff in
      take sz (concat (map (\<lambda>k. block_at im (bmap im ioff k)) [0..<ceil_div sz BLOCK_SIZE])))"

section \<open>The bytes of an inode\<close>

text \<open>The arguments \<^verbatim>\<open>struct.pack\<close> accepts.\<close>

definition inode_args_ok :: "int \<Rightarrow> int \<Rightarrow> nat \<Rightarrow> nat \<Rightarrow> int \<Rightarrow> int \<Rightarrow> int \<Rightarrow> bool" where
  "inode_args_ok now mode i_size blocks nlink uid gid \<longleftrightarrow>
     0 \<le> now \<and> now < 2 ^ 32 \<and> 0 \<le> mode \<and> mode < 2 ^ 16 \<and> i_size < 2 ^ 32 \<and>
     0 \<le> nlink \<and> nlink < 2 ^ 16 \<and> 0 \<le> uid \<and> uid < 2 ^ 16 \<and> 0 \<le> gid \<and> gid < 2 ^ 16 \<and>
     blocks \<le> TOTAL_BLOCKS"

definition ptr_ok :: "nat option \<Rightarrow> bool" where
  "ptr_ok p \<longleftrightarrow> (case p of None \<Rightarrow> True | Some b \<Rightarrow> b < 2 ^ 32)"

lemma inode_sectors_small: "blocks \<le> TOTAL_BLOCKS \<Longrightarrow> inode_sectors blocks ind dind < 2 ^ 32"
proof -
  assume b: "blocks \<le> TOTAL_BLOCKS"
  have "ceil_div (blocks - (12 + ADDRS_PER_INDIRECT)) ADDRS_PER_INDIRECT
      \<le> blocks + ADDRS_PER_INDIRECT"
    unfolding ceil_div_def by (rule order.trans[OF div_le_dividend]) simp
  then show ?thesis
    using b by (auto simp: inode_sectors_def Let_def layout)
qed

lemma inode_bytes_run:
  assumes ok: "inode_args_ok now mode i_size blocks nlink uid gid"
    and ptrs: "\<And>b. b \<in> set block_ptrs \<Longrightarrow> b < 2 ^ 32" and p: "ptr_ok ind" "ptr_ok dind"
  obtains data where
    "inode_bytes now mode i_size blocks block_ptrs nlink ind dind uid gid = Inr data"
    and "length data = INODE_SIZE"
    and "sub data 0 2 = le_bytes 2 (nat mode)"
    and "sub data 4 4 = le_bytes 4 i_size"
    and "sub data 26 2 = le_bytes 2 (nat nlink)"
    and "sub data 28 4 = le_bytes 4 (inode_sectors blocks ind dind)"
    and "\<And>i. i < 15 \<Longrightarrow> sub data (40 + 4 * i) 4 = field_le (i_block_field block_ptrs ind dind i)"
proof -
  let ?hdr = "[U 2 mode, U 2 uid, U 4 (int i_size), U 4 now, U 4 now, U 4 now, U 4 0,
        U 2 gid, U 2 nlink, U 4 (int (inode_sectors blocks ind dind)), U 4 0, U 4 0]"
  let ?fs = "map (i_block_field block_ptrs ind dind) [0..<15]"
  define hdr where "hdr = concat (map field_le ?hdr)"
  define ptr where "ptr = concat (map field_le ?fs)"
  have h: "pack_le ?hdr = Inr hdr"
    using ok inode_sectors_small[of blocks ind dind]
    by (simp add: pack_le_def hdr_def inode_args_ok_def)
  have fok: "field_ok (i_block_field block_ptrs ind dind i)" for i
  proof -
    have "\<And>i. i < length block_ptrs \<Longrightarrow> int (block_ptrs ! i) < 2 ^ 32"
      using ptrs nth_mem by fastforce
    then show ?thesis
      using p by (auto simp: i_block_field_def ptr_ok_def split: option.splits)
  qed
  then have t: "pack_le ?fs = Inr ptr"
    by (simp add: pack_le_def ptr_def list_all_iff)
  have lh: "length hdr = 40" using pack_le_length[OF h] by simp
  have lt: "length ptr = 60" using pack_le_length[OF t] by (simp add: i_block_field_def comp_def sum_list_triv)
  define data where "data = (hdr @ ptr) @ zeros 28"
  have eq: "inode_bytes now mode i_size blocks block_ptrs nlink ind dind uid gid = Inr data"
    by (simp add: inode_bytes_def h t Let_def lh lt data_def layout)
  have sh: "sub data k m = sub hdr k m" if "k + m \<le> 40" for k m
    using that lh by (simp add: data_def sub_append_left)
  have hf: "sub data 0 2 = le_bytes 2 (nat mode)" "sub data 4 4 = le_bytes 4 i_size"
    "sub data 26 2 = le_bytes 2 (nat nlink)"
    "sub data 28 4 = le_bytes 4 (inode_sectors blocks ind dind)"
    using pack_le_field[OF h, of 0 0] pack_le_field[OF h, of 2 4] pack_le_field[OF h, of 8 26]
      pack_le_field[OF h, of 9 28]
    by (simp_all add: sh take_Cons')
  have pf: "sub data (40 + 4 * i) 4 = field_le (i_block_field block_ptrs ind dind i)" if "i < 15" for i
  proof -
    have "sub ptr (4 * i) 4 = field_le (?fs ! i)"
      using pack_le_field[OF t, of i "4 * i"] that
      by (simp add: i_block_field_def take_map comp_def sum_list_triv take_upt)
    then show ?thesis
      using that lh lt by (simp add: data_def sub_append_left sub_append_right)
  qed
  show thesis
    by (rule that[OF eq _ hf pf]) (simp_all add: data_def lh lt layout)
qed

section \<open>Pointer blocks\<close>

lemma sub_ptrs_bytes:
  assumes "k < length blks" and "length blks \<le> ADDRS_PER_INDIRECT"
  shows "sub (ptrs_bytes blks) (4 * k) 4 = le_bytes 4 (blks ! k)"
proof -
  let ?d = "concat (map (le_bytes 4) blks)"
  have "sub ?d (4 * k) (length (map (le_bytes 4) blks ! k)) = map (le_bytes 4) blks ! k"
    using assms(1)
    by (intro sub_concat_field) (simp_all add: take_map comp_def sum_list_triv)
  then have "sub ?d (4 * k) 4 = le_bytes 4 (blks ! k)" using assms(1) by simp
  then show ?thesis using assms(1) by (simp add: ptrs_bytes_def Let_def sub_append_left)
qed

section \<open>The log of a stored file\<close>

text \<open>The blocks of the log are distinct, fresh and at most a block long.\<close>

lemma data_log_blocks: "map fst (data_log nb data) = file_blocks nb (num_blocks_of data)"
  by (simp add: data_log_def file_blocks_def comp_def)

lemma dind_log_blocks:
  "map fst (dind_log nb n) =
     (if n > 12 + ADDRS_PER_INDIRECT
      then [nb + data_span n..<nb + data_span n + dind_groups n] @ [nb + 13 + ADDRS_PER_INDIRECT]
      else [])"
  by (auto simp: dind_log_def group_log_def comp_def intro!: nth_equalityI)

lemma file_log_distinct: "distinct (map fst (file_log nb data))"
proof -
  let ?n = "num_blocks_of data"
  have fb: "b \<noteq> nb + 12 \<and> b \<noteq> nb + 13 + ADDRS_PER_INDIRECT \<and> b < nb + data_span ?n"
    if "b \<in> set (file_blocks nb ?n)" for b
    using that file_block_bounds[of _ ?n nb] file_block_not_indirect[of nb]
    by (auto simp: file_blocks_def)
  have 12: "nb + 12 < nb + data_span ?n" if "12 < ?n" using that by (simp add: data_span_def)
  have 13: "nb + 13 + ADDRS_PER_INDIRECT < nb + data_span ?n" if "12 + ADDRS_PER_INDIRECT < ?n"
    using that by (simp add: data_span_def)
  show ?thesis
    using 12 13
    by (auto simp: file_log_def Let_def data_log_blocks dind_log_blocks ind_log_def
        distinct_file_blocks dest: fb)
qed

lemma file_log_bounds:
  assumes "(b, d) \<in> set (file_log nb data)" and "dind_groups (num_blocks_of data) \<le> ADDRS_PER_INDIRECT"
  shows "nb \<le> b \<and> b < nb + file_span (num_blocks_of data) \<and> length d \<le> BLOCK_SIZE"
proof -
  let ?n = "num_blocks_of data"
  consider "(b, d) \<in> set (data_log nb data)" | "(b, d) \<in> set (ind_log nb ?n)"
    | "(b, d) \<in> set (dind_log nb ?n)"
    using assms(1) by (auto simp: file_log_def Let_def)
  then show ?thesis
  proof cases
    case 1
    then show ?thesis
      using file_block_bounds[of _ ?n nb]
      by (auto simp: data_log_def file_span_def length_sub intro: trans_less_add1 simp flip: add.assoc)
  next
    case 2
    then show ?thesis by (auto simp: ind_log_def file_span_def data_span_def split: if_splits)
  next
    case 3
    then show ?thesis
      using assms(2)
      by (auto simp: dind_log_def group_log_def file_span_def data_span_def length_sub split: if_splits)
  qed
qed

section \<open>Stored files are read back\<close>

text \<open>
  What an image has to hold for the file \<open>data\<close> with its blocks from \<open>nb\<close> on and its inode at
  offset \<open>ioff\<close>.  It is a statement about reads only, so any later write elsewhere keeps it.
\<close>

definition file_stored :: "bytes \<Rightarrow> nat \<Rightarrow> nat \<Rightarrow> bytes \<Rightarrow> bool" where
  "file_stored im ioff nb data \<longleftrightarrow>
     (let n = num_blocks_of data in
      (\<forall>(b, d) \<in> set (file_log nb data). sub im (b * BLOCK_SIZE) (length d) = d) \<and>
      i_size_at im ioff = length data \<and>
      (\<forall>i < min n 12. i_block_at im ioff i = file_block nb i) \<and>
      (12 < n \<longrightarrow> i_block_at im ioff 12 = nb + 12) \<and>
      (12 + ADDRS_PER_INDIRECT < n \<longrightarrow> i_block_at im ioff 13 = nb + 13 + ADDRS_PER_INDIRECT) \<and>
      nb + file_span n \<le> TOTAL_BLOCKS \<and> length im = TOTAL_BLOCKS * BLOCK_SIZE)"

lemma file_stored_pointer:
  assumes "file_stored im ioff nb data" and "(b, ptrs_bytes blks) \<in> set (file_log nb data)"
    and "k < length blks" and "length blks \<le> ADDRS_PER_INDIRECT" and "blks ! k < 2 ^ 32"
  shows "u32_at im (b * BLOCK_SIZE + 4 * k) = blks ! k"
proof -
  have "sub im (b * BLOCK_SIZE) BLOCK_SIZE = ptrs_bytes blks"
    using assms(1,2,4) by (fastforce simp: file_stored_def Let_def)
  moreover have "sub im (b * BLOCK_SIZE + 4 * k) 4 = sub (sub im (b * BLOCK_SIZE) BLOCK_SIZE) (4 * k) 4"
    using assms(3,4) ADDRS_4 by (subst sub_sub) simp_all
  ultimately show ?thesis
    using assms(3-5) by (simp add: u32_at_def sub_ptrs_bytes)
qed

lemma dind_groups_le:
  "nb + file_span n \<le> TOTAL_BLOCKS \<Longrightarrow> dind_groups n \<le> ADDRS_PER_INDIRECT"
  unfolding dind_groups_def ceil_div_def file_span_def data_span_def
  by (simp add: layout split: if_splits)

lemma bmap_stored:
  assumes st: "file_stored im ioff nb data" and k: "k < num_blocks_of data"
  shows "bmap im ioff k = file_block nb k"
proof -
  let ?n = "num_blocks_of data" and ?A = ADDRS_PER_INDIRECT
  have span: "nb + file_span ?n \<le> TOTAL_BLOCKS" using st by (simp add: file_stored_def Let_def)
  have small: "file_block nb i < 2 ^ 32" if "i < ?n" for i
    using file_block_bounds[OF that, of nb] span by (simp add: file_span_def layout)
  consider "k < 12" | "12 \<le> k" "k < 12 + ?A" | "12 + ?A \<le> k" by linarith
  then show ?thesis
  proof cases
    case 1
    then show ?thesis using st k by (simp add: bmap_def file_stored_def Let_def)
  next
    case 2
    let ?blks = "take ?A (drop 12 (file_blocks nb ?n))"
    have "(nb + 12, ptrs_bytes ?blks) \<in> set (file_log nb data)"
      using 2 k by (simp add: file_log_def ind_log_def Let_def)
    moreover have "?blks ! (k - 12) = file_block nb k" using 2 k by simp
    moreover have "k - 12 < ?n - 12" "k - 12 < ?A" using 2 k by auto
    ultimately have "u32_at im ((nb + 12) * BLOCK_SIZE + 4 * (k - 12)) = file_block nb k"
      using small[OF k] file_stored_pointer[OF st, of "nb + 12" ?blks "k - 12"] by simp
    moreover have "i_block_at im ioff 12 = nb + 12" using st 2 k by (simp add: file_stored_def Let_def)
    ultimately show ?thesis using 2 by (simp add: bmap_def)
  next
    case 3
    define j where "j = k - (12 + ?A)"
    let ?g = "j div ?A"
    let ?grp = "sub (drop (12 + ?A) (file_blocks nb ?n)) (?g * ?A) ?A"
    let ?roots = "[nb + data_span ?n..<nb + data_span ?n + dind_groups ?n]"
    have j: "j < ?n - (12 + ?A)" using 3 k by (simp add: j_def)
    have "?n - (12 + ?A) \<le> dind_groups ?n * ?A"
      unfolding dind_groups_def by (rule ceil_div_bounds(1)) simp
    with j have g: "?g < dind_groups ?n" by (simp add: less_mult_imp_div_less)
    have roots: "(nb + 13 + ?A, ptrs_bytes ?roots) \<in> set (file_log nb data)"
      using 3 k by (simp add: file_log_def dind_log_def Let_def)
    have "u32_at im ((nb + 13 + ?A) * BLOCK_SIZE + 4 * ?g) = ?roots ! ?g"
      using g dind_groups_le[OF span] span
      by (intro file_stored_pointer[OF st roots]) (simp_all add: file_span_def layout)
    then have root: "u32_at im ((nb + 13 + ?A) * BLOCK_SIZE + 4 * ?g) = nb + data_span ?n + ?g"
      using g by simp
    have grp: "(nb + data_span ?n + ?g, ptrs_bytes ?grp) \<in> set (file_log nb data)"
      using 3 k g by (auto simp: file_log_def dind_log_def group_log_def Let_def)
    have eq: "?g * ?A + j mod ?A = j" by simp
    have "j mod ?A < ?n - (12 + ?A) - ?g * ?A" using j eq by linarith
    then have len: "j mod ?A < length ?grp" by (simp add: length_sub)
    have "?grp ! (j mod ?A) = file_block nb k"
      using len 3 k eq by (simp add: nth_sub length_sub j_def)
    then have "u32_at im ((nb + data_span ?n + ?g) * BLOCK_SIZE + 4 * (j mod ?A)) = file_block nb k"
      using file_stored_pointer[OF st grp len] small[OF k] by (simp add: length_sub)
    moreover have "i_block_at im ioff 13 = nb + 13 + ?A"
      using st 3 k by (simp add: file_stored_def Let_def)
    ultimately show ?thesis using 3 root by (simp add: bmap_def Let_def j_def[symmetric])
  qed
qed

text \<open>Blocks that begin with the chunks of \<open>data\<close> read as \<open>data\<close>.\<close>

lemma read_chunks:
  assumes "\<And>i. i < num_blocks_of data \<Longrightarrow>
    sub im (f i * BLOCK_SIZE) (length (sub data (i * BLOCK_SIZE) BLOCK_SIZE)) = sub data (i * BLOCK_SIZE) BLOCK_SIZE"
  shows "take (length data) (concat (map (\<lambda>k. block_at im (f k)) [0..<num_blocks_of data])) = data"
proof (rule chunks_read)
  show "length data \<le> num_blocks_of data * BLOCK_SIZE"
    using ceil_div_bounds(1)[of BLOCK_SIZE "length data"] by (simp add: num_blocks_of_def)
  show "Suc i * BLOCK_SIZE \<le> length data" if "Suc i < num_blocks_of data" for i
    using chunk_start[OF that] by simp
  fix i assume i: "i < num_blocks_of data"
  let ?d = "sub data (i * BLOCK_SIZE) BLOCK_SIZE"
  have "length ?d \<le> BLOCK_SIZE" by (simp add: length_sub)
  then show "take (length ?d) (block_at im (f i)) = ?d"
    using assms[OF i] by (simp add: block_at_def sub_def min_def)
qed (simp add: block_at_def length_sub)

lemma read_file_stored:
  assumes st: "file_stored im ioff nb data"
  shows "read_file im ioff = data"
proof -
  let ?n = "num_blocks_of data"
  have sz: "i_size_at im ioff = length data" using st by (simp add: file_stored_def Let_def)
  have n: "ceil_div (length data) BLOCK_SIZE = ?n" by (simp add: num_blocks_of_def)
  have map: "map (\<lambda>k. block_at im (bmap im ioff k)) [0..<?n] = map (\<lambda>k. block_at im (file_block nb k)) [0..<?n]"
    using bmap_stored[OF st] by simp
  have "take (length data) (concat (map (\<lambda>k. block_at im (file_block nb k)) [0..<?n])) = data"
  proof (rule read_chunks)
    fix i assume "i < ?n"
    then have "(file_block nb i, sub data (i * BLOCK_SIZE) BLOCK_SIZE) \<in> set (file_log nb data)"
      by (auto simp: file_log_def data_log_def Let_def)
    then show "sub im (file_block nb i * BLOCK_SIZE) (length (sub data (i * BLOCK_SIZE) BLOCK_SIZE)) =
        sub data (i * BLOCK_SIZE) BLOCK_SIZE"
      using st by (fastforce simp: file_stored_def Let_def)
  qed
  then show ?thesis by (simp add: read_file_def Let_def sz n map)
qed

text \<open>A later write that stays clear of the file's blocks and of its inode keeps the file.\<close>

lemma file_stored_frame:
  assumes st: "file_stored im ioff nb data"
    and io: "ioff + INODE_SIZE \<le> length im"
    and rng: "list_all (in_range (length im)) ws"
    and blocks: "\<And>o' d. (o', d) \<in> set ws \<Longrightarrow>
      o' + length d \<le> nb * BLOCK_SIZE \<or> (nb + file_span (num_blocks_of data)) * BLOCK_SIZE \<le> o'"
    and inode: "\<And>o' d. (o', d) \<in> set ws \<Longrightarrow> o' + length d \<le> ioff \<or> ioff + INODE_SIZE \<le> o'"
  shows "file_stored (apply_writes ws im) ioff nb data"
proof -
  let ?n = "num_blocks_of data" and ?im = "apply_writes ws im"
  have span: "nb + file_span ?n \<le> TOTAL_BLOCKS" using st by (simp add: file_stored_def Let_def)
  have blk: "sub ?im (b * BLOCK_SIZE) (length d) = sub im (b * BLOCK_SIZE) (length d)"
    if bd: "(b, d) \<in> set (file_log nb data)" for b d
  proof (rule sub_apply_writes_frame[OF rng])
    fix w assume w: "w \<in> set ws"
    have bb: "nb \<le> b" "b < nb + file_span ?n" "length d \<le> BLOCK_SIZE"
      using file_log_bounds[OF bd dind_groups_le[OF span]] by auto
    have "nb * BLOCK_SIZE \<le> b * BLOCK_SIZE" using bb(1) by (rule mult_le_mono1)
    moreover have "Suc b * BLOCK_SIZE \<le> (nb + file_span ?n) * BLOCK_SIZE"
      using bb(2) by (intro mult_le_mono1) simp
    ultimately show "b * BLOCK_SIZE + length d \<le> fst w \<or> fst w + length (snd w) \<le> b * BLOCK_SIZE"
      using blocks[of "fst w" "snd w"] w bb(3) unfolding prod.collapse mult_Suc by arith
  qed
  have ino: "u32_at ?im (ioff + k) = u32_at im (ioff + k)" if "k + 4 \<le> INODE_SIZE" for k
  proof -
    have "sub ?im (ioff + k) 4 = sub im (ioff + k) 4"
      using that inode by (intro sub_apply_writes_frame[OF rng]) fastforce
    then show ?thesis by (simp add: u32_at_def)
  qed
  have ib: "i_block_at ?im ioff i = i_block_at im ioff i" if "i < 15" for i
    using ino[of "40 + 4 * i"] that by (simp add: i_block_at_def layout add.assoc)
  have sz: "i_size_at ?im ioff = i_size_at im ioff"
    using ino[of 4] by (simp add: i_size_at_def layout)
  have len: "length ?im = length im" using rng by simp
  show ?thesis
    using st blk ib sz len by (auto simp: file_stored_def Let_def)
qed

end
