(* ===== verification/File_Store.thy ===== *)
theory File_Store
  imports File_Read Allocators
begin

text \<open>
  Storing a file from start to end, as \<^verbatim>\<open>add_tree\<close> does for every regular file of a host
  directory: an inode, the blocks, the content, the inode's bytes.  The result is shown once
  for every allocator that meets \<open>block_source\<close> and then stated for the two scripts.
\<close>

text \<open>The statements of \<^verbatim>\<open>add_tree\<close> for a regular file; the result is the new inode.\<close>

definition store_file ::
  "('a core_scheme, nat) py \<Rightarrow> ('a core_scheme, nat) py \<Rightarrow> int \<Rightarrow> int \<Rightarrow> bytes \<Rightarrow>
   ('a core_scheme, nat) py" where
  "store_file alloc alloc_ino now mode data =
     py_bind alloc_ino (\<lambda>ino.
     py_bind (alloc_file_blocks alloc data) (\<lambda>(blocks, indirect, dindirect).
     py_seq (write_file_data alloc data blocks indirect dindirect)
     (py_seq (write_inode now ino mode (length data) (length blocks) (take 12 blocks) 1
        indirect dindirect 0 0)
     (py_ret ino))))"

definition e2_store_file :: "int \<Rightarrow> int \<Rightarrow> bytes \<Rightarrow> (ext2_state, nat) py" where
  "e2_store_file = store_file e2_alloc_block e2_alloc_inode"

definition e3_store_file :: "int \<Rightarrow> int \<Rightarrow> bytes \<Rightarrow> (core, nat) py" where
  "e3_store_file = store_file e3_alloc_block e3_alloc_inode"

lemma num_blocks_of_le: "num_blocks_of data * BLOCK_SIZE < length data + BLOCK_SIZE"
  using ceil_div_bounds(3)[of BLOCK_SIZE "length data"] by (simp add: num_blocks_of_def)

text \<open>Everything the log of a file writes, together with its inode, is apart.\<close>

lemma file_writes_apart:
  assumes span: "nb + file_span (num_blocks_of data) \<le> TOTAL_BLOCKS"
    and io: "ioff + length ib \<le> nb * BLOCK_SIZE"
  shows "sorted_wrt apart (block_log (file_log nb data) @ [(ioff, ib)])"
    and "list_all (in_range (TOTAL_BLOCKS * BLOCK_SIZE)) (block_log (file_log nb data) @ [(ioff, ib)])"
proof -
  note bnd = file_log_bounds[OF _ dind_groups_le[OF span]]
  have "apart w (ioff, ib)" if w: "w \<in> set (block_log (file_log nb data))" for w
  proof -
    obtain b d where bd: "(b, d) \<in> set (file_log nb data)" and wd: "w = (b * BLOCK_SIZE, d)"
      using w by (auto simp: block_log_def)
    have "nb * BLOCK_SIZE \<le> b * BLOCK_SIZE" using bnd[OF bd] by (intro mult_le_mono1) simp
    with io have "ioff + length ib \<le> b * BLOCK_SIZE" by (rule order.trans)
    then show ?thesis using wd by (simp add: apart_def)
  qed
  moreover have "sorted_wrt apart (block_log (file_log nb data))"
    using bnd by (intro block_log_apart file_log_distinct) blast
  ultimately show "sorted_wrt apart (block_log (file_log nb data) @ [(ioff, ib)])"
    by (simp add: sorted_wrt_append)
  have "list_all (in_range (TOTAL_BLOCKS * BLOCK_SIZE)) (block_log (file_log nb data))"
  proof (rule block_log_in_range)
    fix b d assume "(b, d) \<in> set (file_log nb data)"
    from bnd[OF this] show "b < nb + file_span (num_blocks_of data) \<and> length d \<le> BLOCK_SIZE" by simp
  qed (use span in simp)
  moreover have "ioff + length ib \<le> TOTAL_BLOCKS * BLOCK_SIZE"
    using io span by (elim order.trans) (intro mult_le_mono1, simp)
  ultimately show "list_all (in_range (TOTAL_BLOCKS * BLOCK_SIZE)) (block_log (file_log nb data) @ [(ioff, ib)])"
    by (simp add: in_range_def)
qed

text \<open>An image with these writes and an inode that names the blocks holds the file.\<close>

lemma file_stored_writes:
  fixes data :: bytes
  defines "n \<equiv> num_blocks_of data"
  assumes im: "length im = TOTAL_BLOCKS * BLOCK_SIZE" and span: "nb + file_span n \<le> TOTAL_BLOCKS"
    and io: "ioff + INODE_SIZE \<le> nb * BLOCK_SIZE" and len: "length ib = INODE_SIZE"
    and sz: "sub ib 4 4 = le_bytes 4 (length data)" and data: "length data < 2 ^ 32"
    and ptr: "\<And>i. i < 15 \<Longrightarrow> sub ib (40 + 4 * i) 4 =
      field_le (i_block_field (take 12 (file_blocks nb n)) (indirect_of nb n) (dindirect_of nb n) i)"
  shows "file_stored (apply_writes (block_log (file_log nb data) @ [(ioff, ib)]) im) ioff nb data"
proof -
  let ?ws = "block_log (file_log nb data) @ [(ioff, ib)]"
  let ?F = "apply_writes ?ws im"
  have ap: "sorted_wrt apart ?ws" and rg: "list_all (in_range (length im)) ?ws"
    using file_writes_apart[of nb data ioff ib] span io len im by (simp_all add: n_def)
  have blk: "sub ?F (b * BLOCK_SIZE) (length d) = d" if "(b, d) \<in> set (file_log nb data)" for b d
    using that by (intro sub_apply_writes_in[OF rg ap]) (auto simp: block_log_def)
  have ino: "sub ?F (ioff + k) 4 = sub ib k 4" if "k + 4 \<le> INODE_SIZE" for k
    using that len by (intro sub_apply_writes_inside[OF rg ap]) auto
  have ib: "i_block_at ?F ioff i = le_val (field_le (i_block_field (take 12 (file_blocks nb n))
      (indirect_of nb n) (dindirect_of nb n) i))" if "i < 15" for i
    using ino[of "40 + 4 * i"] ptr[OF that] that by (simp add: i_block_at_def u32_at_def layout add.assoc)
  have small: "file_block nb i < 2 ^ 32" if "i < n" for i
    using file_block_bounds[OF that, of nb] span by (simp add: file_span_def layout)
  have direct: "i_block_at ?F ioff i = file_block nb i" if "i < n" "i < 12" for i
    using ib[of i] that small by (simp add: i_block_field_def)
  have ind: "12 < n \<longrightarrow> i_block_at ?F ioff 12 = nb + 12"
    using ib[of 12] span
    by (auto simp: i_block_field_def indirect_of_def file_span_def data_span_def layout)
  have dind: "12 + ADDRS_PER_INDIRECT < n \<longrightarrow> i_block_at ?F ioff 13 = nb + 13 + ADDRS_PER_INDIRECT"
    using ib[of 13] span
    by (auto simp: i_block_field_def dindirect_of_def file_span_def data_span_def layout)
  have size: "i_size_at ?F ioff = length data"
    using ino[of 4] sz data by (simp add: i_size_at_def u32_at_def layout)
  show ?thesis
    using blk size direct ind dind span im rg
    by (auto simp: file_stored_def Let_def n_def simp del: apply_writes_append)
qed

context block_source
begin

text \<open>
  Storing a file succeeds when the zone and the inode table have room, changes nothing but
  the allocators' counters and the logged ranges, and leaves the file readable.
\<close>

lemma store_file_run:
  fixes data :: bytes
  defines "n \<equiv> num_blocks_of data"
  assumes ai: "alloc_ino s = Inr (ino, next_inode_update f s)"
    and im: "full_image s" and room: "nxt s + file_span n \<le> limit s"
    and io: "inode_offset ino + INODE_SIZE \<le> nxt s * BLOCK_SIZE"
    and now: "0 \<le> now" "now < 2 ^ 32" and mode: "0 \<le> mode" "mode < 2 ^ 16"
    and data: "length data < 2 ^ 32"
  obtains ib where
    "store_file alloc alloc_ino now mode data s =
       Inr (ino, img_update (apply_writes (block_log (file_log (nxt s) data) @ [(inode_offset ino, ib)]))
         (next_inode_update f (bump (file_span n) s)))"
    and "length ib = INODE_SIZE"
    and "sub ib 0 2 = le_bytes 2 (nat mode)"
    and "file_stored (apply_writes (block_log (file_log (nxt s) data) @ [(inode_offset ino, ib)]) (img s))
       (inode_offset ino) (nxt s) data"
proof -
  let ?nb = "nxt s" and ?s1 = "next_inode_update f s"
  let ?s2 = "bump (data_span n) ?s1"
  have span: "?nb + file_span n \<le> TOTAL_BLOCKS" using room limit_le[of s] by simp
  have nb: "0 < ?nb" using io by (cases ?nb) (simp_all add: inode_offset_def layout)
  have a: "alloc_file_blocks alloc data ?s1 =
      Inr ((file_blocks ?nb n, indirect_of ?nb n, dindirect_of ?nb n), ?s2)"
    using alloc_file_blocks_run[of ?s1 data] room
    by (simp add: n_def source_simps file_span_def Let_def)
  have w: "write_file_data alloc data (file_blocks ?nb n) (indirect_of ?nb n) (dindirect_of ?nb n) ?s2 =
      Inr ((), img_update (apply_writes (block_log (file_log ?nb data))) (bump (dind_groups n) ?s2))"
    unfolding n_def
    by (rule write_file_data_run[OF nb]) (use room in \<open>simp_all add: n_def source_simps file_span_def\<close>)
  have ok: "inode_args_ok now mode (length data) n 1 0 0"
    using now mode data span by (simp add: inode_args_ok_def file_span_def data_span_def)
  have small: "b < 2 ^ 32" if "b \<in> set (take 12 (file_blocks ?nb n))" for b
    using in_set_takeD[OF that] file_block_bounds[of _ n ?nb] span
    by (fastforce simp: file_blocks_def file_span_def layout)
  have ptr: "ptr_ok (indirect_of ?nb n)" "ptr_ok (dindirect_of ?nb n)"
    using span by (auto simp: ptr_ok_def indirect_of_def dindirect_of_def file_span_def data_span_def layout)
  obtain ib where ib:
    "inode_bytes now mode (length data) n (take 12 (file_blocks ?nb n)) 1 (indirect_of ?nb n)
       (dindirect_of ?nb n) 0 0 = Inr ib"
    and len: "length ib = INODE_SIZE" and md: "sub ib 0 2 = le_bytes 2 (nat mode)"
    and sz: "sub ib 4 4 = le_bytes 4 (length data)"
    and fld: "\<And>i. i < 15 \<Longrightarrow> sub ib (40 + 4 * i) 4 = field_le (i_block_field
       (take 12 (file_blocks ?nb n)) (indirect_of ?nb n) (dindirect_of ?nb n) i)"
    using inode_bytes_run[OF ok small ptr] by metis
  have run: "store_file alloc alloc_ino now mode data s =
       Inr (ino, img_update (apply_writes (block_log (file_log ?nb data) @ [(inode_offset ino, ib)]))
         (next_inode_update f (bump (file_span n) s)))"
    by (simp add: store_file_def py_bind_run py_seq_run ai a[unfolded bump_ino]
        w[unfolded bump_ino] write_inode_def ib source_simps
        apply_writes_comp comp_def put_at_def len file_span_def)
  show thesis
  proof (rule that[OF run len md])
    show "file_stored (apply_writes (block_log (file_log ?nb data) @ [(inode_offset ino, ib)]) (img s))
       (inode_offset ino) ?nb data"
      using im span io len sz data fld unfolding n_def full_image_def by (rule file_stored_writes)
  qed
qed

end

section \<open>The two scripts\<close>

lemma inode_table_end:
  assumes "1 \<le> ino" and "ino \<le> m" and "4 * BLOCK_SIZE + m * INODE_SIZE \<le> nb * BLOCK_SIZE"
  shows "inode_offset ino + INODE_SIZE \<le> nb * BLOCK_SIZE"
proof -
  have "(ino - 1) * INODE_SIZE + INODE_SIZE = ino * INODE_SIZE"
    using assms(1) by (cases ino) simp_all
  moreover have "ino * INODE_SIZE \<le> m * INODE_SIZE" using assms(2) by (rule mult_le_mono1)
  ultimately show ?thesis using assms(3) unfolding inode_offset_def by linarith
qed

definition e2_ready :: "ext2_state \<Rightarrow> bool" where
  "e2_ready s \<longleftrightarrow> full_image s \<and> e2_FIRST_DATA_BLOCK \<le> e2_nxt s \<and> 1 \<le> next_inode s \<and>
     next_inode s \<le> e2_INODES_PER_GROUP"

definition e3_ready :: "core \<Rightarrow> bool" where
  "e3_ready s \<longleftrightarrow> full_image s \<and> e3_FIRST_DATA_BLOCK \<le> next_block s \<and> 1 \<le> next_inode s \<and>
     next_inode s \<le> e3_INODES_PER_GROUP"

lemma e2_alloc_inode_run:
  "next_inode s \<le> e2_INODES_PER_GROUP \<Longrightarrow>
   e2_alloc_inode s = Inr (next_inode s, next_inode_update (\<lambda>n. n + 1) s)"
  by (simp add: e2_alloc_inode_def py_bind_def py_seq_def)

lemma e3_alloc_inode_run:
  "next_inode s \<le> e3_INODES_PER_GROUP \<Longrightarrow>
   e3_alloc_inode s = Inr (next_inode s, next_inode_update (\<lambda>n. n + 1) s)"
  by (simp add: e3_alloc_inode_def py_bind_def py_seq_def)

text \<open>
  C5: storing a file with \<^verbatim>\<open>make_ext2_img.py\<close> succeeds whenever the current zone has room for
  its data and pointer blocks, and reading it back through the inode it was given returns
  exactly the stored bytes, whether the file needs direct, indirect or double-indirect
  blocks.
\<close>

theorem e2_store_file_roundtrip:
  assumes "e2_ready s" and "e2_nxt s + file_span (num_blocks_of data) \<le> e2_limit s"
    and "0 \<le> now" "now < 2 ^ 32" "0 \<le> mode" "mode < 2 ^ 16" "length data < 2 ^ 32"
  shows "\<exists>t. e2_store_file now mode data s = Inr (next_inode s, t) \<and> full_image t \<and>
    next_inode t = next_inode s + 1 \<and> e2_nxt t = e2_nxt s + file_span (num_blocks_of data) \<and>
    read_file (img t) (inode_offset (next_inode s)) = data"
proof -
  let ?n = "num_blocks_of data" and ?ino = "next_inode s"
  have io: "inode_offset ?ino + INODE_SIZE \<le> e2_nxt s * BLOCK_SIZE"
    by (rule inode_table_end[of _ e2_INODES_PER_GROUP]) (use assms(1) in \<open>simp_all add: e2_ready_def layout\<close>)
  have ai: "e2_alloc_inode s = Inr (?ino, next_inode_update (\<lambda>n. n + 1) s)"
    using assms(1) by (intro e2_alloc_inode_run) (simp add: e2_ready_def)
  have im: "full_image s" using assms(1) by (simp add: e2_ready_def)
  obtain ib where run: "e2_store_file now mode data s = Inr (?ino,
      img_update (apply_writes (block_log (file_log (e2_nxt s) data) @ [(inode_offset ?ino, ib)]))
        (next_inode_update (\<lambda>n. n + 1) (e2_bump (file_span ?n) s)))"
    and st: "file_stored (apply_writes (block_log (file_log (e2_nxt s) data) @ [(inode_offset ?ino, ib)])
      (img s)) (inode_offset ?ino) (e2_nxt s) data"
    using e2.store_file_run[where f = "\<lambda>n. n + 1" and alloc_ino = e2_alloc_inode and s = s, OF ai im assms(2) io assms(3-7)] unfolding e2_store_file_def by metis
  then show ?thesis
    using read_file_stored[OF st]
    by (simp add: e2.source_simps full_image_def file_stored_def Let_def)
qed

theorem e2_store_file_roundtrip_witness:
  "\<exists>t. e2_store_file 1700000000 0x81A4 [104, 105] e2_init = Inr (12, t) \<and>
     read_file (img t) (inode_offset 12) = [104, 105]"
proof -
  have "e2_ready e2_init"
    by (simp add: e2_ready_def e2_init_def full_image_def e2_nxt_def e2_FIRST_DATA_BLOCK_def
        e2_INODES_PER_GROUP_def)
  moreover have "num_blocks_of [104, 105] = 1"
    by (simp add: num_blocks_of_def ceil_div_def layout)
  then have "e2_nxt e2_init + file_span (num_blocks_of [104, 105]) \<le> e2_limit e2_init"
    by (simp add: e2_nxt_def e2_limit_def e2_init_def file_span_def data_span_def dind_groups_def
        ceil_div_def layout)
  moreover have "next_inode e2_init = 12" by (simp add: e2_init_def)
  ultimately show ?thesis
    using e2_store_file_roundtrip[of e2_init "[104, 105]" 1700000000 "0x81A4"] by auto
qed

text \<open>The same for \<^verbatim>\<open>make_ext3_img.py\<close>.\<close>

theorem e3_store_file_roundtrip:
  assumes "e3_ready s" and "next_block s + file_span (num_blocks_of data) \<le> TOTAL_BLOCKS"
    and "0 \<le> now" "now < 2 ^ 32" "0 \<le> mode" "mode < 2 ^ 16" "length data < 2 ^ 32"
  shows "\<exists>t. e3_store_file now mode data s = Inr (next_inode s, t) \<and> full_image t \<and>
    next_inode t = next_inode s + 1 \<and> next_block t = next_block s + file_span (num_blocks_of data) \<and>
    read_file (img t) (inode_offset (next_inode s)) = data"
proof -
  let ?n = "num_blocks_of data" and ?ino = "next_inode s"
  have io: "inode_offset ?ino + INODE_SIZE \<le> next_block s * BLOCK_SIZE"
    by (rule inode_table_end[of _ e3_INODES_PER_GROUP]) (use assms(1) in \<open>simp_all add: e3_ready_def layout\<close>)
  have ai: "e3_alloc_inode s = Inr (?ino, next_inode_update (\<lambda>n. n + 1) s)"
    using assms(1) by (intro e3_alloc_inode_run) (simp add: e3_ready_def)
  have im: "full_image s" using assms(1) by (simp add: e3_ready_def)
  obtain ib where run: "e3_store_file now mode data s = Inr (?ino,
      img_update (apply_writes (block_log (file_log (next_block s) data) @ [(inode_offset ?ino, ib)]))
        (next_inode_update (\<lambda>n. n + 1) (e3_bump (file_span ?n) s)))"
    and st: "file_stored (apply_writes (block_log (file_log (next_block s) data) @ [(inode_offset ?ino, ib)])
      (img s)) (inode_offset ?ino) (next_block s) data"
    using e3.store_file_run[where f = "\<lambda>n. n + 1" and alloc_ino = e3_alloc_inode and s = s, OF ai im assms(2) io assms(3-7)] unfolding e3_store_file_def by metis
  then show ?thesis
    using read_file_stored[OF st]
    by (simp add: e3_bump_def full_image_def file_stored_def Let_def)
qed

theorem e3_store_file_roundtrip_witness:
  "\<exists>t. e3_store_file 1700000000 0x81A4 [104, 105] e3_init = Inr (12, t) \<and>
     read_file (img t) (inode_offset 12) = [104, 105]"
proof -
  have "e3_ready e3_init"
    by (simp add: e3_ready_def e3_init_def full_image_def e3_INODES_PER_GROUP_def)
  moreover have "num_blocks_of [104, 105] = 1"
    by (simp add: num_blocks_of_def ceil_div_def layout)
  then have "next_block e3_init + file_span (num_blocks_of [104, 105]) \<le> TOTAL_BLOCKS"
    by (simp add: e3_init_def file_span_def data_span_def dind_groups_def ceil_div_def layout)
  moreover have "next_inode e3_init = 12" by (simp add: e3_init_def)
  ultimately show ?thesis
    using e3_store_file_roundtrip[of e3_init "[104, 105]" 1700000000 "0x81A4"] by auto
qed

end
