(* ===== verification/Tree_Ext23.thy ===== *)
theory Tree_Ext23
  imports Phases File_Store
begin

text \<open>
  \<^verbatim>\<open>add_tree\<close> of \<^verbatim>\<open>make_ext2_img.py\<close> and \<^verbatim>\<open>make_ext3_img.py\<close>: the directory part, and the proof
  that block-mapped files and directories meet \<open>tree_target\<close>.
\<close>

text \<open>The statements of \<^verbatim>\<open>add_tree\<close> that write a directory and its inode.\<close>

definition make_directory ::
  "(dirent list \<Rightarrow> ('a core_scheme, nat list) py) \<Rightarrow> int \<Rightarrow> nat \<Rightarrow> dirent list \<Rightarrow> int \<Rightarrow>
   ('a core_scheme, unit) py" where
  "make_directory write_dir now ino dir_entries_list nlink =
     py_bind (write_dir dir_entries_list) (\<lambda>dir_blocks.
     let dir_size = length dir_blocks * BLOCK_SIZE in
     write_inode now ino 0x41ED dir_size (length dir_blocks) (take 12 dir_blocks) nlink None None 0 0)"

definition e2_add_tree :: "int \<Rightarrow> host \<Rightarrow> nat \<Rightarrow> nat \<Rightarrow> (ext2_state, dirent list) py" where
  "e2_add_tree now =
     add_tree (e2_store_file now) e2_alloc_inode (make_directory e2_write_dir_blocks now)"

definition e3_add_tree :: "int \<Rightarrow> host \<Rightarrow> nat \<Rightarrow> nat \<Rightarrow> (core, dirent list) py" where
  "e3_add_tree now =
     add_tree (e3_store_file now) e3_alloc_inode (make_directory e3_write_dir_blocks now)"

section \<open>Reading through an inode\<close>

definition bm_file :: "bytes \<Rightarrow> nat \<Rightarrow> int \<times> bytes" where
  "bm_file im ino = (int (u16_at im (inode_offset ino)), read_file im (inode_offset ino))"

definition bm_dir :: "bytes \<Rightarrow> nat \<Rightarrow> dirent list option" where
  "bm_dir im ino =
     (let io = inode_offset ino in
      read_directory im (map (bmap im io) [0..<i_size_at im io div BLOCK_SIZE]))"

text \<open>A stored file only depends on its blocks and its inode.\<close>

lemma file_stored_same:
  assumes st: "file_stored im ioff nb data" and len: "length im' = length im"
    and io: "same_range im im' ioff (ioff + INODE_SIZE)"
    and bl: "same_range im im' (nb * BLOCK_SIZE) ((nb + file_span (num_blocks_of data)) * BLOCK_SIZE)"
  shows "file_stored im' ioff nb data"
proof -
  let ?n = "num_blocks_of data"
  have span: "nb + file_span ?n \<le> TOTAL_BLOCKS" using st by (simp add: file_stored_def Let_def)
  have blk: "sub im' (b * BLOCK_SIZE) (length d) = sub im (b * BLOCK_SIZE) (length d)"
    if bd: "(b, d) \<in> set (file_log nb data)" for b d
  proof (rule same_range_sub[OF bl])
    have bb: "nb \<le> b" "b < nb + file_span ?n" "length d \<le> BLOCK_SIZE"
      using file_log_bounds[OF bd dind_groups_le[OF span]] by auto
    show "nb * BLOCK_SIZE \<le> b * BLOCK_SIZE" using bb(1) by (rule mult_le_mono1)
    show "b * BLOCK_SIZE + length d \<le> (nb + file_span ?n) * BLOCK_SIZE"
      using mult_le_mono1[of "Suc b" "nb + file_span ?n" BLOCK_SIZE] bb by simp
  qed
  have ib: "i_block_at im' ioff i = i_block_at im ioff i" if "i < 15" for i
    unfolding i_block_at_def using that by (intro same_range_u32[OF io]) (simp_all add: layout)
  have sz: "i_size_at im' ioff = i_size_at im ioff"
    unfolding i_size_at_def by (intro same_range_u32[OF io]) (simp_all add: layout)
  show ?thesis using st blk ib sz len by (auto simp: file_stored_def Let_def)
qed

lemma inode_offset_apart:
  assumes "1 \<le> i" "1 \<le> j" "i \<noteq> j"
  shows "inode_offset i + INODE_SIZE \<le> inode_offset j \<or> inode_offset j + INODE_SIZE \<le> inode_offset i"
  using assms by (simp add: inode_offset_def layout) linarith

text \<open>An inode table of \<open>m\<close> slots that ends before block \<open>lo\<close>.\<close>

definition table_fits :: "nat \<Rightarrow> nat \<Rightarrow> bool" where
  "table_fits m lo \<longleftrightarrow> 4 * BLOCK_SIZE + m * INODE_SIZE \<le> lo * BLOCK_SIZE"

lemma slot_below:
  assumes "table_fits m lo" "1 \<le> i" "i \<le> m" "lo \<le> nb"
  shows "inode_offset i + INODE_SIZE \<le> lo * BLOCK_SIZE" "inode_offset i + INODE_SIZE \<le> nb * BLOCK_SIZE"
proof -
  show a: "inode_offset i + INODE_SIZE \<le> lo * BLOCK_SIZE"
    using assms by (intro inode_table_end[of i m]) (simp_all add: table_fits_def)
  have "lo * BLOCK_SIZE \<le> nb * BLOCK_SIZE" using assms(4) by (rule mult_le_mono1)
  with a show "inode_offset i + INODE_SIZE \<le> nb * BLOCK_SIZE" by (rule order.trans)
qed

lemma writes_agree:
  assumes fit: "table_fits m lo" and nb: "lo \<le> nb" and ino: "1 \<le> ino" "ino \<le> m"
    and rng: "list_all (in_range (length im)) (block_log bds @ [(inode_offset ino, ib)])"
    and bl: "\<And>b d. (b, d) \<in> set bds \<Longrightarrow> nb \<le> b" and ib: "length ib = INODE_SIZE"
  shows "agrees lo inode_offset INODE_SIZE im
    (apply_writes (block_log bds @ [(inode_offset ino, ib)]) im) nb ({1..m} - {ino})"
proof (rule apply_writes_agrees[OF rng, of _ _ _ _ "{ino}"])
  show "nb * BLOCK_SIZE \<le> fst v \<or> (\<exists>j. fst v = inode_offset j \<and> length (snd v) = INODE_SIZE \<and>
      inode_offset j + INODE_SIZE \<le> lo * BLOCK_SIZE \<and> j \<in> {ino})"
    if "v \<in> set (block_log bds @ [(inode_offset ino, ib)])" for v
    using that bl ib slot_below(1)[OF fit ino nb] by (auto simp: block_log_def intro: mult_le_mono1)
  show "inode_offset i + INODE_SIZE \<le> nb * BLOCK_SIZE" if "i \<in> {1..m} - {ino}" for i
    using that slot_below(2)[OF fit _ _ nb, of i] by simp
  show "inode_offset i + INODE_SIZE \<le> inode_offset j \<or> inode_offset j + INODE_SIZE \<le> inode_offset i"
    if "i \<in> {1..m} - {ino}" "j \<in> {ino}" for i j
    using that ino inode_offset_apart[of i j] by auto
qed

context block_source
begin

definition bm_ready :: "nat \<Rightarrow> 'a core_scheme \<Rightarrow> bool" where
  "bm_ready lo s \<longleftrightarrow> full_image s \<and> lo \<le> nxt s \<and> 1 \<le> next_inode s"

lemma store_file_law:
  assumes fit: "table_fits m lo" and s: "bm_ready lo s" "next_inode s \<le> m"
    and ai: "alloc_ino s = Inr (next_inode s, next_inode_update (\<lambda>n. n + 1) s)"
    and room: "nxt s + file_span (num_blocks_of data) \<le> limit s"
    and now: "0 \<le> now" "now < 2 ^ 32" and mode: "0 \<le> mode" "mode < 2 ^ 16" and data: "length data < 2 ^ 32"
  shows "\<exists>t. store_file alloc alloc_ino now mode data s = Inr (next_inode s, t) \<and> bm_ready lo t \<and>
    nxt t = nxt s + file_span (num_blocks_of data) \<and> next_inode t = next_inode s + 1 \<and> limit t = limit s \<and>
    agrees lo inode_offset INODE_SIZE (img s) (img t) (nxt s) ({1..m} - {next_inode s}) \<and>
    (\<forall>im. agrees lo inode_offset INODE_SIZE (img t) im (nxt t) {next_inode s} \<longrightarrow>
       bm_file im (next_inode s) = (mode, data))"
proof -
  let ?i = "next_inode s" and ?nb = "nxt s" and ?n = "num_blocks_of data"
  have im: "full_image s" and nb: "lo \<le> ?nb" and i: "1 \<le> ?i" using s by (simp_all add: bm_ready_def)
  note io = slot_below(2)[OF fit i s(2) nb]
  obtain ib where run: "store_file alloc alloc_ino now mode data s =
       Inr (?i, img_update (apply_writes (block_log (file_log ?nb data) @ [(inode_offset ?i, ib)]))
         (next_inode_update (\<lambda>n. n + 1) (bump (file_span ?n) s)))"
    and len: "length ib = INODE_SIZE" and md: "sub ib 0 2 = le_bytes 2 (nat mode)"
    and st: "file_stored (apply_writes (block_log (file_log ?nb data) @ [(inode_offset ?i, ib)]) (img s))
       (inode_offset ?i) ?nb data"
    using store_file_run[where f = "\<lambda>n. n + 1" and alloc_ino = alloc_ino and s = s,
        OF ai im room io now mode data] by metis
  let ?ws = "block_log (file_log ?nb data) @ [(inode_offset ?i, ib)]"
  let ?F = "apply_writes ?ws (img s)"
  have span: "?nb + file_span ?n \<le> TOTAL_BLOCKS" using room limit_le[of s] by simp
  have ap: "sorted_wrt apart ?ws" and rg: "list_all (in_range (length (img s))) ?ws"
    using file_writes_apart[OF span, of "inode_offset ?i" ib] io len im by (simp_all add: full_image_def)
  have ag: "agrees lo inode_offset INODE_SIZE (img s) ?F ?nb ({1..m} - {?i})"
    using file_log_bounds[OF _ dind_groups_le[OF span]] by (intro writes_agree[OF fit nb i s(2) rg _ len]) blast
  have md': "sub ?F (inode_offset ?i) 2 = le_bytes 2 (nat mode)"
    using sub_apply_writes_inside[OF rg ap, of "inode_offset ?i" ib 0 2] len md by (simp add: layout)
  have rd: "bm_file im ?i = (mode, data)"
    if a: "agrees lo inode_offset INODE_SIZE ?F im (?nb + file_span ?n) {?i}" for im
  proof -
    have slot: "same_range ?F im (inode_offset ?i) (inode_offset ?i + INODE_SIZE)"
      using agrees_slot[OF a, of ?i] by simp
    have "file_stored im (inode_offset ?i) ?nb data"
      using agrees_length[OF a] slot agrees_blocks[OF a nb order.refl] by (rule file_stored_same[OF st])
    moreover have "sub im (inode_offset ?i) 2 = sub ?F (inode_offset ?i) 2"
      by (rule same_range_sub[OF slot]) (simp_all add: layout)
    then have "int (u16_at im (inode_offset ?i)) = mode"
      using mode md' by (simp add: u16_at_def nat_less_iff)
    ultimately show ?thesis by (simp add: bm_file_def read_file_stored)
  qed
  have len: "length ?F = length (img s)" using agrees_length[OF ag] by simp
  show ?thesis
    unfolding run using ag rd im nb len
    by (intro exI[of _ "img_update (apply_writes ?ws) (next_inode_update (\<lambda>n. n + 1) (bump (file_span ?n) s))"])
      (simp add: source_simps bm_ready_def full_image_def)
qed

end

section \<open>Directories\<close>

text \<open>The layout of a directory only depends on the names.\<close>

definition nameless :: "string list \<Rightarrow> dirent list" where
  "nameless ns = map (\<lambda>n. (0, n, 0)) ns"

definition names_fit :: "(nat \<Rightarrow> bool) \<Rightarrow> string list \<Rightarrow> bool" where
  "names_fit gap_ok ns \<longleftrightarrow> last_fits (nameless ns) \<and> list_all gap_ok (dir_gaps 0 (nameless ns))"

definition names_span :: "string list \<Rightarrow> nat" where
  "names_span ns = dir_span (nameless ns)"

lemma ent_min_nameless: "ent_min (0, fst (snd e), 0) = ent_min e" "name_len_of (0, fst (snd e), 0) = name_len_of e"
  by (simp_all add: ent_min_def name_len_of_def)

lemma dir_rest_nameless: "dir_rest u (nameless (entry_names es)) = dir_rest u es"
  by (induction u es rule: dir_rest.induct) (simp_all add: nameless_def entry_names_def ent_min_nameless)

lemma dir_gaps_nameless: "dir_gaps u (nameless (entry_names es)) = dir_gaps u es"
  by (induction u es rule: dir_gaps.induct) (simp_all add: nameless_def entry_names_def ent_min_nameless)

lemma names_fit_entries: "names_fit gap_ok (entry_names es) \<longleftrightarrow> last_fits es \<and> list_all gap_ok (dir_gaps 0 es)"
proof -
  have "es \<noteq> [] \<Longrightarrow> name_len_of (last (nameless (entry_names es))) = name_len_of (last es)"
    by (simp add: nameless_def entry_names_def last_map ent_min_nameless)
  then show ?thesis
    by (auto simp: names_fit_def last_fits_def dir_rest_nameless dir_gaps_nameless)
       (auto simp: nameless_def entry_names_def)
qed

lemma names_span_entries: "names_span (entry_names es) = dir_span es"
  by (simp add: names_span_def dir_span_def dir_gaps_nameless)

lemma read_blocks_same:
  "(\<And>b. b \<in> set bs \<Longrightarrow> block_at im' b = block_at im b) \<Longrightarrow> read_blocks im' bs = read_blocks im bs"
  by (induction bs) (auto split: option.splits)

lemma inode_table_lookup:
  assumes "im' = put_at ioff ib im" and "ioff + INODE_SIZE \<le> length im" and "length ib = INODE_SIZE"
    and "k + n \<le> INODE_SIZE"
  shows "sub im' (ioff + k) n = sub ib k n"
  using assms by (simp add: sub_put_at_inside)

context dir_cover
begin

text \<open>A directory of at most twelve blocks and its inode.\<close>

lemma make_directory_law:
  assumes fit: "table_fits m lo" and s: "bm_ready lo s" and ino: "1 \<le> ino" "ino \<le> m"
    and es: "entries_ok es" and nm: "names_fit gap_ok (entry_names es)" "names_span (entry_names es) \<le> 12"
    and room: "nxt s + names_span (entry_names es) \<le> limit s"
    and now: "0 \<le> now" "now < 2 ^ 32" and nlink: "0 \<le> nlink" "nlink < 2 ^ 16"
  shows "\<exists>t. make_directory (write_dir_blocks pad alloc) now ino es nlink s = Inr ((), t) \<and> bm_ready lo t \<and>
    nxt t = nxt s + names_span (entry_names es) \<and> next_inode t = next_inode s \<and> limit t = limit s \<and>
    agrees lo inode_offset INODE_SIZE (img s) (img t) (nxt s) ({1..m} - {ino}) \<and>
    (\<forall>im. agrees lo inode_offset INODE_SIZE (img t) im (nxt t) {ino} \<longrightarrow> bm_dir im ino = Some es)"
proof -
  let ?nb = "nxt s" and ?k = "dir_span es" and ?io = "inode_offset ino" and ?cs = "dir_chains pad_chain [] es"
  have im: "full_image s" and nb: "lo \<le> ?nb" and si: "1 \<le> next_inode s" using s by (simp_all add: bm_ready_def)
  have k12: "?k \<le> 12" and room': "?nb + ?k \<le> limit s" using nm(2) room by (simp_all add: names_span_entries)
  have lf: "last_fits es" and gp: "list_all gap_ok (dir_gaps 0 es)" using nm(1) by (simp_all add: names_fit_entries)
  note d = directory_run[OF es lf gp im room']
  have tot: "?nb + ?k \<le> TOTAL_BLOCKS" using room' limit_le[of s] by simp
  have ok: "inode_args_ok now 0x41ED (?k * BLOCK_SIZE) ?k nlink 0 0"
    using now nlink k12 by (simp add: inode_args_ok_def layout)
  have bs: "take 12 [?nb..<?nb + ?k] = [?nb..<?nb + ?k]" using k12 by simp
  have small: "b < 2 ^ 32" if "b \<in> set [?nb..<?nb + ?k]" for b using that tot by (simp add: layout)
  obtain ib where ib: "inode_bytes now 0x41ED (?k * BLOCK_SIZE) ?k [?nb..<?nb + ?k] nlink None None 0 0 = Inr ib"
    and len: "length ib = INODE_SIZE" and sz: "sub ib 4 4 = le_bytes 4 (?k * BLOCK_SIZE)"
    and fld: "\<And>i. i < 15 \<Longrightarrow> sub ib (40 + 4 * i) 4 = field_le (i_block_field [?nb..<?nb + ?k] None None i)"
    by (rule inode_bytes_run[OF ok, of "[?nb..<?nb + ?k]" None None]) (use small in \<open>auto simp: ptr_ok_def\<close>)
  let ?ws = "block_log (dir_log ?nb ?cs) @ [(?io, ib)]"
  let ?D = "apply_writes (block_log (dir_log ?nb ?cs)) (img s)" and ?F = "apply_writes ?ws (img s)"
  have F: "?F = put_at ?io ib ?D" by (simp add: apply_writes_append)
  have run: "make_directory (write_dir_blocks pad alloc) now ino es nlink s =
      Inr ((), img_update (apply_writes ?ws) (bump ?k s))"
    unfolding make_directory_def
    by (simp add: py_bind_run d(1) Let_def bs write_inode_def ib put_at_def len apply_writes_comp comp_def)
  note io = slot_below(2)[OF fit ino nb]
  have le: "list_all (\<lambda>c. length (chain_bytes c) \<le> BLOCK_SIZE) ?cs" using d(2) by (simp add: list_all_iff)
  have cs: "?nb + length ?cs \<le> TOTAL_BLOCKS" using tot d(3) by simp
  have l0: "length (img s) = TOTAL_BLOCKS * BLOCK_SIZE" using im by (simp add: full_image_def)
  have nbt: "?nb * BLOCK_SIZE \<le> TOTAL_BLOCKS * BLOCK_SIZE" using tot by (intro mult_le_mono1) simp
  have iol: "?io + INODE_SIZE \<le> length (img s)" unfolding l0 using io nbt by (rule order.trans)
  have rg: "list_all (in_range (length (img s))) ?ws"
    using dir_log_writes(2)[OF le cs] iol len l0 by (simp add: in_range_def)
  have ag: "agrees lo inode_offset INODE_SIZE (img s) ?F ?nb ({1..m} - {ino})"
    by (rule writes_agree[OF fit nb ino rg _ len]) (auto simp: dir_log_nth)
  have lD: "length ?D = length (img s)" using rg by simp
  have slot: "sub ?F (?io + j) n = sub ib j n" if "j + n \<le> INODE_SIZE" for j n
    using inode_table_lookup[OF F _ len that] iol lD by simp
  have blk: "block_at ?F b = block_at ?D b" if "?nb \<le> b" for b
  proof -
    have "?nb * BLOCK_SIZE \<le> b * BLOCK_SIZE" using that by (rule mult_le_mono1)
    with io have "?io + length ib \<le> b * BLOCK_SIZE" unfolding len by (rule order.trans)
    then show ?thesis unfolding F block_at_def using iol lD len by (intro sub_put_at_disjoint) simp_all
  qed
  have rd: "bm_dir im ino = Some es" if a: "agrees lo inode_offset INODE_SIZE ?F im (?nb + ?k) {ino}" for im
  proof -
    have sr: "same_range ?F im ?io (?io + INODE_SIZE)" using agrees_slot[OF a, of ino] by simp
    have at: "sub im (?io + j) 4 = sub ib j 4" if "j + 4 \<le> INODE_SIZE" for j
      using same_range_sub[OF sr, of "?io + j" 4] slot[OF that] that by simp
    have "i_size_at im ?io = ?k * BLOCK_SIZE"
      using at[of 4] sz k12 by (simp add: i_size_at_def u32_at_def layout)
    then have n: "i_size_at im ?io div BLOCK_SIZE = ?k" by simp
    have "bmap im ?io j = ?nb + j" if "j < ?k" for j
      using at[of "40 + 4 * j"] fld[of j] that k12 small[of "?nb + j"]
      by (simp add: bmap_def i_block_at_def u32_at_def i_block_field_def add.assoc layout)
    then have "map (bmap im ?io) [0..<?k] = [?nb..<?nb + ?k]" by (intro nth_equalityI) simp_all
    moreover have "read_blocks im [?nb..<?nb + ?k] = read_blocks ?D [?nb..<?nb + ?k]"
    proof (rule read_blocks_same)
      fix b assume b: "b \<in> set [?nb..<?nb + ?k]"
      then have "block_at im b = block_at ?F b"
        using same_range_block[OF agrees_blocks[OF a nb order.refl]] by simp
      then show "block_at im b = block_at ?D b" using blk b by simp
    qed
    ultimately show ?thesis using d(4) by (simp add: bm_dir_def Let_def n read_directory_def)
  qed
  show ?thesis
    unfolding run using ag rd nb si im agrees_length[OF ag]
    by (intro exI[of _ "img_update (apply_writes ?ws) (bump ?k s)"])
      (simp add: source_simps bm_ready_def full_image_def names_span_entries)
qed

end

section \<open>The two scripts\<close>

text \<open>\<^verbatim>\<open>now = int(time.time())\<close> fits the 32-bit time stamps.\<close>

definition clock_ok :: "int \<Rightarrow> bool" where
  "clock_ok now \<longleftrightarrow> 0 \<le> now \<and> now < 2 ^ 32"

definition e2_tree_ready :: "int \<Rightarrow> ext2_state \<Rightarrow> bool" where
  "e2_tree_ready now s \<longleftrightarrow> clock_ok now \<and> full_image s \<and> e2_FIRST_DATA_BLOCK \<le> e2_nxt s \<and> 1 \<le> next_inode s"

definition e3_tree_ready :: "int \<Rightarrow> core \<Rightarrow> bool" where
  "e3_tree_ready now s \<longleftrightarrow> clock_ok now \<and> full_image s \<and> e3_FIRST_DATA_BLOCK \<le> next_block s \<and> 1 \<le> next_inode s"

definition e2_dir_names_ok :: "string list \<Rightarrow> bool" where
  "e2_dir_names_ok ns \<longleftrightarrow> last_fits (nameless ns) \<and> names_span ns \<le> 12"

definition e3_dir_names_ok :: "string list \<Rightarrow> bool" where
  "e3_dir_names_ok ns \<longleftrightarrow> names_fit (\<lambda>g. g = 0 \<or> 12 \<le> g) ns \<and> names_span ns \<le> 12"

lemma e2_table_fits: "table_fits e2_INODES_PER_GROUP e2_FIRST_DATA_BLOCK"
  by (simp add: table_fits_def layout)

lemma e3_table_fits: "table_fits e3_INODES_PER_GROUP e3_FIRST_DATA_BLOCK"
  by (simp add: table_fits_def layout)

lemma e2_tree_ready_eq: "e2_tree_ready now s \<longleftrightarrow> clock_ok now \<and> e2.bm_ready e2_FIRST_DATA_BLOCK s"
  by (simp add: e2_tree_ready_def e2.bm_ready_def)

lemma e3_tree_ready_eq: "e3_tree_ready now s \<longleftrightarrow> clock_ok now \<and> e3.bm_ready e3_FIRST_DATA_BLOCK s"
  by (simp add: e3_tree_ready_def e3.bm_ready_def)

interpretation e2_tree: tree_target "e2_store_file now" e2_alloc_inode "make_directory e2_write_dir_blocks now"
  "e2_tree_ready now" e2_nxt e2_limit e2_FIRST_DATA_BLOCK inode_offset INODE_SIZE e2_INODES_PER_GROUP
  "\<lambda>data. file_span (num_blocks_of data)" names_span e2_dir_names_ok bm_file bm_dir
  for now
proof (unfold_locales, goal_cases)
  case (1 s data mode)
  then show ?case
    using e2.store_file_law[OF e2_table_fits, of s e2_alloc_inode data now mode] e2_alloc_inode_run[of s]
    by (simp add: e2_store_file_def e2_tree_ready_eq clock_ok_def)
next
  case (2 s ino es nlink)
  have "names_fit (\<lambda>_. True) (entry_names es)" "names_span (entry_names es) \<le> 12"
    using 2(5) by (simp_all add: e2_dir_names_ok_def names_fit_def list_all_iff)
  then show ?case
    using e2_dir.make_directory_law[OF e2_table_fits, of s ino es now nlink] 2
    by (simp add: e2_write_dir_blocks_def e2_tree_ready_eq clock_ok_def)
next
  case (3 s)
  then show ?case using e2_alloc_inode_run[of s] by (auto simp: e2_tree_ready_def full_image_def e2_nxt_def)
qed (auto simp: e2_tree_ready_def full_image_def e2_nxt_def e2_limit_def e2_INODES_PER_GROUP_def)

interpretation e3_tree: tree_target "e3_store_file now" e3_alloc_inode "make_directory e3_write_dir_blocks now"
  "e3_tree_ready now" next_block "\<lambda>_. TOTAL_BLOCKS" e3_FIRST_DATA_BLOCK inode_offset INODE_SIZE
  e3_INODES_PER_GROUP "\<lambda>data. file_span (num_blocks_of data)" names_span e3_dir_names_ok bm_file bm_dir
  for now
proof (unfold_locales, goal_cases)
  case (1 s data mode)
  then show ?case
    using e3.store_file_law[OF e3_table_fits, of s e3_alloc_inode data now mode] e3_alloc_inode_run[of s]
    by (simp add: e3_store_file_def e3_tree_ready_eq clock_ok_def)
next
  case (2 s ino es nlink)
  then show ?case
    using e3_dir.make_directory_law[OF e3_table_fits, of s ino es now nlink]
    by (simp add: e3_write_dir_blocks_def e3_tree_ready_eq clock_ok_def e3_dir_names_ok_def)
next
  case (3 s)
  then show ?case using e3_alloc_inode_run[of s] by (simp add: e3_tree_ready_def full_image_def)
qed (auto simp: e3_tree_ready_def full_image_def e3_INODES_PER_GROUP_def)


text \<open>
  The same for \<^verbatim>\<open>make_ext3_img.py\<close>, for directories without the gaps its loop cannot close.
\<close>

theorem e3_add_tree_roundtrip:
  assumes "e3_tree_ready now s" and "tree_ok e3_dir_names_ok (children d)"
    and "next_inode s + tree_inodes (children d) \<le> e3_INODES_PER_GROUP + 1"
    and "next_block s + tree_blocks (\<lambda>data. file_span (num_blocks_of data)) names_span (children d) \<le> TOTAL_BLOCKS"
    and "1 \<le> self" "self \<le> e3_INODES_PER_GROUP" and "\<forall>c \<in> set (children d). node_height (snd c) \<le> n"
  shows "\<exists>es t. e3_add_tree now d self parent s = Inr (es, t) \<and> full_image t \<and>
    next_inode t = next_inode s + tree_inodes (children d) \<and>
    entry_names es = map fst (children d) \<and>
    map (read_node bm_file bm_dir n (img t) self) es = map (\<lambda>c. Some (prune (snd c))) (children d)"
proof -
  obtain es t where t: "e3_add_tree now d self parent s = Inr (es, t)"
    "e3_tree.copies now self s t (children d) es"
    using e3_tree.add_tree_copies[of now d] assms(1-6)
    unfolding e3_tree.copyable_def e3_add_tree_def by blast
  then show ?thesis
    using assms(7) by (auto simp: e3_tree.copies_def e3_tree.grown_def e3_tree_ready_def)
qed

section \<open>A concrete tree\<close>

definition sample_tree :: host where
  "sample_tree = HDir (Some [(''std'', HDir (Some [(''mem.zig'', HFile [47, 47] False), (''ln'', HLink)])),
     (''run'', HFile [35] True)])"

lemma sample_children:
  "children sample_tree = [(''run'', HFile [35] True),
     (''std'', HDir (Some [(''mem.zig'', HFile [47, 47] False), (''ln'', HLink)]))]"
  "children (HDir (Some [(''mem.zig'', HFile [47, 47] False), (''ln'', HLink)])) =
     [(''mem.zig'', HFile [47, 47] False)]"
  by (simp_all add: sample_tree_def children_def visible_def)

lemma sample_names:
  fixes ns :: "string list"
  defines "ns \<equiv> dot_names (HDir (Some [(''mem.zig'', HFile [47, 47] False), (''ln'', HLink)]))"
  shows "last_fits (nameless ns)" "dir_gaps 0 (nameless ns) = []" "names_span ns = 1"
proof -
  have ns: "nameless ns = [(0, ''.'', 0), (0, ''..'', 0), (0, ''mem.zig'', 0)]"
    by (simp add: ns_def nameless_def dot_names_def sample_children)
  have "sum_list (map ent_min (nameless ns)) \<le> BLOCK_SIZE"
    by (simp add: ns ent_min_def min_rec_len_def layout)
  moreover have "nameless ns \<noteq> []" by (simp add: ns)
  ultimately show "last_fits (nameless ns)" "dir_gaps 0 (nameless ns) = []" "names_span ns = 1"
    unfolding names_span_def using small_directory by blast+
qed

lemma sample_needs:
  "tree_inodes (children sample_tree) = 3"
  "tree_blocks (\<lambda>data. file_span (num_blocks_of data)) names_span (children sample_tree) = 3"
  "\<forall>c \<in> set (children sample_tree). node_height (snd c) \<le> 2"
  "e2_dir_names_ok (dot_names (HDir (Some [(''mem.zig'', HFile [47, 47] False), (''ln'', HLink)]))) \<Longrightarrow>
     tree_ok e2_dir_names_ok (children sample_tree)"
  "e3_dir_names_ok (dot_names (HDir (Some [(''mem.zig'', HFile [47, 47] False), (''ln'', HLink)]))) \<Longrightarrow>
     tree_ok e3_dir_names_ok (children sample_tree)"
proof -
  have sp: "file_span (num_blocks_of [47, 47]) = 1" "file_span (num_blocks_of [35]) = 1"
    by (simp_all add: num_blocks_of_def ceil_div_def layout file_span_def data_span_def dind_groups_def)
  show "tree_blocks (\<lambda>data. file_span (num_blocks_of data)) names_span (children sample_tree) = 3"
    using sp by (simp add: sample_children node_dir_simps sample_names(3))
  show "\<forall>c \<in> set (children sample_tree). node_height (snd c) \<le> 2"
    by (simp add: sample_children node_height.simps[of "HDir _"] node_height.simps[of "HFile _ _"])
qed (simp_all add: sample_children node_dir_simps is_ascii_def)


theorem e3_add_tree_roundtrip_witness:
  "\<exists>es t. e3_add_tree 1700000000 sample_tree 2 1 e3_init = Inr (es, t) \<and>
     map (read_node bm_file bm_dir 2 (img t) 2) es =
       [Some (HFile [35] True), Some (HDir (Some [(''mem.zig'', HFile [47, 47] False)]))]"
proof -
  have ok: "tree_ok e3_dir_names_ok (children sample_tree)"
    by (rule sample_needs(5)) (simp add: e3_dir_names_ok_def names_fit_def sample_names)
  have r: "e3_tree_ready 1700000000 e3_init"
    by (simp add: e3_tree_ready_def clock_ok_def full_image_def e3_init_def)
  have room: "next_inode e3_init + tree_inodes (children sample_tree) \<le> e3_INODES_PER_GROUP + 1"
    "next_block e3_init + tree_blocks (\<lambda>data. file_span (num_blocks_of data)) names_span (children sample_tree)
       \<le> TOTAL_BLOCKS"
    unfolding sample_needs by (simp_all add: e3_init_def layout)
  have pr: "map (\<lambda>c. Some (prune (snd c))) (children sample_tree) =
      [Some (HFile [35] True), Some (HDir (Some [(''mem.zig'', HFile [47, 47] False)]))]"
    by (simp add: sample_children prune_file prune_dir)
  show ?thesis
    using e3_add_tree_roundtrip[OF r ok room _ _ sample_needs(3), of 2 1] unfolding pr
    by (auto simp: e3_INODES_PER_GROUP_def)
qed

end
