(* ===== verification/Meta23.thy ===== *)
theory Meta23
  imports Bitmaps Tree_Ext23
begin

text \<open>
  The last phase of \<^verbatim>\<open>make_ext2_img.py\<close> and \<^verbatim>\<open>make_ext3_img.py\<close>: bitmaps, group descriptor and
  superblock.  The theory shows that the descriptor points at the bitmaps that were written,
  that the bits are the blocks and inodes in use, that the free counts of \<^verbatim>\<open>make_ext2_img.py\<close> are
  the numbers of clear bits, and that the phase leaves every inode and data block alone.
\<close>

section \<open>Descriptor and superblock\<close>

definition bgd_fields :: "int \<Rightarrow> int \<Rightarrow> int \<Rightarrow> field list" where
  "bgd_fields free_blocks free_inodes used_dirs =
     [U 4 2, U 4 3, U 4 4, U 2 (free_blocks AND 0xFFFF), U 2 (free_inodes AND 0xFFFF), U 2 used_dirs,
      U 2 0, S 12 (zeros 12)]"

text \<open>The format \<^verbatim>\<open><13I 6H 4I 2H\<close>, which the three scripts fill in the same order.\<close>

definition sb_fields :: "nat \<Rightarrow> int \<Rightarrow> int \<Rightarrow> nat \<Rightarrow> nat \<Rightarrow> int \<Rightarrow> int \<Rightarrow> field list" where
  "sb_fields inodes free_blocks free_inodes blocks_per_group inodes_per_group now rev_level =
     [U 4 (int inodes), U 4 (int TOTAL_BLOCKS), U 4 0, U 4 free_blocks, U 4 free_inodes, U 4 0, U 4 2, U 4 2,
      U 4 (int blocks_per_group), U 4 (int blocks_per_group), U 4 (int inodes_per_group), U 4 now, U 4 now,
      U 2 0, U 2 100, U 2 EXT2_SUPER_MAGIC, U 2 1, U 2 1, U 2 0,
      U 4 now, U 4 0, U 4 0, U 4 rev_level, U 2 0, U 2 0]"

definition e2_sb_stmts :: "int \<Rightarrow> int \<Rightarrow> int \<Rightarrow> pack_stmt list" where
  "e2_sb_stmts now free_blocks free_inodes =
     [(0, sb_fields e2_INODES_PER_GROUP free_blocks free_inodes BITMAP_CAPACITY e2_INODES_PER_GROUP now 0),
      (0x4C, [U 4 1]), (0x54, [U 4 11]), (0x58, [U 2 128]), (0x5C, [U 4 0x0004]), (0xE0, [U 4 8])]"

definition e3_uuid_of :: "int \<Rightarrow> bytes result" where
  "e3_uuid_of now = pack_le [U 4 0xDEAD0E03, U 4 0xBEEF0E03, U 4 (now AND 0xFFFFFFFF), U 4 0x0E030E03]"

definition e3_sb_stmts :: "int \<Rightarrow> bytes \<Rightarrow> int \<Rightarrow> int \<Rightarrow> pack_stmt list" where
  "e3_sb_stmts now fs_uuid free_blocks free_inodes =
     [(0, sb_fields e3_INODES_PER_GROUP free_blocks free_inodes TOTAL_BLOCKS e3_INODES_PER_GROUP now 1),
      (0x54, [U 4 11]), (0x58, [U 2 (int INODE_SIZE)]), (0x5C, [U 4 0x0004]), (0x60, [U 4 0x0002]),
      (0x64, [U 4 0]), (0x68, [S 16 fs_uuid]), (0xE0, [U 4 8])]"

definition used_dirs_of :: "bool \<Rightarrow> bool \<Rightarrow> nat \<Rightarrow> nat" where
  "used_dirs_of has_bin has_zig tree_dirs =
     9 + (if has_bin then 1 else 0) + (if has_zig then 1 + tree_dirs else 0)"

text \<open>The phase, over the script's own free counts and superblock statements.\<close>

definition write_metadata ::
  "nat \<Rightarrow> nat \<Rightarrow> (int \<Rightarrow> int \<Rightarrow> pack_stmt list) \<Rightarrow> bool \<Rightarrow> bool \<Rightarrow> ('a core_scheme, unit) py" where
  "write_metadata blocks_total inodes_total sb_stmts has_bin has_zig =
     py_bind (py_get next_block) (\<lambda>nb.
     py_bind (py_lift (block_bitmap nb)) (\<lambda>bb.
     py_seq (write_block 2 bb)
     (py_bind (py_get next_inode) (\<lambda>ni.
      py_bind (py_lift (inode_bitmap ni)) (\<lambda>ib.
      py_seq (write_block 3 ib)
      (let free_blocks = int blocks_total - int nb;
           free_inodes = int inodes_total - int ni + 1 in
       py_bind (py_get tree_dirs_created) (\<lambda>td.
       py_bind (py_lift (pack_le (bgd_fields free_blocks free_inodes (int (used_dirs_of has_bin has_zig td)))))
         (\<lambda>bgd.
       py_seq (write_block 1 bgd)
       (py_bind (py_lift (pack_seq (sb_stmts free_blocks free_inodes) (zeros 1024))) (\<lambda>sb.
        write_at 1024 sb))))))))))"

definition e2_write_metadata :: "int \<Rightarrow> bool \<Rightarrow> bool \<Rightarrow> (ext2_state, unit) py" where
  "e2_write_metadata now = write_metadata BITMAP_CAPACITY e2_INODES_PER_GROUP (e2_sb_stmts now)"

definition e3_write_metadata :: "int \<Rightarrow> bytes \<Rightarrow> bool \<Rightarrow> bool \<Rightarrow> (core, unit) py" where
  "e3_write_metadata now fs_uuid = write_metadata TOTAL_BLOCKS e3_INODES_PER_GROUP (e3_sb_stmts now fs_uuid)"

section \<open>The four blocks of metadata\<close>

definition meta_log :: "bytes \<Rightarrow> bytes \<Rightarrow> bytes \<Rightarrow> bytes \<Rightarrow> wlog" where
  "meta_log bb ib bgd sb =
     [(2 * BLOCK_SIZE, bb), (3 * BLOCK_SIZE, ib), (1 * BLOCK_SIZE, bgd), (1024, sb)]"

lemma meta_view:
  assumes len: "length im = TOTAL_BLOCKS * BLOCK_SIZE" and b: "length bb = BLOCK_SIZE" "length ib = BLOCK_SIZE"
    and d: "length bgd = 32" and s: "length sb = 1024"
  defines "F \<equiv> apply_writes (meta_log bb ib bgd sb) im"
  shows "length F = length im" and "block_at F 2 = bb" and "block_at F 3 = ib"
    and "k + n \<le> 32 \<Longrightarrow> sub F (BLOCK_SIZE + k) n = sub bgd k n"
    and "k + n \<le> 1024 \<Longrightarrow> sub F (1024 + k) n = sub sb k n"
    and "same_range im F (4 * BLOCK_SIZE) (TOTAL_BLOCKS * BLOCK_SIZE)"
proof -
  let ?ws = "meta_log bb ib bgd sb"
  have rg: "list_all (in_range (length im)) ?ws"
    using len b d s by (simp add: meta_log_def in_range_def layout)
  have ap: "sorted_wrt apart ?ws" using b d s by (simp add: meta_log_def apart_def layout)
  show "length F = length im" unfolding F_def using rg by simp
  show "block_at F 2 = bb" "block_at F 3 = ib"
    unfolding F_def block_at_def using b sub_apply_writes_in[OF rg ap, of "2 * BLOCK_SIZE" bb]
      sub_apply_writes_in[OF rg ap, of "3 * BLOCK_SIZE" ib] by (simp_all add: meta_log_def)
  show "sub F (BLOCK_SIZE + k) n = sub bgd k n" if "k + n \<le> 32"
    unfolding F_def using that d by (intro sub_apply_writes_inside[OF rg ap]) (simp_all add: meta_log_def)
  show "sub F (1024 + k) n = sub sb k n" if "k + n \<le> 1024"
    unfolding F_def using that s by (intro sub_apply_writes_inside[OF rg ap]) (simp_all add: meta_log_def)
  show "same_range im F (4 * BLOCK_SIZE) (TOTAL_BLOCKS * BLOCK_SIZE)"
    unfolding F_def using b d s by (intro apply_writes_same_range[OF rg]) (auto simp: meta_log_def layout)
qed

text \<open>The phase leaves the inode table and the data blocks alone.\<close>

lemma meta_agrees:
  assumes "same_range im F (4 * BLOCK_SIZE) (TOTAL_BLOCKS * BLOCK_SIZE)" and "length F = length im"
    and "table_fits m lo" and "lo \<le> TOTAL_BLOCKS"
  shows "agrees lo inode_offset INODE_SIZE im F TOTAL_BLOCKS {1..m}"
proof -
  have "4 * BLOCK_SIZE \<le> lo * BLOCK_SIZE" using assms(3) unfolding table_fits_def by linarith
  moreover have "sub F (inode_offset i) INODE_SIZE = sub im (inode_offset i) INODE_SIZE" if "i \<in> {1..m}" for i
    using that slot_below(2)[OF assms(3) _ _ assms(4), of i]
    by (intro same_range_sub[OF assms(1)]) (simp_all add: inode_offset_def)
  ultimately show ?thesis
    using assms(1,2) unfolding agrees_def by (auto intro: same_range_narrow)
qed

section \<open>Running the phase\<close>

lemma and_ones_16: "x AND 0xFFFF = x mod 2 ^ 16" for x :: int
  using take_bit_eq_mask[of 16 x] by (simp add: take_bit_eq_mod mask_eq_exp_minus_1)

definition bgd_bytes :: "int \<Rightarrow> int \<Rightarrow> nat \<Rightarrow> bytes" where
  "bgd_bytes fb fi dirs = fields_bytes (bgd_fields fb fi (int dirs))"

definition sb_bytes :: "pack_stmt list \<Rightarrow> bytes" where
  "sb_bytes ps = apply_writes (pack_log ps) (zeros 1024)"

lemma bgd_run:
  assumes "dirs < 2 ^ 16"
  shows "pack_le (bgd_fields fb fi (int dirs)) = Inr (bgd_bytes fb fi dirs)" and "length (bgd_bytes fb fi dirs) = 32"
    and "sub (bgd_bytes fb fi dirs) 0 4 = le_bytes 4 2" "sub (bgd_bytes fb fi dirs) 4 4 = le_bytes 4 3"
    and "sub (bgd_bytes fb fi dirs) 8 4 = le_bytes 4 4"
    and "sub (bgd_bytes fb fi dirs) 12 2 = le_bytes 2 (nat (fb mod 2 ^ 16))"
    and "sub (bgd_bytes fb fi dirs) 14 2 = le_bytes 2 (nat (fi mod 2 ^ 16))"
proof -
  let ?fs = "bgd_fields fb fi (int dirs)"
  have "list_all field_ok ?fs" using assms unfolding bgd_fields_def and_ones_16 by simp
  then show "pack_le ?fs = Inr (bgd_bytes fb fi dirs)"
    by (simp add: pack_le_def bgd_bytes_def fields_bytes_def)
  show "length (bgd_bytes fb fi dirs) = 32" by (simp add: bgd_bytes_def bgd_fields_def)
  have f: "sub (bgd_bytes fb fi dirs) (fields_size (take k ?fs)) (field_size (?fs ! k)) = field_le (?fs ! k)"
    if "k < length ?fs" for k
    unfolding bgd_bytes_def using fields_bytes_field[OF that refl] .
  show "sub (bgd_bytes fb fi dirs) 0 4 = le_bytes 4 2" "sub (bgd_bytes fb fi dirs) 4 4 = le_bytes 4 3"
    "sub (bgd_bytes fb fi dirs) 8 4 = le_bytes 4 4"
    "sub (bgd_bytes fb fi dirs) 12 2 = le_bytes 2 (nat (fb mod 2 ^ 16))"
    "sub (bgd_bytes fb fi dirs) 14 2 = le_bytes 2 (nat (fi mod 2 ^ 16))"
    using f[of 0] f[of 1] f[of 2] f[of 3] f[of 4]
    by (simp_all add: bgd_fields_def take_Cons' and_ones_16)
qed

lemma write_metadata_run:
  fixes s :: "'a core_scheme"
  assumes ni: "12 \<le> next_inode s" "next_inode s \<le> BLOCK_SIZE * 8 + 1"
    and dirs: "used_dirs_of has_bin has_zig (tree_dirs_created s) < 2 ^ 16"
    and sb: "list_all (stmt_ok 1024) (stmts (int bt - int (next_block s)) (int it - int (next_inode s) + 1))"
  obtains bb ib where
    "write_metadata bt it stmts has_bin has_zig s = Inr ((), img_update (apply_writes (meta_log bb ib
       (bgd_bytes (int bt - int (next_block s)) (int it - int (next_inode s) + 1)
          (used_dirs_of has_bin has_zig (tree_dirs_created s)))
       (sb_bytes (stmts (int bt - int (next_block s)) (int it - int (next_inode s) + 1))))) s)"
    and "length bb = BLOCK_SIZE" "\<forall>b < BLOCK_SIZE * 8. bit_of bb b \<longleftrightarrow> b < next_block s"
    and "length ib = BLOCK_SIZE" "\<forall>i < BLOCK_SIZE * 8. bit_of ib i \<longleftrightarrow> i + 1 < next_inode s"
proof -
  obtain bb where bb: "block_bitmap (next_block s) = Inr bb" "length bb = BLOCK_SIZE"
    "\<forall>b < BLOCK_SIZE * 8. bit_of bb b \<longleftrightarrow> b < next_block s"
    using block_bitmap_bits[of "next_block s"] by blast
  obtain ib where ib: "inode_bitmap (next_inode s) = Inr ib" "length ib = BLOCK_SIZE"
    "\<forall>i < BLOCK_SIZE * 8. bit_of ib i \<longleftrightarrow> i + 1 < next_inode s"
    using inode_bitmap_bits[OF ni] by blast
  have p: "pack_seq (stmts (int bt - int (next_block s)) (int it - int (next_inode s) + 1)) (zeros 1024) =
      Inr (sb_bytes (stmts (int bt - int (next_block s)) (int it - int (next_inode s) + 1)))"
    unfolding sb_bytes_def using sb by (intro pack_seq_run) simp
  have "write_metadata bt it stmts has_bin has_zig s = Inr ((), img_update (apply_writes (meta_log bb ib
       (bgd_bytes (int bt - int (next_block s)) (int it - int (next_inode s) + 1)
          (used_dirs_of has_bin has_zig (tree_dirs_created s)))
       (sb_bytes (stmts (int bt - int (next_block s)) (int it - int (next_inode s) + 1))))) s)"
    using bb ib
    by (simp add: write_metadata_def py_bind_run py_seq_run write_block_run write_at_run Let_def
        bgd_run[OF dirs] p meta_log_def comp_def BLOCK_SIZE_def)
  from that[OF this bb(2,3) ib(2,3)] show thesis .
qed

text \<open>What the image holds after the phase.\<close>

lemma metadata_image:
  fixes s :: "'a core_scheme"
  defines "fb bt \<equiv> int bt - int (next_block s)" and "fi it \<equiv> int it - int (next_inode s) + 1"
  assumes im: "full_image s" and ni: "12 \<le> next_inode s" "next_inode s \<le> BLOCK_SIZE * 8 + 1"
    and dirs: "used_dirs_of has_bin has_zig (tree_dirs_created s) < 2 ^ 16"
    and sb: "list_all (stmt_ok 1024) (stmts (fb bt) (fi it))"
  obtains t where "write_metadata bt it stmts has_bin has_zig s = Inr ((), t)" and "full_image t"
    and "\<forall>b < BLOCK_SIZE * 8. bit_of (block_at (img t) 2) b \<longleftrightarrow> b < next_block s"
    and "\<forall>i < BLOCK_SIZE * 8. bit_of (block_at (img t) 3) i \<longleftrightarrow> i + 1 < next_inode s"
    and "u32_at (img t) BLOCK_SIZE = 2" "u32_at (img t) (BLOCK_SIZE + 4) = 3" "u32_at (img t) (BLOCK_SIZE + 8) = 4"
    and "u16_at (img t) (BLOCK_SIZE + 12) = nat (fb bt mod 2 ^ 16)"
    and "u16_at (img t) (BLOCK_SIZE + 14) = nat (fi it mod 2 ^ 16)"
    and "\<And>k n. k + n \<le> 1024 \<Longrightarrow> sub (img t) (1024 + k) n = sub (sb_bytes (stmts (fb bt) (fi it))) k n"
    and "same_range (img s) (img t) (4 * BLOCK_SIZE) (TOTAL_BLOCKS * BLOCK_SIZE)"
proof -
  let ?dirs = "used_dirs_of has_bin has_zig (tree_dirs_created s)"
  let ?g = "bgd_bytes (fb bt) (fi it) ?dirs" and ?sb = "sb_bytes (stmts (fb bt) (fi it))"
  obtain bb ib where run: "write_metadata bt it stmts has_bin has_zig s =
      Inr ((), img_update (apply_writes (meta_log bb ib ?g ?sb)) s)"
    and bb: "length bb = BLOCK_SIZE" "\<forall>b < BLOCK_SIZE * 8. bit_of bb b \<longleftrightarrow> b < next_block s"
    and ib: "length ib = BLOCK_SIZE" "\<forall>i < BLOCK_SIZE * 8. bit_of ib i \<longleftrightarrow> i + 1 < next_inode s"
    unfolding fb_def fi_def
    by (rule write_metadata_run[where stmts = stmts and bt = bt and it = it, OF ni dirs sb[unfolded fb_def fi_def]])
  have "length ?sb = 1024" unfolding sb_bytes_def using pack_log_in_range[OF sb] by simp
  note v = meta_view[OF im[unfolded full_image_def] bb(1) ib(1) bgd_run(2)[OF dirs, of "fb bt" "fi it"] this]
  note g = bgd_run(3-7)[OF dirs, of "fb bt" "fi it"]
  let ?t = "img_update (apply_writes (meta_log bb ib ?g ?sb)) s"
  have m: "nat (x mod 2 ^ 16) < 2 ^ 16" for x :: int by (simp add: nat_less_iff)
  show thesis
  proof (rule that[OF run])
    show "full_image ?t" using v(1) im by (simp add: full_image_def)
    show "\<forall>b < BLOCK_SIZE * 8. bit_of (block_at (img ?t) 2) b \<longleftrightarrow> b < next_block s"
      using bb(2) v(2) by simp
    show "\<forall>i < BLOCK_SIZE * 8. bit_of (block_at (img ?t) 3) i \<longleftrightarrow> i + 1 < next_inode s"
      using ib(2) v(3) by simp
    show "u32_at (img ?t) BLOCK_SIZE = 2" "u32_at (img ?t) (BLOCK_SIZE + 4) = 3" "u32_at (img ?t) (BLOCK_SIZE + 8) = 4"
      using v(4)[of 0 4] v(4)[of 4 4] v(4)[of 8 4] g(1-3) by (simp_all add: u32_at_def)
    show "u16_at (img ?t) (BLOCK_SIZE + 12) = nat (fb bt mod 2 ^ 16)"
      "u16_at (img ?t) (BLOCK_SIZE + 14) = nat (fi it mod 2 ^ 16)"
      using v(4)[of 12 2] v(4)[of 14 2] g(4,5) m[of "fb bt"] m[of "fi it"] by (simp_all add: u16_at_def)
    show "sub (img ?t) (1024 + k) n = sub ?sb k n" if "k + n \<le> 1024" for k n using v(5)[OF that] by simp
    show "same_range (img s) (img ?t) (4 * BLOCK_SIZE) (TOTAL_BLOCKS * BLOCK_SIZE)" using v(6) by simp
  qed
qed

section \<open>make\_ext2\_img.py\<close>

lemma e2_sb_ok:
  assumes "clock_ok now" "0 \<le> fb" "fb < 2 ^ 32" "0 \<le> fi" "fi < 2 ^ 32"
  shows "list_all (stmt_ok 1024) (e2_sb_stmts now fb fi)"
  using assms by (simp add: e2_sb_stmts_def sb_fields_def stmt_ok_def clock_ok_def layout)

lemma e2_sb_read:
  assumes "clock_ok now" "0 \<le> fb" "fb < 2 ^ 32" "0 \<le> fi" "fi < 2 ^ 32"
  defines "sb \<equiv> sb_bytes (e2_sb_stmts now fb fi)"
  shows "length sb = 1024" "sub sb 12 4 = le_bytes 4 (nat fb)" "sub sb 16 4 = le_bytes 4 (nat fi)"
    and "sub sb 24 4 = le_bytes 4 2" "sub sb 56 2 = le_bytes 2 0xEF53" "sub sb 88 2 = le_bytes 2 128"
    and "sub sb 76 4 = le_bytes 4 1" "sub sb 224 4 = le_bytes 4 8"
proof -
  let ?ps = "e2_sb_stmts now fb fi"
  note ok = e2_sb_ok[OF assms(1-5)]
  show "length sb = 1024" unfolding sb_def sb_bytes_def using pack_log_in_range[OF ok] by simp
  have f: "sub sb pos n = field_le (fs ! k)"
    if "j < length ?ps" "?ps ! j = (off, fs)" "k < length fs" "pos = off + fields_size (take k fs)"
      "n = field_size (fs ! k)" "list_all (clear_of pos n) (drop (Suc j) ?ps)" for j off fs k pos n
    unfolding sb_def sb_bytes_def using pack_seq_nth[OF _ that] ok by simp
  let ?b = "sb_fields e2_INODES_PER_GROUP fb fi BITMAP_CAPACITY e2_INODES_PER_GROUP now 0"
  note defs = e2_sb_stmts_def sb_fields_def clear_of_def
  have "sub sb 12 4 = field_le (?b ! 3)" by (rule f[of 0 0 ?b 3 12 4]) (simp_all add: defs)
  then show "sub sb 12 4 = le_bytes 4 (nat fb)" by (simp add: sb_fields_def)
  have "sub sb 16 4 = field_le (?b ! 4)" by (rule f[of 0 0 ?b 4 16 4]) (simp_all add: defs)
  then show "sub sb 16 4 = le_bytes 4 (nat fi)" by (simp add: sb_fields_def)
  have "sub sb 24 4 = field_le (?b ! 6)" by (rule f[of 0 0 ?b 6 24 4]) (simp_all add: defs)
  then show "sub sb 24 4 = le_bytes 4 2" by (simp add: sb_fields_def)
  have "sub sb 56 2 = field_le (?b ! 15)" by (rule f[of 0 0 ?b 15 56 2]) (simp_all add: defs)
  then show "sub sb 56 2 = le_bytes 2 0xEF53" by (simp add: sb_fields_def layout)
  have "sub sb 76 4 = field_le ([U 4 1] ! 0)" by (rule f[of 1 76 "[U 4 1]" 0 76 4]) (simp_all add: defs)
  then show "sub sb 76 4 = le_bytes 4 1" by simp
  have "sub sb 88 2 = field_le ([U 2 128] ! 0)" by (rule f[of 3 88 "[U 2 128]" 0 88 2]) (simp_all add: defs)
  then show "sub sb 88 2 = le_bytes 2 128" by simp
  have "sub sb 224 4 = field_le ([U 4 8] ! 0)" by (rule f[of 5 224 "[U 4 8]" 0 224 4]) (simp_all add: defs)
  then show "sub sb 224 4 = le_bytes 4 8" by simp
qed

definition e2_finished :: "ext2_state \<Rightarrow> bool" where
  "e2_finished s \<longleftrightarrow> full_image s \<and> next_block s \<le> BITMAP_CAPACITY \<and> 12 \<le> next_inode s \<and>
     next_inode s \<le> e2_INODES_PER_GROUP + 1 \<and> tree_dirs_created s < 60000"

lemma e2_metadata_law:
  assumes "e2_finished s" and "clock_ok now"
  shows "\<exists>t. e2_write_metadata now has_bin has_zig s = Inr ((), t) \<and> full_image t \<and>
    u16_at (img t) (1024 + 56) = 0xEF53 \<and> 1024 * 2 ^ u32_at (img t) (1024 + 24) = BLOCK_SIZE \<and>
    u16_at (img t) (1024 + 88) = INODE_SIZE \<and>
    u32_at (img t) BLOCK_SIZE = 2 \<and> u32_at (img t) (BLOCK_SIZE + 4) = 3 \<and>
    u32_at (img t) (BLOCK_SIZE + 8) * BLOCK_SIZE = inode_offset 1 \<and>
    (\<forall>b < BITMAP_CAPACITY. bit_of (block_at (img t) 2) b \<longleftrightarrow> b < next_block s) \<and>
    (\<forall>i < e2_INODES_PER_GROUP. bit_of (block_at (img t) 3) i \<longleftrightarrow> i + 1 < next_inode s) \<and>
    u32_at (img t) (1024 + 12) = clear_bits (block_at (img t) 2) BITMAP_CAPACITY \<and>
    u16_at (img t) (BLOCK_SIZE + 12) = clear_bits (block_at (img t) 2) BITMAP_CAPACITY \<and>
    u32_at (img t) (1024 + 16) = clear_bits (block_at (img t) 3) e2_INODES_PER_GROUP \<and>
    u16_at (img t) (BLOCK_SIZE + 14) = clear_bits (block_at (img t) 3) e2_INODES_PER_GROUP \<and>
    agrees e2_FIRST_DATA_BLOCK inode_offset INODE_SIZE (img s) (img t) TOTAL_BLOCKS {1..e2_INODES_PER_GROUP}"
proof -
  let ?nb = "next_block s" and ?ni = "next_inode s"
  let ?fb = "int BITMAP_CAPACITY - int ?nb" and ?fi = "int e2_INODES_PER_GROUP - int ?ni + 1"
  have s: "full_image s" "?nb \<le> BITMAP_CAPACITY" "12 \<le> ?ni" "?ni \<le> e2_INODES_PER_GROUP + 1"
    using assms(1) by (simp_all add: e2_finished_def)
  have dirs: "used_dirs_of has_bin has_zig (tree_dirs_created s) < 2 ^ 16"
    using assms(1) by (simp add: used_dirs_of_def e2_finished_def)
  have cap: "BLOCK_SIZE * 8 = BITMAP_CAPACITY" "e2_INODES_PER_GROUP = BITMAP_CAPACITY" by (simp_all add: layout)
  have f: "0 \<le> ?fb" "?fb < 2 ^ 32" "0 \<le> ?fi" "?fi < 2 ^ 32"
    and nats: "nat ?fb = BITMAP_CAPACITY - ?nb" "nat ?fi = BITMAP_CAPACITY - (?ni - 1)"
      "nat (?fb mod 2 ^ 16) = BITMAP_CAPACITY - ?nb" "nat (?fi mod 2 ^ 16) = BITMAP_CAPACITY - (?ni - 1)"
    using s by (simp_all add: layout)
  have ni: "12 \<le> ?ni" "?ni \<le> BLOCK_SIZE * 8 + 1" using s cap by simp_all
  obtain t where run: "write_metadata BITMAP_CAPACITY e2_INODES_PER_GROUP (e2_sb_stmts now) has_bin has_zig s =
      Inr ((), t)" and t: "full_image t"
    "\<forall>b < BLOCK_SIZE * 8. bit_of (block_at (img t) 2) b \<longleftrightarrow> b < ?nb"
    "\<forall>i < BLOCK_SIZE * 8. bit_of (block_at (img t) 3) i \<longleftrightarrow> i + 1 < ?ni"
    "u32_at (img t) BLOCK_SIZE = 2" "u32_at (img t) (BLOCK_SIZE + 4) = 3" "u32_at (img t) (BLOCK_SIZE + 8) = 4"
    "u16_at (img t) (BLOCK_SIZE + 12) = nat (?fb mod 2 ^ 16)" "u16_at (img t) (BLOCK_SIZE + 14) = nat (?fi mod 2 ^ 16)"
    and sb: "\<And>k n. k + n \<le> 1024 \<Longrightarrow> sub (img t) (1024 + k) n = sub (sb_bytes (e2_sb_stmts now ?fb ?fi)) k n"
    and fr: "same_range (img s) (img t) (4 * BLOCK_SIZE) (TOTAL_BLOCKS * BLOCK_SIZE)"
    by (rule metadata_image[where stmts = "e2_sb_stmts now" and bt = BITMAP_CAPACITY and it = e2_INODES_PER_GROUP,
        OF s(1) ni dirs e2_sb_ok[OF assms(2) f]]) (rule that)
  note r = e2_sb_read[OF assms(2) f]
  have cb: "clear_bits (block_at (img t) 2) BITMAP_CAPACITY = BITMAP_CAPACITY - ?nb"
    "clear_bits (block_at (img t) 3) BITMAP_CAPACITY = BITMAP_CAPACITY - (?ni - 1)"
    using t(2,3) cap by (auto intro!: clear_bits_below)
  have small: "BITMAP_CAPACITY - ?nb < 2 ^ 32" "BITMAP_CAPACITY - (?ni - 1) < 2 ^ 32" by (simp_all add: layout)
  have "u16_at (img t) (1024 + 56) = 0xEF53" "1024 * 2 ^ u32_at (img t) (1024 + 24) = BLOCK_SIZE"
    "u16_at (img t) (1024 + 88) = INODE_SIZE"
    using sb[of 56 2] sb[of 24 4] sb[of 88 2] r(4-6) by (simp_all add: u16_at_def u32_at_def layout)
  moreover have "u32_at (img t) (1024 + 12) = BITMAP_CAPACITY - ?nb" "u32_at (img t) (1024 + 16) = BITMAP_CAPACITY - (?ni - 1)"
    using sb[of 12 4] sb[of 16 4] r(2,3) small unfolding u32_at_def nats by simp_all
  moreover have "agrees e2_FIRST_DATA_BLOCK inode_offset INODE_SIZE (img s) (img t) TOTAL_BLOCKS {1..e2_INODES_PER_GROUP}"
    using fr _ e2_table_fits by (rule meta_agrees) (use t(1) s(1) in \<open>simp_all add: full_image_def layout\<close>)
  ultimately show ?thesis
    using run t cb cap unfolding nats e2_write_metadata_def by (intro exI[of _ t]) (simp add: inode_offset_def)
qed

text \<open>
  C18: the metadata that \<^verbatim>\<open>make_ext2_img.py\<close> writes at the end is consistent: the superblock has the
  ext2 magic, the 4096-byte block size and the 128-byte inode size; the group descriptor points
  at the block bitmap, the inode bitmap and the inode table; a bit is set exactly for the
  blocks of the bitmap zone and the inodes in use; the free counts of the superblock and of
  the descriptor are the numbers of clear bits; and every inode and data block is untouched.
\<close>

theorem e2_metadata_consistent:
  assumes "e2_finished s" and "clock_ok now"
  shows "\<exists>t. e2_write_metadata now has_bin has_zig s = Inr ((), t) \<and> full_image t \<and>
    u16_at (img t) (1024 + 56) = 0xEF53 \<and> 1024 * 2 ^ u32_at (img t) (1024 + 24) = BLOCK_SIZE \<and>
    u16_at (img t) (1024 + 88) = INODE_SIZE \<and>
    u32_at (img t) BLOCK_SIZE = 2 \<and> u32_at (img t) (BLOCK_SIZE + 4) = 3 \<and>
    u32_at (img t) (BLOCK_SIZE + 8) * BLOCK_SIZE = inode_offset 1 \<and>
    (\<forall>b < BITMAP_CAPACITY. bit_of (block_at (img t) 2) b \<longleftrightarrow> b < next_block s) \<and>
    (\<forall>i < e2_INODES_PER_GROUP. bit_of (block_at (img t) 3) i \<longleftrightarrow> i + 1 < next_inode s) \<and>
    u32_at (img t) (1024 + 12) = clear_bits (block_at (img t) 2) BITMAP_CAPACITY \<and>
    u16_at (img t) (BLOCK_SIZE + 12) = clear_bits (block_at (img t) 2) BITMAP_CAPACITY \<and>
    u32_at (img t) (1024 + 16) = clear_bits (block_at (img t) 3) e2_INODES_PER_GROUP \<and>
    u16_at (img t) (BLOCK_SIZE + 14) = clear_bits (block_at (img t) 3) e2_INODES_PER_GROUP \<and>
    agrees e2_FIRST_DATA_BLOCK inode_offset INODE_SIZE (img s) (img t) TOTAL_BLOCKS {1..e2_INODES_PER_GROUP}"
  using assms by (rule e2_metadata_law)

theorem e2_metadata_consistent_witness:
  "\<exists>t. e2_write_metadata 1700000000 True False e2_init = Inr ((), t) \<and>
     u16_at (img t) (1024 + 56) = 0xEF53 \<and>
     u32_at (img t) (1024 + 12) = clear_bits (block_at (img t) 2) BITMAP_CAPACITY"
proof -
  have "e2_finished e2_init" by (simp add: e2_finished_def full_image_def e2_init_def layout)
  moreover have "clock_ok 1700000000" by (simp add: clock_ok_def)
  ultimately show ?thesis
    using e2_metadata_consistent[of e2_init 1700000000 True False] by blast
qed

section \<open>make\_ext3\_img.py\<close>

definition e3_finished :: "core \<Rightarrow> bool" where
  "e3_finished s \<longleftrightarrow> full_image s \<and> next_block s \<le> TOTAL_BLOCKS \<and> 12 \<le> next_inode s \<and>
     next_inode s \<le> e3_INODES_PER_GROUP + 1 \<and> tree_dirs_created s < 60000"

lemma e3_sb_ok:
  assumes "clock_ok now" "0 \<le> fb" "fb < 2 ^ 32" "0 \<le> fi" "fi < 2 ^ 32"
  shows "list_all (stmt_ok 1024) (e3_sb_stmts now uuid fb fi)"
  using assms by (simp add: e3_sb_stmts_def sb_fields_def stmt_ok_def clock_ok_def layout)

lemma e3_sb_read:
  assumes "clock_ok now" "0 \<le> fb" "fb < 2 ^ 32" "0 \<le> fi" "fi < 2 ^ 32" and "length uuid = 16"
  defines "sb \<equiv> sb_bytes (e3_sb_stmts now uuid fb fi)"
  shows "sub sb 12 4 = le_bytes 4 (nat fb)" "sub sb 16 4 = le_bytes 4 (nat fi)"
    and "sub sb 56 2 = le_bytes 2 0xEF53" "sub sb 88 2 = le_bytes 2 128" "sub sb 104 16 = uuid"
    and "sub sb 224 4 = le_bytes 4 8"
proof -
  let ?ps = "e3_sb_stmts now uuid fb fi"
  note ok = e3_sb_ok[OF assms(1-5), of uuid]
  have f: "sub sb pos n = field_le (fs ! k)"
    if "j < length ?ps" "?ps ! j = (off, fs)" "k < length fs" "pos = off + fields_size (take k fs)"
      "n = field_size (fs ! k)" "list_all (clear_of pos n) (drop (Suc j) ?ps)" for j off fs k pos n
    unfolding sb_def sb_bytes_def using pack_seq_nth[OF _ that] ok by simp
  let ?b = "sb_fields e3_INODES_PER_GROUP fb fi TOTAL_BLOCKS e3_INODES_PER_GROUP now 1"
  note defs = e3_sb_stmts_def sb_fields_def clear_of_def
  have "sub sb 12 4 = field_le (?b ! 3)" by (rule f[of 0 0 ?b 3 12 4]) (simp_all add: defs)
  then show "sub sb 12 4 = le_bytes 4 (nat fb)" by (simp add: sb_fields_def)
  have "sub sb 16 4 = field_le (?b ! 4)" by (rule f[of 0 0 ?b 4 16 4]) (simp_all add: defs)
  then show "sub sb 16 4 = le_bytes 4 (nat fi)" by (simp add: sb_fields_def)
  have "sub sb 56 2 = field_le (?b ! 15)" by (rule f[of 0 0 ?b 15 56 2]) (simp_all add: defs)
  then show "sub sb 56 2 = le_bytes 2 0xEF53" by (simp add: sb_fields_def layout)
  have "sub sb 88 2 = field_le ([U 2 (int INODE_SIZE)] ! 0)"
    by (rule f[of 2 88 "[U 2 (int INODE_SIZE)]" 0 88 2]) (simp_all add: defs)
  then show "sub sb 88 2 = le_bytes 2 128" by (simp add: layout)
  have "sub sb 104 16 = field_le ([S 16 uuid] ! 0)" by (rule f[of 6 104 "[S 16 uuid]" 0 104 16]) (simp_all add: defs)
  then show "sub sb 104 16 = uuid" using assms(6) by simp
  have "sub sb 224 4 = field_le ([U 4 8] ! 0)" by (rule f[of 7 224 "[U 4 8]" 0 224 4]) (simp_all add: defs)
  then show "sub sb 224 4 = le_bytes 4 8" by simp
qed

lemma e3_metadata_law:
  assumes "e3_finished s" and "clock_ok now" and "length fs_uuid = 16"
  shows "\<exists>t. e3_write_metadata now fs_uuid has_bin has_zig s = Inr ((), t) \<and> full_image t \<and>
    u16_at (img t) (1024 + 56) = 0xEF53 \<and> u16_at (img t) (1024 + 88) = INODE_SIZE \<and>
    u32_at (img t) (1024 + 224) = 8 \<and> sub (img t) (1024 + 104) 16 = fs_uuid \<and>
    u32_at (img t) BLOCK_SIZE = 2 \<and> u32_at (img t) (BLOCK_SIZE + 4) = 3 \<and>
    u32_at (img t) (BLOCK_SIZE + 8) * BLOCK_SIZE = inode_offset 1 \<and>
    (\<forall>b < 32768. bit_of (block_at (img t) 2) b \<longleftrightarrow> b < next_block s) \<and>
    (\<forall>i < e3_INODES_PER_GROUP. bit_of (block_at (img t) 3) i \<longleftrightarrow> i + 1 < next_inode s) \<and>
    u32_at (img t) (1024 + 16) = clear_bits (block_at (img t) 3) e3_INODES_PER_GROUP \<and>
    u32_at (img t) (1024 + 12) = TOTAL_BLOCKS - next_block s \<and>
    (next_block s \<le> 32768 \<longrightarrow>
       u32_at (img t) (1024 + 12) = clear_bits (block_at (img t) 2) 32768 + 229376) \<and>
    u16_at (img t) (BLOCK_SIZE + 12) = (TOTAL_BLOCKS - next_block s) mod 65536 \<and>
    agrees e3_FIRST_DATA_BLOCK inode_offset INODE_SIZE (img s) (img t) TOTAL_BLOCKS {1..e3_INODES_PER_GROUP}"
proof -
  let ?nb = "next_block s" and ?ni = "next_inode s"
  let ?fb = "int TOTAL_BLOCKS - int ?nb" and ?fi = "int e3_INODES_PER_GROUP - int ?ni + 1"
  have s: "full_image s" "?nb \<le> TOTAL_BLOCKS" "12 \<le> ?ni" "?ni \<le> e3_INODES_PER_GROUP + 1"
    using assms(1) by (simp_all add: e3_finished_def)
  have dirs: "used_dirs_of has_bin has_zig (tree_dirs_created s) < 2 ^ 16"
    using assms(1) by (simp add: used_dirs_of_def e3_finished_def)
  have fbn: "?fb = int (TOTAL_BLOCKS - ?nb)" using s(2) by simp
  have f: "0 \<le> ?fb" "?fb < 2 ^ 32" "0 \<le> ?fi" "?fi < 2 ^ 32"
    and nats: "nat ?fi = e3_INODES_PER_GROUP - (?ni - 1)" using s by (simp_all add: layout)
  have ni: "12 \<le> ?ni" "?ni \<le> BLOCK_SIZE * 8 + 1" using s by (simp_all add: layout)
  obtain t where run: "write_metadata TOTAL_BLOCKS e3_INODES_PER_GROUP (e3_sb_stmts now fs_uuid) has_bin has_zig s =
      Inr ((), t)" and t: "full_image t"
    "\<forall>b < BLOCK_SIZE * 8. bit_of (block_at (img t) 2) b \<longleftrightarrow> b < ?nb"
    "\<forall>i < BLOCK_SIZE * 8. bit_of (block_at (img t) 3) i \<longleftrightarrow> i + 1 < ?ni"
    "u32_at (img t) BLOCK_SIZE = 2" "u32_at (img t) (BLOCK_SIZE + 4) = 3" "u32_at (img t) (BLOCK_SIZE + 8) = 4"
    "u16_at (img t) (BLOCK_SIZE + 12) = nat (?fb mod 2 ^ 16)" "u16_at (img t) (BLOCK_SIZE + 14) = nat (?fi mod 2 ^ 16)"
    and sb: "\<And>k n. k + n \<le> 1024 \<Longrightarrow> sub (img t) (1024 + k) n = sub (sb_bytes (e3_sb_stmts now fs_uuid ?fb ?fi)) k n"
    and fr: "same_range (img s) (img t) (4 * BLOCK_SIZE) (TOTAL_BLOCKS * BLOCK_SIZE)"
    by (rule metadata_image[where stmts = "e3_sb_stmts now fs_uuid" and bt = TOTAL_BLOCKS and it = e3_INODES_PER_GROUP,
        OF s(1) ni dirs e3_sb_ok[OF assms(2) f]]) (rule that)
  note r = e3_sb_read[OF assms(2) f assms(3)]
  have cap: "BLOCK_SIZE * 8 = 32768" "e3_INODES_PER_GROUP \<le> 32768" by (simp_all add: layout)
  have cb: "clear_bits (block_at (img t) 2) 32768 = 32768 - ?nb"
    "clear_bits (block_at (img t) 3) e3_INODES_PER_GROUP = e3_INODES_PER_GROUP - (?ni - 1)"
    using t(2,3) cap by (auto intro!: clear_bits_below)
  have small: "TOTAL_BLOCKS - ?nb < 2 ^ 32" "e3_INODES_PER_GROUP - (?ni - 1) < 2 ^ 32" by (simp_all add: layout)
  have fbm: "nat (?fb mod 2 ^ 16) = (TOTAL_BLOCKS - ?nb) mod 65536" "nat ?fb = TOTAL_BLOCKS - ?nb"
    unfolding fbn by (simp_all add: nat_mod_distrib del: of_nat_diff)
  have "u16_at (img t) (1024 + 56) = 0xEF53" "u16_at (img t) (1024 + 88) = INODE_SIZE"
    "u32_at (img t) (1024 + 224) = 8" "sub (img t) (1024 + 104) 16 = fs_uuid"
    using sb[of 56 2] sb[of 88 2] sb[of 224 4] sb[of 104 16] r(3-6) by (simp_all add: u16_at_def u32_at_def layout)
  moreover have n: "u32_at (img t) (1024 + 12) = TOTAL_BLOCKS - ?nb" "u32_at (img t) (1024 + 16) = e3_INODES_PER_GROUP - (?ni - 1)"
    using sb[of 12 4] sb[of 16 4] r(1,2) small unfolding u32_at_def nats fbm by simp_all
  moreover have "?nb \<le> 32768 \<longrightarrow> TOTAL_BLOCKS - ?nb = 32768 - ?nb + 229376" by (simp add: layout)
  moreover have "agrees e3_FIRST_DATA_BLOCK inode_offset INODE_SIZE (img s) (img t) TOTAL_BLOCKS {1..e3_INODES_PER_GROUP}"
    using fr _ e3_table_fits by (rule meta_agrees) (use t(1) s(1) in \<open>simp_all add: full_image_def layout\<close>)
  ultimately show ?thesis
    using run t cb cap unfolding fbm e3_write_metadata_def by (intro exI[of _ t]) (simp add: inode_offset_def)
qed

text \<open>
  C19: the metadata of \<^verbatim>\<open>make_ext3_img.py\<close>: magic, inode size, journal inode, file-system identifier,
  descriptor and bitmaps are as in the other script, and inodes and data blocks are untouched.
  The free block count of the superblock, however, counts all blocks of the image while the
  one bitmap block tracks the first 32768 only: it exceeds the number of clear bits by 229376
  as long as the bitmap zone is not full, and the 16-bit count of the descriptor is that number
  modulo 65536.
\<close>

theorem e3_metadata_counts:
  assumes "e3_finished s" and "clock_ok now" and "length fs_uuid = 16"
  shows "\<exists>t. e3_write_metadata now fs_uuid has_bin has_zig s = Inr ((), t) \<and> full_image t \<and>
    u16_at (img t) (1024 + 56) = 0xEF53 \<and> u16_at (img t) (1024 + 88) = INODE_SIZE \<and>
    u32_at (img t) (1024 + 224) = 8 \<and> sub (img t) (1024 + 104) 16 = fs_uuid \<and>
    u32_at (img t) BLOCK_SIZE = 2 \<and> u32_at (img t) (BLOCK_SIZE + 4) = 3 \<and>
    u32_at (img t) (BLOCK_SIZE + 8) * BLOCK_SIZE = inode_offset 1 \<and>
    (\<forall>b < 32768. bit_of (block_at (img t) 2) b \<longleftrightarrow> b < next_block s) \<and>
    (\<forall>i < e3_INODES_PER_GROUP. bit_of (block_at (img t) 3) i \<longleftrightarrow> i + 1 < next_inode s) \<and>
    u32_at (img t) (1024 + 16) = clear_bits (block_at (img t) 3) e3_INODES_PER_GROUP \<and>
    u32_at (img t) (1024 + 12) = TOTAL_BLOCKS - next_block s \<and>
    (next_block s \<le> 32768 \<longrightarrow>
       u32_at (img t) (1024 + 12) = clear_bits (block_at (img t) 2) 32768 + 229376) \<and>
    u16_at (img t) (BLOCK_SIZE + 12) = (TOTAL_BLOCKS - next_block s) mod 65536 \<and>
    agrees e3_FIRST_DATA_BLOCK inode_offset INODE_SIZE (img s) (img t) TOTAL_BLOCKS {1..e3_INODES_PER_GROUP}"
  using assms by (rule e3_metadata_law)

theorem e3_metadata_counts_witness:
  "\<exists>t. e3_write_metadata 1700000000 (zeros 16) True False e3_init = Inr ((), t) \<and>
     u32_at (img t) (1024 + 12) = clear_bits (block_at (img t) 2) 32768 + 229376"
proof -
  have "e3_finished e3_init" "next_block e3_init \<le> 32768"
    by (simp_all add: e3_finished_def full_image_def e3_init_def layout)
  moreover have "clock_ok 1700000000" by (simp add: clock_ok_def)
  ultimately show ?thesis
    using e3_metadata_counts[of e3_init 1700000000 "zeros 16" True False] by auto
qed

end
