(* ===== verification/Crc.thy ===== *)
theory Crc
  imports Py_Runtime
begin

text \<open>
  The CRC-32C of \<^verbatim>\<open>make_ext4_img.py\<close> (table driven, reflected) and the CRC-32 of
  \<^verbatim>\<open>zlib.crc32\<close> that \<^verbatim>\<open>make_gce_disk.py\<close> calls.  Both are instances of one locale over the
  reflected polynomial: the table-driven update equals the bit-by-bit register, the register
  is linear over exclusive or, and a corruption confined to four consecutive bytes always
  changes the checksum.
\<close>

section \<open>The shift register\<close>

definition crc_bit :: "nat \<Rightarrow> nat \<Rightarrow> nat" where
  "crc_bit poly crc = (if crc AND 1 \<noteq> 0 then drop_bit 1 crc XOR poly else drop_bit 1 crc)"

definition crc_table :: "nat \<Rightarrow> nat list" where
  "crc_table poly = map (\<lambda>i. (crc_bit poly ^^ 8) i) [0..<256]"

definition crc_update :: "nat list \<Rightarrow> nat \<Rightarrow> bytes \<Rightarrow> nat" where
  "crc_update table crc data =
     foldl (\<lambda>crc b. table ! ((crc XOR unat b) AND 0xFF) XOR drop_bit 8 crc) crc data"

text \<open>The reference: eight steps of the register for every byte.\<close>

definition crc_bitwise :: "nat \<Rightarrow> nat \<Rightarrow> bytes \<Rightarrow> nat" where
  "crc_bitwise poly crc data = foldl (\<lambda>crc b. (crc_bit poly ^^ 8) (crc XOR unat b)) crc data"

section \<open>make\_ext4\_img.py\<close>

definition CRC32C_POLY :: nat where
  "CRC32C_POLY = 0x82F63B78"

definition CRC32C_TABLE :: "nat list" where
  "CRC32C_TABLE = crc_table CRC32C_POLY"

definition crc32c_update :: "nat \<Rightarrow> bytes \<Rightarrow> nat" where
  "crc32c_update crc data = crc_update CRC32C_TABLE crc data"

definition crc32c_finalize :: "nat \<Rightarrow> nat" where
  "crc32c_finalize crc = crc XOR 0xFFFFFFFF"

definition crc32c :: "bytes \<Rightarrow> nat \<Rightarrow> nat" where
  "crc32c data init = crc32c_finalize (crc32c_update init data)"

section \<open>zlib.crc32\<close>

definition ZLIB_POLY :: nat where
  "ZLIB_POLY = 0xEDB88320"

definition zlib_crc32 :: "bytes \<Rightarrow> nat" where
  "zlib_crc32 data = crc_update (crc_table ZLIB_POLY) 0xFFFFFFFF data XOR 0xFFFFFFFF"

section \<open>Linearity\<close>

lemma crc_bit_odd: "crc_bit poly c = (if odd c then drop_bit 1 c XOR poly else drop_bit 1 c)"
  by (simp add: crc_bit_def and_one_eq odd_iff_mod_2_eq_one)

lemma xor_cancel: "p XOR (p XOR x) = x" for p :: nat
  by (rule bit_eqI) (auto simp: bit_xor_iff)

lemma crc_bit_xor: "crc_bit poly (a XOR b) = crc_bit poly a XOR crc_bit poly b"
  by (auto simp: crc_bit_odd drop_bit_xor ac_simps even_xor_iff xor_cancel)

lemma crc_bits_xor: "(crc_bit poly ^^ n) (a XOR b) = (crc_bit poly ^^ n) a XOR (crc_bit poly ^^ n) b"
  by (induction n arbitrary: a b) (simp_all add: crc_bit_xor)

lemma crc_bits_push: "(crc_bit poly ^^ n) (push_bit n c) = c"
proof (induction n arbitrary: c)
  case (Suc n)
  have "crc_bit poly (push_bit (Suc n) c) = push_bit n c"
    by (simp add: crc_bit_odd push_bit_double drop_bit_Suc)
  then show ?case using Suc by (simp add: funpow_Suc_right del: funpow.simps push_bit_Suc)
qed simp

text \<open>A register is its low byte, which the table handles, and the rest, which is shifted.\<close>

lemma bit_255: "bit (0xFF :: nat) n \<longleftrightarrow> n < 8"
proof -
  have "0xFF = (mask 8 :: nat)" by (simp add: mask_eq_exp_minus_1)
  then show ?thesis by (simp only: bit_mask_iff possible_bit_nat simp_thms)
qed

lemma low_byte_split: "c = (c AND 0xFF) XOR push_bit 8 (drop_bit 8 c)" for c :: nat
  by (rule bit_eqI) (auto simp: bit_and_iff bit_xor_iff bit_push_bit_iff bit_drop_bit_eq bit_255)

lemma and_255_less: "c AND 0xFF < (256 :: nat)"
proof -
  have "c AND 0xFF = take_bit 8 c" by (simp add: take_bit_eq_mask mask_eq_exp_minus_1)
  then show ?thesis using take_bit_nat_less_exp[of 8 c] by simp
qed

lemma drop_bit_byte: "drop_bit 8 (unat (b :: byte)) = 0"
proof -
  have "unat b div 2 ^ 8 = 0" using unat_byte_less[of b] by simp
  then show ?thesis by (simp only: drop_bit_eq_div)
qed

lemma crc_table_step:
  fixes b :: byte
  shows "crc_table poly ! ((crc XOR unat b) AND 0xFF) XOR drop_bit 8 crc = (crc_bit poly ^^ 8) (crc XOR unat b)"
proof -
  let ?c = "crc XOR unat b"
  have "(crc_bit poly ^^ 8) ?c = (crc_bit poly ^^ 8) (?c AND 0xFF) XOR drop_bit 8 ?c"
    by (subst low_byte_split[of ?c]) (simp only: crc_bits_xor crc_bits_push)
  moreover have "drop_bit 8 ?c = drop_bit 8 crc" by (simp only: drop_bit_xor drop_bit_byte xor.right_neutral)
  moreover have "crc_table poly ! (?c AND 0xFF) = (crc_bit poly ^^ 8) (?c AND 0xFF)"
    unfolding crc_table_def using and_255_less[of ?c] by (subst nth_map) simp_all
  ultimately show ?thesis by simp
qed

lemma crc_update_bitwise: "crc_update (crc_table poly) crc data = crc_bitwise poly crc data"
  by (simp only: crc_update_def crc_bitwise_def crc_table_step)

lemma crc_bitwise_append:
  "crc_bitwise poly crc (xs @ ys) = crc_bitwise poly (crc_bitwise poly crc xs) ys"
  by (simp add: crc_bitwise_def)

text \<open>Values of the register.\<close>

definition fits32 :: "nat \<Rightarrow> bool" where
  "fits32 c \<longleftrightarrow> c < 2 ^ 32"

lemma fits32_xor: "fits32 a \<Longrightarrow> fits32 b \<Longrightarrow> fits32 (a XOR b)"
  unfolding fits32_def by (metis take_bit_nat_eq_self_iff take_bit_xor)

lemma fits32_byte: "fits32 (unat (b :: byte))"
  using unat_byte_less[of b] by (simp add: fits32_def)

section \<open>Detection of corruptions\<close>

text \<open>
  A degree-32 polynomial: the reflected constant fits 32 bits and has its top bit set, so
  that a step of the register loses nothing.
\<close>

locale crc_poly =
  fixes poly :: nat
  assumes poly_top: "2 ^ 31 \<le> poly" and poly_fits: "fits32 poly"
begin

lemma crc_bit_fits: "fits32 c \<Longrightarrow> fits32 (crc_bit poly c)"
proof -
  assume "fits32 c"
  then have "fits32 (drop_bit 1 c)" by (simp add: fits32_def drop_bit_eq_div)
  with fits32_xor[OF this poly_fits] show ?thesis by (simp add: crc_bit_def)
qed

lemma crc_bit_zero: "fits32 c \<Longrightarrow> crc_bit poly c = 0 \<Longrightarrow> c = 0"
proof (rule ccontr)
  assume c: "fits32 c" "crc_bit poly c = 0" and nz: "c \<noteq> 0"
  have half: "drop_bit 1 c < 2 ^ 31" using c(1) by (simp add: drop_bit_eq_div fits32_def)
  show False
  proof (cases "odd c")
    case True
    then have "drop_bit 1 c XOR poly = 0" using c(2) by (simp add: crc_bit_odd)
    then have "drop_bit 1 c = poly" using xor_cancel[of "drop_bit 1 c" poly] by simp
    then show False using half poly_top by simp
  next
    case False
    then have "c div 2 = 0" using c(2) by (simp add: crc_bit_odd drop_bit_eq_div)
    then show False using False nz by (cases c) auto
  qed
qed

lemma crc_bits_fits: "fits32 c \<Longrightarrow> fits32 ((crc_bit poly ^^ n) c)"
  by (induction n) (simp_all add: crc_bit_fits)

lemma crc_bits_zero: "fits32 c \<Longrightarrow> (crc_bit poly ^^ n) c = 0 \<Longrightarrow> c = 0"
  by (induction n) (auto dest: crc_bit_zero[OF crc_bits_fits])

lemma crc_bits_inject:
  assumes "fits32 a" "fits32 b" "(crc_bit poly ^^ n) a = (crc_bit poly ^^ n) b"
  shows "a = b"
proof -
  have "(crc_bit poly ^^ n) (a XOR b) = 0" using assms(3) by (simp add: crc_bits_xor)
  with fits32_xor[OF assms(1,2)] have "a XOR b = 0" by (rule crc_bits_zero)
  then show ?thesis using xor_cancel[of a b] by simp
qed

lemma crc_bitwise_Cons:
  "crc_bitwise poly crc (b # data) = crc_bitwise poly ((crc_bit poly ^^ 8) (crc XOR unat b)) data"
  by (simp only: crc_bitwise_def foldl_Cons)

lemma crc_bitwise_Nil: "crc_bitwise poly crc [] = crc"
  by (simp add: crc_bitwise_def)

lemma crc_bitwise_fits: "fits32 crc \<Longrightarrow> fits32 (crc_bitwise poly crc data)"
  by (induction data arbitrary: crc)
     (simp_all only: crc_bitwise_Cons crc_bitwise_Nil crc_bits_fits fits32_xor fits32_byte)

text \<open>The register after the same bytes determines the register before.\<close>

lemma crc_bitwise_inject:
  assumes "fits32 a" "fits32 b" "crc_bitwise poly a data = crc_bitwise poly b data"
  shows "a = b"
  using assms
proof (induction data arbitrary: a b)
  case (Cons x data)
  have x: "fits32 (a XOR unat x)" "fits32 (b XOR unat x)"
    using Cons.prems(1,2) by (simp_all add: fits32_xor fits32_byte)
  have "(crc_bit poly ^^ 8) (a XOR unat x) = (crc_bit poly ^^ 8) (b XOR unat x)"
    by (rule Cons.IH) (use Cons.prems(3) x in \<open>simp_all only: crc_bitwise_Cons crc_bits_fits\<close>)
  with x have "a XOR unat x = b XOR unat x" by (rule crc_bits_inject)
  then show ?case by (metis xor.commute xor_cancel)
qed (simp add: crc_bitwise_Nil)

text \<open>
  The register after \<open>n\<close> bytes is \<open>8 n\<close> steps of the register on the message taken as one
  little-endian number.
\<close>

lemma le_val_Cons_xor: "le_val (b # bs) = unat b XOR push_bit 8 (le_val bs)"
proof -
  let ?v = "unat b + 256 * le_val bs"
  have "?v AND 0xFF = ?v mod 2 ^ 8"
    using take_bit_eq_mask[of 8 ?v] by (simp add: take_bit_eq_mod mask_eq_exp_minus_1)
  then have lo: "?v AND 0xFF = unat b" using unat_byte_less[of b] by simp
  have "drop_bit 8 ?v = ?v div 2 ^ 8" by (rule drop_bit_eq_div)
  then have hi: "drop_bit 8 ?v = le_val bs" using unat_byte_less[of b] by simp
  show ?thesis using low_byte_split[of ?v] by (simp only: lo hi le_val.simps)
qed

lemma crc_bitwise_message:
  "crc_bitwise poly c bs = (crc_bit poly ^^ (8 * length bs)) (c XOR le_val bs)"
proof (induction bs arbitrary: c)
  case (Cons b bs)
  let ?f = "crc_bit poly"
  have n: "8 * length (b # bs) = 8 * length bs + 8" by simp
  have "(?f ^^ (8 * length (b # bs))) (c XOR le_val (b # bs)) =
      (?f ^^ (8 * length bs)) ((?f ^^ 8) ((c XOR unat b) XOR push_bit 8 (le_val bs)))"
    by (simp only: n le_val_Cons_xor funpow_add comp_apply xor.assoc)
  also have "(?f ^^ 8) ((c XOR unat b) XOR push_bit 8 (le_val bs)) =
      (?f ^^ 8) (c XOR unat b) XOR le_val bs"
    by (simp only: crc_bits_xor crc_bits_push)
  finally show ?case by (simp only: Cons.IH crc_bitwise_Cons)
qed (simp add: crc_bitwise_Nil)

lemma fits32_le_val: "length bs \<le> 4 \<Longrightarrow> fits32 (le_val bs)"
proof -
  assume "length bs \<le> 4"
  then have "(256 :: nat) ^ length bs \<le> 256 ^ 4" by (intro power_increasing) auto
  with le_val_less[of bs] show ?thesis by (simp add: fits32_def)
qed

text \<open>A corruption confined to at most four consecutive bytes changes the register.\<close>

lemma burst_detected:
  assumes "fits32 c" and "length m = length m'" and "length m \<le> 4" and "m \<noteq> m'"
  shows "crc_bitwise poly c (xs @ m @ ys) \<noteq> crc_bitwise poly c (xs @ m' @ ys)"
proof
  assume eq: "crc_bitwise poly c (xs @ m @ ys) = crc_bitwise poly c (xs @ m' @ ys)"
  let ?c = "crc_bitwise poly c xs"
  have c: "fits32 ?c" using assms(1) by (rule crc_bitwise_fits)
  have "crc_bitwise poly ?c m = crc_bitwise poly ?c m'"
    by (rule crc_bitwise_inject[of _ _ ys]) (use eq c in \<open>simp_all add: crc_bitwise_append crc_bitwise_fits\<close>)
  then have "(crc_bit poly ^^ (8 * length m)) (?c XOR le_val m) =
      (crc_bit poly ^^ (8 * length m)) (?c XOR le_val m')"
    by (simp only: crc_bitwise_message assms(2))
  then have "?c XOR le_val m = ?c XOR le_val m'"
    by (rule crc_bits_inject[rotated 2])
      (use c assms(2,3) in \<open>simp_all only: fits32_xor fits32_le_val\<close>)
  then have "?c XOR (?c XOR le_val m) = ?c XOR (?c XOR le_val m')" by (rule arg_cong)
  then have "le_val m = le_val m'" by (simp only: xor_cancel)
  then have "le_bytes (length m) (le_val m) = le_bytes (length m') (le_val m')" using assms(2) by simp
  then show False using assms(4) by (simp only: le_bytes_le_val)
qed

end

lemma poly_facts: "2 ^ 31 \<le> CRC32C_POLY" "fits32 CRC32C_POLY" "2 ^ 31 \<le> ZLIB_POLY" "fits32 ZLIB_POLY"
  by (simp_all add: CRC32C_POLY_def ZLIB_POLY_def fits32_def)

interpretation castagnoli: crc_poly CRC32C_POLY
  by unfold_locales (rule poly_facts)+

interpretation ieee: crc_poly ZLIB_POLY
  by unfold_locales (rule poly_facts)+

lemma crc32c_update_bitwise: "crc32c_update crc data = crc_bitwise CRC32C_POLY crc data"
  by (simp only: crc32c_update_def CRC32C_TABLE_def crc_update_bitwise)

lemma crc32c_update_append: "crc32c_update crc (xs @ ys) = crc32c_update (crc32c_update crc xs) ys"
  by (simp only: crc32c_update_bitwise crc_bitwise_append)

lemma fits32_ones: "fits32 0xFFFFFFFF"
  by (simp add: fits32_def)

lemma crc32c_update_fits: "fits32 crc \<Longrightarrow> fits32 (crc32c_update crc data)"
  by (simp only: crc32c_update_bitwise castagnoli.crc_bitwise_fits)

lemma crc32c_finalize_fits: "fits32 crc \<Longrightarrow> fits32 (crc32c_finalize crc)"
  by (simp only: crc32c_finalize_def fits32_xor fits32_ones)

lemma crc32c_finalize_inject: "crc32c_finalize a = crc32c_finalize b \<longleftrightarrow> a = b"
  unfolding crc32c_finalize_def by (metis xor.commute xor_cancel)

lemma zlib_crc32_fits: "fits32 (zlib_crc32 data)"
  unfolding zlib_crc32_def crc_update_bitwise
  by (intro fits32_xor ieee.crc_bitwise_fits fits32_ones)

text \<open>
  C12: the table-driven \<^verbatim>\<open>crc32c_update\<close> computes the bit-by-bit CRC-32C register on every input
  and start value, and its checksum is a 32-bit number.
\<close>

theorem crc32c_table_correct:
  "crc32c_update crc data = foldl (\<lambda>c b. (crc_bit CRC32C_POLY ^^ 8) (c XOR unat b)) crc data \<and>
   crc32c data 0xFFFFFFFF < 2 ^ 32"
proof -
  have "fits32 (crc32c data 0xFFFFFFFF)"
    by (simp only: crc32c_def crc32c_finalize_fits crc32c_update_fits fits32_ones)
  then show ?thesis
    by (simp only: crc32c_update_bitwise crc_bitwise_def fits32_def simp_thms)
qed

text \<open>
  C13: two messages of the same length that differ only inside four consecutive bytes have
  different CRC-32C checksums.
\<close>

theorem crc32c_detects_burst:
  assumes "length m = length m'" and "length m \<le> 4" and "m \<noteq> m'"
  shows "crc32c (xs @ m @ ys) 0xFFFFFFFF \<noteq> crc32c (xs @ m' @ ys) 0xFFFFFFFF"
  using castagnoli.burst_detected[OF fits32_ones assms]
  by (simp only: crc32c_def crc32c_finalize_inject crc32c_update_bitwise not_False_eq_True)

theorem crc32c_detects_burst_witness:
  "crc32c ([1, 2] @ [3, 4] @ [5]) 0xFFFFFFFF \<noteq> crc32c ([1, 2] @ [4, 3] @ [5]) 0xFFFFFFFF"
  by (rule crc32c_detects_burst) simp_all

end
