(* ===== verification/Ext4_Extents.thy ===== *)
theory Ext4_Extents
  imports Allocators
begin

text \<open>
  The extent tree that \<^verbatim>\<open>make_ext4_img.py\<close> puts into an inode: grouping of the block list into
  runs of at most 32768 blocks, the root node in the 60 bytes of \<^verbatim>\<open>i_block\<close>, and a leaf block
  when there are more than four runs.  The theory shows that the runs cover the block list
  exactly, in order, and that a reader of the node finds every block again.
\<close>

definition EXTENT_MAGIC :: nat where
  "EXTENT_MAGIC = 0xF30A"

definition EXTENT_HEADER_SIZE :: nat where
  "EXTENT_HEADER_SIZE = 12"

definition EXTENT_ENTRY_SIZE :: nat where
  "EXTENT_ENTRY_SIZE = 12"

definition MAX_EXTENTS_IN_INODE :: nat where
  "MAX_EXTENTS_IN_INODE = 4"

definition MAX_EXTENT_LEN :: nat where
  "MAX_EXTENT_LEN = 32768"

declare EXTENT_MAGIC_def [layout] EXTENT_HEADER_SIZE_def [layout] EXTENT_ENTRY_SIZE_def [layout]
  MAX_EXTENTS_IN_INODE_def [layout] MAX_EXTENT_LEN_def [layout]

text \<open>An extent: first logical block, number of blocks, first physical block.\<close>

type_synonym extent = "nat \<times> nat \<times> nat"

section \<open>Grouping\<close>

definition extent_round ::
  "nat list \<Rightarrow> extent list \<times> nat \<times> nat \<times> nat \<Rightarrow> nat \<Rightarrow> extent list \<times> nat \<times> nat \<times> nat" where
  "extent_round blocks = (\<lambda>(extents, run_logical, run_start, run_len) i.
     if blocks ! i = run_start + run_len \<and> run_len < MAX_EXTENT_LEN
     then (extents, run_logical, run_start, run_len + 1)
     else (extents @ [(run_logical, run_len, run_start)], i, blocks ! i, 1))"

definition group_extents :: "nat list \<Rightarrow> extent list" where
  "group_extents blocks =
     (if blocks \<noteq> [] then
        case foldl (extent_round blocks) ([], 0, blocks ! 0, 1) [1..<length blocks] of
          (extents, run_logical, run_start, run_len) \<Rightarrow> extents @ [(run_logical, run_len, run_start)]
      else [])"

definition extent_blocks :: "extent list \<Rightarrow> nat list" where
  "extent_blocks es = concat (map (\<lambda>(l, n, p). [p..<p + n]) es)"

fun extent_chain :: "nat \<Rightarrow> extent list \<Rightarrow> bool" where
  "extent_chain l0 [] \<longleftrightarrow> True"
| "extent_chain l0 ((l, n, p) # es) \<longleftrightarrow> l = l0 \<and> 0 < n \<and> n \<le> MAX_EXTENT_LEN \<and> extent_chain (l0 + n) es"

lemma extent_blocks_simps [simp]:
  "extent_blocks [] = []" "extent_blocks ((l, n, p) # es) = [p..<p + n] @ extent_blocks es"
  "extent_blocks (es @ es') = extent_blocks es @ extent_blocks es'"
  by (simp_all add: extent_blocks_def)

lemma extent_chain_append:
  "extent_chain l0 (es @ es') \<longleftrightarrow> extent_chain l0 es \<and> extent_chain (l0 + length (extent_blocks es)) es'"
  by (induction l0 es rule: extent_chain.induct) (auto simp: add.assoc)

text \<open>The invariant of the loop: finished runs and the current run make up the first \<open>k\<close> blocks.\<close>

lemma extent_loop:
  assumes "0 < k" "k \<le> length blocks"
  shows "case foldl (extent_round blocks) ([], 0, blocks ! 0, 1) [1..<k] of (es, l, p, n) \<Rightarrow>
    extent_blocks (es @ [(l, n, p)]) = take k blocks \<and> extent_chain 0 (es @ [(l, n, p)])"
  using assms
proof (induction k)
  case (Suc k)
  show ?case
  proof (cases "k = 0")
    case True
    then show ?thesis using Suc.prems by (cases blocks) (simp_all add: layout)
  next
    case False
    obtain es l p n where st: "foldl (extent_round blocks) ([], 0, blocks ! 0, 1) [1..<k] = (es, l, p, n)"
      by (metis surj_pair)
    have IH: "extent_blocks (es @ [(l, n, p)]) = take k blocks" "extent_chain 0 (es @ [(l, n, p)])"
      using Suc False st by auto
    have len: "length (extent_blocks (es @ [(l, n, p)])) = k" using IH(1) Suc.prems by simp
    have upt: "[1..<Suc k] = [1..<k] @ [k]" using False by simp
    have "foldl (extent_round blocks) ([], 0, blocks ! 0, 1) [1..<Suc k] = extent_round blocks (es, l, p, n) k"
      by (simp only: upt foldl_append foldl.simps st)
    then show ?thesis
      unfolding extent_round_def using IH len Suc.prems
      by (simp add: take_Suc_conv_app_nth extent_chain_append layout)
  qed
qed simp

lemma group_extents_blocks: "extent_blocks (group_extents blocks) = blocks"
  and group_extents_chain: "extent_chain 0 (group_extents blocks)"
proof -
  have "extent_blocks (group_extents blocks) = blocks \<and> extent_chain 0 (group_extents blocks)"
  proof (cases "blocks = []")
    case False
    then show ?thesis
      using extent_loop[of "length blocks" blocks] by (auto simp: group_extents_def split: prod.splits)
  qed (simp add: group_extents_def)
  then show "extent_blocks (group_extents blocks) = blocks" "extent_chain 0 (group_extents blocks)"
    by auto
qed

text \<open>
  On consecutive blocks, which is what the allocator hands out, every run but the last has
  the full length.
\<close>

lemma extent_loop_contiguous:
  assumes "0 < k" "k \<le> n"
  shows "case foldl (extent_round [p..<p + n]) ([], 0, p, 1) [1..<k] of (es, l, q, m) \<Rightarrow>
    length es = (k - 1) div MAX_EXTENT_LEN \<and> q + m = p + k \<and> m = (k - 1) mod MAX_EXTENT_LEN + 1"
  using assms
proof (induction k)
  case (Suc k)
  show ?case
  proof (cases "k = 0")
    case False
    obtain es l q m where st: "foldl (extent_round [p..<p + n]) ([], 0, p, 1) [1..<k] = (es, l, q, m)"
      by (metis surj_pair)
    have IH: "length es = (k - 1) div MAX_EXTENT_LEN" "q + m = p + k" "m = (k - 1) mod MAX_EXTENT_LEN + 1"
      using Suc False st by auto
    have upt: "[1..<Suc k] = [1..<k] @ [k]" using False by simp
    have nth: "[p..<p + n] ! k = p + k" using Suc.prems by simp
    have step: "k div M = (k - 1) div M + (if (k - 1) mod M + 1 < M then 0 else 1)"
      "k mod M = (if (k - 1) mod M + 1 < M then (k - 1) mod M + 1 else 0)" if "0 < M" for M :: nat
      using that False div_Suc[of "k - 1" M] mod_Suc[of "k - 1" M] mod_less_divisor[of M "k - 1"]
      by (auto simp: Suc_lessI)
    have "foldl (extent_round [p..<p + n]) ([], 0, p, 1) [1..<Suc k] = extent_round [p..<p + n] (es, l, q, m) k"
      by (simp only: upt foldl_append foldl.simps st)
    then show ?thesis
      unfolding extent_round_def using IH step[of MAX_EXTENT_LEN] nth
      by (simp add: MAX_EXTENT_LEN_def)
  qed (simp add: layout)
qed simp

lemma length_group_extents:
  "0 < n \<Longrightarrow> length (group_extents [p..<p + n]) = Suc ((n - 1) div MAX_EXTENT_LEN)"
  using extent_loop_contiguous[of n n p] by (auto simp: group_extents_def split: prod.splits)

section \<open>Lookup\<close>

definition extent_lookup :: "extent list \<Rightarrow> nat \<Rightarrow> nat option" where
  "extent_lookup es k =
     map_option (\<lambda>(l, n, p). p + (k - l)) (find (\<lambda>(l, n, p). l \<le> k \<and> k < l + n) es)"

lemma extent_lookup_chain:
  "extent_chain l0 es \<Longrightarrow> k < length (extent_blocks es) \<Longrightarrow>
   extent_lookup es (l0 + k) = Some (extent_blocks es ! k)"
proof (induction l0 es arbitrary: k rule: extent_chain.induct)
  case (2 l0 l n p es)
  show ?case
  proof (cases "k < n")
    case True
    then show ?thesis using "2.prems" by (simp add: extent_lookup_def nth_append)
  next
    case False
    then have "extent_lookup es (l0 + n + (k - n)) = Some (extent_blocks es ! (k - n))"
      using "2.prems" by (intro "2.IH") auto
    then show ?thesis using False "2.prems" by (simp add: extent_lookup_def nth_append)
  qed
qed simp

section \<open>Nodes\<close>

definition extent_header :: "nat \<Rightarrow> nat \<Rightarrow> nat \<Rightarrow> bytes result" where
  "extent_header entries mx depth =
     pack_le [U 2 (int EXTENT_MAGIC), U 2 (int entries), U 2 (int mx), U 2 (int depth), U 4 0]"

definition extent_entry :: "extent \<Rightarrow> bytes result" where
  "extent_entry = (\<lambda>(logical, len, physical).
     pack_le [U 4 (int logical), U 2 (int len), U 2 (int (drop_bit 32 physical AND 0xFFFF)),
       U 4 (int (physical AND 0xFFFFFFFF))])"

text \<open>\<^verbatim>\<open>for ...: data += struct.pack(...)\<close>, starting from the header.\<close>

fun extent_entries :: "bytes \<Rightarrow> extent list \<Rightarrow> bytes result" where
  "extent_entries data [] = Inr data"
| "extent_entries data (e # es) = res_bind (extent_entry e) (\<lambda>b. extent_entries (data @ b) es)"

definition make_extent_iblock :: "nat list \<Rightarrow> (ext4_state, bytes) py" where
  "make_extent_iblock blocks =
     (if length blocks = 0 then
        py_bind (py_lift (extent_header 0 4 0)) (\<lambda>header.
        py_ret (header @ zeros (60 - length header)))
      else
        let extents = group_extents blocks in
        if length extents \<le> MAX_EXTENTS_IN_INODE then
          py_bind (py_lift (extent_header (length extents) MAX_EXTENTS_IN_INODE 0)) (\<lambda>header.
          py_bind (py_lift (extent_entries header extents)) (\<lambda>data.
          py_ret (data @ zeros (60 - length data))))
        else
          py_bind e4_alloc_block (\<lambda>leaf_blk.
          let max_in_block = (BLOCK_SIZE - EXTENT_HEADER_SIZE) div EXTENT_ENTRY_SIZE in
          py_bind (py_lift (extent_header (length extents) max_in_block 0)) (\<lambda>leaf_header.
          py_bind (py_lift (extent_entries leaf_header extents)) (\<lambda>leaf_data.
          py_seq (write_block leaf_blk (leaf_data @ zeros (BLOCK_SIZE - length leaf_data)))
          (py_bind (py_lift (extent_header 1 MAX_EXTENTS_IN_INODE 1)) (\<lambda>root_header.
           py_bind (py_lift (pack_le [U 4 0, U 4 (int (leaf_blk AND 0xFFFFFFFF)),
             U 2 (int (drop_bit 32 leaf_blk AND 0xFFFF)), U 2 0])) (\<lambda>root_idx.
           let root = root_header @ root_idx in
           py_ret (root @ zeros (60 - length root)))))))))"

text \<open>The bytes of a node, in closed form.\<close>

definition header_bytes :: "nat \<Rightarrow> nat \<Rightarrow> nat \<Rightarrow> bytes" where
  "header_bytes n mx depth =
     le_bytes 2 EXTENT_MAGIC @ le_bytes 2 n @ le_bytes 2 mx @ le_bytes 2 depth @ zeros 4"

definition entry_bytes :: "extent \<Rightarrow> bytes" where
  "entry_bytes = (\<lambda>(l, n, p). le_bytes 4 l @ le_bytes 2 n @ zeros 2 @ le_bytes 4 p)"

definition extent_ok :: "extent \<Rightarrow> bool" where
  "extent_ok = (\<lambda>(l, n, p). l < 2 ^ 32 \<and> n < 2 ^ 16 \<and> p < 2 ^ 32)"

lemma length_header_bytes [simp]: "length (header_bytes n mx depth) = 12"
  by (simp add: header_bytes_def)

lemma length_entry_bytes [simp]: "length (entry_bytes e) = 12"
  by (simp add: entry_bytes_def split: prod.splits)

lemma extent_header_run:
  "n < 2 ^ 16 \<Longrightarrow> mx < 2 ^ 16 \<Longrightarrow> depth < 2 ^ 16 \<Longrightarrow>
   extent_header n mx depth = Inr (header_bytes n mx depth)"
  by (simp add: extent_header_def pack_le_def header_bytes_def EXTENT_MAGIC_def le_bytes_zero)

lemma low_word: "p < 2 ^ 32 \<Longrightarrow> p AND 0xFFFFFFFF = p \<and> drop_bit 32 p = 0" for p :: nat
proof -
  assume p: "p < 2 ^ 32"
  then have "take_bit 32 p = p" by (simp only: take_bit_nat_eq_self_iff)
  moreover have "take_bit 32 p = p AND 0xFFFFFFFF" by (simp add: take_bit_eq_mask mask_eq_exp_minus_1)
  moreover have "p div 2 ^ 32 = 0" using p by simp
  ultimately show ?thesis by (simp only: drop_bit_eq_div)
qed

lemma extent_entry_run: "extent_ok e \<Longrightarrow> extent_entry e = Inr (entry_bytes e)"
proof -
  assume "extent_ok e"
  moreover obtain l n p where e: "e = (l, n, p)" by (cases e)
  ultimately have b: "l < 2 ^ 32" "n < 2 ^ 16" "p < 2 ^ 32" by (simp_all add: extent_ok_def)
  have "extent_entry e = pack_le [U 4 (int l), U 2 (int n), U 2 0, U 4 (int p)]"
    using low_word[OF b(3)] by (simp add: extent_entry_def e)
  with b show ?thesis by (simp add: pack_le_def entry_bytes_def e le_bytes_zero)
qed

lemma extent_entries_run:
  "list_all extent_ok es \<Longrightarrow> extent_entries data es = Inr (data @ concat (map entry_bytes es))"
  by (induction es arbitrary: data) (simp_all add: extent_entry_run)

definition node_bytes :: "nat \<Rightarrow> nat \<Rightarrow> extent list \<Rightarrow> bytes" where
  "node_bytes sz mx es =
     (let d = header_bytes (length es) mx 0 @ concat (map entry_bytes es) in d @ zeros (sz - length d))"

definition root_bytes :: "nat \<Rightarrow> bytes" where
  "root_bytes leaf = header_bytes 1 4 1 @ (zeros 4 @ le_bytes 4 leaf @ zeros 2 @ zeros 2) @ zeros 36"

lemma length_entries: "length (concat (map entry_bytes es)) = 12 * length es"
  by (induction es) simp_all

lemma length_node_bytes: "12 + 12 * length es \<le> sz \<Longrightarrow> length (node_bytes sz mx es) = sz"
  by (simp add: node_bytes_def Let_def length_entries)

lemma length_root_bytes [simp]: "length (root_bytes leaf) = 60"
  by (simp add: root_bytes_def)

text \<open>The blocks of an extent list that fits the disk.\<close>

lemma extents_ok:
  assumes "extent_chain l0 es" and "\<And>b. b \<in> set (extent_blocks es) \<Longrightarrow> b < 2 ^ 32"
    and "l0 + length (extent_blocks es) \<le> 2 ^ 32"
  shows "list_all extent_ok es"
  using assms
proof (induction l0 es rule: extent_chain.induct)
  case (2 l0 l n p es)
  have "p \<in> set (extent_blocks ((l, n, p) # es))" using "2.prems"(1) by simp
  then have "p < 2 ^ 32" by (rule "2.prems"(2))
  moreover have "list_all extent_ok es" using "2.prems" by (intro "2.IH") auto
  ultimately show ?case using "2.prems" by (simp add: extent_ok_def MAX_EXTENT_LEN_def)
qed simp

lemma length_extent_chain: "extent_chain l0 es \<Longrightarrow> length es \<le> length (extent_blocks es)"
  by (induction l0 es rule: extent_chain.induct) auto

section \<open>Building\<close>

text \<open>What \<^verbatim>\<open>make_extent_iblock\<close> returns and writes for a list of blocks, when the next free block is \<open>nb\<close>.\<close>

definition needs_leaf :: "nat list \<Rightarrow> bool" where
  "needs_leaf blocks \<longleftrightarrow> MAX_EXTENTS_IN_INODE < length (group_extents blocks)"

definition iblock_bytes :: "nat list \<Rightarrow> nat \<Rightarrow> bytes" where
  "iblock_bytes blocks nb =
     (if needs_leaf blocks then root_bytes nb else node_bytes 60 4 (group_extents blocks))"

definition leaf_log :: "nat list \<Rightarrow> nat \<Rightarrow> (nat \<times> bytes) list" where
  "leaf_log blocks nb =
     (if needs_leaf blocks then [(nb, node_bytes BLOCK_SIZE 340 (group_extents blocks))] else [])"

definition leaf_span :: "nat list \<Rightarrow> nat" where
  "leaf_span blocks = (if needs_leaf blocks then 1 else 0)"

lemma length_iblock_bytes [simp]: "length (iblock_bytes blocks nb) = 60"
proof -
  have "length (node_bytes 60 4 (group_extents blocks)) = 60" if "\<not> needs_leaf blocks"
    using that by (intro length_node_bytes) (simp add: needs_leaf_def layout)
  then show ?thesis by (simp add: iblock_bytes_def)
qed

definition mappable :: "nat list \<Rightarrow> bool" where
  "mappable blocks \<longleftrightarrow> list_all (\<lambda>b. b < TOTAL_BLOCKS) blocks \<and> length blocks \<le> TOTAL_BLOCKS \<and>
     length (group_extents blocks) \<le> 340"

lemma mappable_extents: "mappable blocks \<Longrightarrow> list_all extent_ok (group_extents blocks)"
  using extents_ok[OF group_extents_chain, of blocks]
  by (fastforce simp: mappable_def group_extents_blocks list_all_iff layout)

lemma group_extents_Nil [simp]: "group_extents [] = []"
  by (simp add: group_extents_def)

lemma make_extent_iblock_run:
  assumes "mappable blocks" and "next_block s + leaf_span blocks \<le> TOTAL_BLOCKS"
  shows "make_extent_iblock blocks s = Inr (iblock_bytes blocks (next_block s),
    img_update (apply_writes (block_log (leaf_log blocks (next_block s)))) (e4_bump (leaf_span blocks) s))"
proof -
  let ?es = "group_extents blocks"
  note ok = mappable_extents[OF assms(1)]
  have small: "length ?es < 2 ^ 16" using assms(1) by (simp add: mappable_def)
  consider "blocks = []" | "blocks \<noteq> []" "\<not> needs_leaf blocks" | "blocks \<noteq> []" "needs_leaf blocks"
    by blast
  then show ?thesis
  proof cases
    case 1
    then show ?thesis
      by (simp add: make_extent_iblock_def py_bind_run extent_header_run iblock_bytes_def needs_leaf_def
          node_bytes_def leaf_log_def leaf_span_def e4_bump_def)
  next
    case 2
    then have n: "length ?es \<le> 4" by (simp add: needs_leaf_def layout)
    then have "extent_header (length ?es) 4 0 = Inr (header_bytes (length ?es) 4 0)"
      by (simp add: extent_header_run)
    with 2 n show ?thesis
      by (simp add: make_extent_iblock_def Let_def py_bind_run extent_entries_run[OF ok]
          iblock_bytes_def node_bytes_def leaf_log_def leaf_span_def e4_bump_def layout)
  next
    case 3
    let ?s = "e4_bump 1 s"
    have h: "extent_header (length ?es) 340 0 = Inr (header_bytes (length ?es) 340 0)"
      using small by (simp add: extent_header_run)
    have len: "12 + 12 * length ?es \<le> BLOCK_SIZE" using assms(1) by (simp add: mappable_def layout)
    have nb: "next_block s < TOTAL_BLOCKS" using assms(2) 3 by (simp add: leaf_span_def)
    then have p: "next_block s < 2 ^ 32" by (simp add: layout)
    have idx: "pack_le [U 4 0, U 4 (int (next_block s AND 0xFFFFFFFF)),
        U 2 (int (drop_bit 32 (next_block s) AND 0xFFFF)), U 2 0] =
      Inr (zeros 4 @ le_bytes 4 (next_block s) @ zeros 2 @ zeros 2)"
      using low_word[OF p] p by (simp add: pack_le_def le_bytes_zero)
    have r: "extent_header (Suc 0) 4 (Suc 0) = Inr (header_bytes 1 4 1)" by (simp add: extent_header_run)
    have w: "write_block (next_block s) (node_bytes BLOCK_SIZE 340 ?es) ?s = Inr ((),
        img_update (apply_writes (block_log (leaf_log blocks (next_block s)))) ?s)"
      using 3 length_node_bytes[OF len, of 340]
      by (simp add: write_block_run leaf_log_def block_log_Cons)
    have mx: "(BLOCK_SIZE - EXTENT_HEADER_SIZE) div EXTENT_ENTRY_SIZE = 340" by (simp add: layout)
    have more: "\<not> length ?es \<le> MAX_EXTENTS_IN_INODE" using 3 by (simp add: needs_leaf_def)
    have four: "MAX_EXTENTS_IN_INODE = 4" by (simp add: layout)
    show ?thesis
      unfolding make_extent_iblock_def Let_def mx
      using 3 more w[unfolded node_bytes_def Let_def]
      by (simp add: e4.alloc_run nb py_bind_run py_seq_run h extent_entries_run[OF ok] four r idx
          iblock_bytes_def root_bytes_def leaf_span_def)
  qed
qed

section \<open>Reading\<close>

definition extent_at :: "bytes \<Rightarrow> nat \<Rightarrow> extent" where
  "extent_at im off = (u32_at im off, u16_at im (off + 4), u32_at im (off + 8) + 2 ^ 32 * u16_at im (off + 6))"

definition node_extents :: "bytes \<Rightarrow> nat \<Rightarrow> extent list" where
  "node_extents im off = map (\<lambda>i. extent_at im (off + 12 + 12 * i)) [0..<u16_at im (off + 2)]"

text \<open>The extents of the tree whose root is at \<open>off\<close>: in the root, or in the leaf it names.\<close>

definition tree_extents :: "bytes \<Rightarrow> nat \<Rightarrow> extent list" where
  "tree_extents im off =
     (if u16_at im (off + 6) = 0 then node_extents im off
      else node_extents im ((u32_at im (off + 16) + 2 ^ 32 * u16_at im (off + 20)) * BLOCK_SIZE))"

lemma extent_at_bytes:
  assumes "sub im off 12 = entry_bytes e" and "extent_ok e"
  shows "extent_at im off = e"
proof -
  obtain l n p where e: "e = (l, n, p)" by (cases e)
  have at: "sub im (off + k) m = sub (entry_bytes e) k m" if "k + m \<le> 12" for k m
    using that assms(1) sub_sub[of k m 12 im off] by simp
  have "sub (entry_bytes e) 0 4 = le_bytes 4 l" "sub (entry_bytes e) 4 2 = le_bytes 2 n"
    "sub (entry_bytes e) 6 2 = zeros 2" "sub (entry_bytes e) 8 4 = le_bytes 4 p"
    by (simp_all add: e entry_bytes_def sub_def)
  then show ?thesis
    using at[of 0 4] at[of 4 2] at[of 6 2] at[of 8 4] assms(2)
    by (simp add: extent_at_def u32_at_def u16_at_def e extent_ok_def)
qed

lemma node_extents_bytes:
  assumes "sub im off sz = node_bytes sz mx es" and "12 + 12 * length es \<le> sz"
    and "list_all extent_ok es" and "length es < 2 ^ 16"
  shows "node_extents im off = es" and "u16_at im (off + 6) = 0"
proof -
  let ?h = "header_bytes (length es) mx 0" and ?d = "concat (map entry_bytes es)"
  have at: "sub im (off + k) m = sub (?h @ ?d @ zeros (sz - length (?h @ ?d))) k m" if "k + m \<le> sz" for k m
    using that assms(1) sub_sub[of k m sz im off] by (simp add: node_bytes_def Let_def)
  have hd: "sub im (off + k) 2 = sub ?h k 2" if "k + 2 \<le> 12" for k
    using at[of k 2] that assms(2) by (simp add: sub_append_left)
  have n: "u16_at im (off + 2) = length es"
    using hd[of 2] assms(4) by (simp add: u16_at_def header_bytes_def sub_def)
  show "u16_at im (off + 6) = 0"
    using hd[of 6] by (simp add: u16_at_def header_bytes_def sub_def)
  have "extent_at im (off + 12 + 12 * i) = es ! i" if i: "i < length es" for i
  proof (rule extent_at_bytes)
    have "sub ?d (12 * i) (length (map entry_bytes es ! i)) = map entry_bytes es ! i"
      using i by (intro sub_concat_field) (simp_all add: take_map comp_def sum_list_triv)
    then have "sub ?d (12 * i) 12 = entry_bytes (es ! i)" using i by simp
    then show "sub im (off + 12 + 12 * i) 12 = entry_bytes (es ! i)"
      using at[of "12 + 12 * i" 12] i assms(2)
      by (simp add: add.assoc sub_append_right sub_append_left length_entries)
  qed (use assms(3) i in \<open>simp add: list_all_length\<close>)
  then show "node_extents im off = es"
    unfolding node_extents_def n by (intro nth_equalityI) simp_all
qed

text \<open>
  A root at \<open>off\<close> and, where one is needed, a leaf in block \<open>nb\<close>: the reader finds the runs.
\<close>

lemma tree_extents_stored:
  assumes "mappable blocks" and "nb < TOTAL_BLOCKS" and "sub im off 60 = iblock_bytes blocks nb"
    and "needs_leaf blocks \<Longrightarrow> block_at im nb = node_bytes BLOCK_SIZE 340 (group_extents blocks)"
  shows "tree_extents im off = group_extents blocks"
proof (cases "needs_leaf blocks")
  case False
  then have n: "length (group_extents blocks) \<le> 4" by (simp add: needs_leaf_def layout)
  have b: "sub im off 60 = node_bytes 60 4 (group_extents blocks)"
    using assms(3) False by (simp add: iblock_bytes_def)
  show ?thesis
    using node_extents_bytes[OF b _ mappable_extents[OF assms(1)]] n by (simp add: tree_extents_def)
next
  case True
  have at: "sub im (off + k) m = sub (root_bytes nb) k m" if "k + m \<le> 60" for k m
    using that assms(3) True sub_sub[of k m 60 im off] by (simp add: iblock_bytes_def)
  have depth: "u16_at im (off + 6) = 1"
    using at[of 6 2] by (simp add: u16_at_def root_bytes_def header_bytes_def sub_def)
  have leaf: "u32_at im (off + 16) + 2 ^ 32 * u16_at im (off + 20) = nb"
    using at[of 16 4] at[of 20 2] assms(2)
    by (simp add: u32_at_def u16_at_def root_bytes_def header_bytes_def sub_def layout)
  have n: "length (group_extents blocks) \<le> 340" using assms(1) by (simp add: mappable_def)
  have b: "sub im (nb * BLOCK_SIZE) BLOCK_SIZE = node_bytes BLOCK_SIZE 340 (group_extents blocks)"
    using assms(4)[OF True] by (simp add: block_at_def)
  have "node_extents im (nb * BLOCK_SIZE) = group_extents blocks"
    using n by (intro node_extents_bytes(1)[OF b _ mappable_extents[OF assms(1)]])
      (simp_all add: BLOCK_SIZE_def)
  then show ?thesis using depth by (simp only: tree_extents_def leaf if_False one_neq_zero)
qed

end
