(* ===== verification/Ext4_Inode.thy ===== *)
theory Ext4_Inode
  imports Crc Ext4_Extents
begin

text \<open>
  The 256-byte inode of \<^verbatim>\<open>make_ext4_img.py\<close>: \<^verbatim>\<open>inode_table_offset\<close>, \<^verbatim>\<open>inode_checksum\<close>,
  \<^verbatim>\<open>bgd_checksum\<close> and \<^verbatim>\<open>write_inode_ext4\<close>.  The fields that were packed are read back, and the
  stored checksum is the one a reader computes over the stored bytes.
\<close>

section \<open>Checksums\<close>

definition fs_uuid_of :: "int \<Rightarrow> bytes result" where
  "fs_uuid_of now =
     pack_le [U 4 0xDEAD0E4F, U 4 0xBEEF0E4F, U 4 (now AND 0xFFFFFFFF), U 4 0x0E4F0E4F]"

definition inode_checksum :: "bytes \<Rightarrow> nat \<Rightarrow> nat \<Rightarrow> bytes \<Rightarrow> nat result" where
  "inode_checksum inode_buf inode_size inode_number fs_uuid =
     (let seed = crc32c_update 0xFFFFFFFF fs_uuid in
      res_bind (pack_le [U 4 (int inode_number)]) (\<lambda>num.
      let seed = crc32c_update seed num in
      res_bind (unpack_from 4 inode_buf 0x64) (\<lambda>gen.
      res_bind (pack_le [U 4 (int gen)]) (\<lambda>gen_bytes.
      let seed = crc32c_update seed gen_bytes;
          buf = take inode_size inode_buf;
          buf = slice_set 0x7C 0x7E (zeros 2) buf;
          buf = (if inode_size \<ge> 256 then slice_set 0x82 0x84 (zeros 2) buf else buf);
          crc = crc32c_update seed buf
      in Inr (crc32c_finalize crc)))))"

definition bgd_checksum :: "bytes \<Rightarrow> nat \<Rightarrow> nat \<Rightarrow> bytes \<Rightarrow> nat result" where
  "bgd_checksum bgd_buf desc_size bg_number fs_uuid =
     (let seed = crc32c_update 0xFFFFFFFF fs_uuid in
      res_bind (pack_le [U 4 (int bg_number)]) (\<lambda>num.
      let seed = crc32c_update seed num;
          buf = take desc_size bgd_buf;
          buf = slice_set 0x1E 0x20 (zeros 2) buf;
          crc = crc32c_update seed buf
      in Inr (crc32c_finalize crc AND 0xFFFF)))"

section \<open>The inode\<close>

definition EXTENTS_FL :: nat where
  "EXTENTS_FL = 0x00080000"

definition inode_table_offset :: "nat \<Rightarrow> nat" where
  "inode_table_offset ino =
     (let group = (ino - 1) div e4_INODES_PER_GROUP;
          local_idx = (ino - 1) mod e4_INODES_PER_GROUP;
          table_start_block = IT_START + group * INODE_TABLE_BLOCKS_PER_GROUP
      in table_start_block * BLOCK_SIZE + local_idx * e4_INODE_SIZE)"

text \<open>The \<^verbatim>\<open>struct.pack_into\<close> statements before and after the copy of the extent root.\<close>

definition e4_inode_front ::
  "int \<Rightarrow> int \<Rightarrow> nat \<Rightarrow> nat \<Rightarrow> int \<Rightarrow> nat \<Rightarrow> int \<Rightarrow> int \<Rightarrow> pack_stmt list" where
  "e4_inode_front now mode i_size num_data_blocks nlink flags uid gid =
     (let i_blocks_field = num_data_blocks * (BLOCK_SIZE div 512) in
      [(0x00, [U 2 mode, U 2 uid, U 4 (int (i_size AND 0xFFFFFFFF))]),
       (0x08, [U 4 now, U 4 now, U 4 now, U 4 0]),
       (0x18, [U 2 gid, U 2 nlink, U 4 (int i_blocks_field)]),
       (0x20, [U 4 (int (flags OR EXTENTS_FL)), U 4 0])])"

definition e4_inode_back :: "int \<Rightarrow> nat \<Rightarrow> pack_stmt list" where
  "e4_inode_back now i_size =
     [(0x64, [U 4 0]),
      (0x6C, [U 4 (int (drop_bit 32 i_size AND 0xFFFFFFFF))]),
      (0x80, [U 2 28]), (0x84, [U 4 0]), (0x88, [U 4 0]), (0x8C, [U 4 0]),
      (0x90, [U 4 now]), (0x94, [U 4 0])]"

definition e4_seal_inode :: "bytes \<Rightarrow> nat \<Rightarrow> bytes \<Rightarrow> bytes result" where
  "e4_seal_inode fs_uuid ino data =
     res_bind (inode_checksum data e4_INODE_SIZE ino fs_uuid) (\<lambda>csum.
     res_bind (pack_into [U 2 (int (csum AND 0xFFFF))] 0x7C data) (\<lambda>data.
     pack_into [U 2 (int (drop_bit 16 csum AND 0xFFFF))] 0x82 data))"

definition e4_inode_bytes ::
  "int \<Rightarrow> bytes \<Rightarrow> nat \<Rightarrow> int \<Rightarrow> nat \<Rightarrow> nat \<Rightarrow> bytes \<Rightarrow> int \<Rightarrow> nat \<Rightarrow> int \<Rightarrow> int \<Rightarrow> bytes result" where
  "e4_inode_bytes now fs_uuid ino mode i_size num_data_blocks iblock_data nlink flags uid gid =
     res_bind (pack_seq (e4_inode_front now mode i_size num_data_blocks nlink flags uid gid)
        (zeros e4_INODE_SIZE)) (\<lambda>data.
     let data = slice_set 0x28 (0x28 + 60) (take 60 iblock_data) data in
     res_bind (pack_seq (e4_inode_back now i_size) data) (e4_seal_inode fs_uuid ino))"

definition write_inode_ext4 ::
  "int \<Rightarrow> bytes \<Rightarrow> nat \<Rightarrow> int \<Rightarrow> nat \<Rightarrow> nat \<Rightarrow> bytes \<Rightarrow> int \<Rightarrow> nat \<Rightarrow> int \<Rightarrow> int \<Rightarrow>
   (ext4_state, unit) py" where
  "write_inode_ext4 now fs_uuid ino mode i_size num_data_blocks iblock_data nlink flags uid gid =
     py_bind (py_lift (e4_inode_bytes now fs_uuid ino mode i_size num_data_blocks iblock_data
        nlink flags uid gid))
       (\<lambda>data. py_mod (img_update
          (slice_set (inode_table_offset ino) (inode_table_offset ino + e4_INODE_SIZE) data)))"

section \<open>The inode table\<close>

text \<open>The tables of the groups follow one another, so the slots of all inodes do.\<close>

lemma inode_table_offset_eq: "inode_table_offset ino = IT_START * BLOCK_SIZE + (ino - 1) * e4_INODE_SIZE"
proof -
  let ?k = "ino - 1" and ?n = e4_INODES_PER_GROUP
  have "INODE_TABLE_BLOCKS_PER_GROUP * BLOCK_SIZE = ?n * e4_INODE_SIZE" by (simp add: layout)
  then have "inode_table_offset ino =
      IT_START * BLOCK_SIZE + (?k div ?n * ?n + ?k mod ?n) * e4_INODE_SIZE"
    unfolding inode_table_offset_def Let_def add_mult_distrib mult.assoc by simp
  then show ?thesis by simp
qed

lemma inode_table_offset_bound:
  "1 \<le> ino \<Longrightarrow> ino \<le> TOTAL_INODES \<Longrightarrow>
   inode_table_offset ino + e4_INODE_SIZE \<le> METADATA_END * BLOCK_SIZE"
  by (simp add: inode_table_offset_eq layout)

section \<open>Stored checksums\<close>

definition mask_csum :: "bytes \<Rightarrow> bytes" where
  "mask_csum d = put_at 0x82 (zeros 2) (put_at 0x7C (zeros 2) d)"

definition csum_at :: "bytes \<Rightarrow> nat" where
  "csum_at d = u16_at d 0x7C + 2 ^ 16 * u16_at d 0x82"

lemma mask_csum_put:
  assumes "length d = 256" "length a = 2" "length b = 2"
  shows "mask_csum (put_at 0x82 b (put_at 0x7C a d)) = mask_csum d"
  using assms unfolding mask_csum_def by (intro nth_equalityI) (auto simp: nth_put_at)

lemma inode_checksum_eq:
  assumes "length d = 256" and "ino < 2 ^ 32"
  shows "inode_checksum d 256 ino uuid =
    Inr (crc32c_finalize (crc32c_update 0xFFFFFFFF
      (uuid @ le_bytes 4 ino @ sub d 0x64 4 @ mask_csum d)))"
proof -
  have "le_bytes 4 (le_val (sub d 0x64 4)) = sub d 0x64 4"
    using le_bytes_le_val[of "sub d 0x64 4"] assms(1) by simp
  moreover have "le_val (sub d 0x64 4) < 2 ^ 32"
    using le_val_less[of "sub d 0x64 4"] assms(1) by simp
  ultimately show ?thesis
    using assms
    by (simp add: inode_checksum_def Let_def pack_le_def unpack_from_def mask_csum_def put_at_def
        crc32c_update_append del: le_bytes.simps)
qed

lemma split_csum:
  assumes "fits32 c"
  shows "c AND 0xFFFF < 2 ^ 16" "drop_bit 16 c AND 0xFFFF < 2 ^ 16"
    and "(c AND 0xFFFF) + 2 ^ 16 * (drop_bit 16 c AND 0xFFFF) = c"
proof -
  have m: "x AND 0xFFFF = x mod 2 ^ 16" for x :: nat
    using take_bit_eq_mask[of 16 x] by (simp add: take_bit_eq_mod mask_eq_exp_minus_1)
  have d: "drop_bit 16 c = c div 2 ^ 16" by (rule drop_bit_eq_div)
  have "c div 2 ^ 16 < 2 ^ 16" using assms by (simp add: fits32_def less_mult_imp_div_less)
  then have "(c div 2 ^ 16) mod 2 ^ 16 = c div 2 ^ 16" by simp
  then show "(c AND 0xFFFF) + 2 ^ 16 * (drop_bit 16 c AND 0xFFFF) = c"
    unfolding m d by simp
  show "c AND 0xFFFF < 2 ^ 16" "drop_bit 16 c AND 0xFFFF < 2 ^ 16" unfolding m by simp_all
qed

section \<open>The fields of an inode\<close>

definition e4_args_ok :: "int \<Rightarrow> nat \<Rightarrow> int \<Rightarrow> nat \<Rightarrow> nat \<Rightarrow> int \<Rightarrow> nat \<Rightarrow> int \<Rightarrow> int \<Rightarrow> bool" where
  "e4_args_ok now ino mode i_size num_data_blocks nlink flags uid gid \<longleftrightarrow>
     0 \<le> now \<and> now < 2 ^ 32 \<and> ino < 2 ^ 32 \<and> 0 \<le> mode \<and> mode < 2 ^ 16 \<and> i_size < 2 ^ 64 \<and>
     num_data_blocks \<le> TOTAL_BLOCKS \<and> 0 \<le> nlink \<and> nlink < 2 ^ 16 \<and> flags < 2 ^ 32 \<and>
     0 \<le> uid \<and> uid < 2 ^ 16 \<and> 0 \<le> gid \<and> gid < 2 ^ 16"

text \<open>All statements of \<^verbatim>\<open>write_inode_ext4\<close> but the checksum, in the order of their offsets.\<close>

definition e4_inode_stmts ::
  "int \<Rightarrow> int \<Rightarrow> nat \<Rightarrow> nat \<Rightarrow> bytes \<Rightarrow> int \<Rightarrow> nat \<Rightarrow> int \<Rightarrow> int \<Rightarrow> pack_stmt list" where
  "e4_inode_stmts now mode i_size n iblock nlink flags uid gid =
     e4_inode_front now mode i_size n nlink flags uid gid @ [(0x28, [S 60 iblock])] @ e4_inode_back now i_size"

lemma and_ones_32: "x AND 0xFFFFFFFF = x mod 2 ^ 32" for x :: nat
  using take_bit_eq_mask[of 32 x] by (simp add: take_bit_eq_mod mask_eq_exp_minus_1)

lemma or_less: "a < 2 ^ 32 \<Longrightarrow> b < 2 ^ 32 \<Longrightarrow> a OR b < (2 ^ 32 :: nat)"
  by (metis take_bit_nat_eq_self_iff take_bit_or)

lemma e4_inode_stmts_ok:
  assumes "e4_args_ok now ino mode i_size n nlink flags uid gid"
  shows "list_all (stmt_ok 256) (e4_inode_stmts now mode i_size n iblock nlink flags uid gid)"
    and "stmts_ordered 0 (e4_inode_stmts now mode i_size n iblock nlink flags uid gid)"
proof -
  have f: "flags OR EXTENTS_FL < 2 ^ 32"
    using assms by (intro or_less) (simp_all add: e4_args_ok_def EXTENTS_FL_def)
  have s: "x AND 0xFFFFFFFF < 2 ^ 32" for x :: nat unfolding and_ones_32 by simp
  show "list_all (stmt_ok 256) (e4_inode_stmts now mode i_size n iblock nlink flags uid gid)"
    using assms f s[of i_size] s[of "drop_bit 32 i_size"]
    by (simp add: e4_inode_stmts_def e4_inode_front_def e4_inode_back_def stmt_ok_def e4_args_ok_def layout)
  show "stmts_ordered 0 (e4_inode_stmts now mode i_size n iblock nlink flags uid gid)"
    by (simp add: e4_inode_stmts_def e4_inode_front_def e4_inode_back_def Let_def)
qed

text \<open>The checksum goes into two fields of the inode it covers, which are read as zero.\<close>

lemma e4_seal_inode_run:
  assumes len0: "length d0 = 256" and ino: "ino < 2 ^ 32"
  obtains d where "e4_seal_inode uuid ino d0 = Inr d" and "length d = 256"
    and "\<And>o' m. o' + m \<le> 0x7C \<Longrightarrow> sub d o' m = sub d0 o' m"
    and "inode_checksum d 256 ino uuid = Inr (csum_at d)"
proof -
  define c where "c = crc32c_finalize (crc32c_update 0xFFFFFFFF
      (uuid @ le_bytes 4 ino @ sub d0 0x64 4 @ mask_csum d0))"
  have cs: "inode_checksum d0 256 ino uuid = Inr c"
    unfolding c_def by (rule inode_checksum_eq[OF len0 ino])
  have cf: "fits32 c" unfolding c_def by (intro crc32c_finalize_fits crc32c_update_fits fits32_ones)
  let ?lo = "le_bytes 2 (c AND 0xFFFF)" and ?hi = "le_bytes 2 (drop_bit 16 c AND 0xFFFF)"
  define d where "d = put_at 0x82 ?hi (put_at 0x7C ?lo d0)"
  note sc = split_csum[OF cf]
  have p1: "pack_into [U 2 (int (c AND 0xFFFF))] 0x7C d0 = Inr (put_at 0x7C ?lo d0)"
    using sc(1) len0 by (subst pack_into_run) (simp_all add: stmt_ok_def fields_bytes_def)
  have p2: "pack_into [U 2 (int (drop_bit 16 c AND 0xFFFF))] 0x82 (put_at 0x7C ?lo d0) = Inr d"
    using sc(2) len0 by (subst pack_into_run) (simp_all add: stmt_ok_def fields_bytes_def d_def)
  have run: "e4_seal_inode uuid ino d0 = Inr d"
    unfolding e4_seal_inode_def e4_INODE_SIZE_def cs res_bind_simps p1 by (rule p2)
  have ld: "length d = 256" using len0 by (simp add: d_def)
  have keep: "sub d o' m = sub d0 o' m" if "o' + m \<le> 0x7C" for o' m
    using that len0 unfolding d_def by (simp add: sub_put_at_disjoint)
  have csum: "csum_at d = c"
  proof -
    have a: "sub d 0x82 2 = ?hi" using sub_put_at_same[of 130 ?hi "put_at 0x7C ?lo d0"] len0 by (simp add: d_def)
    have "sub d 0x7C 2 = sub (put_at 0x7C ?lo d0) 0x7C 2"
      using len0 unfolding d_def by (simp add: sub_put_at_disjoint)
    then have b: "sub d 0x7C 2 = ?lo" using sub_put_at_same[of 124 ?lo d0] len0 by simp
    show ?thesis using sc by (simp add: csum_at_def u16_at_def a b)
  qed
  have ck: "inode_checksum d 256 ino uuid = Inr (csum_at d)"
    unfolding inode_checksum_eq[OF ld ino] csum
    using keep[of 100 4] mask_csum_put[OF len0, of ?lo ?hi] by (simp add: c_def d_def)
  from that[OF run ld keep ck] show thesis .
qed

lemma e4_inode_bytes_run:
  assumes ok: "e4_args_ok now ino mode i_size n nlink flags uid gid" and ib: "length iblock = 60"
  obtains d where
    "e4_inode_bytes now uuid ino mode i_size n iblock nlink flags uid gid = Inr d"
    and "length d = e4_INODE_SIZE"
    and "sub d 0 2 = le_bytes 2 (nat mode)"
    and "u32_at d 4 + 2 ^ 32 * u32_at d 0x6C = i_size"
    and "sub d 0x1A 2 = le_bytes 2 (nat nlink)"
    and "sub d 0x28 60 = iblock"
    and "inode_checksum d e4_INODE_SIZE ino uuid = Inr (csum_at d)"
proof -
  let ?ps = "e4_inode_stmts now mode i_size n iblock nlink flags uid gid"
  let ?F = "e4_inode_front now mode i_size n nlink flags uid gid" and ?B = "e4_inode_back now i_size"
  define d0 where "d0 = apply_writes (pack_log ?ps) (zeros 256)"
  note st = e4_inode_stmts_ok[OF ok, of iblock]
  have len0: "length d0 = 256" unfolding d0_def using pack_log_in_range[OF st(1)] by simp
  have front: "pack_seq ?F (zeros 256) = Inr (apply_writes (pack_log ?F) (zeros 256))"
    using st(1) by (intro pack_seq_run) (simp add: e4_inode_stmts_def)
  define d1 where "d1 = put_at 0x28 iblock (apply_writes (pack_log ?F) (zeros 256))"
  have lf: "length (apply_writes (pack_log ?F) (zeros 256)) = 256"
    using st(1) pack_log_in_range[of 256 ?F] by (simp add: e4_inode_stmts_def)
  then have l1: "length d1 = 256" unfolding d1_def using ib by simp
  have rear: "pack_seq ?B d1 = Inr (apply_writes (pack_log ?B) d1)"
    using st(1) l1 by (intro pack_seq_run) (simp add: e4_inode_stmts_def)
  have d01: "apply_writes (pack_log ?B) d1 = d0"
    using ib unfolding d0_def d1_def e4_inode_stmts_def pack_log_def
    by (simp add: apply_writes_append fields_bytes_def)
  have ino: "ino < 2 ^ 32" using ok by (simp add: e4_args_ok_def)
  obtain d where seal: "e4_seal_inode uuid ino d0 = Inr d" and ld: "length d = 256"
    and keep: "\<And>o' m. o' + m \<le> 0x7C \<Longrightarrow> sub d o' m = sub d0 o' m"
    and ck: "inode_checksum d 256 ino uuid = Inr (csum_at d)"
    using e4_seal_inode_run[OF len0 ino, of uuid] by metis
  have sl: "slice_set 0x28 (0x28 + 60) (take 60 iblock) (apply_writes (pack_log ?F) (zeros 256)) = d1"
    using ib by (simp add: d1_def put_at_def)
  have run: "e4_inode_bytes now uuid ino mode i_size n iblock nlink flags uid gid = Inr d"
    unfolding e4_inode_bytes_def Let_def e4_INODE_SIZE_def front res_bind_simps sl rear d01
    by (rule seal)
  have fld: "sub d0 pos m = field_le (fs ! k)"
    if "(off, fs) \<in> set ?ps" "k < length fs" "pos = off + fields_size (take k fs)" "m = field_size (fs ! k)"
    for off fs k pos m
    unfolding d0_def using pack_seq_field[OF _ st(2) that] st(1) by simp
  have sz: "u32_at d 4 + 2 ^ 32 * u32_at d 0x6C = i_size"
  proof -
    have "sub d 4 4 = le_bytes 4 (i_size AND 0xFFFFFFFF)"
      using fld[of 0 "[U 2 mode, U 2 uid, U 4 (int (i_size AND 0xFFFFFFFF))]" 2 4 4] keep[of 4 4]
      by (simp add: e4_inode_stmts_def e4_inode_front_def Let_def)
    moreover have "sub d 0x6C 4 = le_bytes 4 (drop_bit 32 i_size AND 0xFFFFFFFF)"
      using fld[of 108 "[U 4 (int (drop_bit 32 i_size AND 0xFFFFFFFF))]" 0 108 4] keep[of 108 4]
      by (simp add: e4_inode_stmts_def e4_inode_back_def)
    moreover have "i_size div 2 ^ 32 < 2 ^ 32" using ok by (simp add: e4_args_ok_def less_mult_imp_div_less)
    then have "(i_size div 2 ^ 32) mod 2 ^ 32 = i_size div 2 ^ 32" by simp
    ultimately show ?thesis
      unfolding u32_at_def and_ones_32 drop_bit_eq_div by simp
  qed
  show thesis
  proof (rule that[OF run _ _ sz])
    show "sub d 0 2 = le_bytes 2 (nat mode)"
      using fld[of 0 "[U 2 mode, U 2 uid, U 4 (int (i_size AND 0xFFFFFFFF))]" 0 0 2] keep[of 0 2]
      by (simp add: e4_inode_stmts_def e4_inode_front_def Let_def)
    show "sub d 0x1A 2 = le_bytes 2 (nat nlink)"
      using fld[of 24 "[U 2 gid, U 2 nlink, U 4 (int (n * (BLOCK_SIZE div 512)))]" 1 26 2] keep[of 26 2]
      by (simp add: e4_inode_stmts_def e4_inode_front_def Let_def)
    show "sub d 0x28 60 = iblock"
      using fld[of 40 "[S 60 iblock]" 0 40 60] keep[of 40 60] ib
      by (simp add: e4_inode_stmts_def)
  qed (use ld ck in \<open>simp_all add: e4_INODE_SIZE_def\<close>)
qed

end
