(* ===== verification/Tree_Ext4.thy ===== *)
theory Tree_Ext4
  imports Tree_Ext23 Ext4_Inode
begin

text \<open>
  Files, directories and \<^verbatim>\<open>add_tree\<close> of \<^verbatim>\<open>make_ext4_img.py\<close>.  The reader on the image side
  first verifies the inode's checksum, as a file system with \<^verbatim>\<open>metadata_csum\<close> does, and maps
  blocks through the extent tree.
\<close>

definition e4_alloc_file_blocks :: "bytes \<Rightarrow> (ext4_state, nat list) py" where
  "e4_alloc_file_blocks data = py_times (num_blocks_of data) e4_alloc_block"

definition e4_write_file_data :: "bytes \<Rightarrow> nat list \<Rightarrow> (ext4_state, unit) py" where
  "e4_write_file_data data blocks = write_chunks data blocks"

text \<open>The statements of \<^verbatim>\<open>add_tree\<close> for a regular file and for a directory.\<close>

definition e4_put_file :: "int \<Rightarrow> bytes \<Rightarrow> nat \<Rightarrow> int \<Rightarrow> bytes \<Rightarrow> (ext4_state, unit) py" where
  "e4_put_file now fs_uuid ino mode data =
     py_bind (e4_alloc_file_blocks data) (\<lambda>blocks.
     py_seq (e4_write_file_data data blocks)
     (py_bind (make_extent_iblock blocks) (\<lambda>iblock.
      write_inode_ext4 now fs_uuid ino mode (length data) (length blocks) iblock 1 0 0 0)))"

definition e4_store_file :: "int \<Rightarrow> bytes \<Rightarrow> int \<Rightarrow> bytes \<Rightarrow> (ext4_state, nat) py" where
  "e4_store_file now fs_uuid mode data =
     py_bind e4_alloc_inode (\<lambda>ino. py_seq (e4_put_file now fs_uuid ino mode data) (py_ret ino))"

text \<open>Directories of any size, and those the script writes into one block by hand.\<close>

definition e4_put_dir ::
  "int \<Rightarrow> bytes \<Rightarrow> nat \<Rightarrow> int \<Rightarrow> dirent list \<Rightarrow> int \<Rightarrow> int \<Rightarrow> int \<Rightarrow> (ext4_state, unit) py" where
  "e4_put_dir now fs_uuid ino mode dir_entries_list nlink uid gid =
     py_bind (e4_write_dir_blocks dir_entries_list) (\<lambda>dir_blocks.
     let dir_size = length dir_blocks * BLOCK_SIZE in
     py_bind (make_extent_iblock dir_blocks) (\<lambda>iblock.
     write_inode_ext4 now fs_uuid ino mode dir_size (length dir_blocks) iblock nlink 0 uid gid))"

definition e4_make_directory ::
  "int \<Rightarrow> bytes \<Rightarrow> nat \<Rightarrow> dirent list \<Rightarrow> int \<Rightarrow> (ext4_state, unit) py" where
  "e4_make_directory now fs_uuid ino dir_entries_list nlink =
     e4_put_dir now fs_uuid ino 0x41ED dir_entries_list nlink 0 0"

definition e4_add_tree :: "int \<Rightarrow> bytes \<Rightarrow> host \<Rightarrow> nat \<Rightarrow> nat \<Rightarrow> (ext4_state, dirent list) py" where
  "e4_add_tree now fs_uuid =
     add_tree (e4_store_file now fs_uuid) e4_alloc_inode (e4_make_directory now fs_uuid)"

section \<open>Reading through an inode\<close>

definition x4_inode :: "bytes \<Rightarrow> nat \<Rightarrow> bytes" where
  "x4_inode im ino = sub im (inode_table_offset ino) e4_INODE_SIZE"

definition x4_verified :: "bytes \<Rightarrow> bytes \<Rightarrow> nat \<Rightarrow> bool" where
  "x4_verified fs_uuid im ino \<longleftrightarrow>
     inode_checksum (x4_inode im ino) e4_INODE_SIZE ino fs_uuid = Inr (csum_at (x4_inode im ino))"

definition x4_size :: "bytes \<Rightarrow> nat \<Rightarrow> nat" where
  "x4_size im ino = u32_at (x4_inode im ino) 4 + 2 ^ 32 * u32_at (x4_inode im ino) 0x6C"

definition x4_bmap :: "bytes \<Rightarrow> nat \<Rightarrow> nat \<Rightarrow> nat" where
  "x4_bmap im ino k = the (extent_lookup (tree_extents im (inode_table_offset ino + 0x28)) k)"

definition x4_file :: "bytes \<Rightarrow> bytes \<Rightarrow> nat \<Rightarrow> int \<times> bytes" where
  "x4_file fs_uuid im ino =
     (if x4_verified fs_uuid im ino
      then (int (u16_at (x4_inode im ino) 0),
            let sz = x4_size im ino in
            take sz (concat (map (\<lambda>k. block_at im (x4_bmap im ino k)) [0..<ceil_div sz BLOCK_SIZE])))
      else (- 1, []))"

definition x4_dir :: "bytes \<Rightarrow> bytes \<Rightarrow> nat \<Rightarrow> dirent list option" where
  "x4_dir fs_uuid im ino =
     (if x4_verified fs_uuid im ino
      then read_directory im (map (x4_bmap im ino) [0..<x4_size im ino div BLOCK_SIZE])
      else None)"

section \<open>Consecutive blocks\<close>

definition e4_leaf :: "nat \<Rightarrow> nat" where
  "e4_leaf n = (if n > MAX_EXTENTS_IN_INODE * MAX_EXTENT_LEN then 1 else 0)"

lemma leaf_span_consecutive: "leaf_span [nb..<nb + n] = e4_leaf n"
proof (cases "n = 0")
  case False
  then have "length (group_extents [nb..<nb + n]) = Suc ((n - 1) div MAX_EXTENT_LEN)"
    by (intro length_group_extents) simp
  moreover have "4 < Suc ((n - 1) div 32768) \<longleftrightarrow> 131072 < n" using False by linarith
  ultimately show ?thesis by (simp add: leaf_span_def needs_leaf_def e4_leaf_def layout)
qed (simp add: leaf_span_def needs_leaf_def e4_leaf_def)

lemma mappable_consecutive: "nb + n \<le> TOTAL_BLOCKS \<Longrightarrow> mappable [nb..<nb + n]"
proof (cases "n = 0")
  case False
  assume t: "nb + n \<le> TOTAL_BLOCKS"
  have "length (group_extents [nb..<nb + n]) = Suc ((n - 1) div MAX_EXTENT_LEN)"
    using False by (intro length_group_extents) simp
  moreover have "Suc ((n - 1) div 32768) \<le> 340" using t by (simp add: layout)
  ultimately show ?thesis using t by (auto simp: mappable_def list_all_iff layout)
qed (simp add: mappable_def)

text \<open>The blocks of an inode whose extent tree was built for consecutive blocks.\<close>

lemma x4_bmap_stored:
  assumes "nb + n + e4_leaf n \<le> TOTAL_BLOCKS"
    and ino: "sub (x4_inode im ino) 0x28 60 = iblock_bytes [nb..<nb + n] (nb + n)"
    and leaf: "needs_leaf [nb..<nb + n] \<Longrightarrow>
      block_at im (nb + n) = node_bytes BLOCK_SIZE 340 (group_extents [nb..<nb + n])"
    and k: "k < n"
  shows "x4_bmap im ino k = nb + k"
proof -
  let ?bs = "[nb..<nb + n]"
  have m: "mappable ?bs" using assms(1) by (intro mappable_consecutive) simp
  have s: "sub im (inode_table_offset ino + 0x28) 60 = iblock_bytes ?bs (nb + n)"
    using ino sub_sub[of "0x28" 60 e4_INODE_SIZE im "inode_table_offset ino"]
    by (simp add: x4_inode_def e4_INODE_SIZE_def)
  have "tree_extents im (inode_table_offset ino + 0x28) = group_extents ?bs"
  proof (cases "e4_leaf n = 0")
    case True
    then have nl: "\<not> needs_leaf ?bs"
      using leaf_span_consecutive[of nb n] by (simp add: leaf_span_def split: if_splits)
    then have "iblock_bytes ?bs (nb + n) = iblock_bytes ?bs 0" by (simp add: iblock_bytes_def)
    with nl s show ?thesis by (intro tree_extents_stored[OF m, of 0]) (simp_all add: layout)
  next
    case False
    then have "nb + n < TOTAL_BLOCKS" using assms(1) by linarith
    then show ?thesis using leaf by (intro tree_extents_stored[OF m _ s])
  qed
  moreover have "extent_lookup (group_extents ?bs) (0 + k) = Some (?bs ! k)"
    using extent_lookup_chain[OF group_extents_chain, of k ?bs] k by (simp add: group_extents_blocks)
  ultimately show ?thesis using k by (simp add: x4_bmap_def)
qed

section \<open>An object: content, extent leaf and inode\<close>

lemma table_offset_apart:
  assumes "1 \<le> i" "1 \<le> j" "i \<noteq> j"
  shows "inode_table_offset i + e4_INODE_SIZE \<le> inode_table_offset j \<or>
    inode_table_offset j + e4_INODE_SIZE \<le> inode_table_offset i"
  using assms by (simp add: inode_table_offset_eq layout) linarith

lemma leaf_log_blocks:
  assumes tot: "nb + n \<le> TOTAL_BLOCKS" and bc: "(b, c) \<in> set (leaf_log [nb..<nb + n] (nb + n))"
  shows "b = nb + n \<and> e4_leaf n = 1 \<and> length c = BLOCK_SIZE \<and> needs_leaf [nb..<nb + n]"
proof -
  from bc have nl: "needs_leaf [nb..<nb + n]" "b = nb + n"
    "c = node_bytes BLOCK_SIZE 340 (group_extents [nb..<nb + n])"
    by (auto simp: leaf_log_def split: if_splits)
  moreover have "length (group_extents [nb..<nb + n]) \<le> 340"
    using mappable_consecutive[OF tot] by (simp add: mappable_def)
  then have "12 + 12 * length (group_extents [nb..<nb + n]) \<le> BLOCK_SIZE" by (simp add: layout)
  ultimately show ?thesis
    using leaf_span_consecutive[of nb n] by (simp add: leaf_span_def length_node_bytes)
qed

text \<open>
  The writes that put an object with content blocks from \<open>nb\<close> on, \<open>n\<close> of them, and the
  inode bytes \<open>d\<close> into an image.
\<close>

definition x4_object :: "bytes \<Rightarrow> nat \<Rightarrow> nat \<Rightarrow> nat \<Rightarrow> (nat \<times> bytes) list \<Rightarrow> bytes \<Rightarrow> bool" where
  "x4_object im nb n ino content d \<longleftrightarrow>
     length im = TOTAL_BLOCKS * BLOCK_SIZE \<and> METADATA_END \<le> nb \<and> nb + n + e4_leaf n \<le> TOTAL_BLOCKS \<and>
     1 \<le> ino \<and> ino \<le> TOTAL_INODES \<and> distinct (map fst content) \<and>
     (\<forall>(b, c) \<in> set content. nb \<le> b \<and> b < nb + n \<and> length c \<le> BLOCK_SIZE) \<and>
     length d = e4_INODE_SIZE \<and> sub d 0x28 60 = iblock_bytes [nb..<nb + n] (nb + n)"

definition x4_blocks :: "nat \<Rightarrow> nat \<Rightarrow> (nat \<times> bytes) list \<Rightarrow> (nat \<times> bytes) list" where
  "x4_blocks nb n content = content @ leaf_log [nb..<nb + n] (nb + n)"

definition x4_log :: "nat \<Rightarrow> nat \<Rightarrow> nat \<Rightarrow> (nat \<times> bytes) list \<Rightarrow> bytes \<Rightarrow> wlog" where
  "x4_log nb n ino content d = block_log (x4_blocks nb n content) @ [(inode_table_offset ino, d)]"

lemma x4_objectD:
  assumes "x4_object im nb n ino content d"
  shows "length im = TOTAL_BLOCKS * BLOCK_SIZE" "METADATA_END \<le> nb" "nb + n + e4_leaf n \<le> TOTAL_BLOCKS"
    and "1 \<le> ino" "ino \<le> TOTAL_INODES" "nb + n \<le> TOTAL_BLOCKS" "length d = e4_INODE_SIZE"
    and "sub d 0x28 60 = iblock_bytes [nb..<nb + n] (nb + n)"
    and "inode_table_offset ino + e4_INODE_SIZE \<le> nb * BLOCK_SIZE"
proof -
  show "length im = TOTAL_BLOCKS * BLOCK_SIZE" "METADATA_END \<le> nb" "nb + n + e4_leaf n \<le> TOTAL_BLOCKS"
    "1 \<le> ino" "ino \<le> TOTAL_INODES" "nb + n \<le> TOTAL_BLOCKS" "length d = e4_INODE_SIZE"
    "sub d 0x28 60 = iblock_bytes [nb..<nb + n] (nb + n)"
    using assms by (auto simp: x4_object_def)
  then have "inode_table_offset ino + e4_INODE_SIZE \<le> METADATA_END * BLOCK_SIZE"
    by (intro inode_table_offset_bound)
  also have "\<dots> \<le> nb * BLOCK_SIZE" using \<open>METADATA_END \<le> nb\<close> by (rule mult_le_mono1)
  finally show "inode_table_offset ino + e4_INODE_SIZE \<le> nb * BLOCK_SIZE" .
qed

lemma x4_blocks_bounds:
  assumes ob: "x4_object im nb n ino content d" and bc: "(b, c) \<in> set (x4_blocks nb n content)"
  shows "nb \<le> b \<and> b < nb + n + e4_leaf n \<and> length c \<le> BLOCK_SIZE"
proof -
  from bc consider "(b, c) \<in> set content" | "(b, c) \<in> set (leaf_log [nb..<nb + n] (nb + n))"
    by (auto simp: x4_blocks_def)
  then show ?thesis
  proof cases
    case 1
    then show ?thesis using ob by (fastforce simp: x4_object_def)
  next
    case 2
    from leaf_log_blocks[OF x4_objectD(6)[OF ob] 2] show ?thesis by simp
  qed
qed

lemma x4_log_writes:
  assumes ob: "x4_object im nb n ino content d"
  shows "sorted_wrt apart (x4_log nb n ino content d)"
    and "list_all (in_range (length im)) (x4_log nb n ino content d)"
proof -
  let ?bds = "x4_blocks nb n content" and ?io = "inode_table_offset ino"
  note D = x4_objectD[OF ob] and bb = x4_blocks_bounds[OF ob]
  have "nb + n \<notin> fst ` set content" using ob by (fastforce simp: x4_object_def)
  then have "distinct (map fst ?bds)" using ob by (simp add: x4_blocks_def leaf_log_def x4_object_def)
  then have "sorted_wrt apart (block_log ?bds)" using bb by (intro block_log_apart) blast+
  moreover have "apart v (?io, d)" if v: "v \<in> set (block_log ?bds)" for v
  proof -
    obtain b c where bc: "(b, c) \<in> set ?bds" "v = (b * BLOCK_SIZE, c)" using v by (auto simp: block_log_def)
    have "nb * BLOCK_SIZE \<le> b * BLOCK_SIZE" using bb[OF bc(1)] by (intro mult_le_mono1) simp
    with D(9) have "?io + e4_INODE_SIZE \<le> b * BLOCK_SIZE" by (rule order.trans)
    then show ?thesis using D(7) bc(2) by (simp add: apart_def)
  qed
  ultimately show "sorted_wrt apart (x4_log nb n ino content d)" by (simp add: x4_log_def sorted_wrt_append)
  have "list_all (in_range (length im)) (block_log ?bds)"
  proof (rule block_log_in_range)
    show "b < nb + n + e4_leaf n \<and> length c \<le> BLOCK_SIZE" if "(b, c) \<in> set ?bds" for b c
      using bb[OF that] by simp
    show "(nb + n + e4_leaf n) * BLOCK_SIZE \<le> length im" unfolding D(1) using D(3) by (rule mult_le_mono1)
  qed
  moreover have "nb * BLOCK_SIZE \<le> length im" unfolding D(1) using D(6) by (intro mult_le_mono1) simp
  with D(9) have "?io + e4_INODE_SIZE \<le> length im" by (rule order.trans)
  ultimately show "list_all (in_range (length im)) (x4_log nb n ino content d)"
    using D(7) by (simp add: x4_log_def in_range_def)
qed

lemma x4_log_agrees:
  assumes ob: "x4_object im nb n ino content d"
  shows "agrees METADATA_END inode_table_offset e4_INODE_SIZE im
    (apply_writes (x4_log nb n ino content d) im) nb ({1..TOTAL_INODES} - {ino})"
proof (rule apply_writes_agrees[OF x4_log_writes(2)[OF ob], of _ _ _ _ "{ino}"])
  note D = x4_objectD[OF ob]
  fix v assume v: "v \<in> set (x4_log nb n ino content d)"
  have "inode_table_offset ino + e4_INODE_SIZE \<le> METADATA_END * BLOCK_SIZE"
    using D(4,5) by (rule inode_table_offset_bound)
  then show "nb * BLOCK_SIZE \<le> fst v \<or> (\<exists>j. fst v = inode_table_offset j \<and> length (snd v) = e4_INODE_SIZE \<and>
      inode_table_offset j + e4_INODE_SIZE \<le> METADATA_END * BLOCK_SIZE \<and> j \<in> {ino})"
    using v x4_blocks_bounds[OF ob] D(7) by (auto simp: x4_log_def block_log_def)
next
  note D = x4_objectD[OF ob]
  have lo: "METADATA_END * BLOCK_SIZE \<le> nb * BLOCK_SIZE" using D(2) by (rule mult_le_mono1)
  show "inode_table_offset i + e4_INODE_SIZE \<le> nb * BLOCK_SIZE" if "i \<in> {1..TOTAL_INODES} - {ino}" for i
    using that by (intro order.trans[OF inode_table_offset_bound lo]) auto
  show "inode_table_offset i + e4_INODE_SIZE \<le> inode_table_offset j \<or>
      inode_table_offset j + e4_INODE_SIZE \<le> inode_table_offset i"
    if "i \<in> {1..TOTAL_INODES} - {ino}" "j \<in> {ino}" for i j
    using that D(4) table_offset_apart[of i j] by auto
qed

text \<open>What any later image that agrees on the object shows of it.\<close>

lemma x4_view:
  assumes ob: "x4_object im0 nb n ino content d"
    and a: "agrees METADATA_END inode_table_offset e4_INODE_SIZE
      (apply_writes (x4_log nb n ino content d) im0) im (nb + n + e4_leaf n) {ino}"
  shows "x4_inode im ino = d"
    and "(b, c) \<in> set content \<Longrightarrow> sub im (b * BLOCK_SIZE) (length c) = c"
    and "k < n \<Longrightarrow> x4_bmap im ino k = nb + k"
proof -
  let ?F = "apply_writes (x4_log nb n ino content d) im0"
  note D = x4_objectD[OF ob] and W = x4_log_writes[OF ob]
  have "sub im (inode_table_offset ino) e4_INODE_SIZE = sub ?F (inode_table_offset ino) e4_INODE_SIZE"
    using a by (simp add: agrees_def)
  also have "\<dots> = d" unfolding D(7)[symmetric]
    by (rule sub_apply_writes_in[OF W(2,1)]) (simp add: x4_log_def)
  finally show vi: "x4_inode im ino = d" by (simp add: x4_inode_def)
  have vb: "sub im (b * BLOCK_SIZE) (length c) = c" if bc: "(b, c) \<in> set (x4_blocks nb n content)" for b c
  proof -
    note bb = x4_blocks_bounds[OF ob bc]
    have "sub im (b * BLOCK_SIZE) (length c) = sub ?F (b * BLOCK_SIZE) (length c)"
    proof (rule same_range_sub[OF agrees_blocks[OF a D(2) order.refl]])
      show "nb * BLOCK_SIZE \<le> b * BLOCK_SIZE" using bb by (intro mult_le_mono1) simp
      show "b * BLOCK_SIZE + length c \<le> (nb + n + e4_leaf n) * BLOCK_SIZE"
        using mult_le_mono1[of "Suc b" "nb + n + e4_leaf n" BLOCK_SIZE] bb by simp
    qed
    also have "\<dots> = c"
      using bc by (intro sub_apply_writes_in[OF W(2,1)]) (auto simp: x4_log_def block_log_def)
    finally show ?thesis .
  qed
  show "(b, c) \<in> set content \<Longrightarrow> sub im (b * BLOCK_SIZE) (length c) = c"
    using vb[of b c] by (simp add: x4_blocks_def)
  show "x4_bmap im ino k = nb + k" if "k < n"
  proof (rule x4_bmap_stored[OF D(3) _ _ that])
    show "sub (x4_inode im ino) 0x28 60 = iblock_bytes [nb..<nb + n] (nb + n)" by (simp add: vi D(8))
    assume "needs_leaf [nb..<nb + n]"
    then have l: "(nb + n, node_bytes BLOCK_SIZE 340 (group_extents [nb..<nb + n])) \<in>
        set (leaf_log [nb..<nb + n] (nb + n))" by (simp add: leaf_log_def)
    with leaf_log_blocks[OF D(6) l] vb[of "nb + n" "node_bytes BLOCK_SIZE 340 (group_extents [nb..<nb + n])"]
    show "block_at im (nb + n) = node_bytes BLOCK_SIZE 340 (group_extents [nb..<nb + n])"
      by (simp add: x4_blocks_def block_at_def)
  qed
qed

section \<open>The laws of a tree target\<close>

definition e4_tree_ready :: "int \<Rightarrow> ext4_state \<Rightarrow> bool" where
  "e4_tree_ready now s \<longleftrightarrow> clock_ok now \<and> full_image s \<and> METADATA_END \<le> next_block s \<and> 1 \<le> next_inode s \<and>
     allocated_blocks s = {0..<next_block s}"

definition e4_span :: "bytes \<Rightarrow> nat" where
  "e4_span data = num_blocks_of data + e4_leaf (num_blocks_of data)"

text \<open>Directories here never need an extent leaf: they are far below four full runs.\<close>

definition e4_dir_names_ok :: "string list \<Rightarrow> bool" where
  "e4_dir_names_ok ns \<longleftrightarrow> names_fit (\<lambda>g. g = 0 \<or> 12 \<le> g) ns \<and> names_span ns \<le> 131072"

lemma e4_alloc_inode_run:
  "next_inode s \<le> TOTAL_INODES \<Longrightarrow> e4_alloc_inode s = Inr (next_inode s, next_inode_update (\<lambda>n. n + 1) s)"
  by (simp add: e4_alloc_inode_def py_bind_def py_seq_def)

text \<open>The extent tree and the inode of an object whose blocks were just allocated.\<close>

lemma e4_inode_run:
  assumes ok: "e4_args_ok now ino mode sz n nlink 0 uid gid" and nb: "next_block s = nb + n"
    and room: "nb + n + e4_leaf n \<le> TOTAL_BLOCKS"
  obtains d where
    "py_bind (make_extent_iblock [nb..<nb + n]) (\<lambda>ib. write_inode_ext4 now uuid ino mode sz n ib nlink 0 uid gid) s =
      Inr ((), img_update (apply_writes (block_log (leaf_log [nb..<nb + n] (nb + n)) @ [(inode_table_offset ino, d)]))
        (e4_bump (e4_leaf n) s))"
    and "length d = e4_INODE_SIZE" "sub d 0 2 = le_bytes 2 (nat mode)" "u32_at d 4 + 2 ^ 32 * u32_at d 0x6C = sz"
    and "sub d 0x28 60 = iblock_bytes [nb..<nb + n] (nb + n)"
    and "inode_checksum d e4_INODE_SIZE ino uuid = Inr (csum_at d)"
proof -
  let ?bs = "[nb..<nb + n]"
  have m: "mappable ?bs" using room by (intro mappable_consecutive) simp
  have ib: "make_extent_iblock ?bs s = Inr (iblock_bytes ?bs (nb + n),
      img_update (apply_writes (block_log (leaf_log ?bs (nb + n)))) (e4_bump (e4_leaf n) s))"
    using make_extent_iblock_run[OF m, of s] room nb by (simp add: leaf_span_consecutive)
  obtain d where d: "e4_inode_bytes now uuid ino mode sz n (iblock_bytes ?bs (nb + n)) nlink 0 uid gid = Inr d"
    and p: "length d = e4_INODE_SIZE" "sub d 0 2 = le_bytes 2 (nat mode)" "u32_at d 4 + 2 ^ 32 * u32_at d 0x6C = sz"
    "sub d 0x28 60 = iblock_bytes ?bs (nb + n)" "inode_checksum d e4_INODE_SIZE ino uuid = Inr (csum_at d)"
    by (rule e4_inode_bytes_run[OF ok length_iblock_bytes])
  have "py_bind (make_extent_iblock ?bs) (\<lambda>ib. write_inode_ext4 now uuid ino mode sz n ib nlink 0 uid gid) s =
      Inr ((), img_update (apply_writes (block_log (leaf_log ?bs (nb + n)) @ [(inode_table_offset ino, d)]))
        (e4_bump (e4_leaf n) s))"
    by (simp add: py_bind_run ib write_inode_ext4_def d apply_writes_comp comp_def put_at_def p(1))
  from that[OF this p] show thesis .
qed

lemma e4_put_file_law:
  assumes s: "e4_tree_ready now s" and ino: "1 \<le> ino" "ino \<le> TOTAL_INODES" and room: "next_block s + e4_span data \<le> TOTAL_BLOCKS"
    and mode: "0 \<le> mode" "mode < 2 ^ 16" and data: "length data < 2 ^ 32"
  shows "\<exists>t. e4_put_file now uuid ino mode data s = Inr ((), t) \<and> e4_tree_ready now t \<and>
    next_block t = next_block s + e4_span data \<and> next_inode t = next_inode s \<and>
    agrees METADATA_END inode_table_offset e4_INODE_SIZE (img s) (img t) (next_block s) ({1..TOTAL_INODES} - {ino}) \<and>
    (\<forall>im. agrees METADATA_END inode_table_offset e4_INODE_SIZE (img t) im (next_block t) {ino} \<longrightarrow>
       x4_file uuid im ino = (mode, data))"
proof -
  let ?nb = "next_block s" and ?n = "num_blocks_of data" 
  let ?bs = "[?nb..<?nb + ?n]"
  let ?c = "chunk_log data ?bs"
  have rm: "?nb + ?n + e4_leaf ?n \<le> TOTAL_BLOCKS" using room by (simp add: e4_span_def add.assoc)
  have im: "full_image s" "METADATA_END \<le> ?nb" "clock_ok now" "1 \<le> next_inode s" "allocated_blocks s = {0..<?nb}" using s by (simp_all add: e4_tree_ready_def)
  have ok: "e4_args_ok now ino mode (length data) ?n 1 0 0 0"
    using im(3) ino mode data rm by (simp add: e4_args_ok_def clock_ok_def layout)
  let ?s2 = "e4_bump ?n s"
  let ?s3 = "img_update (apply_writes (block_log ?c)) ?s2"
  have al: "e4_alloc_file_blocks data s = Inr (?bs, ?s2)"
    unfolding e4_alloc_file_blocks_def using rm e4.times_alloc[of s ?n] by simp
  have wr: "e4_write_file_data data ?bs ?s2 = Inr ((), ?s3)"
    unfolding e4_write_file_data_def by (simp add: write_chunks_run)
  have nb3: "next_block ?s3 = ?nb + ?n" by (simp add: e4_bump_def)
  obtain d where run: "py_bind (make_extent_iblock ?bs)
      (\<lambda>ib. write_inode_ext4 now uuid ino mode (length data) ?n ib 1 0 0 0) ?s3 =
      Inr ((), img_update (apply_writes (block_log (leaf_log ?bs (?nb + ?n)) @ [(inode_table_offset ino, d)]))
        (e4_bump (e4_leaf ?n) ?s3))"
    and d: "length d = e4_INODE_SIZE" "sub d 0 2 = le_bytes 2 (nat mode)"
    "u32_at d 4 + 2 ^ 32 * u32_at d 0x6C = length data" "sub d 0x28 60 = iblock_bytes ?bs (?nb + ?n)"
    "inode_checksum d e4_INODE_SIZE ino uuid = Inr (csum_at d)"
    by (rule e4_inode_run[OF ok nb3 rm, of uuid])
  let ?F = "apply_writes (x4_log ?nb ?n ino ?c d)"
  let ?t = "img_update ?F (e4_bump (?n + e4_leaf ?n) s)"
  have st: "e4_put_file now uuid ino mode data s = Inr ((), ?t)"
  proof -
    have "img_update (apply_writes (block_log (leaf_log ?bs (?nb + ?n)) @ [(inode_table_offset ino, d)]))
        (e4_bump (e4_leaf ?n) ?s3) = ?t"
      by (simp add: x4_log_def x4_blocks_def block_log_append apply_writes_comp comp_def e4_bump_def Un_assoc
          ivl_disj_un_two(3) add.assoc)
    then show ?thesis unfolding e4_put_file_def using al wr run by (simp add: py_bind_run py_seq_run)
  qed
  have ob: "x4_object (img s) ?nb ?n ino ?c d"
    using im ino rm d by (auto simp: x4_object_def full_image_def chunk_log_def length_sub comp_def distinct_map inj_on_def)
  have rd: "x4_file uuid im ino = (mode, data)"
    if a: "agrees METADATA_END inode_table_offset e4_INODE_SIZE (?F (img s)) im (?nb + ?n + e4_leaf ?n) {ino}" for im
  proof -
    note v = x4_view[OF ob a]
    have sz: "x4_size im ino = length data" unfolding x4_size_def v(1) by (rule d(3))
    have n: "ceil_div (length data) BLOCK_SIZE = ?n" by (simp add: num_blocks_of_def)
    have mp: "concat (map (\<lambda>k. block_at im (x4_bmap im ino k)) [0..<?n]) = concat (map (\<lambda>k. block_at im (?nb + k)) [0..<?n])"
      using v(3) by (intro arg_cong[of _ _ concat]) simp
    have "take (length data) (concat (map (\<lambda>k. block_at im (?nb + k)) [0..<?n])) = data"
      by (rule read_chunks, rule v(2)) (auto simp: chunk_log_def)
    moreover have "int (u16_at d 0) = mode" using d(2) mode by (simp add: u16_at_def nat_less_iff)
    ultimately show ?thesis by (simp add: x4_file_def x4_verified_def v(1) d(5) sz n Let_def mp)
  qed
  show ?thesis
    unfolding st using x4_log_agrees[OF ob] rd im agrees_length[OF x4_log_agrees[OF ob]]
    by (intro exI[of _ ?t]) (simp add: e4_tree_ready_def full_image_def e4_bump_def e4_span_def add.assoc ivl_disj_un_two(3))
qed

lemma e4_store_law:
  assumes s: "e4_tree_ready now s" "next_inode s \<le> TOTAL_INODES" and room: "next_block s + e4_span data \<le> TOTAL_BLOCKS"
    and mode: "0 \<le> mode" "mode < 2 ^ 16" and data: "length data < 2 ^ 32"
  shows "\<exists>t. e4_store_file now uuid mode data s = Inr (next_inode s, t) \<and> e4_tree_ready now t \<and>
    next_block t = next_block s + e4_span data \<and> next_inode t = next_inode s + 1 \<and>
    agrees METADATA_END inode_table_offset e4_INODE_SIZE (img s) (img t) (next_block s) ({1..TOTAL_INODES} - {next_inode s}) \<and>
    (\<forall>im. agrees METADATA_END inode_table_offset e4_INODE_SIZE (img t) im (next_block t) {next_inode s} \<longrightarrow>
       x4_file uuid im (next_inode s) = (mode, data))"
proof -
  let ?s = "next_inode_update (\<lambda>n. n + 1) s" and ?i = "next_inode s"
  have r: "e4_tree_ready now ?s" "1 \<le> ?i" using s(1) by (simp_all add: e4_tree_ready_def full_image_def)
  obtain t where "e4_put_file now uuid ?i mode data ?s = Inr ((), t)" "e4_tree_ready now t"
    "next_block t = next_block s + e4_span data" "next_inode t = next_inode s + 1"
    "agrees METADATA_END inode_table_offset e4_INODE_SIZE (img s) (img t) (next_block s) ({1..TOTAL_INODES} - {?i})"
    "\<forall>im. agrees METADATA_END inode_table_offset e4_INODE_SIZE (img t) im (next_block t) {?i} \<longrightarrow>
       x4_file uuid im ?i = (mode, data)"
    using e4_put_file_law[OF r s(2), of data mode uuid] room mode data by auto
  then show ?thesis
    using e4_alloc_inode_run[OF s(2)] by (intro exI[of _ t]) (simp add: e4_store_file_def py_bind_run py_seq_run)
qed

lemma e4_put_dir_law:
  assumes s: "e4_tree_ready now s" and ino: "1 \<le> ino" "ino \<le> TOTAL_INODES" and es: "entries_ok es"
    and nm: "e4_dir_names_ok (entry_names es)" and room: "next_block s + names_span (entry_names es) \<le> TOTAL_BLOCKS"
    and nlink: "0 \<le> nlink" "nlink < 2 ^ 16" and mode: "0 \<le> mode" "mode < 2 ^ 16"
    and own: "0 \<le> uid" "uid < 2 ^ 16" "0 \<le> gid" "gid < 2 ^ 16"
  shows "\<exists>t. e4_put_dir now uuid ino mode es nlink uid gid s = Inr ((), t) \<and> e4_tree_ready now t \<and>
    next_block t = next_block s + names_span (entry_names es) \<and> next_inode t = next_inode s \<and>
    agrees METADATA_END inode_table_offset e4_INODE_SIZE (img s) (img t) (next_block s) ({1..TOTAL_INODES} - {ino}) \<and>
    (\<forall>im. agrees METADATA_END inode_table_offset e4_INODE_SIZE (img t) im (next_block t) {ino} \<longrightarrow>
       x4_dir uuid im ino = Some es)"
proof -
  let ?nb = "next_block s" and ?n = "dir_span es" and ?cs = "dir_chains e3_pad_chain [] es"
  let ?bs = "[?nb..<?nb + ?n]"
  have im: "full_image s" "METADATA_END \<le> ?nb" "1 \<le> next_inode s" "clock_ok now" "allocated_blocks s = {0..<?nb}" using s by (simp_all add: e4_tree_ready_def)
  have rm: "?nb + ?n \<le> TOTAL_BLOCKS" and nl: "e4_leaf ?n = 0"
    using room nm by (simp_all add: names_span_entries e4_dir_names_ok_def e4_leaf_def layout)
  have lf: "last_fits es" and gp: "list_all (\<lambda>g. g = 0 \<or> 12 \<le> g) (dir_gaps 0 es)"
    using nm by (simp_all add: e4_dir_names_ok_def names_fit_entries)
  note dr = e4_dir.directory_run[OF es lf gp im(1) rm]
  have ok: "e4_args_ok now ino mode (?n * BLOCK_SIZE) ?n nlink 0 uid gid"
    using im(4) ino nlink mode own rm by (simp add: e4_args_ok_def clock_ok_def layout)
  let ?s2 = "img_update (apply_writes (block_log (dir_log ?nb ?cs))) (e4_bump ?n s)"
  have nb2: "next_block ?s2 = ?nb + ?n" by (simp add: e4_bump_def)
  have rm2: "?nb + ?n + e4_leaf ?n \<le> TOTAL_BLOCKS" using rm nl by simp
  obtain d where run: "py_bind (make_extent_iblock ?bs)
      (\<lambda>ib. write_inode_ext4 now uuid ino mode (?n * BLOCK_SIZE) ?n ib nlink 0 uid gid) ?s2 =
      Inr ((), img_update (apply_writes (block_log (leaf_log ?bs (?nb + ?n)) @ [(inode_table_offset ino, d)]))
        (e4_bump (e4_leaf ?n) ?s2))"
    and d: "length d = e4_INODE_SIZE" "sub d 0 2 = le_bytes 2 (nat mode)"
    "u32_at d 4 + 2 ^ 32 * u32_at d 0x6C = ?n * BLOCK_SIZE" "sub d 0x28 60 = iblock_bytes ?bs (?nb + ?n)"
    "inode_checksum d e4_INODE_SIZE ino uuid = Inr (csum_at d)"
    by (rule e4_inode_run[OF ok nb2 rm2, of uuid])
  let ?c = "dir_log ?nb ?cs"
  let ?F = "apply_writes (x4_log ?nb ?n ino ?c d)"
  let ?t = "img_update ?F (e4_bump ?n s)"
  have "img_update (apply_writes (block_log (leaf_log ?bs (?nb + ?n)) @ [(inode_table_offset ino, d)]))
        (e4_bump (e4_leaf ?n) ?s2) = ?t"
    by (simp add: nl x4_log_def x4_blocks_def block_log_append apply_writes_comp comp_def e4_bump_def)
  then have st: "e4_put_dir now uuid ino mode es nlink uid gid s = Inr ((), ?t)"
    unfolding e4_put_dir_def e4_write_dir_blocks_def
    using run by (simp add: py_bind_run dr(1) Let_def)
  have cov: "length (chain_bytes c) = BLOCK_SIZE" if "c \<in> set ?cs" for c using dr(2) that by (simp add: list_all_iff)
  have ob: "x4_object (img s) ?nb ?n ino ?c d"
    using im ino rm2 d(1,4) cov dr(3) by (auto simp: x4_object_def full_image_def fst_dir_log dir_log_nth)
  have rd: "x4_dir uuid im ino = Some es"
    if a: "agrees METADATA_END inode_table_offset e4_INODE_SIZE (?F (img s)) im (?nb + ?n) {ino}" for im
  proof -
    have a': "agrees METADATA_END inode_table_offset e4_INODE_SIZE (?F (img s)) im (?nb + ?n + e4_leaf ?n) {ino}"
      using a nl by simp
    note v = x4_view[OF ob a']
    have "x4_size im ino = ?n * BLOCK_SIZE" unfolding x4_size_def v(1) by (rule d(3))
    then have n: "x4_size im ino div BLOCK_SIZE = ?n" by simp
    have bm: "map (x4_bmap im ino) [0..<?n] = ?bs" using v(3) by (intro nth_equalityI) simp_all
    have "read_blocks im [?nb..<?nb + length ?cs] = Some (concat (map (map fst) ?cs))"
    proof (rule read_blocks_chains)
      fix i assume i: "i < length ?cs"
      then have "(?nb + i, chain_bytes (?cs ! i)) \<in> set ?c" by (auto simp: dir_log_nth)
      from v(2)[OF this] show "block_at im (?nb + i) = chain_bytes (?cs ! i)"
        using cov[of "?cs ! i"] i by (simp add: block_at_def)
    qed (use dr(2) in \<open>simp add: list_all_iff\<close>)
    moreover have "es \<noteq> []" using lf by (simp add: last_fits_def)
    ultimately have "read_directory im ?bs = Some es"
      using e4_dir.chains_live[OF entries_dirent_ok[OF es], of "[]"] live_entries[OF es] dr(3)
      by (simp add: read_directory_def)
    then show ?thesis by (simp add: x4_dir_def x4_verified_def v(1) d(5) n bm)
  qed
  show ?thesis
    unfolding st using x4_log_agrees[OF ob] rd im agrees_length[OF x4_log_agrees[OF ob]]
    by (intro exI[of _ ?t]) (simp add: e4_tree_ready_def full_image_def e4_bump_def names_span_entries ivl_disj_un_two(3))
qed

lemma e4_mkdir_law:
  assumes "e4_tree_ready now s" and "1 \<le> ino" "ino \<le> TOTAL_INODES" and "entries_ok es"
    and "e4_dir_names_ok (entry_names es)" and "next_block s + names_span (entry_names es) \<le> TOTAL_BLOCKS"
    and "0 \<le> nlink" "nlink < 2 ^ 16"
  shows "\<exists>t. e4_make_directory now uuid ino es nlink s = Inr ((), t) \<and> e4_tree_ready now t \<and>
    next_block t = next_block s + names_span (entry_names es) \<and> next_inode t = next_inode s \<and>
    agrees METADATA_END inode_table_offset e4_INODE_SIZE (img s) (img t) (next_block s) ({1..TOTAL_INODES} - {ino}) \<and>
    (\<forall>im. agrees METADATA_END inode_table_offset e4_INODE_SIZE (img t) im (next_block t) {ino} \<longrightarrow>
       x4_dir uuid im ino = Some es)"
  unfolding e4_make_directory_def using assms by (intro e4_put_dir_law) simp_all

interpretation e4_tree: tree_target "e4_store_file now uuid" e4_alloc_inode "e4_make_directory now uuid"
  "e4_tree_ready now" next_block "\<lambda>_. TOTAL_BLOCKS" METADATA_END inode_table_offset e4_INODE_SIZE
  TOTAL_INODES e4_span names_span e4_dir_names_ok "x4_file uuid" "x4_dir uuid"
  for now uuid
proof (unfold_locales, goal_cases)
  case (1 s data mode)
  then show ?case using e4_store_law[of now s data mode uuid] by simp
next
  case (2 s ino es nlink)
  then show ?case using e4_mkdir_law[of now s ino es nlink uuid] by simp
next
  case (3 s)
  then show ?case using e4_alloc_inode_run[of s] by (simp add: e4_tree_ready_def full_image_def)
qed (auto simp: e4_tree_ready_def full_image_def TOTAL_INODES_def e4_INODES_PER_GROUP_def NUM_GROUPS_def
    TOTAL_BLOCKS_def e4_BLOCKS_PER_GROUP_def)

section \<open>What the script promises\<close>

text \<open>
  C15: storing a file with \<^verbatim>\<open>make_ext4_img.py\<close> succeeds when the image has room for its blocks and,
  above 131072 blocks, for its extent leaf; the inode written for it carries a checksum that
  verifies, and reading through the extent tree returns the mode and exactly the stored bytes.
\<close>

theorem e4_store_file_roundtrip:
  assumes "e4_tree_ready now s" and "next_inode s \<le> TOTAL_INODES" and "next_block s + e4_span data \<le> TOTAL_BLOCKS"
    and "0 \<le> mode" "mode < 2 ^ 16" "length data < 2 ^ 32"
  shows "\<exists>t. e4_store_file now fs_uuid mode data s = Inr (next_inode s, t) \<and> full_image t \<and>
    next_block t = next_block s + e4_span data \<and> x4_verified fs_uuid (img t) (next_inode s) \<and>
    x4_file fs_uuid (img t) (next_inode s) = (mode, data)"
proof -
  obtain t where t: "e4_store_file now fs_uuid mode data s = Inr (next_inode s, t)" "e4_tree_ready now t"
    "next_block t = next_block s + e4_span data"
    and rd: "\<And>im. agrees METADATA_END inode_table_offset e4_INODE_SIZE (img t) im (next_block t) {next_inode s} \<Longrightarrow>
       x4_file fs_uuid im (next_inode s) = (mode, data)"
    using e4_store_law[OF assms, of fs_uuid] by metis
  have f: "x4_file fs_uuid (img t) (next_inode s) = (mode, data)" by (rule rd) simp
  then have "x4_verified fs_uuid (img t) (next_inode s)"
    using assms(4) by (auto simp: x4_file_def split: if_splits)
  with t f show ?thesis by (intro exI[of _ t]) (simp add: e4_tree_ready_def)
qed

lemma e4_init_ready: "clock_ok now \<Longrightarrow> e4_tree_ready now e4_init"
  by (simp add: e4_tree_ready_def full_image_def e4_init_def e4_FIRST_DATA_BLOCK_def)

theorem e4_store_file_roundtrip_witness:
  "\<exists>t. e4_store_file 1700000000 (zeros 16) 0x81A4 [104, 105] e4_init = Inr (12, t) \<and>
     x4_file (zeros 16) (img t) 12 = (0x81A4, [104, 105])"
proof -
  have r: "e4_tree_ready 1700000000 e4_init" by (rule e4_init_ready) (simp add: clock_ok_def)
  have n: "e4_span [104, 105] = 1"
    by (simp add: e4_span_def e4_leaf_def num_blocks_of_def ceil_div_def layout)
  have i: "next_inode e4_init = 12" "next_inode e4_init \<le> TOTAL_INODES"
    "next_block e4_init + e4_span [104, 105] \<le> TOTAL_BLOCKS"
    unfolding n by (simp_all add: e4_init_def layout)
  show ?thesis
    using e4_store_file_roundtrip[OF r i(2,3), of "0x81A4" "zeros 16"] by (auto simp: i(1))
qed



text \<open>
  C17: \<^verbatim>\<open>make_extent_iblock\<close> groups any block list into runs of 1 to 32768 blocks whose logical
  positions follow one another and which, put end to end, are the block list again; looking up
  file block \<open>k\<close> gives the \<open>k\<close>-th block of the list.
\<close>

theorem extents_cover_blocks:
  "extent_blocks (group_extents blocks) = blocks \<and> extent_chain 0 (group_extents blocks) \<and>
   (\<forall>k < length blocks. extent_lookup (group_extents blocks) k = Some (blocks ! k))"
  using extent_lookup_chain[OF group_extents_chain, of _ blocks] group_extents_chain[of blocks]
  by (simp add: group_extents_blocks)

theorem extents_cover_blocks_witness:
  "extent_lookup (group_extents [7, 8, 20, 21, 22]) 3 = Some 21"
  using extents_cover_blocks[of "[7, 8, 20, 21, 22]"] by auto

end
