(* ===== verification/Small_Dirs.thy ===== *)
theory Small_Dirs
  imports Tree_Ext4
begin

text \<open>
  Directories that the scripts write into a single block by hand: entries one after the other,
  the last with a record length up to the end of the block.  They are the one-block case of
  \<^verbatim>\<open>write_dir_blocks\<close>, which is how the later theories reason about them.
\<close>

fun dir_block_bytes :: "bytes \<Rightarrow> dirent list \<Rightarrow> bytes result" where
  "dir_block_bytes acc [] = Inr acc"
| "dir_block_bytes acc [(ino, name, ft)] =
     res_bind (make_dir_entry ino name ft (Some (int BLOCK_SIZE - int (length acc)))) (\<lambda>e. Inr (acc @ e))"
| "dir_block_bytes acc ((ino, name, ft) # e # es) =
     res_bind (make_dir_entry ino name ft None) (\<lambda>b. dir_block_bytes (acc @ b) (e # es))"

lemma dir_block_bytes_chain:
  "\<lbrakk>dir_chains P c es = [c']; chain_ok c; clen c \<le> BLOCK_SIZE; list_all dirent_ok es; es \<noteq> []\<rbrakk> \<Longrightarrow>
   dir_block_bytes (chain_bytes c) es = Inr (chain_bytes c')"
proof (induction P c es rule: dir_chains.induct)
  case (2 P c e)
  obtain ino name ft where e: "e = (ino, name, ft)" by (cases e)
  have "int BLOCK_SIZE - int (clen c) = int (BLOCK_SIZE - clen c)" using "2.prems"(3) by simp
  moreover have "BLOCK_SIZE - clen c < 2 ^ 16" by (simp add: layout)
  ultimately show ?case
    using "2.prems" make_dir_entry_run(2)[of ino name ft "BLOCK_SIZE - clen c"] by (auto simp: e)
next
  case (3 P c e e' es)
  obtain ino name ft where e: "e = (ino, name, ft)" by (cases e)
  have ok: "dirent_ok e" using "3.prems"(4) by simp
  have fit: "\<not> clen c + ent_min e > BLOCK_SIZE"
    using "3.prems"(1) dir_chains_nonempty[of "e' # es" P "[(e, ent_min e)]"] by (auto split: if_splits)
  then have "dir_block_bytes (chain_bytes (c @ [(e, ent_min e)])) (e' # es) = Inr (chain_bytes c')"
    using "3.prems" chain_ok_min[OF ok] by (intro "3.IH"(2)) auto
  then show ?case using make_dir_entry_run(1)[OF ok[unfolded e]] by (simp add: e)
qed simp

lemma dir_block_bytes_run:
  assumes "entries_ok es" and "dir_span es = 1" and "es \<noteq> []"
  obtains c where "dir_chains P [] es = [c]" and "dir_block_bytes [] es = Inr (chain_bytes c)"
proof -
  have "length (dir_chains P [] es) = 1" using length_dir_chains[OF assms(3), of P "[]"] assms(2) by (simp add: dir_span_def)
  then obtain c where c: "dir_chains P [] es = [c]" by (auto simp: length_Suc_conv)
  have "dir_block_bytes (chain_bytes []) es = Inr (chain_bytes c)"
    using entries_dirent_ok[OF assms(1)] assms(3) by (intro dir_block_bytes_chain[OF c]) simp_all
  with c that show thesis by simp
qed

text \<open>Few entries with short names fit in one block.\<close>

lemma names_small:
  assumes "ns \<noteq> []" and "sum_list (map (\<lambda>n. min_rec_len (length n)) ns) \<le> BLOCK_SIZE"
  shows "names_span ns = 1" and "names_fit P ns"
proof -
  have "nameless ns \<noteq> []" "sum_list (map ent_min (nameless ns)) \<le> BLOCK_SIZE"
    using assms by (simp_all add: nameless_def ent_min_def comp_def)
  from small_directory[OF this] show "names_span ns = 1" "names_fit P ns"
    by (simp_all add: names_span_def names_fit_def)
qed

section \<open>make\_ext4\_img.py\<close>

definition e4_put_small_dir ::
  "int \<Rightarrow> bytes \<Rightarrow> nat \<Rightarrow> int \<Rightarrow> dirent list \<Rightarrow> int \<Rightarrow> int \<Rightarrow> int \<Rightarrow> (ext4_state, unit) py" where
  "e4_put_small_dir now fs_uuid ino mode entries nlink uid gid =
     py_bind e4_alloc_block (\<lambda>blk.
     py_bind (py_lift (dir_block_bytes [] entries)) (\<lambda>data.
     py_seq (write_block blk data)
     (py_bind (make_extent_iblock [blk]) (\<lambda>iblock.
      write_inode_ext4 now fs_uuid ino mode BLOCK_SIZE 1 iblock nlink 0 uid gid))))"

lemma e4_put_small_dir_eq:
  assumes es: "entries_ok es" and nm: "e4_dir_names_ok (entry_names es)" and one: "names_span (entry_names es) = 1"
    and im: "full_image s" and room: "next_block s < TOTAL_BLOCKS"
  shows "e4_put_small_dir now uuid ino mode es nlink uid gid s = e4_put_dir now uuid ino mode es nlink uid gid s"
proof -
  let ?nb = "next_block s"
  have sp: "dir_span es = 1" using one by (simp add: names_span_entries)
  have lf: "last_fits es" and gp: "list_all (\<lambda>g. g = 0 \<or> 12 \<le> g) (dir_gaps 0 es)"
    using nm by (simp_all add: e4_dir_names_ok_def names_fit_entries)
  have ne: "es \<noteq> []" using lf by (simp add: last_fits_def)
  obtain c where c: "dir_chains e3_pad_chain [] es = [c]" "dir_block_bytes [] es = Inr (chain_bytes c)"
    using dir_block_bytes_run[OF es sp ne] .
  have rm: "next_block s + dir_span es \<le> TOTAL_BLOCKS" using room sp by simp
  note dr = e4_dir.directory_run[OF es lf gp im rm, unfolded c(1) sp]
  let ?t = "img_update (put_at (?nb * BLOCK_SIZE) (chain_bytes c)) (e4_bump 1 s)"
  have "length (chain_bytes c) = BLOCK_SIZE" using dr(2) by simp
  then have "py_seq (write_block ?nb (chain_bytes c)) k (e4_bump 1 s) = k ?t" for k :: "(ext4_state, unit) py"
    by (simp add: py_seq_run write_block_run)
  moreover have "e4_write_dir_blocks es s = Inr ([?nb], ?t)"
    unfolding e4_write_dir_blocks_def using dr(1) by (simp add: dir_log_def block_log_def)
  ultimately show ?thesis
    using room c(2) by (simp add: e4_put_small_dir_def e4_put_dir_def py_bind_run Let_def e4.alloc_run)
qed

end
