(* ===== verification/Journals.thy ===== *)
theory Journals
  imports Small_Dirs
begin

text \<open>
  The JBD2 journals.  \<^verbatim>\<open>make_ext3_img.py\<close> and \<^verbatim>\<open>make_ext4_img.py\<close> take consecutive blocks, write
  the journal superblock into the first and map all of them through the (double-)indirect
  blocks of inode 8; \<^verbatim>\<open>make_ext2_img.py\<close> records the first block only.
\<close>

section \<open>Superblock of the journal\<close>

definition JBD2_MAGIC :: int where
  "JBD2_MAGIC = 0xC03B3998"

definition JBD2_SUPERBLOCK_V2 :: int where
  "JBD2_SUPERBLOCK_V2 = 4"

definition jsb_fields :: "nat \<Rightarrow> field list" where
  "jsb_fields journal_blocks =
     [U 4 JBD2_MAGIC, U 4 JBD2_SUPERBLOCK_V2, U 4 1, U 4 (int BLOCK_SIZE), U 4 (int journal_blocks), U 4 1,
      U 4 1, U 4 0, U 4 0]"

definition jsb_block :: "field list \<Rightarrow> bytes result" where
  "jsb_block fs = res_bind (pack_be fs) (\<lambda>d. Inr (slice_set 0 (length d) d (zeros BLOCK_SIZE)))"

text \<open>What a reader checks: magic, type, block size, length, first block.\<close>

definition be32_at :: "bytes \<Rightarrow> nat \<Rightarrow> nat" where
  "be32_at im off = be_val (sub im off 4)"

definition jsb_valid :: "bytes \<Rightarrow> nat \<Rightarrow> nat \<Rightarrow> bool" where
  "jsb_valid im b n \<longleftrightarrow>
     be32_at im (b * BLOCK_SIZE) = 0xC03B3998 \<and> be32_at im (b * BLOCK_SIZE + 4) = 4 \<and>
     be32_at im (b * BLOCK_SIZE + 12) = BLOCK_SIZE \<and> be32_at im (b * BLOCK_SIZE + 16) = n \<and>
     be32_at im (b * BLOCK_SIZE + 20) = 1"

definition be_fields :: "field list \<Rightarrow> bytes" where
  "be_fields fs = concat (map field_be fs)"

lemma length_be_fields [simp]: "length (be_fields fs) = fields_size fs"
  by (simp add: be_fields_def fields_size_def length_concat comp_def)

lemma be_fields_field:
  assumes "k < length fs" and "off = fields_size (take k fs)"
  shows "sub (be_fields fs) off (field_size (fs ! k)) = field_be (fs ! k)"
  using sub_concat_field[of k "map field_be fs" off] assms
  by (simp add: be_fields_def fields_size_def take_map comp_def)

lemma jsb_block_run:
  assumes "list_all field_ok fs" and "fields_size fs \<le> BLOCK_SIZE"
  shows "jsb_block fs = Inr (put_at 0 (be_fields fs) (zeros BLOCK_SIZE))"
    and "length (put_at 0 (be_fields fs) (zeros BLOCK_SIZE)) = BLOCK_SIZE"
  using assms by (simp_all add: jsb_block_def pack_be_def be_fields_def[symmetric] put_at_def slice_set_def)

lemma jsb_read:
  assumes "block_at im b = put_at 0 (be_fields fs) (zeros BLOCK_SIZE)" and "fields_size fs \<le> BLOCK_SIZE"
    and "k < length fs" and "fs ! k = U 4 v" and "off = fields_size (take k fs)" and "0 \<le> v" "v < 2 ^ 32"
  shows "be32_at im (b * BLOCK_SIZE + off) = nat v"
proof -
  have "off + 4 \<le> fields_size fs"
  proof -
    have "fields_size fs = fields_size (take k fs) + fields_size (drop k fs)"
      unfolding fields_size_def by (metis append_take_drop_id map_append sum_list_append)
    then show ?thesis using assms(3-5) by (simp flip: Cons_nth_drop_Suc)
  qed
  then have "sub im (b * BLOCK_SIZE + off) 4 = sub (put_at 0 (be_fields fs) (zeros BLOCK_SIZE)) off 4"
    using assms(1,2) sub_sub[of off 4 BLOCK_SIZE im "b * BLOCK_SIZE"] by (simp add: block_at_def)
  also have "\<dots> = sub (be_fields fs) off 4"
    using sub_put_at_inside[of 0 "be_fields fs" "zeros BLOCK_SIZE" off 4] assms(2) \<open>off + 4 \<le> _\<close> by simp
  also have "\<dots> = be_bytes 4 (nat v)" using be_fields_field[OF assms(3,5)] assms(4) by simp
  finally show ?thesis using assms(6,7) by (simp add: be32_at_def nat_less_iff)
qed

lemma jsb_valid_block:
  assumes "block_at im b = put_at 0 (be_fields (jsb_fields n)) (zeros BLOCK_SIZE)" and "n < 2 ^ 32"
  shows "jsb_valid im b n"
proof -
  have sz: "fields_size (jsb_fields n) \<le> BLOCK_SIZE" by (simp add: jsb_fields_def BLOCK_SIZE_def)
  note r = jsb_read[OF assms(1) sz]
  have "be32_at im (b * BLOCK_SIZE + 0) = nat JBD2_MAGIC" by (rule r[of 0]) (simp_all add: jsb_fields_def JBD2_MAGIC_def)
  moreover have "be32_at im (b * BLOCK_SIZE + 4) = nat JBD2_SUPERBLOCK_V2"
    by (rule r[of 1]) (simp_all add: jsb_fields_def JBD2_SUPERBLOCK_V2_def)
  moreover have "be32_at im (b * BLOCK_SIZE + 12) = nat (int BLOCK_SIZE)"
    by (rule r[of 3]) (simp_all add: jsb_fields_def BLOCK_SIZE_def)
  moreover have "be32_at im (b * BLOCK_SIZE + 16) = nat (int n)" by (rule r[of 4]) (use assms(2) in \<open>simp_all add: jsb_fields_def\<close>)
  moreover have "be32_at im (b * BLOCK_SIZE + 20) = nat 1" by (rule r[of 5]) (simp_all add: jsb_fields_def)
  ultimately show ?thesis by (simp add: jsb_valid_def JBD2_MAGIC_def JBD2_SUPERBLOCK_V2_def)
qed

section \<open>Consecutive blocks behind the pointers of an inode\<close>

text \<open>
  The pointer structure for the blocks \<open>start, start + 1, \<dots>\<close>: an indirect block \<open>ib\<close>, and beyond
  it a double-indirect block \<open>db\<close> with pointer blocks from \<open>sb\<close> on.
\<close>

definition run_mapped :: "bytes \<Rightarrow> nat \<Rightarrow> nat \<Rightarrow> nat \<Rightarrow> nat \<Rightarrow> nat \<Rightarrow> nat \<Rightarrow> bool" where
  "run_mapped im ioff start n ib db sb \<longleftrightarrow>
     (\<forall>i < min n 12. i_block_at im ioff i = start + i) \<and>
     (12 < n \<longrightarrow> i_block_at im ioff 12 = ib \<and>
        block_at im ib = ptrs_bytes (take ADDRS_PER_INDIRECT (drop 12 [start..<start + n]))) \<and>
     (12 + ADDRS_PER_INDIRECT < n \<longrightarrow> i_block_at im ioff 13 = db \<and>
        block_at im db = ptrs_bytes [sb..<sb + dind_groups n] \<and>
        (\<forall>g < dind_groups n. block_at im (sb + g) =
           ptrs_bytes (sub (drop (12 + ADDRS_PER_INDIRECT) [start..<start + n]) (g * ADDRS_PER_INDIRECT) ADDRS_PER_INDIRECT)))"

lemma pointer_at:
  assumes "block_at im b = ptrs_bytes blks" and "k < length blks" "length blks \<le> ADDRS_PER_INDIRECT" "blks ! k < 2 ^ 32"
  shows "u32_at im (b * BLOCK_SIZE + 4 * k) = blks ! k"
proof -
  have "4 * k + 4 \<le> BLOCK_SIZE" using assms(2,3) by (simp add: layout)
  then have "sub im (b * BLOCK_SIZE + 4 * k) 4 = sub (ptrs_bytes blks) (4 * k) 4"
    using assms(1) sub_sub[of "4 * k" 4 BLOCK_SIZE im "b * BLOCK_SIZE"] by (simp add: block_at_def)
  then show ?thesis using sub_ptrs_bytes[OF assms(2,3)] assms(4) by (simp add: u32_at_def)
qed

lemma run_mapped_bmap:
  assumes m: "run_mapped im ioff start n ib db sb" and k: "k < n" and small: "start + n < 2 ^ 32" "sb + dind_groups n < 2 ^ 32"
    and groups: "dind_groups n \<le> ADDRS_PER_INDIRECT"
  shows "bmap im ioff k = start + k"
proof -
  let ?A = ADDRS_PER_INDIRECT and ?bs = "[start..<start + n]"
  consider "k < 12" | "12 \<le> k" "k < 12 + ?A" | "12 + ?A \<le> k" by linarith
  then show ?thesis
  proof cases
    case 1
    then show ?thesis using m k by (simp add: run_mapped_def bmap_def)
  next
    case 2
    let ?l = "take ?A (drop 12 ?bs)"
    have "?l ! (k - 12) = start + k" "k - 12 < length ?l" using 2 k by auto
    moreover have "block_at im ib = ptrs_bytes ?l" "i_block_at im ioff 12 = ib" using m 2 k by (auto simp: run_mapped_def)
    ultimately show ?thesis
      using pointer_at[of im ib ?l "k - 12"] 2 k small by (simp add: bmap_def)
  next
    case 3
    define j where "j = k - (12 + ?A)"
    let ?g = "j div ?A"
    let ?l = "sub (drop (12 + ?A) ?bs) (?g * ?A) ?A"
    have j: "j < n - (12 + ?A)" using 3 k by (simp add: j_def)
    have "n - (12 + ?A) \<le> dind_groups n * ?A" unfolding dind_groups_def by (rule ceil_div_bounds(1)) simp
    with j have g: "?g < dind_groups n" by (simp add: less_mult_imp_div_less)
    have eq: "?g * ?A + j mod ?A = j" by simp
    have "j mod ?A < n - (12 + ?A) - ?g * ?A" using j eq by linarith
    then have len: "j mod ?A < length ?l" by (simp add: length_sub)
    have val: "?l ! (j mod ?A) = start + k" using len 3 k eq by (simp add: nth_sub length_sub j_def)
    have d: "i_block_at im ioff 13 = db" "block_at im db = ptrs_bytes [sb..<sb + dind_groups n]" "block_at im (sb + ?g) = ptrs_bytes ?l"
      using m 3 k g by (auto simp: run_mapped_def)
    have "u32_at im (db * BLOCK_SIZE + 4 * ?g) = sb + ?g"
      using pointer_at[OF d(2), of ?g] g groups small by simp
    moreover have "u32_at im ((sb + ?g) * BLOCK_SIZE + 4 * (j mod ?A)) = start + k"
      using pointer_at[OF d(3) len] val k small by (simp add: length_sub)
    ultimately show ?thesis using 3 d(1) by (simp add: bmap_def Let_def j_def[symmetric])
  qed
qed


text \<open>
  Writing whole blocks above \<open>nb\<close> and one record below them: everything can be read back.
\<close>

lemma object_writes:
  fixes im :: bytes and ioff nb nb' :: nat and d :: bytes and bds :: "(nat \<times> bytes) list"
  defines "F \<equiv> apply_writes (block_log bds @ [(ioff, d)])"
  assumes len: "length im = TOTAL_BLOCKS * BLOCK_SIZE" and ds: "distinct (map fst bds)"
    and bds: "\<And>b c. (b, c) \<in> set bds \<Longrightarrow> nb \<le> b \<and> b < nb' \<and> length c = BLOCK_SIZE"
    and nb': "nb \<le> nb'" "nb' \<le> TOTAL_BLOCKS" and io: "ioff + length d \<le> nb * BLOCK_SIZE"
  shows "list_all (in_range (length im)) (block_log bds @ [(ioff, d)])"
    and "length (F im) = TOTAL_BLOCKS * BLOCK_SIZE"
    and "(b, c) \<in> set bds \<Longrightarrow> block_at (F im) b = c"
    and "off + n \<le> length d \<Longrightarrow> sub (F im) (ioff + off) n = sub d off n"
proof -
  let ?ws = "block_log bds @ [(ioff, d)]"
  have le: "length e \<le> BLOCK_SIZE" if "(b, e) \<in> set bds" for b e using bds[OF that] by simp
  have top: "nb' * BLOCK_SIZE \<le> length im" unfolding len using nb'(2) by (rule mult_le_mono1)
  have "nb * BLOCK_SIZE \<le> nb' * BLOCK_SIZE" using nb'(1) by (rule mult_le_mono1)
  with io top have "ioff + length d \<le> length im" by linarith
  then have "in_range (length im) (ioff, d)" by (simp add: in_range_def)
  moreover have "list_all (in_range (length im)) (block_log bds)"
    using bds by (intro block_log_in_range[OF _ top]) fastforce
  ultimately show rng: "list_all (in_range (length im)) ?ws" by simp
  then show "length (F im) = TOTAL_BLOCKS * BLOCK_SIZE" unfolding F_def by (simp add: len)
  have "apart w (ioff, d)" if "w \<in> set (block_log bds)" for w
  proof -
    obtain b e where be: "(b, e) \<in> set bds" "w = (b * BLOCK_SIZE, e)" using \<open>w \<in> _\<close> by (auto simp: block_log_def)
    have "nb * BLOCK_SIZE \<le> b * BLOCK_SIZE" using bds[OF be(1)] by (intro mult_le_mono1) simp
    with io have "ioff + length d \<le> b * BLOCK_SIZE" by (rule order.trans)
    then show ?thesis using be(2) by (simp add: apart_def)
  qed
  then have ap: "sorted_wrt apart ?ws" using block_log_apart[OF ds le] by (simp add: sorted_wrt_append)
  show "block_at (F im) b = c" if bc: "(b, c) \<in> set bds"
  proof -
    have "(b * BLOCK_SIZE, c) \<in> set ?ws" using bc by (force simp: block_log_def)
    from sub_apply_writes_in[OF rng ap this] show ?thesis using bds[OF bc] by (simp add: block_at_def F_def)
  qed
  show "sub (F im) (ioff + off) n = sub d off n" if "off + n \<le> length d"
    unfolding F_def using that by (intro sub_apply_writes_inside[OF rng ap]) simp_all
qed

lemma write_inode_run:
  assumes "inode_args_ok now mode i_size blocks nlink uid gid"
    and "\<And>b. b \<in> set ptrs \<Longrightarrow> b < 2 ^ 32" and "ptr_ok ind" "ptr_ok dind"
  obtains d where
    "\<And>s :: 'a core_scheme. write_inode now ino mode i_size blocks ptrs nlink ind dind uid gid s =
       Inr ((), img_update (put_at (inode_offset ino) d) s)"
    and "length d = INODE_SIZE" and "sub d 0 2 = le_bytes 2 (nat mode)" and "sub d 4 4 = le_bytes 4 i_size"
    and "\<And>i. i < 15 \<Longrightarrow> sub d (40 + 4 * i) 4 = field_le (i_block_field ptrs ind dind i)"
proof (rule inode_bytes_run[OF assms])
  fix d assume d: "inode_bytes now mode i_size blocks ptrs nlink ind dind uid gid = Inr d"
    and len: "length d = INODE_SIZE" and fs: "sub d 0 2 = le_bytes 2 (nat mode)" "sub d 4 4 = le_bytes 4 i_size"
    and pt: "\<And>i. i < 15 \<Longrightarrow> sub d (40 + 4 * i) 4 = field_le (i_block_field ptrs ind dind i)"
  have "write_inode now ino mode i_size blocks ptrs nlink ind dind uid gid s =
      Inr ((), img_update (put_at (inode_offset ino) d) s)" for s :: "'a core_scheme"
    by (simp add: write_inode_def d py_bind_run put_at_def len)
  then show thesis using len fs pt by (rule that)
qed

text \<open>The pointers of an inode that was written, as the reader sees them.\<close>

lemma i_block_written:
  assumes "sub d (40 + 4 * i) 4 = field_le (U 4 (int b))" and "b < 2 ^ 32"
    and "\<And>off n. off + n \<le> length d \<Longrightarrow> sub im (ioff + off) n = sub d off n"
    and "40 + 4 * i + 4 \<le> length d"
  shows "i_block_at im ioff i = b"
  using assms(1,2) assms(3)[of "40 + 4 * i" 4] assms(4)
  by (simp add: i_block_at_def u32_at_def add.assoc)


section \<open>make\_ext3\_img.py\<close>

definition e3_JOURNAL_BLOCKS :: nat where
  "e3_JOURNAL_BLOCKS = 1024"

definition e3_journal :: "int \<Rightarrow> (core, unit) py" where
  "e3_journal now =
     py_bind (py_get next_block) (\<lambda>journal_start.
     py_bind (py_times e3_JOURNAL_BLOCKS e3_alloc_block) (\<lambda>journal_block_ptrs.
     py_bind (py_lift (jsb_block (jsb_fields e3_JOURNAL_BLOCKS))) (\<lambda>jsb.
     py_seq (write_block journal_start jsb)
     (py_bind e3_alloc_block (\<lambda>journal_indirect.
      let journal_direct = take 12 journal_block_ptrs;
          journal_sindirect = drop 12 journal_block_ptrs in
      py_bind (py_lift (pointer_block journal_sindirect)) (\<lambda>ind_data.
      py_seq (write_block journal_indirect ind_data)
      (let journal_size = e3_JOURNAL_BLOCKS * BLOCK_SIZE in
       write_inode now 8 0x8180 journal_size e3_JOURNAL_BLOCKS journal_direct 1 (Some journal_indirect) None 0 0)))))))"

declare e3_JOURNAL_BLOCKS_def [layout]

lemma jsb_fields_ok: "n < 2 ^ 32 \<Longrightarrow> list_all field_ok (jsb_fields n) \<and> fields_size (jsb_fields n) \<le> BLOCK_SIZE"
  by (simp add: jsb_fields_def layout JBD2_MAGIC_def JBD2_SUPERBLOCK_V2_def)

text \<open>
  A journal as a reader finds it: a valid superblock in its first block, the size of the whole
  run in the inode and every block of the run in its place.
\<close>

definition journal_at :: "bytes \<Rightarrow> nat \<Rightarrow> nat \<Rightarrow> nat \<Rightarrow> bool" where
  "journal_at im ioff start n \<longleftrightarrow>
     jsb_valid im start n \<and> i_size_at im ioff = n * BLOCK_SIZE \<and> (\<forall>k < n. bmap im ioff k = start + k)"

lemma e3_journal_law:
  assumes im: "full_image s" and lo: "e3_FIRST_DATA_BLOCK \<le> next_block s"
    and room: "next_block s + 1025 \<le> TOTAL_BLOCKS" and now: "0 \<le> now" "now < 2 ^ 32"
  shows "\<exists>t. e3_journal now s = Inr ((), t) \<and> full_image t \<and> next_block t = next_block s + 1025 \<and>
    next_inode t = next_inode s \<and> journal_at (img t) (inode_offset 8) (next_block s) 1024 \<and>
    agrees e3_FIRST_DATA_BLOCK inode_offset INODE_SIZE (img s) (img t) (next_block s) ({1..e3_INODES_PER_GROUP} - {8})"
proof -
  let ?nb = "next_block s" and ?n = e3_JOURNAL_BLOCKS
  let ?bs = "[?nb..<?nb + ?n]" and ?ib = "?nb + ?n"
  define jsb where "jsb = put_at 0 (be_fields (jsb_fields ?n)) (zeros BLOCK_SIZE)"
  have j: "jsb_block (jsb_fields ?n) = Inr jsb" "length jsb = BLOCK_SIZE"
    unfolding jsb_def using jsb_fields_ok[of ?n] by (intro jsb_block_run; simp add: layout)+
  have p: "pointer_block (drop 12 ?bs) = Inr (ptrs_bytes (drop 12 ?bs))" "length (ptrs_bytes (drop 12 ?bs)) = BLOCK_SIZE"
    using room by (intro pointer_block_eq length_ptrs_bytes; auto simp: layout)+
  have args: "inode_args_ok now 0x8180 (?n * BLOCK_SIZE) ?n 1 0 0" using now by (simp add: inode_args_ok_def layout)
  obtain d where w: "\<And>s :: core. write_inode now 8 0x8180 (?n * BLOCK_SIZE) ?n (take 12 ?bs) 1 (Some ?ib) None 0 0 s =
      Inr ((), img_update (put_at (inode_offset 8) d) s)"
    and d: "length d = INODE_SIZE" "sub d 4 4 = le_bytes 4 (?n * BLOCK_SIZE)"
    "\<And>i. i < 15 \<Longrightarrow> sub d (40 + 4 * i) 4 = field_le (i_block_field (take 12 ?bs) (Some ?ib) None i)"
    by (rule write_inode_run[OF args, of "take 12 ?bs" "Some ?ib" None 8])
      (use room in \<open>auto simp: ptr_ok_def layout dest: in_set_takeD\<close>)
  let ?bds = "[(?nb, jsb), (?ib, ptrs_bytes (drop 12 ?bs))]"
  let ?t = "img_update (apply_writes (block_log ?bds @ [(inode_offset 8, d)])) (e3_bump (?n + 1) s)"
  have rm: "?nb + (?n + 1) \<le> TOTAL_BLOCKS" using room by (simp add: layout)
  have ta: "py_times ?n e3_alloc_block s = Inr (?bs, e3_bump ?n s)" by (rule e3.times_alloc) (use rm in simp)
  have run: "e3_journal now s = Inr ((), ?t)"
  proof -
    have a: "e3_alloc_block (img_update f (e3_bump ?n s)) = Inr (?ib, img_update f (e3_bump (?n + 1) s))" for f
      using rm e3.alloc_ok[of "img_update f (e3_bump ?n s)"] by (simp add: e3_bump_def)
    show ?thesis
      using p j by (simp add: e3_journal_def py_bind_run py_seq_run Let_def ta a write_block_run w block_log_def comp_def)
  qed
  have slot: "inode_offset 8 + length d \<le> e3_FIRST_DATA_BLOCK * BLOCK_SIZE" by (simp add: d inode_offset_def layout)
  have "e3_FIRST_DATA_BLOCK * BLOCK_SIZE \<le> ?nb * BLOCK_SIZE" using lo by (rule mult_le_mono1)
  with slot have io: "inode_offset 8 + length d \<le> ?nb * BLOCK_SIZE" by (rule order.trans)
  have len: "length (img s) = TOTAL_BLOCKS * BLOCK_SIZE" using im by (simp add: full_image_def)
  have di: "distinct (map fst ?bds)" by (simp add: layout)
  have bd: "?nb \<le> b \<and> b < ?nb + (?n + 1) \<and> length c = BLOCK_SIZE" if "(b, c) \<in> set ?bds" for b c
    using that j(2) p(2) by auto
  let ?F = "apply_writes (block_log ?bds @ [(inode_offset 8, d)]) (img s)"
  note ow = object_writes[OF len di bd le_add1 rm io]
  have fr: "agrees e3_FIRST_DATA_BLOCK inode_offset INODE_SIZE (img s) ?F ?nb ({1..e3_INODES_PER_GROUP} - {8})"
    by (rule writes_agree[OF e3_table_fits lo _ _ ow(1) _ d(1)]) (auto simp: layout)
  have ptr: "i_block_at ?F (inode_offset 8) i = (if i < 12 then ?nb + i else ?ib)" if "i < 13" for i
    by (rule i_block_written[OF _ _ ow(4)]) (use that d rm in \<open>auto simp: i_block_field_def layout nat_add_distrib\<close>)
  have "run_mapped ?F (inode_offset 8) ?nb ?n ?ib 0 0"
    using ptr ow(3)[of ?ib "ptrs_bytes (drop 12 ?bs)"] by (simp add: run_mapped_def layout)
  then have "bmap ?F (inode_offset 8) k = ?nb + k" if "k < ?n" for k
    by (rule run_mapped_bmap[OF _ that]) (use rm in \<open>simp_all add: dind_groups_def ceil_div_def layout\<close>)
  moreover have "jsb_valid ?F ?nb ?n"
    by (rule jsb_valid_block) (use ow(3)[of ?nb jsb] in \<open>simp_all add: jsb_def layout\<close>)
  moreover have "i_size_at ?F (inode_offset 8) = ?n * BLOCK_SIZE"
    using ow(4)[of 4 4] d by (simp add: i_size_at_def u32_at_def layout)
  ultimately have "journal_at ?F (inode_offset 8) ?nb 1024" by (simp add: journal_at_def e3_JOURNAL_BLOCKS_def)
  then show ?thesis
    unfolding run using fr ow(2)
    by (intro exI[of _ ?t]) (simp add: e3_bump_def full_image_def e3_JOURNAL_BLOCKS_def)
qed


text \<open>
  C28: \<^verbatim>\<open>make_ext3_img.py\<close> takes 1025 consecutive blocks for its journal and leaves a journal of
  1024 blocks that a reader finds whole: a valid JBD2 superblock in the first block and all
  blocks of inode 8, direct and indirect, in order; no other data block or inode changes.
\<close>

theorem e3_journal_readable:
  assumes "full_image s" and "e3_FIRST_DATA_BLOCK \<le> next_block s"
    and "next_block s + 1025 \<le> TOTAL_BLOCKS" and "0 \<le> now" "now < 2 ^ 32"
  shows "\<exists>t. e3_journal now s = Inr ((), t) \<and> full_image t \<and> next_block t = next_block s + 1025 \<and>
    next_inode t = next_inode s \<and> journal_at (img t) (inode_offset 8) (next_block s) 1024 \<and>
    agrees e3_FIRST_DATA_BLOCK inode_offset INODE_SIZE (img s) (img t) (next_block s) ({1..e3_INODES_PER_GROUP} - {8})"
  using assms by (rule e3_journal_law)

theorem e3_journal_readable_witness:
  "\<exists>t. e3_journal 1700000000 e3_init = Inr ((), t) \<and> journal_at (img t) (inode_offset 8) 516 1024"
  using e3_journal_readable[of e3_init 1700000000] by (auto simp: full_image_def e3_init_def layout)

section \<open>make\_ext2\_img.py\<close>

definition e2_JOURNAL_BLOCKS :: nat where
  "e2_JOURNAL_BLOCKS = 1024"

definition e2_jsb_fields :: "field list" where
  "e2_jsb_fields = [U 4 0xC03B3998, U 4 4, U 4 0, U 4 4096, U 4 (int e2_JOURNAL_BLOCKS), U 4 1]"

definition e2_journal :: "int \<Rightarrow> (ext2_state, unit) py" where
  "e2_journal now =
     py_bind (py_get high_block) (\<lambda>journal_start.
     py_seq (py_mod (high_block_update (\<lambda>n. n + e2_JOURNAL_BLOCKS)))
     (py_bind (py_get high_block) (\<lambda>high.
      if high > TOTAL_BLOCKS then py_raise (SystemExit 1) else
      py_bind (py_lift (jsb_block e2_jsb_fields)) (\<lambda>jsb.
      py_seq (write_block journal_start jsb)
      (let journal_size = e2_JOURNAL_BLOCKS * BLOCK_SIZE in
       write_inode now 8 0x8180 journal_size e2_JOURNAL_BLOCKS [journal_start] 1 None None 0 0)))))"

declare e2_JOURNAL_BLOCKS_def [layout]

lemma e2_jsb_valid:
  assumes "block_at im b = put_at 0 (be_fields e2_jsb_fields) (zeros BLOCK_SIZE)"
  shows "jsb_valid im b e2_JOURNAL_BLOCKS"
proof -
  have sz: "fields_size e2_jsb_fields \<le> BLOCK_SIZE" by (simp add: e2_jsb_fields_def layout)
  note r = jsb_read[OF assms sz]
  have "be32_at im (b * BLOCK_SIZE + 0) = nat 0xC03B3998" by (rule r[of 0]) (simp_all add: e2_jsb_fields_def)
  moreover have "be32_at im (b * BLOCK_SIZE + 4) = nat 4" by (rule r[of 1]) (simp_all add: e2_jsb_fields_def)
  moreover have "be32_at im (b * BLOCK_SIZE + 12) = nat 4096" by (rule r[of 3]) (simp_all add: e2_jsb_fields_def)
  moreover have "be32_at im (b * BLOCK_SIZE + 16) = nat (int e2_JOURNAL_BLOCKS)"
    by (rule r[of 4]) (simp_all add: e2_jsb_fields_def layout)
  moreover have "be32_at im (b * BLOCK_SIZE + 20) = nat 1" by (rule r[of 5]) (simp_all add: e2_jsb_fields_def)
  ultimately show ?thesis by (simp add: jsb_valid_def BLOCK_SIZE_def)
qed

text \<open>
  C28: \<^verbatim>\<open>make_ext2_img.py\<close> reserves 1024 blocks of the overflow zone for the journal, or exits with
  status 1 when they do not fit.  The superblock and the size of inode 8 promise 1024 blocks,
  but the inode maps only the first: all its other pointers are zero.
\<close>

theorem e2_journal_unmapped:
  assumes "full_image s" and "e2_FIRST_DATA_BLOCK \<le> high_block s" and "0 \<le> now" "now < 2 ^ 32"
  shows "(high_block s + 1024 \<le> TOTAL_BLOCKS \<longrightarrow>
      (\<exists>t. e2_journal now s = Inr ((), t) \<and> full_image t \<and> high_block t = high_block s + 1024 \<and>
         jsb_valid (img t) (high_block s) 1024 \<and> i_size_at (img t) (inode_offset 8) = 1024 * BLOCK_SIZE \<and>
         i_block_at (img t) (inode_offset 8) 0 = high_block s \<and>
         (\<forall>i \<in> {1..<15}. i_block_at (img t) (inode_offset 8) i = 0))) \<and>
    (\<not> high_block s + 1024 \<le> TOTAL_BLOCKS \<longrightarrow> e2_journal now s = Inl (SystemExit 1))"
proof (intro conjI impI)
  let ?hb = "high_block s" and ?n = e2_JOURNAL_BLOCKS
  assume room: "?hb + 1024 \<le> TOTAL_BLOCKS"
  define jsb where "jsb = put_at 0 (be_fields e2_jsb_fields) (zeros BLOCK_SIZE)"
  have j: "jsb_block e2_jsb_fields = Inr jsb" "length jsb = BLOCK_SIZE"
    unfolding jsb_def by (intro jsb_block_run; simp add: e2_jsb_fields_def layout)+
  have args: "inode_args_ok now 0x8180 (?n * BLOCK_SIZE) ?n 1 0 0" using assms(3,4) by (simp add: inode_args_ok_def layout)
  obtain d where w: "\<And>s :: ext2_state. write_inode now 8 0x8180 (?n * BLOCK_SIZE) ?n [?hb] 1 None None 0 0 s =
      Inr ((), img_update (put_at (inode_offset 8) d) s)"
    and d: "length d = INODE_SIZE" "sub d 4 4 = le_bytes 4 (?n * BLOCK_SIZE)"
    "\<And>i. i < 15 \<Longrightarrow> sub d (40 + 4 * i) 4 = field_le (i_block_field [?hb] None None i)"
    by (rule write_inode_run[OF args, of "[?hb]" None None 8]) (use room in \<open>auto simp: ptr_ok_def layout\<close>)
  let ?bds = "[(?hb, jsb)]"
  let ?F = "apply_writes (block_log ?bds @ [(inode_offset 8, d)])"
  let ?t = "img_update ?F (high_block_update (\<lambda>n. n + ?n) s)"
  have run: "e2_journal now s = Inr ((), ?t)"
  proof -
    have "\<not> ?hb + ?n > TOTAL_BLOCKS" using room by (simp add: e2_JOURNAL_BLOCKS_def)
    then show ?thesis
      using j by (simp add: e2_journal_def py_bind_run py_seq_run Let_def write_block_run w block_log_def comp_def)
  qed
  have "inode_offset 8 + length d \<le> e2_FIRST_DATA_BLOCK * BLOCK_SIZE" by (simp add: d inode_offset_def layout)
  moreover have "e2_FIRST_DATA_BLOCK * BLOCK_SIZE \<le> ?hb * BLOCK_SIZE" using assms(2) by (rule mult_le_mono1)
  ultimately have io: "inode_offset 8 + length d \<le> ?hb * BLOCK_SIZE" by (rule order.trans)
  have len: "length (img s) = TOTAL_BLOCKS * BLOCK_SIZE" using assms(1) by (simp add: full_image_def)
  have bd: "?hb \<le> b \<and> b < ?hb + 1024 \<and> length c = BLOCK_SIZE" if "(b, c) \<in> set ?bds" for b c using that j(2) by auto
  have di: "distinct (map fst ?bds)" by simp
  note ow = object_writes[OF len di bd le_add1 room io]
  have ptr: "i_block_at (?F (img s)) (inode_offset 8) i = (if i = 0 then ?hb else 0)" if "i < 15" for i
    by (rule i_block_written[OF _ _ ow(4)]) (use that d room in \<open>auto simp: i_block_field_def layout\<close>)
  have "jsb_valid (?F (img s)) ?hb 1024"
    using e2_jsb_valid[of "?F (img s)" ?hb] ow(3) by (simp add: jsb_def e2_JOURNAL_BLOCKS_def)
  moreover have "i_size_at (?F (img s)) (inode_offset 8) = 1024 * BLOCK_SIZE"
    using ow(4)[of 4 4] d by (simp add: i_size_at_def u32_at_def layout)
  ultimately show "\<exists>t. e2_journal now s = Inr ((), t) \<and> full_image t \<and> high_block t = ?hb + 1024 \<and>
         jsb_valid (img t) ?hb 1024 \<and> i_size_at (img t) (inode_offset 8) = 1024 * BLOCK_SIZE \<and>
         i_block_at (img t) (inode_offset 8) 0 = ?hb \<and> (\<forall>i \<in> {1..<15}. i_block_at (img t) (inode_offset 8) i = 0)"
    unfolding run using ptr ow(2) by (intro exI[of _ ?t]) (simp add: full_image_def e2_JOURNAL_BLOCKS_def)
next
  assume "\<not> high_block s + 1024 \<le> TOTAL_BLOCKS"
  then show "e2_journal now s = Inl (SystemExit 1)"
    by (simp add: e2_journal_def py_bind_run py_seq_run e2_JOURNAL_BLOCKS_def)
qed

theorem e2_journal_unmapped_witness:
  "\<exists>t. e2_journal 1700000000 e2_init = Inr ((), t) \<and> i_size_at (img t) (inode_offset 8) = 1024 * BLOCK_SIZE \<and>
     i_block_at (img t) (inode_offset 8) 1 = 0"
  using e2_journal_unmapped[of e2_init 1700000000] by (auto simp: full_image_def e2_init_def layout)


section \<open>make\_ext4\_img.py\<close>

definition e4_JOURNAL_BLOCKS :: nat where
  "e4_JOURNAL_BLOCKS = 8192"

text \<open>The inode is packed field by field, without the extents flag.\<close>

definition e4_journal_stmts :: "int \<Rightarrow> nat \<Rightarrow> nat \<Rightarrow> nat list \<Rightarrow> nat \<Rightarrow> nat \<Rightarrow> pack_stmt list" where
  "e4_journal_stmts now journal_size total_meta_blks j_direct j_ind_blk j_dind_blk =
     [(0x00, [U 2 0x8180, U 2 0, U 4 (int (journal_size AND 0xFFFFFFFF))]),
      (0x08, [U 4 now, U 4 now, U 4 now, U 4 0]),
      (0x18, [U 2 0, U 2 1, U 4 (int (total_meta_blks * (BLOCK_SIZE div 512)))]),
      (0x20, [U 4 0, U 4 0])] @
     map (\<lambda>i. (0x28 + i * 4,
       [U 4 (int (if i < 12 then (if i < length j_direct then j_direct ! i else 0)
                  else if i = 12 then j_ind_blk else if i = 13 then j_dind_blk else 0))])) [0..<15] @
     [(0x6C, [U 4 (int (drop_bit 32 journal_size AND 0xFFFFFFFF))]),
      (0x80, [U 2 28]), (0x90, [U 4 now])]"

definition e4_journal_dind :: "nat list \<Rightarrow> (ext4_state, nat \<times> nat) py" where
  "e4_journal_dind j_remaining =
     (if j_remaining \<noteq> [] then
        py_bind e4_alloc_block (\<lambda>j_dind_blk.
        let num_ind = ceil_div (length j_remaining) ADDRS_PER_INDIRECT in
        py_bind (py_collect (\<lambda>g.
          py_bind e4_alloc_block (\<lambda>sub_ind_blk.
          py_bind (py_lift (pointer_block (sub j_remaining (g * ADDRS_PER_INDIRECT) ADDRS_PER_INDIRECT))) (\<lambda>sub_data.
          py_seq (write_block sub_ind_blk sub_data) (py_ret sub_ind_blk)))) [0..<num_ind]) (\<lambda>dind_ptrs.
        py_bind (py_lift (pointer_block dind_ptrs)) (\<lambda>dind_data.
        py_seq (write_block j_dind_blk dind_data) (py_ret (j_dind_blk, num_ind)))))
      else py_ret (0, 0))"

definition e4_journal :: "int \<Rightarrow> bytes \<Rightarrow> (ext4_state, unit) py" where
  "e4_journal now fs_uuid =
     py_bind (py_get next_block) (\<lambda>journal_start.
     py_bind (py_times e4_JOURNAL_BLOCKS e4_alloc_block) (\<lambda>journal_block_ptrs.
     py_bind (py_lift (jsb_block (jsb_fields e4_JOURNAL_BLOCKS))) (\<lambda>jsb.
     py_seq (write_block journal_start jsb)
     (let j_direct = take 12 journal_block_ptrs;
          j_sindirect = take ADDRS_PER_INDIRECT (drop 12 journal_block_ptrs);
          j_remaining = drop (12 + ADDRS_PER_INDIRECT) journal_block_ptrs in
      py_bind e4_alloc_block (\<lambda>j_ind_blk.
      py_bind (py_lift (pointer_block j_sindirect)) (\<lambda>ind_data.
      py_seq (write_block j_ind_blk ind_data)
      (py_bind (e4_journal_dind j_remaining) (\<lambda>(j_dind_blk, j_dind_sub_count).
       let journal_size = e4_JOURNAL_BLOCKS * BLOCK_SIZE;
           total_meta_blks = e4_JOURNAL_BLOCKS + 1 + (if j_dind_blk \<noteq> 0 then 1 else 0) + j_dind_sub_count;
           j_offset = inode_table_offset 8 in
       py_bind (py_lift (res_bind
         (pack_seq (e4_journal_stmts now journal_size total_meta_blks j_direct j_ind_blk j_dind_blk) (zeros e4_INODE_SIZE))
         (e4_seal_inode fs_uuid 8))) (\<lambda>j_data.
       py_mod (img_update (slice_set j_offset (j_offset + e4_INODE_SIZE) j_data)))))))))))"

declare e4_JOURNAL_BLOCKS_def [layout]

lemma e4_journal_inode:
  assumes "clock_ok now" and "sz < 2 ^ 32" "tot \<le> TOTAL_BLOCKS" and "\<And>b. b \<in> set ptrs \<Longrightarrow> b < 2 ^ 32" "ind < 2 ^ 32" "dind < 2 ^ 32"
  obtains d where
    "res_bind (pack_seq (e4_journal_stmts now sz tot ptrs ind dind) (zeros e4_INODE_SIZE)) (e4_seal_inode uuid 8) = Inr d"
    and "length d = e4_INODE_SIZE" and "u32_at d 4 = sz"
    and "\<And>i. i < 15 \<Longrightarrow> sub d (40 + 4 * i) 4 =
      le_bytes 4 (if i < 12 then (if i < length ptrs then ptrs ! i else 0) else if i = 12 then ind else if i = 13 then dind else 0)"
    and "inode_checksum d e4_INODE_SIZE 8 uuid = Inr (csum_at d)"
proof -
  let ?ps = "e4_journal_stmts now sz tot ptrs ind dind"
  let ?P = "\<lambda>i. if i < 12 then (if i < length ptrs then ptrs ! i else 0) else if i = 12 then ind else if i = 13 then dind else 0"
  have up: "[0..<15] = [0, 1, 2, 3, 4, 5, 6, 7, 8, 9, 10, 11, 12, 13, 14 :: nat]" by (simp add: upt_rec)
  have pt: "ptrs ! i < 4294967296" if "i < length ptrs" for i using assms(4) nth_mem[OF that] by simp
  have m: "x AND 0xFFFFFFFF = x mod 2 ^ 32" for x :: nat by (rule and_ones_32)
  have ok: "list_all (stmt_ok 256) ?ps"
    using assms pt by (simp add: e4_journal_stmts_def up stmt_ok_def clock_ok_def m layout)
  have ord: "stmts_ordered 0 ?ps" by (simp add: e4_journal_stmts_def up)
  define d0 where "d0 = apply_writes (pack_log ?ps) (zeros 256)"
  have run0: "pack_seq ?ps (zeros 256) = Inr d0" unfolding d0_def using ok by (intro pack_seq_run) simp
  have len0: "length d0 = 256" unfolding d0_def using pack_log_in_range[OF ok] by simp
  obtain d where seal: "e4_seal_inode uuid 8 d0 = Inr d" and ld: "length d = 256"
    and keep: "\<And>o' m. o' + m \<le> 0x7C \<Longrightarrow> sub d o' m = sub d0 o' m"
    and ck: "inode_checksum d 256 8 uuid = Inr (csum_at d)"
    using e4_seal_inode_run[OF len0, of 8 uuid] by auto
  have fld: "sub d0 pos m = field_le (fs ! k)"
    if "(off, fs) \<in> set ?ps" "k < length fs" "pos = off + fields_size (take k fs)" "m = field_size (fs ! k)"
    for off fs k pos m
    unfolding d0_def using pack_seq_field[OF _ ord that] ok by simp
  have szf: "u32_at d 4 = sz"
    using fld[of 0 "[U 2 0x8180, U 2 0, U 4 (int (sz AND 0xFFFFFFFF))]" 2 4 4] keep[of 4 4] assms(2)
    by (simp add: e4_journal_stmts_def u32_at_def m)
  have ptr: "sub d (40 + 4 * i) 4 = le_bytes 4 (?P i)" if "i < 15" for i
    using fld[of "0x28 + i * 4" "[U 4 (int (?P i))]" 0 "40 + 4 * i" 4] keep[of "40 + 4 * i" 4] that
    by (simp add: e4_journal_stmts_def)
  show thesis
    by (rule that[OF _ _ szf ptr]) (simp_all add: e4_INODE_SIZE_def run0 seal ld ck)
qed


definition sub_log :: "nat \<Rightarrow> nat list \<Rightarrow> nat \<Rightarrow> (nat \<times> bytes) list" where
  "sub_log sb bs n = map (\<lambda>j. (sb + j, ptrs_bytes (sub bs (j * ADDRS_PER_INDIRECT) ADDRS_PER_INDIRECT))) [0..<n]"

lemma length_sub_group: "length (ptrs_bytes (sub bs k ADDRS_PER_INDIRECT)) = BLOCK_SIZE"
  by (simp add: length_sub)

lemma e4_journal_dind_run:
  fixes s :: ext4_state and bs :: "nat list"
  defines "nb \<equiv> next_block s" and "g \<equiv> ceil_div (length bs) ADDRS_PER_INDIRECT"
  assumes ne: "bs \<noteq> []" and room: "nb + 1 + g \<le> TOTAL_BLOCKS" and g: "g \<le> ADDRS_PER_INDIRECT"
    and small: "\<And>b. b \<in> set bs \<Longrightarrow> b < 2 ^ 32"
  shows "e4_journal_dind bs s = Inr ((nb, g),
    img_update (apply_writes (block_log (sub_log (nb + 1) bs g @ [(nb, ptrs_bytes [nb + 1..<nb + 1 + g])]))) (e4_bump (1 + g) s))"
proof -
  let ?A = ADDRS_PER_INDIRECT
  have c: "pointer_block (sub bs (j * ?A) ?A) = Inr (ptrs_bytes (sub bs (j * ?A) ?A)) \<and>
      length (ptrs_bytes (sub bs (j * ?A) ?A)) \<le> BLOCK_SIZE" for j
  proof -
    have "set (sub bs (j * ?A) ?A) \<subseteq> set bs" by (auto simp: sub_def dest: in_set_takeD in_set_dropD)
    then show ?thesis using small by (auto simp: length_sub_group intro!: pointer_block_eq)
  qed
  have al: "e4_alloc_block s = Inr (nb, e4_bump 1 s)" using room e4.alloc_ok[of s] by (simp add: nb_def)
  have col: "py_collect (\<lambda>j. py_bind e4_alloc_block (\<lambda>b. py_bind (py_lift (pointer_block (sub bs (j * ?A) ?A))) (\<lambda>d.
      py_seq (write_block b d) (py_ret b)))) [0..<0 + g] (e4_bump 1 s) =
    Inr ([nb + 1..<nb + 1 + g], img_update (apply_writes (block_log (sub_log (nb + 1) bs g))) (e4_bump g (e4_bump 1 s)))"
    using block_source.collect_alloc_write[OF e4.block_source_axioms, of "e4_bump 1 s" g 0 "\<lambda>j. pointer_block (sub bs (j * ?A) ?A)"
        "\<lambda>j. ptrs_bytes (sub bs (j * ?A) ?A)"] room c
    by (simp add: sub_log_def e4_bump_def nb_def)
  have d: "pointer_block [nb + 1..<nb + 1 + g] = Inr (ptrs_bytes [nb + 1..<nb + 1 + g])"
    using room by (intro pointer_block_eq) (auto simp: layout)
  have w: "write_block nb (ptrs_bytes [nb + 1..<nb + 1 + g]) t =
      Inr ((), img_update (put_at (nb * BLOCK_SIZE) (ptrs_bytes [nb + 1..<nb + 1 + g])) t)" for t :: ext4_state
    using g by (intro write_block_run) simp
  have "e4_journal_dind bs s = Inr ((nb, g), img_update (put_at (nb * BLOCK_SIZE) (ptrs_bytes [nb + 1..<nb + 1 + g]))
      (img_update (apply_writes (block_log (sub_log (nb + 1) bs g))) (e4_bump g (e4_bump 1 s))))"
    using ne al col[unfolded add_0] d w by (simp add: e4_journal_dind_def Let_def py_bind_run py_seq_run flip: g_def del: upt_Suc)
  then show ?thesis by (simp add: block_log_append block_log_Cons apply_writes_comp comp_def e4.bump_bump)
qed

lemma table_writes_agree:
  assumes nb: "METADATA_END \<le> nb" and ino: "1 \<le> ino" "ino \<le> TOTAL_INODES"
    and rng: "list_all (in_range (length im)) (block_log bds @ [(inode_table_offset ino, d)])"
    and bl: "\<And>b c. (b, c) \<in> set bds \<Longrightarrow> nb \<le> b" and d: "length d = e4_INODE_SIZE"
  shows "agrees METADATA_END inode_table_offset e4_INODE_SIZE im
    (apply_writes (block_log bds @ [(inode_table_offset ino, d)]) im) nb ({1..TOTAL_INODES} - {ino})"
proof (rule apply_writes_agrees[OF rng, of _ _ _ _ "{ino}"])
  have lo: "METADATA_END * BLOCK_SIZE \<le> nb * BLOCK_SIZE" using nb by (rule mult_le_mono1)
  show "nb * BLOCK_SIZE \<le> fst v \<or> (\<exists>j. fst v = inode_table_offset j \<and> length (snd v) = e4_INODE_SIZE \<and>
      inode_table_offset j + e4_INODE_SIZE \<le> METADATA_END * BLOCK_SIZE \<and> j \<in> {ino})"
    if "v \<in> set (block_log bds @ [(inode_table_offset ino, d)])" for v
    using that bl d inode_table_offset_bound[OF ino] by (auto simp: block_log_def intro: mult_le_mono1)
  show "inode_table_offset i + e4_INODE_SIZE \<le> nb * BLOCK_SIZE" if "i \<in> {1..TOTAL_INODES} - {ino}" for i
    using that by (intro order.trans[OF inode_table_offset_bound lo]) auto
  show "inode_table_offset i + e4_INODE_SIZE \<le> inode_table_offset j \<or>
      inode_table_offset j + e4_INODE_SIZE \<le> inode_table_offset i"
    if "i \<in> {1..TOTAL_INODES} - {ino}" "j \<in> {ino}" for i j
    using that ino table_offset_apart[of i j] by auto
qed


definition e4_journal_log :: "nat \<Rightarrow> (nat \<times> bytes) list" where
  "e4_journal_log nb =
     (let n = e4_JOURNAL_BLOCKS; bs = [nb..<nb + n]; db = nb + n + 1 in
      [(nb, put_at 0 (be_fields (jsb_fields n)) (zeros BLOCK_SIZE)),
       (nb + n, ptrs_bytes (take ADDRS_PER_INDIRECT (drop 12 bs)))] @
      sub_log (db + 1) (drop (12 + ADDRS_PER_INDIRECT) bs) (dind_groups n) @
      [(db, ptrs_bytes [db + 1..<db + 1 + dind_groups n])])"

lemma e4_journal_groups: "dind_groups e4_JOURNAL_BLOCKS = 7"
  by (simp add: dind_groups_def ceil_div_def layout)

lemma e4_journal_log_blocks:
  shows "(b, c) \<in> set (e4_journal_log nb) \<Longrightarrow> nb \<le> b \<and> b < nb + 8201 \<and> length c = BLOCK_SIZE"
    and "distinct (map fst (e4_journal_log nb))"
proof -
  show "distinct (map fst (e4_journal_log nb))"
    unfolding e4_journal_log_def Let_def e4_journal_groups
    by (auto simp: sub_log_def comp_def distinct_map inj_on_def layout)
  have len: "length (put_at 0 (be_fields (jsb_fields e4_JOURNAL_BLOCKS)) (zeros BLOCK_SIZE)) = BLOCK_SIZE"
    using jsb_fields_ok[of e4_JOURNAL_BLOCKS] by (intro jsb_block_run) (simp_all add: layout)
  have p: "length (ptrs_bytes [a..<a + 7]) = BLOCK_SIZE" for a by (simp add: layout)
  have q: "length (ptrs_bytes (take ADDRS_PER_INDIRECT bs)) = BLOCK_SIZE" for bs by simp
  show "nb \<le> b \<and> b < nb + 8201 \<and> length c = BLOCK_SIZE" if "(b, c) \<in> set (e4_journal_log nb)"
    using that[unfolded e4_journal_log_def Let_def e4_journal_groups] len p[of "8194 + nb"] q length_sub_group
    by (auto simp: sub_log_def e4_JOURNAL_BLOCKS_def)
qed

lemma e4_journal_run:
  assumes now: "clock_ok now" and room: "next_block s + 8201 \<le> TOTAL_BLOCKS"
  obtains d where
    "e4_journal now uuid s = Inr ((), img_update
       (apply_writes (block_log (e4_journal_log (next_block s)) @ [(inode_table_offset 8, d)])) (e4_bump 8201 s))"
    and "length d = e4_INODE_SIZE" and "u32_at d 4 = 8192 * BLOCK_SIZE"
    and "\<And>i. i < 14 \<Longrightarrow> sub d (40 + 4 * i) 4 = le_bytes 4 (next_block s + (if i < 12 then i else 8180 + i))"
    and "inode_checksum d e4_INODE_SIZE 8 uuid = Inr (csum_at d)"
proof -
  let ?nb = "next_block s" and ?n = e4_JOURNAL_BLOCKS
  let ?bs = "[?nb..<?nb + ?n]" and ?A = ADDRS_PER_INDIRECT
  let ?rem = "drop (12 + ?A) ?bs" and ?si = "take ?A (drop 12 ?bs)" and ?ib = "?nb + ?n" and ?db = "?nb + ?n + 1"
  define jsb where "jsb = put_at 0 (be_fields (jsb_fields ?n)) (zeros BLOCK_SIZE)"
  have j: "jsb_block (jsb_fields ?n) = Inr jsb" "length jsb = BLOCK_SIZE"
    unfolding jsb_def using jsb_fields_ok[of ?n] by (intro jsb_block_run; simp add: layout)+
  have rm: "?nb + ?n + 1 + (1 + 7) \<le> TOTAL_BLOCKS" using room by (simp add: layout)
  have p: "pointer_block ?si = Inr (ptrs_bytes ?si)" "length (ptrs_bytes ?si) = BLOCK_SIZE"
    using room by (intro pointer_block_eq length_ptrs_bytes; auto simp: layout dest!: in_set_takeD)+
  have ta: "py_times ?n e4_alloc_block s = Inr (?bs, e4_bump ?n s)" by (rule e4.times_alloc) (use rm in simp)
  have a: "e4_alloc_block (img_update f (e4_bump ?n s)) = Inr (?ib, img_update f (e4_bump (?n + 1) s))" for f
    using rm e4.alloc_ok[of "img_update f (e4_bump ?n s)"] by (simp add: e4.bump_img e4.bump_bump e4.nxt_img e4.nxt_bump)
  have g: "ceil_div (length ?rem) ?A = 7" using e4_journal_groups by (simp add: dind_groups_def)
  have dn: "e4_journal_dind ?rem (img_update f (e4_bump (?n + 1) s)) = Inr ((?db, 7),
      img_update (apply_writes (block_log (sub_log (?db + 1) ?rem 7 @ [(?db, ptrs_bytes [?db + 1..<?db + 1 + 7])])))
        (e4_bump 8 (img_update f (e4_bump (?n + 1) s))))" for f
  proof -
    have nx: "next_block (img_update f (e4_bump (?n + 1) s)) = ?db" by (simp add: e4_bump_def)
    show ?thesis
      using e4_journal_dind_run[of ?rem "img_update f (e4_bump (?n + 1) s)", unfolded g nx] rm
      by (auto simp: layout)
  qed
  obtain d where d: "res_bind (pack_seq (e4_journal_stmts now (?n * BLOCK_SIZE) (?n + 1 + 1 + 7) (take 12 ?bs) ?ib ?db)
      (zeros e4_INODE_SIZE)) (e4_seal_inode uuid 8) = Inr d"
    and ld: "length d = e4_INODE_SIZE" and sz: "u32_at d 4 = ?n * BLOCK_SIZE"
    and ptr: "\<And>i. i < 15 \<Longrightarrow> sub d (40 + 4 * i) 4 = le_bytes 4 (if i < 12 then (if i < length (take 12 ?bs) then take 12 ?bs ! i else 0)
      else if i = 12 then ?ib else if i = 13 then ?db else 0)"
    and ck: "inode_checksum d e4_INODE_SIZE 8 uuid = Inr (csum_at d)"
    by (rule e4_journal_inode[OF now, of "?n * BLOCK_SIZE" "?n + 1 + 1 + 7" "take 12 ?bs" ?ib ?db uuid])
      (use room in \<open>auto simp: layout dest!: in_set_takeD\<close>)
  let ?F = "apply_writes (block_log (e4_journal_log ?nb) @ [(inode_table_offset 8, d)])"
  have run: "e4_journal now uuid s = Inr ((), img_update ?F (e4_bump (?n + 1 + 8) s))"
  proof -
    have sl: "slice_set k (k + e4_INODE_SIZE) d = put_at k d" for k by (rule ext) (simp add: put_at_def ld)
    show ?thesis
      unfolding e4_journal_log_def e4_journal_groups Let_def
      using p j d
      by (simp add: e4_journal_def py_bind_run py_seq_run Let_def ta a dn[unfolded Suc_eq_plus1[symmetric]] write_block_run sl
          block_log_append block_log_Cons comp_def apply_writes_comp e4.bump_img e4.bump_bump jsb_def[symmetric] del: upt_Suc drop_upt)
  qed
  have "sub d (40 + 4 * i) 4 = le_bytes 4 (?nb + (if i < 12 then i else 8180 + i))" if "i < 14" for i
  proof (cases "i < 12")
    case False
    with that have "i = 12 \<or> i = 13" by arith
    then show ?thesis using ptr[of i] by (auto simp: e4_JOURNAL_BLOCKS_def add.commute)
  qed (use ptr[of i] in \<open>simp add: e4_JOURNAL_BLOCKS_def\<close>)
  then show thesis
    by (intro that[of d]) (use run ld sz ck in \<open>simp_all add: e4_JOURNAL_BLOCKS_def\<close>)
qed


lemma e4_journal_law:
  assumes s: "e4_tree_ready now s" and room: "next_block s + 8201 \<le> TOTAL_BLOCKS"
  shows "\<exists>t. e4_journal now uuid s = Inr ((), t) \<and> e4_tree_ready now t \<and> next_block t = next_block s + 8201 \<and>
    next_inode t = next_inode s \<and>
    agrees METADATA_END inode_table_offset e4_INODE_SIZE (img s) (img t) (next_block s) ({1..TOTAL_INODES} - {8}) \<and>
    (\<forall>im. agrees METADATA_END inode_table_offset e4_INODE_SIZE (img t) im (next_block t) {8} \<longrightarrow>
       x4_verified uuid im 8 \<and> journal_at im (inode_table_offset 8) (next_block s) 8192)"
proof -
  let ?nb = "next_block s" and ?io = "inode_table_offset 8" and ?bds = "e4_journal_log (next_block s)"
  have r: "clock_ok now" "full_image s" "METADATA_END \<le> ?nb" "1 \<le> next_inode s" "allocated_blocks s = {0..<?nb}" using s by (simp_all add: e4_tree_ready_def)
  obtain d where run: "e4_journal now uuid s = Inr ((), img_update
       (apply_writes (block_log ?bds @ [(?io, d)])) (e4_bump 8201 s))"
    and d: "length d = e4_INODE_SIZE" "u32_at d 4 = 8192 * BLOCK_SIZE"
    "\<And>i. i < 14 \<Longrightarrow> sub d (40 + 4 * i) 4 = le_bytes 4 (?nb + (if i < 12 then i else 8180 + i))"
    "inode_checksum d e4_INODE_SIZE 8 uuid = Inr (csum_at d)"
    using e4_journal_run[OF r(1) room] by metis
  let ?F = "apply_writes (block_log ?bds @ [(?io, d)]) (img s)"
  have len: "length (img s) = TOTAL_BLOCKS * BLOCK_SIZE" using r(2) by (simp add: full_image_def)
  have tb: "?io + e4_INODE_SIZE \<le> METADATA_END * BLOCK_SIZE" by (rule inode_table_offset_bound) (simp_all add: layout)
  also have "\<dots> \<le> ?nb * BLOCK_SIZE" using r(3) by (rule mult_le_mono1)
  finally have io: "?io + length d \<le> ?nb * BLOCK_SIZE" by (simp add: d(1))
  note lb = e4_journal_log_blocks[where nb = ?nb]
  have bd: "?nb \<le> b \<and> b < ?nb + 8201 \<and> length c = BLOCK_SIZE" if "(b, c) \<in> set ?bds" for b c using lb(1)[OF that] .
  note ow = object_writes[OF len lb(2) bd le_add1 room io]
  have ag: "agrees METADATA_END inode_table_offset e4_INODE_SIZE (img s) ?F ?nb ({1..TOTAL_INODES} - {8})"
    by (rule table_writes_agree[OF r(3) _ _ ow(1) _ d(1)]) (use lb(1) in \<open>auto simp: layout\<close>)
  have rd: "x4_verified uuid im 8 \<and> journal_at im ?io ?nb 8192"
    if a: "agrees METADATA_END inode_table_offset e4_INODE_SIZE ?F im (?nb + 8201) {8}" for im
  proof -
    have "sub ?F (?io + 0) e4_INODE_SIZE = sub d 0 e4_INODE_SIZE" using ow(4)[of 0 e4_INODE_SIZE] by (simp only: d(1) add_0 order.refl)
    then have sl: "x4_inode im 8 = d" using a by (simp add: x4_inode_def agrees_def d(1) sub_def[of d])
    have at: "sub im (?io + off) m = sub d off m" if "off + m \<le> length d" for off m
      using sub_sub[of off m e4_INODE_SIZE im ?io] that by (simp add: sl[unfolded x4_inode_def] d(1))
    have blk: "block_at im b = c" if bc: "(b, c) \<in> set ?bds" for b c
    proof -
      have "same_range ?F im (?nb * BLOCK_SIZE) ((?nb + 8201) * BLOCK_SIZE)" using agrees_blocks[OF a r(3) order.refl] .
      then show ?thesis using same_range_block[of ?F im ?nb "?nb + 8201" b] lb(1)[OF bc] ow(3)[of b c] bc by simp
    qed
    have ptr: "i_block_at im ?io i = ?nb + (if i < 12 then i else 8180 + i)" if "i < 14" for i
      by (rule i_block_written[OF _ _ at]) (use that d(1,3) room in \<open>auto simp: layout nat_add_distrib nat_int_add\<close>)
    note bl = e4_journal_log_def[of ?nb, unfolded Let_def e4_journal_groups]
    have "run_mapped im ?io ?nb e4_JOURNAL_BLOCKS (?nb + e4_JOURNAL_BLOCKS) (?nb + e4_JOURNAL_BLOCKS + 1) (?nb + e4_JOURNAL_BLOCKS + 2)"
      unfolding run_mapped_def e4_journal_groups
    proof (intro conjI impI allI)
      show "block_at im (?nb + e4_JOURNAL_BLOCKS) = ptrs_bytes (take ADDRS_PER_INDIRECT (drop 12 [?nb..<?nb + e4_JOURNAL_BLOCKS]))"
        by (rule blk) (simp add: bl del: drop_upt)
      show "block_at im (?nb + e4_JOURNAL_BLOCKS + 1) = ptrs_bytes [?nb + e4_JOURNAL_BLOCKS + 2..<?nb + e4_JOURNAL_BLOCKS + 2 + 7]"
        by (rule blk) (simp add: bl)
      show "block_at im (?nb + e4_JOURNAL_BLOCKS + 2 + g) = ptrs_bytes
        (sub (drop (12 + ADDRS_PER_INDIRECT) [?nb..<?nb + e4_JOURNAL_BLOCKS]) (g * ADDRS_PER_INDIRECT) ADDRS_PER_INDIRECT)"
        if "g < 7" for g
        by (rule blk) (use that in \<open>auto simp: bl sub_log_def\<close>)
    qed (use ptr in \<open>simp_all add: e4_JOURNAL_BLOCKS_def\<close>)
    then have "bmap im ?io k = ?nb + k" if "k < e4_JOURNAL_BLOCKS" for k
      by (rule run_mapped_bmap[OF _ that]) (use room in \<open>simp_all add: dind_groups_def ceil_div_def layout\<close>)
    moreover have "jsb_valid im ?nb e4_JOURNAL_BLOCKS"
      by (rule jsb_valid_block) (use blk in \<open>simp_all add: bl, simp add: layout\<close>)
    moreover have "i_size_at im ?io = 8192 * BLOCK_SIZE"
      using at[of 4 4] d(1,2) by (simp add: i_size_at_def u32_at_def layout)
    ultimately show ?thesis by (simp add: journal_at_def e4_JOURNAL_BLOCKS_def x4_verified_def sl d(4))
  qed
  show ?thesis
    unfolding run using ag rd r ow(2)
    by (intro exI[of _ "img_update (apply_writes (block_log ?bds @ [(?io, d)])) (e4_bump 8201 s)"])
      (simp add: e4_tree_ready_def full_image_def e4_bump_def ivl_disj_un_two(3))
qed


text \<open>
  C27: \<^verbatim>\<open>make_ext4_img.py\<close> takes 8201 consecutive blocks for its journal and leaves one of 8192
  blocks that a reader finds whole behind a verified inode 8: a valid JBD2 superblock and all
  blocks, direct, indirect and double-indirect, in order; no other data block or inode changes.
\<close>

theorem e4_journal_readable:
  assumes "e4_tree_ready now s" and "next_block s + 8201 \<le> TOTAL_BLOCKS"
  shows "\<exists>t. e4_journal now fs_uuid s = Inr ((), t) \<and> e4_tree_ready now t \<and> next_block t = next_block s + 8201 \<and>
    x4_verified fs_uuid (img t) 8 \<and> journal_at (img t) (inode_table_offset 8) (next_block s) 8192 \<and>
    agrees METADATA_END inode_table_offset e4_INODE_SIZE (img s) (img t) (next_block s) ({1..TOTAL_INODES} - {8})"
proof -
  obtain t where "e4_journal now fs_uuid s = Inr ((), t)" "e4_tree_ready now t" "next_block t = next_block s + 8201"
    "agrees METADATA_END inode_table_offset e4_INODE_SIZE (img s) (img t) (next_block s) ({1..TOTAL_INODES} - {8})"
    and "\<forall>im. agrees METADATA_END inode_table_offset e4_INODE_SIZE (img t) im (next_block t) {8} \<longrightarrow>
       x4_verified fs_uuid im 8 \<and> journal_at im (inode_table_offset 8) (next_block s) 8192"
    using e4_journal_law[OF assms, of fs_uuid] by blast
  then show ?thesis by (intro exI[of _ t]) simp
qed

theorem e4_journal_readable_witness:
  "\<exists>t. e4_journal 1700000000 (zeros 16) e4_init = Inr ((), t) \<and> journal_at (img t) (inode_table_offset 8) 2066 8192"
proof -
  have "e4_tree_ready 1700000000 e4_init" by (rule e4_init_ready) (simp add: clock_ok_def)
  from e4_journal_readable[OF this, of "zeros 16"] show ?thesis by (auto simp: e4_init_def layout)
qed

end
