(* ===== verification/Meta4.thy ===== *)
theory Meta4
  imports Meta23 Journals
begin

text \<open>
  The last phase of \<^verbatim>\<open>make_ext4_img.py\<close>: block and inode bitmaps for each of the eight groups, the
  table of checksummed 64-byte group descriptors, and the superblock.  \<^verbatim>\<open>hashlib.md5\<close>, which seeds
  the directory hash, is a parameter.
\<close>

section \<open>Bitmaps\<close>

definition DESC_SIZE :: nat where
  "DESC_SIZE = 64"

declare DESC_SIZE_def [layout]

definition in_group :: "nat \<Rightarrow> nat \<Rightarrow> bool" where
  "in_group g b \<longleftrightarrow>
     (let group_start = g * e4_BLOCKS_PER_GROUP in group_start \<le> b \<and> b < group_start + e4_BLOCKS_PER_GROUP)"

text \<open>
  The script loops over a \<^verbatim>\<open>set\<close>; the model goes through it in ascending order, and
  \<open>set_bits_order\<close> below shows that any other order gives the same bitmap.
\<close>

definition e4_block_bitmap :: "nat set \<Rightarrow> nat \<Rightarrow> bytes result" where
  "e4_block_bitmap allocated g =
     (let group_start = g * e4_BLOCKS_PER_GROUP in
      set_bits (map (\<lambda>b. b - group_start) (filter (in_group g) (sorted_list_of_set allocated)))
        (zeros BLOCK_SIZE))"

definition group_inodes :: "nat \<Rightarrow> nat \<Rightarrow> nat list" where
  "group_inodes ni g =
     (let group_ino_start = g * e4_INODES_PER_GROUP + 1;
          group_ino_end = (g + 1) * e4_INODES_PER_GROUP;
          first = (if g = 0 then 1 else max 12 group_ino_start)
      in filter (\<lambda>ino. group_ino_start \<le> ino \<and> ino - group_ino_start < e4_INODES_PER_GROUP)
           [first..<min ni (group_ino_end + 1)])"

definition e4_inode_bitmap :: "nat \<Rightarrow> nat \<Rightarrow> bytes result" where
  "e4_inode_bitmap ni g =
     set_bits (map (\<lambda>ino. ino - (g * e4_INODES_PER_GROUP + 1)) (group_inodes ni g)) (zeros BLOCK_SIZE)"

definition e4_write_bitmaps :: "(ext4_state, unit) py" where
  "e4_write_bitmaps =
     py_seq (py_each (\<lambda>g.
       py_bind (py_get allocated_blocks) (\<lambda>al.
       py_bind (py_lift (e4_block_bitmap al g)) (\<lambda>bitmap. write_block (BB_START + g) bitmap))) [0..<NUM_GROUPS])
     (py_each (\<lambda>g.
       py_bind (py_get next_inode) (\<lambda>ni.
       py_bind (py_lift (e4_inode_bitmap ni g)) (\<lambda>bitmap. write_block (IB_START + g) bitmap))) [0..<NUM_GROUPS])"

section \<open>Group descriptors\<close>

definition free_blocks_in :: "nat set \<Rightarrow> nat \<Rightarrow> int" where
  "free_blocks_in allocated g =
     int e4_BLOCKS_PER_GROUP - int (length (filter (in_group g) (sorted_list_of_set allocated)))"

definition free_inodes_in :: "nat \<Rightarrow> nat \<Rightarrow> int" where
  "free_inodes_in ni g =
     (let group_ino_start = int g * int e4_INODES_PER_GROUP + 1;
          group_ino_end = (int g + 1) * int e4_INODES_PER_GROUP;
          used_inodes_g = (if g = 0 then min (int ni) (group_ino_end + 1) - 1
                           else max 0 (min (int ni) (group_ino_end + 1) - group_ino_start))
      in int e4_INODES_PER_GROUP - used_inodes_g)"

definition e4_bgd_stmts :: "nat \<Rightarrow> int \<Rightarrow> int \<Rightarrow> int \<Rightarrow> pack_stmt list" where
  "e4_bgd_stmts g free_blocks_g free_inodes_g used_dirs_g =
     [(0x00, [U 4 (int (BB_START + g))]), (0x04, [U 4 (int (IB_START + g))]),
      (0x08, [U 4 (int (IT_START + g * INODE_TABLE_BLOCKS_PER_GROUP))]),
      (0x0C, [U 2 (free_blocks_g AND 0xFFFF)]), (0x0E, [U 2 (free_inodes_g AND 0xFFFF)]),
      (0x10, [U 2 (used_dirs_g AND 0xFFFF)])]"

definition e4_bgd :: "bytes \<Rightarrow> nat \<Rightarrow> int \<Rightarrow> int \<Rightarrow> int \<Rightarrow> bytes result" where
  "e4_bgd fs_uuid g free_blocks_g free_inodes_g used_dirs_g =
     res_bind (pack_seq (e4_bgd_stmts g free_blocks_g free_inodes_g used_dirs_g) (zeros DESC_SIZE)) (\<lambda>bgd.
     res_bind (bgd_checksum bgd DESC_SIZE g fs_uuid) (\<lambda>csum.
     pack_into [U 2 (int csum)] 0x1E bgd))"

fun e4_bgdt :: "bytes \<Rightarrow> nat set \<Rightarrow> nat \<Rightarrow> int \<Rightarrow> nat list \<Rightarrow> bytes \<times> int \<times> int \<Rightarrow> (bytes \<times> int \<times> int) result" where
  "e4_bgdt fs_uuid al ni used_dirs [] acc = Inr acc"
| "e4_bgdt fs_uuid al ni used_dirs (g # gs) (data, total_free_blocks, total_free_inodes) =
     (let free_blocks_g = free_blocks_in al g;
          free_inodes_g = free_inodes_in ni g;
          used_dirs_g = (if g = 0 then used_dirs else 0) in
      res_bind (e4_bgd fs_uuid g free_blocks_g free_inodes_g used_dirs_g) (\<lambda>bgd.
      e4_bgdt fs_uuid al ni used_dirs gs
        (slice_set (g * DESC_SIZE) ((g + 1) * DESC_SIZE) bgd data,
         total_free_blocks + free_blocks_g, total_free_inodes + free_inodes_g)))"

definition e4_write_bgdt :: "bytes \<Rightarrow> bool \<Rightarrow> bool \<Rightarrow> (ext4_state, int \<times> int) py" where
  "e4_write_bgdt fs_uuid has_bin has_zig =
     py_bind (py_get tree_dirs_created) (\<lambda>td.
     let used_dirs = int (used_dirs_of has_bin has_zig td) in
     py_bind (py_get allocated_blocks) (\<lambda>al.
     py_bind (py_get next_inode) (\<lambda>ni.
     py_bind (py_lift (e4_bgdt fs_uuid al ni used_dirs [0..<NUM_GROUPS] (zeros BLOCK_SIZE, 0, 0)))
       (\<lambda>(bgd_block_data, total_free_blocks, total_free_inodes).
     py_seq (write_block BGDT_BLOCK bgd_block_data)
     (py_ret (total_free_blocks, total_free_inodes))))))"

section \<open>Superblock\<close>

definition COMPAT_HAS_JOURNAL :: int where "COMPAT_HAS_JOURNAL = 0x0004"
definition COMPAT_DIR_INDEX :: int where "COMPAT_DIR_INDEX = 0x0020"
definition INCOMPAT_FILETYPE :: int where "INCOMPAT_FILETYPE = 0x0002"
definition INCOMPAT_EXTENTS :: int where "INCOMPAT_EXTENTS = 0x0040"
definition INCOMPAT_64BIT :: int where "INCOMPAT_64BIT = 0x0080"
definition INCOMPAT_FLEX_BG :: int where "INCOMPAT_FLEX_BG = 0x0200"
definition RO_COMPAT_EXTRA_ISIZE :: int where "RO_COMPAT_EXTRA_ISIZE = 0x0040"
definition RO_COMPAT_METADATA_CSUM :: int where "RO_COMPAT_METADATA_CSUM = 0x0400"
definition RO_COMPAT_SPARSE_SUPER :: int where "RO_COMPAT_SPARSE_SUPER = 0x0001"
definition RO_COMPAT_LARGE_FILE :: int where "RO_COMPAT_LARGE_FILE = 0x0002"
definition RO_COMPAT_HUGE_FILE :: int where "RO_COMPAT_HUGE_FILE = 0x0008"

lemmas feature_defs = COMPAT_HAS_JOURNAL_def COMPAT_DIR_INDEX_def INCOMPAT_FILETYPE_def INCOMPAT_EXTENTS_def
  INCOMPAT_64BIT_def INCOMPAT_FLEX_BG_def RO_COMPAT_EXTRA_ISIZE_def RO_COMPAT_METADATA_CSUM_def
  RO_COMPAT_SPARSE_SUPER_def RO_COMPAT_LARGE_FILE_def RO_COMPAT_HUGE_FILE_def

text \<open>
  The statements in order; the assignments of a slice and of single bytes are written as packed
  fields of that width.  \<open>seed\<close> holds the four words read from the digest.
\<close>

definition e4_sb_stmts :: "int \<Rightarrow> bytes \<Rightarrow> int \<Rightarrow> int \<Rightarrow> nat list \<Rightarrow> pack_stmt list" where
  "e4_sb_stmts now fs_uuid total_free_blocks total_free_inodes seed =
     [(0, sb_fields TOTAL_INODES total_free_blocks total_free_inodes e4_BLOCKS_PER_GROUP
            e4_INODES_PER_GROUP now 1),
      (0x54, [U 4 11]), (0x58, [U 2 (int e4_INODE_SIZE)]),
      (0x5C, [U 4 (COMPAT_HAS_JOURNAL OR COMPAT_DIR_INDEX)]),
      (0x60, [U 4 (INCOMPAT_FILETYPE OR INCOMPAT_EXTENTS OR INCOMPAT_64BIT OR INCOMPAT_FLEX_BG)]),
      (0x64, [U 4 (RO_COMPAT_EXTRA_ISIZE OR RO_COMPAT_METADATA_CSUM OR RO_COMPAT_SPARSE_SUPER OR
                   RO_COMPAT_LARGE_FILE OR RO_COMPAT_HUGE_FILE)]),
      (0x68, [S 16 fs_uuid]), (0xE0, [U 4 8])] @
     map (\<lambda>i. (0xEC + i * 4, [U 4 (int (seed ! i))])) [0..<4] @
     [(0xFC, [U 1 1]), (0xFE, [U 2 (int DESC_SIZE)]), (0x104, [U 2 28]), (0x106, [U 2 28]), (0x174, [U 1 4])]"

definition hash_seed :: "bytes \<Rightarrow> nat list result" where
  "hash_seed digest =
     res_bind (unpack_from 4 digest 0) (\<lambda>a. res_bind (unpack_from 4 digest 4) (\<lambda>b.
     res_bind (unpack_from 4 digest 8) (\<lambda>c. res_bind (unpack_from 4 digest 12) (\<lambda>d. Inr [a, b, c, d]))))"

definition e4_write_superblock :: "(bytes \<Rightarrow> bytes) \<Rightarrow> int \<Rightarrow> bytes \<Rightarrow> int \<times> int \<Rightarrow> (ext4_state, unit) py" where
  "e4_write_superblock md5 now fs_uuid = (\<lambda>(total_free_blocks, total_free_inodes).
     py_bind (py_lift (hash_seed (md5 fs_uuid))) (\<lambda>seed.
     py_bind (py_lift (pack_seq (e4_sb_stmts now fs_uuid total_free_blocks total_free_inodes seed) (zeros 1024)))
       (\<lambda>sb. write_at 1024 sb)))"

definition e4_write_metadata :: "(bytes \<Rightarrow> bytes) \<Rightarrow> int \<Rightarrow> bytes \<Rightarrow> bool \<Rightarrow> bool \<Rightarrow> (ext4_state, unit) py" where
  "e4_write_metadata md5 now fs_uuid has_bin has_zig =
     py_seq e4_write_bitmaps
     (py_bind (e4_write_bgdt fs_uuid has_bin has_zig) (e4_write_superblock md5 now fs_uuid))"

section \<open>The bits\<close>

lemma bytes_eq_bits:
  assumes "length a = length b" and "\<And>j. j < 8 * length a \<Longrightarrow> bit_of a j \<longleftrightarrow> bit_of b j"
  shows "a = b"
proof (rule nth_equalityI[OF assms(1)])
  fix i assume i: "i < length a"
  have "bit (a ! i) k \<longleftrightarrow> bit (b ! i) k" if "k < 8" for k
  proof -
    have "8 * i + k < 8 * length a" "(8 * i + k) div 8 = i" "(8 * i + k) mod 8 = k" using i that by auto
    with assms(2)[of "8 * i + k"] show ?thesis by (simp add: bit_of_def)
  qed
  then show "a ! i = b ! i" by (intro bit_word_eqI) simp
qed

text \<open>The order in which the bits of a bitmap are set does not matter.\<close>

lemma set_bits_order:
  assumes "set is = set js" and "list_all (\<lambda>i. i < 8 * length bm) is"
  shows "set_bits is bm = set_bits js bm"
proof -
  have js: "list_all (\<lambda>i. i < 8 * length bm) js" using assms by (simp add: list_all_iff)
  from set_bits_run[OF assms(2)] obtain a where a: "set_bits is bm = Inr a" "length a = length bm"
    "\<forall>j. bit_of a j \<longleftrightarrow> bit_of bm j \<or> j \<in> set is" by blast
  from set_bits_run[OF js] obtain b where b: "set_bits js bm = Inr b" "length b = length bm"
    "\<forall>j. bit_of b j \<longleftrightarrow> bit_of bm j \<or> j \<in> set js" by blast
  have "a = b" using a b assms(1) by (intro bytes_eq_bits) auto
  with a(1) b(1) show ?thesis by simp
qed

lemma group_cap: "e4_BLOCKS_PER_GROUP = 8 * BLOCK_SIZE" "e4_INODES_PER_GROUP \<le> 8 * BLOCK_SIZE"
  by (simp_all add: layout)

lemma e4_block_bitmap_bits:
  obtains bm where "e4_block_bitmap {0..<nb} g = Inr bm" and "length bm = BLOCK_SIZE"
    and "\<forall>b < e4_BLOCKS_PER_GROUP. bit_of bm b \<longleftrightarrow> g * e4_BLOCKS_PER_GROUP + b < nb"
proof -
  let ?s = "g * e4_BLOCKS_PER_GROUP"
  let ?is = "map (\<lambda>b. b - ?s) (filter (in_group g) (sorted_list_of_set {0..<nb}))"
  have "list_all (\<lambda>i. i < 8 * length (zeros BLOCK_SIZE)) ?is"
    by (auto simp: list_all_iff in_group_def Let_def group_cap(1))
  from set_bits_run[OF this] obtain bm where bm: "e4_block_bitmap {0..<nb} g = Inr bm" "length bm = BLOCK_SIZE"
    "\<forall>j. bit_of bm j \<longleftrightarrow> bit_of (zeros BLOCK_SIZE) j \<or> j \<in> set ?is"
    by (auto simp: e4_block_bitmap_def Let_def)
  have "b \<in> set ?is \<longleftrightarrow> ?s + b < nb" if "b < e4_BLOCKS_PER_GROUP" for b
  proof -
    have "b \<in> set ?is" if "?s + b < nb"
      using that \<open>b < _\<close> by (auto simp: in_group_def Let_def intro!: image_eqI[of _ _ "?s + b"])
    then show ?thesis by (auto simp: in_group_def Let_def)
  qed
  then have "\<forall>b < e4_BLOCKS_PER_GROUP. bit_of bm b \<longleftrightarrow> ?s + b < nb"
    using bm(3) bit_of_zeros[of _ BLOCK_SIZE] by (simp add: group_cap(1))
  with bm(1,2) that show thesis by blast
qed

lemma group_inodes_mem:
  assumes "i < e4_INODES_PER_GROUP"
  shows "g * e4_INODES_PER_GROUP + 1 + i \<in> set (group_inodes ni g) \<longleftrightarrow> g * e4_INODES_PER_GROUP + i + 1 < ni"
proof -
  have "12 \<le> g * e4_INODES_PER_GROUP + 1" if "g \<noteq> 0"
    using mult_le_mono1[of 1 g e4_INODES_PER_GROUP] that by (simp add: layout)
  then show ?thesis using assms by (auto simp: group_inodes_def Let_def)
qed

lemma e4_inode_bitmap_bits:
  obtains bm where "e4_inode_bitmap ni g = Inr bm" and "length bm = BLOCK_SIZE"
    and "\<forall>i < e4_INODES_PER_GROUP. bit_of bm i \<longleftrightarrow> g * e4_INODES_PER_GROUP + i + 1 < ni"
proof -
  let ?s = "g * e4_INODES_PER_GROUP + 1"
  let ?is = "map (\<lambda>ino. ino - ?s) (group_inodes ni g)"
  have small: "?s \<le> ino \<and> ino - ?s < e4_INODES_PER_GROUP" if "ino \<in> set (group_inodes ni g)" for ino
    using that by (auto simp: group_inodes_def Let_def)
  then have "list_all (\<lambda>i. i < 8 * length (zeros BLOCK_SIZE)) ?is"
    using group_cap(2) by (force simp: list_all_iff)
  from set_bits_run[OF this] obtain bm where bm: "e4_inode_bitmap ni g = Inr bm" "length bm = BLOCK_SIZE"
    "\<forall>j. bit_of bm j \<longleftrightarrow> bit_of (zeros BLOCK_SIZE) j \<or> j \<in> set ?is"
    by (auto simp: e4_inode_bitmap_def)
  have "i \<in> set ?is \<longleftrightarrow> ?s + i \<in> set (group_inodes ni g)" for i
  proof -
    have "ino = ?s + i" if "ino \<in> set (group_inodes ni g)" "i = ino - ?s" for ino
      using small[OF that(1)] that(2) by simp
    then show ?thesis by (auto intro!: image_eqI[of _ _ "?s + i"])
  qed
  then have "\<forall>i < e4_INODES_PER_GROUP. bit_of bm i \<longleftrightarrow> g * e4_INODES_PER_GROUP + i + 1 < ni"
    using bm(3) bit_of_zeros[of _ BLOCK_SIZE] group_cap(2) group_inodes_mem[of _ g ni] by simp
  with bm(1,2) that show thesis by blast
qed

text \<open>The free counts are the numbers of clear bits.\<close>

lemma free_blocks_in_count: "free_blocks_in {0..<nb} g = int (e4_BLOCKS_PER_GROUP - (nb - g * e4_BLOCKS_PER_GROUP))"
proof -
  let ?s = "g * e4_BLOCKS_PER_GROUP"
  let ?l = "filter (in_group g) (sorted_list_of_set {0..<nb})"
  have "distinct ?l" by simp
  then have "length ?l = card (set ?l)" by (rule distinct_card[symmetric])
  moreover have "set ?l = {?s..<min nb (?s + e4_BLOCKS_PER_GROUP)}" by (auto simp: in_group_def Let_def)
  ultimately have "length ?l = min nb (?s + e4_BLOCKS_PER_GROUP) - ?s" by simp
  then show ?thesis by (simp add: free_blocks_in_def min_def)
qed

lemma free_inodes_in_count:
  "1 \<le> ni \<Longrightarrow> free_inodes_in ni g = int (e4_INODES_PER_GROUP - (ni - 1 - g * e4_INODES_PER_GROUP))"
  by (auto simp: free_inodes_in_def Let_def min_def max_def e4_INODES_PER_GROUP_def)

lemma clear_bits_group:
  assumes "\<forall>i < n. bit_of bm i \<longleftrightarrow> base + i < k"
  shows "clear_bits bm n = n - (k - base)"
  using assms by (intro clear_bits_below) auto

lemma sum_free_nat: "sum_list (map (\<lambda>g. n - (k - g * n)) [0..<m]) = m * n - (k :: nat)"
  by (induction m) simp_all

lemma sum_free: "sum_list (map (\<lambda>g. int (n - (k - g * n))) [0..<m]) = int (m * n - k)"
proof (induction m)
  case (Suc m)
  have "m * n - k + (n - (k - m * n)) = Suc m * n - k" by simp
  then show ?case using Suc.IH by (simp flip: of_nat_add)
qed simp

section \<open>Descriptors\<close>

lemma and_ones_16_nat: "x AND 0xFFFF = x mod 2 ^ 16" for x :: nat
  using take_bit_eq_mask[of 16 x] by (simp add: take_bit_eq_mod mask_eq_exp_minus_1)

lemma bgd_checksum_eq:
  assumes "length d = 64" and "g < 2 ^ 32"
  shows "bgd_checksum d DESC_SIZE g uuid =
    Inr (crc32c_finalize (crc32c_update 0xFFFFFFFF (uuid @ le_bytes 4 g @ put_at 0x1E (zeros 2) d)) AND 0xFFFF)"
  using assms
  by (simp add: bgd_checksum_def DESC_SIZE_def Let_def pack_le_def put_at_def crc32c_update_append del: le_bytes.simps)

lemma e4_bgd_run:
  assumes g: "g < NUM_GROUPS"
  obtains d where "e4_bgd uuid g fb fi dirs = Inr d" and "length d = DESC_SIZE"
    and "sub d 0 4 = le_bytes 4 (BB_START + g)" and "sub d 4 4 = le_bytes 4 (IB_START + g)"
    and "sub d 8 4 = le_bytes 4 (IT_START + g * INODE_TABLE_BLOCKS_PER_GROUP)"
    and "sub d 12 2 = le_bytes 2 (nat (fb mod 2 ^ 16))" and "sub d 14 2 = le_bytes 2 (nat (fi mod 2 ^ 16))"
    and "bgd_checksum d DESC_SIZE g uuid = Inr (u16_at d 0x1E)"
proof -
  let ?ps = "e4_bgd_stmts g fb fi dirs"
  have g8: "g < 8" using g by (simp add: layout)
  have ok: "list_all (stmt_ok 64) ?ps" and od: "stmts_ordered 0 ?ps"
    using g8 unfolding e4_bgd_stmts_def and_ones_16 by (simp_all add: stmt_ok_def layout)
  define d0 where "d0 = apply_writes (pack_log ?ps) (zeros 64)"
  have run0: "pack_seq ?ps (zeros DESC_SIZE) = Inr d0"
    unfolding d0_def DESC_SIZE_def using ok by (intro pack_seq_run) simp
  have len0: "length d0 = 64" unfolding d0_def using pack_log_in_range[OF ok] by simp
  define c where "c = crc32c_finalize (crc32c_update 0xFFFFFFFF (uuid @ le_bytes 4 g @ put_at 0x1E (zeros 2) d0)) AND 0xFFFF"
  have cs: "bgd_checksum d0 DESC_SIZE g uuid = Inr c"
    unfolding c_def using g8 by (intro bgd_checksum_eq[OF len0]) simp
  have c16: "c < 2 ^ 16" unfolding c_def and_ones_16_nat by simp
  define d where "d = put_at 0x1E (le_bytes 2 c) d0"
  have ld: "length d = 64" using len0 by (simp add: d_def)
  have run: "e4_bgd uuid g fb fi dirs = Inr d"
    unfolding e4_bgd_def run0 res_bind_simps cs
    using c16 len0 by (subst pack_into_run) (simp_all add: stmt_ok_def fields_bytes_def d_def)
  have keep: "sub d o' m = sub d0 o' m" if "o' + m \<le> 0x1E" for o' m
    using that len0 unfolding d_def by (simp add: sub_put_at_disjoint)
  have "u16_at d 0x1E = c"
    using sub_put_at_same[of "0x1E" "le_bytes 2 c" d0] len0 c16 by (simp add: u16_at_def d_def)
  moreover have "put_at 0x1E (zeros 2) d = put_at 0x1E (zeros 2) d0" unfolding d_def using len0 by (intro put_at_overwrite) simp_all
  ultimately have ck: "bgd_checksum d DESC_SIZE g uuid = Inr (u16_at d 0x1E)"
    using bgd_checksum_eq[OF ld, of g uuid] g8 by (simp add: c_def)
  have f: "sub d0 pos n = field_le (fs ! 0)"
    if "j < length ?ps" "?ps ! j = (pos, fs)" "fs \<noteq> []" "n = field_size (fs ! 0)" "list_all (clear_of pos n) (drop (Suc j) ?ps)"
    for j pos fs n
    unfolding d0_def using pack_seq_nth[OF _ that(1,2), of "zeros 64" 0 pos n] ok that by simp
  note defs = e4_bgd_stmts_def clear_of_def and_ones_16
  have "sub d0 0 4 = le_bytes 4 (BB_START + g)" "sub d0 4 4 = le_bytes 4 (IB_START + g)"
    "sub d0 8 4 = le_bytes 4 (IT_START + g * INODE_TABLE_BLOCKS_PER_GROUP)"
    "sub d0 12 2 = le_bytes 2 (nat (fb mod 2 ^ 16))" "sub d0 14 2 = le_bytes 2 (nat (fi mod 2 ^ 16))"
    using f[of 0 0 "[U 4 (int (BB_START + g))]" 4] f[of 1 4 "[U 4 (int (IB_START + g))]" 4]
      f[of 2 8 "[U 4 (int (IT_START + g * INODE_TABLE_BLOCKS_PER_GROUP))]" 4]
      f[of 3 12 "[U 2 (fb AND 0xFFFF)]" 2] f[of 4 14 "[U 2 (fi AND 0xFFFF)]" 2]
    by (simp_all add: defs nat_add_distrib nat_mult_distrib)
  with keep that[OF run _ _ _ _ _ _ ck] ld show thesis by (simp add: DESC_SIZE_def)
qed

section \<open>Running the phase\<close>

text \<open>A loop that computes one block per group and writes it.\<close>

lemma each_block_run:
  fixes s :: "'a core_scheme"
  assumes "\<And>g u. g \<in> set gs \<Longrightarrow> P u \<Longrightarrow> f g u = write_block (base + g) (d g) u"
    and "\<And>h u. P u \<Longrightarrow> P (img_update h u)" and "P s"
    and "\<And>g. g \<in> set gs \<Longrightarrow> length (d g) = BLOCK_SIZE"
  shows "py_each f gs s = Inr ((), img_update (apply_writes (block_log (map (\<lambda>g. (base + g, d g)) gs))) s)"
  using assms
proof (induction gs arbitrary: s)
  case (Cons g gs)
  let ?s = "img_update (put_at ((base + g) * BLOCK_SIZE) (d g)) s"
  have g: "f g s = Inr ((), ?s)" using Cons.prems(1,3,4) by (simp add: write_block_run)
  have "py_each f gs ?s = Inr ((), img_update (apply_writes (block_log (map (\<lambda>g. (base + g, d g)) gs))) ?s)"
    using Cons.prems by (intro Cons.IH) auto
  then show ?case using g by (simp add: py_seq_run block_log_Cons comp_def)
qed simp

lemma e4_bgdt_run:
  assumes "\<And>g. g \<in> set gs \<Longrightarrow>
      e4_bgd uuid g (free_blocks_in al g) (free_inodes_in ni g) (if g = 0 then dirs else 0) = Inr (D g) \<and> length (D g) = DESC_SIZE"
  shows "e4_bgdt uuid al ni dirs gs (data, tb, ti) =
    Inr (apply_writes (map (\<lambda>g. (g * DESC_SIZE, D g)) gs) data, tb + sum_list (map (free_blocks_in al) gs),
      ti + sum_list (map (free_inodes_in ni) gs))"
  using assms
proof (induction gs arbitrary: data tb ti)
  case (Cons g gs)
  have g: "e4_bgd uuid g (free_blocks_in al g) (free_inodes_in ni g) (if g = 0 then dirs else 0) = Inr (D g)"
    "length (D g) = DESC_SIZE" using Cons.prems[of g] by auto
  have IH: "e4_bgdt uuid al ni dirs gs (data', tb', ti') =
    Inr (apply_writes (map (\<lambda>g. (g * DESC_SIZE, D g)) gs) data', tb' + sum_list (map (free_blocks_in al) gs),
      ti' + sum_list (map (free_inodes_in ni) gs))" for data' tb' ti'
    using Cons.prems by (intro Cons.IH) auto
  have "slice_set (g * DESC_SIZE) ((g + 1) * DESC_SIZE) (D g) data = put_at (g * DESC_SIZE) (D g) data"
    by (simp add: put_at_def g(2) add.commute)
  then show ?case by (simp add: Let_def g(1) IH add.assoc)
qed simp

text \<open>The table of descriptors.\<close>

lemma bgdt_view:
  assumes "\<And>g. g < NUM_GROUPS \<Longrightarrow> length (D g) = DESC_SIZE"
  defines "T \<equiv> apply_writes (map (\<lambda>g. (g * DESC_SIZE, D g)) [0..<NUM_GROUPS]) (zeros BLOCK_SIZE)"
  shows "length T = BLOCK_SIZE" and "g < NUM_GROUPS \<Longrightarrow> k + n \<le> DESC_SIZE \<Longrightarrow> sub T (g * DESC_SIZE + k) n = sub (D g) k n"
proof -
  let ?ws = "map (\<lambda>g. (g * DESC_SIZE, D g)) [0..<NUM_GROUPS]"
  have "g * DESC_SIZE + DESC_SIZE \<le> BLOCK_SIZE" if "g < NUM_GROUPS" for g using that by (simp add: layout)
  then have rg: "list_all (in_range (length (zeros BLOCK_SIZE))) ?ws" using assms(1) by (auto simp: list_all_iff in_range_def)
  have ap: "sorted_wrt apart ?ws"
    unfolding sorted_wrt_map using assms(1)
    by (intro sorted_wrt_mono_rel[OF _ sorted_wrt_upt]) (auto simp: apart_def DESC_SIZE_def)
  show "length T = BLOCK_SIZE" unfolding T_def using rg by simp
  show "sub T (g * DESC_SIZE + k) n = sub (D g) k n" if "g < NUM_GROUPS" "k + n \<le> DESC_SIZE"
    unfolding T_def using that assms(1) by (intro sub_apply_writes_inside[OF rg ap]) auto
qed

lemma hash_seed_run:
  assumes "length digest = 16"
  obtains seed where "hash_seed digest = Inr seed" and "length seed = 4" and "\<And>i. i < 4 \<Longrightarrow> seed ! i < 2 ^ 32"
proof -
  have "le_val (sub digest k 4) < 2 ^ 32" if "k + 4 \<le> 16" for k
    using le_val_less[of "sub digest k 4"] that assms by simp
  moreover have "hash_seed digest = Inr (map (\<lambda>i. le_val (sub digest (i * 4) 4)) [0..<4])"
    using assms by (simp add: hash_seed_def unpack_from_def upt_rec)
  ultimately show thesis using that[of "map (\<lambda>i. le_val (sub digest (i * 4) 4)) [0..<4]"] by simp
qed

lemma e4_sb_ok:
  assumes "clock_ok now" "0 \<le> fb" "fb < 2 ^ 32" "0 \<le> fi" "fi < 2 ^ 32" and "\<And>i. i < 4 \<Longrightarrow> seed ! i < 2 ^ 32"
  shows "list_all (stmt_ok 1024) (e4_sb_stmts now uuid fb fi seed)"
  using assms by (simp add: e4_sb_stmts_def sb_fields_def stmt_ok_def clock_ok_def feature_defs layout list_all_iff)

lemma e4_sb_read:
  assumes "clock_ok now" "0 \<le> fb" "fb < 2 ^ 32" "0 \<le> fi" "fi < 2 ^ 32" "length uuid = 16"
    and "\<And>i. i < 4 \<Longrightarrow> seed ! i < 2 ^ 32"
  defines "sb \<equiv> sb_bytes (e4_sb_stmts now uuid fb fi seed)"
  shows "length sb = 1024" "sub sb 12 4 = le_bytes 4 (nat fb)" "sub sb 16 4 = le_bytes 4 (nat fi)"
    and "sub sb 56 2 = le_bytes 2 0xEF53" "sub sb 88 2 = le_bytes 2 256" "sub sb 96 4 = le_bytes 4 0x2C2"
    and "sub sb 104 16 = uuid" "sub sb 224 4 = le_bytes 4 8" "sub sb 254 2 = le_bytes 2 64"
proof -
  let ?ps = "e4_sb_stmts now uuid fb fi seed"
  note ok = e4_sb_ok[OF assms(1-5,7), of uuid]
  show "length sb = 1024" unfolding sb_def sb_bytes_def using pack_log_in_range[OF ok] by simp
  have f: "sub sb pos n = field_le (fs ! k)"
    if "j < length ?ps" "?ps ! j = (off, fs)" "k < length fs" "pos = off + fields_size (take k fs)"
      "n = field_size (fs ! k)" "list_all (clear_of pos n) (drop (Suc j) ?ps)" for j off fs k pos n
    unfolding sb_def sb_bytes_def using pack_seq_nth[OF _ that] ok by simp
  let ?b = "sb_fields TOTAL_INODES fb fi e4_BLOCKS_PER_GROUP e4_INODES_PER_GROUP now 1"
  note defs = e4_sb_stmts_def sb_fields_def clear_of_def upt_rec
  have "sub sb 12 4 = field_le (?b ! 3)" by (rule f[of 0 0 ?b 3 12 4]) (simp_all add: defs)
  then show "sub sb 12 4 = le_bytes 4 (nat fb)" by (simp add: sb_fields_def)
  have "sub sb 16 4 = field_le (?b ! 4)" by (rule f[of 0 0 ?b 4 16 4]) (simp_all add: defs)
  then show "sub sb 16 4 = le_bytes 4 (nat fi)" by (simp add: sb_fields_def)
  have "sub sb 56 2 = field_le (?b ! 15)" by (rule f[of 0 0 ?b 15 56 2]) (simp_all add: defs)
  then show "sub sb 56 2 = le_bytes 2 0xEF53" by (simp add: sb_fields_def layout)
  have "sub sb 88 2 = field_le ([U 2 (int e4_INODE_SIZE)] ! 0)" by (rule f[of 2 88 _ 0]) (simp_all add: defs)
  then show "sub sb 88 2 = le_bytes 2 256" by (simp add: layout)
  have "sub sb 96 4 = field_le ([U 4 (INCOMPAT_FILETYPE OR INCOMPAT_EXTENTS OR INCOMPAT_64BIT OR INCOMPAT_FLEX_BG)] ! 0)"
    by (rule f[of 4 96 _ 0]) (simp_all add: defs)
  then show "sub sb 96 4 = le_bytes 4 0x2C2" by (simp add: feature_defs)
  have "sub sb 104 16 = field_le ([S 16 uuid] ! 0)" by (rule f[of 6 104 _ 0]) (simp_all add: defs)
  then show "sub sb 104 16 = uuid" using assms(6) by simp
  have "sub sb 224 4 = field_le ([U 4 8] ! 0)" by (rule f[of 7 224 _ 0]) (simp_all add: defs)
  then show "sub sb 224 4 = le_bytes 4 8" by simp
  have "sub sb 254 2 = field_le ([U 2 (int DESC_SIZE)] ! 0)" by (rule f[of 13 254 _ 0]) (simp_all add: defs)
  then show "sub sb 254 2 = le_bytes 2 64" by (simp add: layout)
qed

text \<open>The blocks the phase writes.\<close>

definition meta4_log :: "(nat \<Rightarrow> bytes) \<Rightarrow> (nat \<Rightarrow> bytes) \<Rightarrow> bytes \<Rightarrow> (nat \<times> bytes) list" where
  "meta4_log bb ib T =
     map (\<lambda>g. (BB_START + g, bb g)) [0..<NUM_GROUPS] @ map (\<lambda>g. (IB_START + g, ib g)) [0..<NUM_GROUPS] @
     [(BGDT_BLOCK, T)]"

lemma meta4_log_blocks:
  assumes "\<And>g. g < NUM_GROUPS \<Longrightarrow> length (bb g) = BLOCK_SIZE" "\<And>g. g < NUM_GROUPS \<Longrightarrow> length (ib g) = BLOCK_SIZE"
    and "length T = BLOCK_SIZE"
  shows "(b, c) \<in> set (meta4_log bb ib T) \<Longrightarrow> 1 \<le> b \<and> b < IT_START \<and> length c = BLOCK_SIZE"
    and "distinct (map fst (meta4_log bb ib T))"
  using assms by (auto simp: meta4_log_def layout distinct_map inj_on_def comp_def)

lemma e4_write_metadata_run:
  assumes al: "allocated_blocks s = {0..<next_block s}" and md5: "length (digest uuid) = 16"
    and sb: "\<And>seed. (\<And>i. i < 4 \<Longrightarrow> seed ! i < 2 ^ 32) \<Longrightarrow> list_all (stmt_ok 1024) (e4_sb_stmts now uuid
      (sum_list (map (free_blocks_in {0..<next_block s}) [0..<NUM_GROUPS]))
      (sum_list (map (free_inodes_in (next_inode s)) [0..<NUM_GROUPS])) seed)"
    and bb: "\<And>g. g < NUM_GROUPS \<Longrightarrow> e4_block_bitmap {0..<next_block s} g = Inr (bb g) \<and> length (bb g) = BLOCK_SIZE"
    and ib: "\<And>g. g < NUM_GROUPS \<Longrightarrow> e4_inode_bitmap (next_inode s) g = Inr (ib g) \<and> length (ib g) = BLOCK_SIZE"
    and D: "\<And>g. g < NUM_GROUPS \<Longrightarrow> e4_bgd uuid g (free_blocks_in {0..<next_block s} g) (free_inodes_in (next_inode s) g)
      (if g = 0 then int (used_dirs_of has_bin has_zig (tree_dirs_created s)) else 0) = Inr (D g) \<and> length (D g) = DESC_SIZE"
  obtains seed where "\<forall>i < 4. seed ! i < 2 ^ 32"
    and "e4_write_metadata digest now uuid has_bin has_zig s = Inr ((), img_update (apply_writes (block_log (meta4_log bb ib
       (apply_writes (map (\<lambda>g. (g * DESC_SIZE, D g)) [0..<NUM_GROUPS]) (zeros BLOCK_SIZE))) @
       [(1024, sb_bytes (e4_sb_stmts now uuid (sum_list (map (free_blocks_in {0..<next_block s}) [0..<NUM_GROUPS]))
         (sum_list (map (free_inodes_in (next_inode s)) [0..<NUM_GROUPS])) seed))])) s)"
proof -
  let ?T = "apply_writes (map (\<lambda>g. (g * DESC_SIZE, D g)) [0..<NUM_GROUPS]) (zeros BLOCK_SIZE)"
  let ?fb = "sum_list (map (free_blocks_in {0..<next_block s}) [0..<NUM_GROUPS])"
  let ?fi = "sum_list (map (free_inodes_in (next_inode s)) [0..<NUM_GROUPS])"
  let ?G = "[0..<NUM_GROUPS]"
  let ?s1 = "img_update (apply_writes (block_log (map (\<lambda>g. (BB_START + g, bb g)) ?G))) s"
  let ?s2 = "img_update (apply_writes (block_log (map (\<lambda>g. (IB_START + g, ib g)) ?G))) ?s1"
  obtain seed where seed: "hash_seed (digest uuid) = Inr seed" "\<And>i. i < 4 \<Longrightarrow> seed ! i < 2 ^ 32"
    using hash_seed_run[OF md5] by metis
  have p: "pack_seq (e4_sb_stmts now uuid ?fb ?fi seed) (zeros 1024) = Inr (sb_bytes (e4_sb_stmts now uuid ?fb ?fi seed))"
    unfolding sb_bytes_def using sb[OF seed(2)] by (intro pack_seq_run) simp
  have lT: "length ?T = BLOCK_SIZE" using D by (intro bgdt_view(1)) blast
  have b1: "py_each (\<lambda>g. py_bind (py_get allocated_blocks) (\<lambda>al. py_bind (py_lift (e4_block_bitmap al g))
       (\<lambda>bitmap. write_block (BB_START + g) bitmap))) ?G s = Inr ((), ?s1)"
    by (rule each_block_run[where P = "\<lambda>u. allocated_blocks u = {0..<next_block s}"])
      (use al bb in \<open>auto simp: py_bind_run\<close>)
  have b2: "py_each (\<lambda>g. py_bind (py_get next_inode) (\<lambda>ni. py_bind (py_lift (e4_inode_bitmap ni g))
       (\<lambda>bitmap. write_block (IB_START + g) bitmap))) ?G ?s1 = Inr ((), ?s2)"
    by (rule each_block_run[where P = "\<lambda>u. next_inode u = next_inode s"]) (use ib in \<open>auto simp: py_bind_run\<close>)
  have bm: "e4_write_bitmaps s = Inr ((), ?s2)"
    unfolding e4_write_bitmaps_def using b1 b2 by (simp add: py_seq_run)
  have tb: "e4_bgdt uuid {0..<next_block s} (next_inode s) (int (used_dirs_of has_bin has_zig (tree_dirs_created s))) ?G
      (zeros BLOCK_SIZE, 0, 0) = Inr (?T, ?fb, ?fi)"
    using e4_bgdt_run[of ?G uuid "{0..<next_block s}" "next_inode s" _ D "zeros BLOCK_SIZE" 0 0] D by simp
  have "e4_write_metadata digest now uuid has_bin has_zig s = Inr ((), img_update (apply_writes (block_log (meta4_log bb ib ?T) @
       [(1024, sb_bytes (e4_sb_stmts now uuid ?fb ?fi seed))])) s)"
    using bm tb al lT seed(1) p
    by (simp add: e4_write_metadata_def e4_write_bgdt_def e4_write_superblock_def py_seq_run py_bind_run Let_def
        write_block_run write_at_run meta4_log_def block_log_append block_log_Cons apply_writes_comp comp_def)
  with seed(2) that show thesis by blast
qed

section \<open>What the image holds\<close>

text \<open>
  A consistent group: its descriptor verifies, points at two bitmaps and at the group's part of
  the inode table, the bits are the blocks below \<open>nb\<close> and the inodes below \<open>ni\<close>, and the free
  counts are the numbers of clear bits.
\<close>

definition group_valid :: "bytes \<Rightarrow> bytes \<Rightarrow> nat \<Rightarrow> nat \<Rightarrow> nat \<Rightarrow> bool" where
  "group_valid fs_uuid im nb ni g \<longleftrightarrow>
     (let d = BGDT_BLOCK * BLOCK_SIZE + g * DESC_SIZE;
          bb = block_at im (u32_at im d); ib = block_at im (u32_at im (d + 4)) in
      bgd_checksum (sub im d DESC_SIZE) DESC_SIZE g fs_uuid = Inr (u16_at im (d + 0x1E)) \<and>
      u32_at im (d + 8) * BLOCK_SIZE = inode_table_offset (g * e4_INODES_PER_GROUP + 1) \<and>
      (\<forall>b < e4_BLOCKS_PER_GROUP. bit_of bb b \<longleftrightarrow> g * e4_BLOCKS_PER_GROUP + b < nb) \<and>
      (\<forall>i < e4_INODES_PER_GROUP. bit_of ib i \<longleftrightarrow> g * e4_INODES_PER_GROUP + i + 1 < ni) \<and>
      u16_at im (d + 12) = clear_bits bb e4_BLOCKS_PER_GROUP \<and>
      u16_at im (d + 14) = clear_bits ib e4_INODES_PER_GROUP)"

lemma group_valid_written:
  assumes g: "g < NUM_GROUPS" and T: "block_at im BGDT_BLOCK = T" "\<And>k n. k + n \<le> DESC_SIZE \<Longrightarrow> sub T (g * DESC_SIZE + k) n = sub d k n"
    and d: "length d = DESC_SIZE" "sub d 0 4 = le_bytes 4 (BB_START + g)" "sub d 4 4 = le_bytes 4 (IB_START + g)"
    "sub d 8 4 = le_bytes 4 (IT_START + g * INODE_TABLE_BLOCKS_PER_GROUP)"
    "sub d 12 2 = le_bytes 2 (nat (free_blocks_in {0..<nb} g mod 2 ^ 16))"
    "sub d 14 2 = le_bytes 2 (nat (free_inodes_in ni g mod 2 ^ 16))"
    "bgd_checksum d DESC_SIZE g uuid = Inr (u16_at d 0x1E)"
    and bb: "\<forall>b < e4_BLOCKS_PER_GROUP. bit_of (block_at im (BB_START + g)) b \<longleftrightarrow> g * e4_BLOCKS_PER_GROUP + b < nb"
    and ib: "\<forall>i < e4_INODES_PER_GROUP. bit_of (block_at im (IB_START + g)) i \<longleftrightarrow> g * e4_INODES_PER_GROUP + i + 1 < ni"
    and ni: "1 \<le> ni"
  shows "group_valid uuid im nb ni g"
proof -
  let ?o = "BGDT_BLOCK * BLOCK_SIZE + g * DESC_SIZE"
  have at: "sub im (?o + k) n = sub d k n" if "k + n \<le> DESC_SIZE" for k n
  proof -
    have "g * DESC_SIZE + k + n \<le> BLOCK_SIZE" using g that by (simp add: layout)
    then show ?thesis
      using T(1) T(2)[OF that] sub_sub[of "g * DESC_SIZE + k" n BLOCK_SIZE im "BGDT_BLOCK * BLOCK_SIZE"]
      by (simp add: block_at_def add.assoc)
  qed
  have g8: "g < 8" using g by (simp add: layout)
  have p: "u32_at im ?o = BB_START + g" "u32_at im (?o + 4) = IB_START + g"
    "u32_at im (?o + 8) = IT_START + g * INODE_TABLE_BLOCKS_PER_GROUP"
    using at[of 0 4] at[of 4 4] at[of 8 4] d(2-4) g8 by (simp_all add: u32_at_def layout)
  have n: "e4_BLOCKS_PER_GROUP - x < 2 ^ 16" "e4_INODES_PER_GROUP - x < 2 ^ 16" for x by (simp_all add: layout)
  have f: "u16_at im (?o + 12) = e4_BLOCKS_PER_GROUP - (nb - g * e4_BLOCKS_PER_GROUP)"
    "u16_at im (?o + 14) = e4_INODES_PER_GROUP - (ni - 1 - g * e4_INODES_PER_GROUP)"
    using at[of 12 2] at[of 14 2] d(5,6) n free_inodes_in_count[OF ni, of g]
    by (simp_all add: u16_at_def free_blocks_in_count layout nat_mod_distrib flip: of_nat_diff del: of_nat_diff)
  have "sub im ?o DESC_SIZE = d" using at[of 0 DESC_SIZE] d(1) by (simp add: sub_def[of d])
  moreover have "u16_at im (?o + 0x1E) = u16_at d 0x1E" using at[of "0x1E" 2] by (simp add: u16_at_def layout)
  moreover have "clear_bits (block_at im (BB_START + g)) e4_BLOCKS_PER_GROUP = e4_BLOCKS_PER_GROUP - (nb - g * e4_BLOCKS_PER_GROUP)"
    using bb by (rule clear_bits_group)
  moreover have "clear_bits (block_at im (IB_START + g)) e4_INODES_PER_GROUP = e4_INODES_PER_GROUP - (ni - (g * e4_INODES_PER_GROUP + 1))"
    using ib by (intro clear_bits_group) (simp add: add.commute)
  moreover have "(IT_START + g * INODE_TABLE_BLOCKS_PER_GROUP) * BLOCK_SIZE = inode_table_offset (g * e4_INODES_PER_GROUP + 1)"
    by (simp add: inode_table_offset_def Let_def layout)
  ultimately show ?thesis using p f d(7) bb ib by (simp add: group_valid_def Let_def)
qed

lemma group_valid_counts:
  assumes "group_valid uuid im nb ni g"
  shows "u16_at im (BGDT_BLOCK * BLOCK_SIZE + g * DESC_SIZE + 12) = e4_BLOCKS_PER_GROUP - (nb - g * e4_BLOCKS_PER_GROUP)"
    and "u16_at im (BGDT_BLOCK * BLOCK_SIZE + g * DESC_SIZE + 14) = e4_INODES_PER_GROUP - (ni - 1 - g * e4_INODES_PER_GROUP)"
proof -
  let ?d = "BGDT_BLOCK * BLOCK_SIZE + g * DESC_SIZE"
  have v: "\<forall>b < e4_BLOCKS_PER_GROUP. bit_of (block_at im (u32_at im ?d)) b \<longleftrightarrow> g * e4_BLOCKS_PER_GROUP + b < nb"
    "\<forall>i < e4_INODES_PER_GROUP. bit_of (block_at im (u32_at im (?d + 4))) i \<longleftrightarrow> (g * e4_INODES_PER_GROUP + 1) + i < ni"
    "u16_at im (?d + 12) = clear_bits (block_at im (u32_at im ?d)) e4_BLOCKS_PER_GROUP"
    "u16_at im (?d + 14) = clear_bits (block_at im (u32_at im (?d + 4))) e4_INODES_PER_GROUP"
    using assms by (simp_all add: group_valid_def Let_def)
  show "u16_at im (?d + 12) = e4_BLOCKS_PER_GROUP - (nb - g * e4_BLOCKS_PER_GROUP)"
    "u16_at im (?d + 14) = e4_INODES_PER_GROUP - (ni - 1 - g * e4_INODES_PER_GROUP)"
    unfolding v(3,4) using clear_bits_group[OF v(1)] clear_bits_group[OF v(2)] by simp_all
qed

definition superblock_valid :: "bytes \<Rightarrow> bytes \<Rightarrow> nat \<Rightarrow> nat \<Rightarrow> bool" where
  "superblock_valid fs_uuid im free_blocks free_inodes \<longleftrightarrow>
     u16_at im (1024 + 56) = 0xEF53 \<and> u16_at im (1024 + 88) = e4_INODE_SIZE \<and>
     u32_at im (1024 + 96) = 0x2C2 \<and> sub im (1024 + 104) 16 = fs_uuid \<and>
     u32_at im (1024 + 224) = 8 \<and> u16_at im (1024 + 254) = DESC_SIZE \<and>
     u32_at im (1024 + 12) = free_blocks \<and> u32_at im (1024 + 16) = free_inodes"

lemma superblock_written:
  assumes "\<And>k n. k + n \<le> 1024 \<Longrightarrow> sub im (1024 + k) n = sub (sb_bytes (e4_sb_stmts now uuid (int fb) (int fi) seed)) k n"
    and "clock_ok now" "fb < 2 ^ 32" "fi < 2 ^ 32" "length uuid = 16" "\<And>i. i < 4 \<Longrightarrow> seed ! i < 2 ^ 32"
  shows "superblock_valid uuid im fb fi"
proof -
  have "int fb < 2 ^ 32" "int fi < 2 ^ 32" using assms(3,4) by simp_all
  note r = e4_sb_read[OF assms(2) _ this(1) _ this(2) assms(5,6), simplified]
  note sb = assms(1)
  have "u16_at im (1024 + 56) = 0xEF53" "u16_at im (1024 + 88) = e4_INODE_SIZE" "u16_at im (1024 + 254) = DESC_SIZE"
    using sb[of 56 2] sb[of 88 2] sb[of 254 2] r(4,5,9) by (simp_all add: u16_at_def layout)
  moreover have "u32_at im (1024 + 96) = 0x2C2" "sub im (1024 + 104) 16 = uuid" "u32_at im (1024 + 224) = 8"
    using sb[of 96 4] sb[of 104 16] sb[of 224 4] r(6-8) by (simp_all add: u32_at_def)
  moreover have "u32_at im (1024 + 12) = fb" "u32_at im (1024 + 16) = fi"
    using sb[of 12 4] sb[of 16 4] r(2,3) assms(3,4) by (simp_all add: u32_at_def)
  ultimately show ?thesis by (simp add: superblock_valid_def)
qed

text \<open>The phase writes below the inode tables only.\<close>

lemma meta4_agrees:
  assumes rng: "list_all (in_range (length im)) (block_log bds @ [(1024, sb)])" and sb: "length sb = 1024"
    and bds: "\<And>b c. (b, c) \<in> set bds \<Longrightarrow> b < IT_START \<and> length c = BLOCK_SIZE"
  shows "agrees METADATA_END inode_table_offset e4_INODE_SIZE im (apply_writes (block_log bds @ [(1024, sb)]) im)
    TOTAL_BLOCKS {1..TOTAL_INODES}"
proof -
  let ?F = "apply_writes (block_log bds @ [(1024, sb)]) im"
  have "same_range im ?F (IT_START * BLOCK_SIZE) (TOTAL_BLOCKS * BLOCK_SIZE)"
  proof (rule apply_writes_same_range[OF rng])
    fix v assume "v \<in> set (block_log bds @ [(1024, sb)])"
    then consider b c where "(b, c) \<in> set bds" "v = (b * BLOCK_SIZE, c)" | "v = (1024, sb)"
      by (auto simp: block_log_def)
    then show "TOTAL_BLOCKS * BLOCK_SIZE \<le> fst v \<or> fst v + length (snd v) \<le> IT_START * BLOCK_SIZE"
    proof cases
      case 1
      then show ?thesis using bds[OF 1(1)] mult_le_mono1[of "Suc b" IT_START BLOCK_SIZE] by simp
    next
      case 2
      then show ?thesis using sb by (simp add: layout)
    qed
  qed
  note fr = this
  have "sub ?F (inode_table_offset i) e4_INODE_SIZE = sub im (inode_table_offset i) e4_INODE_SIZE" if "i \<in> {1..TOTAL_INODES}" for i
  proof (rule same_range_sub[OF fr])
    show "IT_START * BLOCK_SIZE \<le> inode_table_offset i" by (simp add: inode_table_offset_eq)
    have "METADATA_END * BLOCK_SIZE \<le> TOTAL_BLOCKS * BLOCK_SIZE" by (rule mult_le_mono1) (simp add: layout)
    with inode_table_offset_bound[of i] that show "inode_table_offset i + e4_INODE_SIZE \<le> TOTAL_BLOCKS * BLOCK_SIZE"
      by (meson atLeastAtMost_iff order.trans)
  qed
  moreover have "IT_START * BLOCK_SIZE \<le> METADATA_END * BLOCK_SIZE" by (rule mult_le_mono1) (simp add: METADATA_END_def)
  ultimately show ?thesis using fr rng unfolding agrees_def by (auto intro: same_range_narrow)
qed

lemma e4_metadata_law:
  assumes s: "e4_tree_ready now s" and nb: "next_block s \<le> TOTAL_BLOCKS" and ni: "next_inode s \<le> TOTAL_INODES + 1"
    and uuid: "length uuid = 16" "length (md5 uuid) = 16"
  shows "\<exists>t. e4_write_metadata md5 now uuid has_bin has_zig s = Inr ((), t) \<and> full_image t \<and>
    (\<forall>g < NUM_GROUPS. group_valid uuid (img t) (next_block s) (next_inode s) g) \<and>
    superblock_valid uuid (img t) (TOTAL_BLOCKS - next_block s) (TOTAL_INODES - (next_inode s - 1)) \<and>
    agrees METADATA_END inode_table_offset e4_INODE_SIZE (img s) (img t) TOTAL_BLOCKS {1..TOTAL_INODES}"
proof -
  let ?nb = "next_block s" and ?ni = "next_inode s" and ?G = NUM_GROUPS
  have r: "clock_ok now" "length (img s) = TOTAL_BLOCKS * BLOCK_SIZE" "1 \<le> ?ni" "allocated_blocks s = {0..<?nb}"
    using s by (simp_all add: e4_tree_ready_def full_image_def)
  have "\<forall>g. \<exists>bm. e4_block_bitmap {0..<?nb} g = Inr bm \<and> length bm = BLOCK_SIZE \<and>
      (\<forall>b < e4_BLOCKS_PER_GROUP. bit_of bm b \<longleftrightarrow> g * e4_BLOCKS_PER_GROUP + b < ?nb)"
    using e4_block_bitmap_bits by metis
  then obtain bb where bb: "\<And>g. e4_block_bitmap {0..<?nb} g = Inr (bb g)" "\<And>g. length (bb g) = BLOCK_SIZE"
    "\<And>g. \<forall>b < e4_BLOCKS_PER_GROUP. bit_of (bb g) b \<longleftrightarrow> g * e4_BLOCKS_PER_GROUP + b < ?nb" by metis
  have "\<forall>g. \<exists>bm. e4_inode_bitmap ?ni g = Inr bm \<and> length bm = BLOCK_SIZE \<and>
      (\<forall>i < e4_INODES_PER_GROUP. bit_of bm i \<longleftrightarrow> g * e4_INODES_PER_GROUP + i + 1 < ?ni)"
    using e4_inode_bitmap_bits by metis
  then obtain ib where ib: "\<And>g. e4_inode_bitmap ?ni g = Inr (ib g)" "\<And>g. length (ib g) = BLOCK_SIZE"
    "\<And>g. \<forall>i < e4_INODES_PER_GROUP. bit_of (ib g) i \<longleftrightarrow> g * e4_INODES_PER_GROUP + i + 1 < ?ni" by metis
  let ?fb = "free_blocks_in {0..<?nb}" and ?fi = "free_inodes_in ?ni"
  let ?dirs = "\<lambda>g::nat. if g = 0 then int (used_dirs_of has_bin has_zig (tree_dirs_created s)) else 0"
  define D where "D g = projr (e4_bgd uuid g (?fb g) (?fi g) (?dirs g))" for g
  have D: "e4_bgd uuid g (?fb g) (?fi g) (?dirs g) = Inr (D g)" "length (D g) = DESC_SIZE"
    "sub (D g) 0 4 = le_bytes 4 (BB_START + g)" "sub (D g) 4 4 = le_bytes 4 (IB_START + g)"
    "sub (D g) 8 4 = le_bytes 4 (IT_START + g * INODE_TABLE_BLOCKS_PER_GROUP)"
    "sub (D g) 12 2 = le_bytes 2 (nat (?fb g mod 2 ^ 16))" "sub (D g) 14 2 = le_bytes 2 (nat (?fi g mod 2 ^ 16))"
    "bgd_checksum (D g) DESC_SIZE g uuid = Inr (u16_at (D g) 0x1E)" if "g < ?G" for g
    by (rule e4_bgd_run[OF that, of uuid "?fb g" "?fi g" "?dirs g"]; simp add: D_def)+
  have tot: "?G * e4_BLOCKS_PER_GROUP = TOTAL_BLOCKS" "?G * e4_INODES_PER_GROUP = TOTAL_INODES" by (simp_all add: layout)
  have "?fb = (\<lambda>g. int (e4_BLOCKS_PER_GROUP - (?nb - g * e4_BLOCKS_PER_GROUP)))"
    "?fi = (\<lambda>g. int (e4_INODES_PER_GROUP - (?ni - 1 - g * e4_INODES_PER_GROUP)))"
    using free_inodes_in_count[OF r(3)] by (auto simp: free_blocks_in_count)
  then have sums: "sum_list (map ?fb [0..<?G]) = int (TOTAL_BLOCKS - ?nb)" "sum_list (map ?fi [0..<?G]) = int (TOTAL_INODES - (?ni - 1))"
    by (simp_all only: sum_free tot)
  have small: "TOTAL_BLOCKS - x < 2 ^ 32" "TOTAL_INODES - x < 2 ^ 32" for x by (simp_all add: layout)
  then have small': "int (TOTAL_BLOCKS - x) < 2 ^ 32" "int (TOTAL_INODES - x) < 2 ^ 32" for x
    by (simp_all add: layout)
  let ?T = "apply_writes (map (\<lambda>g. (g * DESC_SIZE, D g)) [0..<?G]) (zeros BLOCK_SIZE)"
  let ?S = "\<lambda>seed. sb_bytes (e4_sb_stmts now uuid (int (TOTAL_BLOCKS - ?nb)) (int (TOTAL_INODES - (?ni - 1))) seed)"
  have sbok: "list_all (stmt_ok 1024) (e4_sb_stmts now uuid (sum_list (map ?fb [0..<?G])) (sum_list (map ?fi [0..<?G])) seed)"
    if "\<And>i. i < 4 \<Longrightarrow> seed ! i < 2 ^ 32" for seed
    unfolding sums using that by (intro e4_sb_ok[OF r(1) _ small'(1) _ small'(2)]) simp_all
  have bbl: "e4_block_bitmap {0..<?nb} g = Inr (bb g) \<and> length (bb g) = BLOCK_SIZE"
    "e4_inode_bitmap ?ni g = Inr (ib g) \<and> length (ib g) = BLOCK_SIZE" for g using bb ib by simp_all
  have Dl: "e4_bgd uuid g (?fb g) (?fi g) (?dirs g) = Inr (D g) \<and> length (D g) = DESC_SIZE" if "g < ?G" for g
    using D(1,2)[OF that] by simp
  obtain seed where seed': "\<forall>i < 4. seed ! i < 2 ^ 32" and run: "e4_write_metadata md5 now uuid has_bin has_zig s =
      Inr ((), img_update (apply_writes (block_log (meta4_log bb ib ?T) @ [(1024, ?S seed)])) s)"
    by (rule e4_write_metadata_run[where digest = md5 and D = D and has_bin = has_bin and has_zig = has_zig,
          OF r(4) uuid(2) sbok bbl Dl, unfolded sums])
  have seed: "\<And>i. i < 4 \<Longrightarrow> seed ! i < 2 ^ 32" using seed' by blast
  let ?F = "apply_writes (block_log (meta4_log bb ib ?T) @ [(1024, ?S seed)]) (img s)"
  have ls: "length (?S seed) = 1024" using e4_sb_read(1)[OF r(1) _ small'(1) _ small'(2) uuid(1) seed] by simp
  have T: "length ?T = BLOCK_SIZE" "\<And>g k n. g < ?G \<Longrightarrow> k + n \<le> DESC_SIZE \<Longrightarrow> sub ?T (g * DESC_SIZE + k) n = sub (D g) k n"
    using bgdt_view[of D] D(2) by blast+
  note lb = meta4_log_blocks[of bb ib ?T, OF bb(2) ib(2) T(1)]
  have io: "1024 + length (?S seed) \<le> 1 * BLOCK_SIZE" using ls by (simp add: layout)
  have it: "1 \<le> IT_START" "IT_START \<le> TOTAL_BLOCKS" by (simp_all add: layout)
  note ow = object_writes[OF r(2) lb(2) lb(1) it io]
  have blk: "block_at ?F BGDT_BLOCK = ?T" using ow(3)[of BGDT_BLOCK ?T] by (simp add: meta4_log_def)
  have blks: "block_at ?F (BB_START + g) = bb g" "block_at ?F (IB_START + g) = ib g" if "g < ?G" for g
    using that ow(3)[of "BB_START + g" "bb g"] ow(3)[of "IB_START + g" "ib g"] by (simp_all add: meta4_log_def)
  have "group_valid uuid ?F ?nb ?ni g" if "g < ?G" for g
    by (rule group_valid_written[OF that blk T(2)[OF that] D(2-8)[OF that] _ _ r(3)], assumption, unfold blks[OF that])
      (rule bb(3), rule ib(3))
  moreover have "superblock_valid uuid ?F (TOTAL_BLOCKS - ?nb) (TOTAL_INODES - (?ni - 1))"
    by (rule superblock_written[OF _ r(1) small uuid(1) seed]) (rule ow(4), unfold ls)
  moreover have "agrees METADATA_END inode_table_offset e4_INODE_SIZE (img s) ?F TOTAL_BLOCKS {1..TOTAL_INODES}"
    by (rule meta4_agrees[OF ow(1) ls], assumption) (drule lb(1), simp)
  ultimately show ?thesis unfolding run using ow(2) by (intro exI) (auto simp: full_image_def)
qed

text \<open>
  C4: the metadata phase of \<^verbatim>\<open>make_ext4_img.py\<close> succeeds from every state its allocators can
  reach and leaves eight consistent groups: each descriptor carries a checksum that verifies, its
  bitmaps have exactly the bits of the blocks and inodes in use, its free counts are the numbers
  of clear bits, the superblock's totals are their sums, and no inode or data block changes.
\<close>

theorem e4_metadata_consistent:
  assumes "e4_tree_ready now s" and "next_block s \<le> TOTAL_BLOCKS" and "next_inode s \<le> TOTAL_INODES + 1"
    and "length fs_uuid = 16" and "length (md5 fs_uuid) = 16"
  shows "\<exists>t. e4_write_metadata md5 now fs_uuid has_bin has_zig s = Inr ((), t) \<and> full_image t \<and>
    (\<forall>g < NUM_GROUPS. group_valid fs_uuid (img t) (next_block s) (next_inode s) g) \<and>
    superblock_valid fs_uuid (img t)
      (sum_list (map (\<lambda>g. u16_at (img t) (BGDT_BLOCK * BLOCK_SIZE + g * DESC_SIZE + 12)) [0..<NUM_GROUPS]))
      (sum_list (map (\<lambda>g. u16_at (img t) (BGDT_BLOCK * BLOCK_SIZE + g * DESC_SIZE + 14)) [0..<NUM_GROUPS])) \<and>
    agrees METADATA_END inode_table_offset e4_INODE_SIZE (img s) (img t) TOTAL_BLOCKS {1..TOTAL_INODES}"
proof -
  obtain t where t: "e4_write_metadata md5 now fs_uuid has_bin has_zig s = Inr ((), t)" "full_image t"
    "\<And>g. g < NUM_GROUPS \<Longrightarrow> group_valid fs_uuid (img t) (next_block s) (next_inode s) g"
    "superblock_valid fs_uuid (img t) (TOTAL_BLOCKS - next_block s) (TOTAL_INODES - (next_inode s - 1))"
    "agrees METADATA_END inode_table_offset e4_INODE_SIZE (img s) (img t) TOTAL_BLOCKS {1..TOTAL_INODES}"
    using e4_metadata_law[of now s fs_uuid md5 has_bin has_zig] assms by blast
  have c: "u16_at (img t) (BGDT_BLOCK * BLOCK_SIZE + g * DESC_SIZE + 12) =
      e4_BLOCKS_PER_GROUP - (next_block s - g * e4_BLOCKS_PER_GROUP)"
    "u16_at (img t) (BGDT_BLOCK * BLOCK_SIZE + g * DESC_SIZE + 14) =
      e4_INODES_PER_GROUP - (next_inode s - 1 - g * e4_INODES_PER_GROUP)" if "g < NUM_GROUPS" for g
    using group_valid_counts[OF t(3)[OF that]] by auto
  have n: "NUM_GROUPS * e4_BLOCKS_PER_GROUP = TOTAL_BLOCKS" "NUM_GROUPS * e4_INODES_PER_GROUP = TOTAL_INODES"
    by (simp_all add: layout)
  have maps: "map (\<lambda>g. u16_at (img t) (BGDT_BLOCK * BLOCK_SIZE + g * DESC_SIZE + 12)) [0..<NUM_GROUPS] =
      map (\<lambda>g. e4_BLOCKS_PER_GROUP - (next_block s - g * e4_BLOCKS_PER_GROUP)) [0..<NUM_GROUPS]"
    "map (\<lambda>g. u16_at (img t) (BGDT_BLOCK * BLOCK_SIZE + g * DESC_SIZE + 14)) [0..<NUM_GROUPS] =
      map (\<lambda>g. e4_INODES_PER_GROUP - (next_inode s - 1 - g * e4_INODES_PER_GROUP)) [0..<NUM_GROUPS]"
    using c by simp_all
  show ?thesis by (rule exI[of _ t], unfold maps sum_free_nat n) (use t in blast)
qed

theorem e4_metadata_consistent_witness:
  "\<exists>t. e4_write_metadata (\<lambda>_. zeros 16) 1700000000 (zeros 16) True False e4_init = Inr ((), t) \<and>
     group_valid (zeros 16) (img t) 2066 12 7"
proof -
  have "e4_tree_ready 1700000000 e4_init" by (rule e4_init_ready) (simp add: clock_ok_def)
  moreover have "next_block e4_init = 2066" "next_inode e4_init = 12" "7 < NUM_GROUPS" by (simp_all add: e4_init_def layout)
  ultimately show ?thesis
    using e4_metadata_consistent[of 1700000000 e4_init "zeros 16" "\<lambda>_. zeros 16" True False] by (auto simp: layout)
qed

end
