(* ===== verification/Main_Parts.thy ===== *)
theory Main_Parts
  imports Tree_Ext23
begin

text \<open>
  What the \<^verbatim>\<open>main\<close> functions of the three builders have in common: their inputs, the inode numbers
  they take first, the binaries and scripts, and the directory entries of those.
\<close>

section \<open>Inputs\<close>

text \<open>
  A directory of binaries or scripts as \<^verbatim>\<open>os.listdir\<close> gives it: names with the content of the
  regular files (\<open>None\<close> for anything \<^verbatim>\<open>os.path.isfile\<close> denies).
\<close>

definition read_files :: "(string \<times> bytes option) list \<Rightarrow> (string \<times> bytes) list" where
  "read_files listing =
     concat (map (\<lambda>(name, content). case content of Some data \<Rightarrow> [(name, data)] | None \<Rightarrow> [])
       (sort_key fst listing))"

text \<open>The arguments: \<open>None\<close> or \<open>[]\<close> where one is absent or does not exist.\<close>

record image_args =
  shell_binary :: "bytes option"
  bins_listing :: "(string \<times> bytes option) list"
  scripts_listing :: "(string \<times> bytes option) list"
  zig_tree :: "(string \<times> host) list option option"

abbreviation bins_of :: "'a image_args_scheme \<Rightarrow> (string \<times> bytes) list" where
  "bins_of a \<equiv> read_files (bins_listing a)"

text \<open>The scripts in the order in which they are stored.\<close>

definition scripts_of :: "'a image_args_scheme \<Rightarrow> (string \<times> bytes) list" where
  "scripts_of a = sort_key fst (read_files (scripts_listing a))"

section \<open>Fixed content\<close>

definition nl :: string where
  "nl = [CHR 0x0A]"

definition passwd_data :: bytes where
  "passwd_data = raw_bytes (''root:x:0:0:root:/root:/bin/zsh'' @ nl @
     ''user:x:1000:1000:user:/home/user:/bin/zsh'' @ nl)"

section \<open>Inode numbers and entries\<close>

text \<open>Inode numbers taken before anything is written, in the order of the script.\<close>

record fixed_inodes =
  hello_ino :: nat
  testdir_ino :: nat
  test2_ino :: nat
  etc_ino :: nat
  motd_ino :: nat
  passwd_ino :: nat
  root_home_ino :: nat
  home_ino :: nat
  home_user_ino :: nat
  www_ino :: nat
  www_index_ino :: nat
  tmp_ino :: nat
  hello_zig_ino :: nat

definition alloc_fixed_inodes :: "('s, nat) py \<Rightarrow> ('s, fixed_inodes) py" where
  "alloc_fixed_inodes alloc_inode =
     py_bind alloc_inode (\<lambda>hello. py_bind alloc_inode (\<lambda>testdir. py_bind alloc_inode (\<lambda>test2.
     py_bind alloc_inode (\<lambda>etc. py_bind alloc_inode (\<lambda>motd. py_bind alloc_inode (\<lambda>passwd.
     py_bind alloc_inode (\<lambda>root_home. py_bind alloc_inode (\<lambda>home. py_bind alloc_inode (\<lambda>home_user.
     py_bind alloc_inode (\<lambda>www. py_bind alloc_inode (\<lambda>www_index. py_bind alloc_inode (\<lambda>tmp.
     py_bind alloc_inode (\<lambda>hello_zig.
     py_ret \<lparr>hello_ino = hello, testdir_ino = testdir, test2_ino = test2, etc_ino = etc, motd_ino = motd,
       passwd_ino = passwd, root_home_ino = root_home, home_ino = home, home_user_ino = home_user,
       www_ino = www, www_index_ino = www_index, tmp_ino = tmp, hello_zig_ino = hello_zig\<rparr>)))))))))))))"

definition fixed_at :: "nat \<Rightarrow> fixed_inodes" where
  "fixed_at i = \<lparr>hello_ino = i, testdir_ino = i + 1, test2_ino = i + 2, etc_ino = i + 3, motd_ino = i + 4,
     passwd_ino = i + 5, root_home_ino = i + 6, home_ino = i + 7, home_user_ino = i + 8, www_ino = i + 9,
     www_index_ino = i + 10, tmp_ino = i + 11, hello_zig_ino = i + 12\<rparr>"

text \<open>\<open>has_bin\<close> asks whether there is a shell, \<open>has_shell\<close> whether it is not empty.\<close>

definition has_bin :: "bytes option \<Rightarrow> (string \<times> bytes) list \<Rightarrow> bool" where
  "has_bin shell extra_bins \<longleftrightarrow> shell \<noteq> None \<or> length extra_bins > 0"

definition has_shell :: "bytes option \<Rightarrow> bool" where
  "has_shell shell \<longleftrightarrow> shell \<noteq> None \<and> shell \<noteq> Some []"

definition opt_dir :: "nat option \<Rightarrow> string \<Rightarrow> dirent list" where
  "opt_dir i name = (case i of Some ino \<Rightarrow> [(ino, name, FT_DIR)] | None \<Rightarrow> [])"

text \<open>Files stored one after the other: their entries, and what is read of them.\<close>

primrec file_entries :: "nat \<Rightarrow> (string \<times> bytes) list \<Rightarrow> dirent list" where
  "file_entries i [] = []"
| "file_entries i (f # fs) = (i, fst f, FT_REG) # file_entries (Suc i) fs"

primrec files_info :: "nat \<Rightarrow> (string \<times> bytes) list \<Rightarrow> (string \<times> nat) list" where
  "files_info i [] = []"
| "files_info i (f # fs) = (fst f, i) # files_info (Suc i) fs"

primrec files_at :: "(nat \<Rightarrow> int \<times> bytes) \<Rightarrow> bool \<Rightarrow> nat \<Rightarrow> (string \<times> bytes) list \<Rightarrow> bool" where
  "files_at rf x i [] \<longleftrightarrow> True"
| "files_at rf x i (f # fs) \<longleftrightarrow> rf i = (file_mode x, snd f) \<and> files_at rf x (Suc i) fs"

definition files_blocks :: "(bytes \<Rightarrow> nat) \<Rightarrow> (string \<times> bytes) list \<Rightarrow> nat" where
  "files_blocks span fs = sum_list (map (\<lambda>f. span (snd f)) fs)"

definition files_ok :: "(string \<times> bytes) list \<Rightarrow> bool" where
  "files_ok fs \<longleftrightarrow> list_all (\<lambda>(name, data). is_ascii name \<and> length name < 256 \<and> length data < 2 ^ 32) fs"

lemma files_entries: "map (\<lambda>(name, ino). (ino, name, FT_REG)) (files_info i fs) = file_entries i fs"
  by (induction fs arbitrary: i) simp_all

lemma file_entries_names: "entry_names (file_entries i fs) = map fst fs"
  by (induction fs arbitrary: i) (simp_all add: entry_names_def)

lemma file_entries_ok:
  "files_ok fs \<Longrightarrow> 1 \<le> i \<Longrightarrow> i + length fs \<le> 2 ^ 32 \<Longrightarrow> entries_ok (file_entries i fs)"
proof (induction fs arbitrary: i)
  case (Cons f fs)
  then have "entries_ok (file_entries (Suc i) fs)" by (intro Cons.IH) (simp_all add: files_ok_def)
  moreover have "i < 2 ^ 32" using Cons.prems by simp
  ultimately show ?case using Cons.prems by (auto simp: entries_ok_def dirent_ok_def files_ok_def FT_REG_def)
qed (simp add: entries_ok_def)

lemma files_at_read:
  "files_at (rf im) x i fs \<Longrightarrow>
   map (read_node rf rd (Suc n) im self) (file_entries i fs) = map (\<lambda>f. Some (HFile (snd f) x)) fs"
  by (induction fs arbitrary: i) (simp_all add: file_mode_simps)

definition bin_files :: "bytes option \<Rightarrow> (string \<times> bytes) list \<Rightarrow> (string \<times> bytes) list" where
  "bin_files shell extra_bins = (if has_shell shell then [(''zsh'', the shell)] else []) @ sort_key fst extra_bins"

definition bin_inodes :: "bytes option \<Rightarrow> (string \<times> bytes) list \<Rightarrow> nat" where
  "bin_inodes shell extra_bins = (if has_bin shell extra_bins then 1 + length (bin_files shell extra_bins) else 0)"

lemma no_bin: "\<not> has_bin shell extra_bins \<Longrightarrow> bin_files shell extra_bins = []"
  by (simp add: has_bin_def bin_files_def has_shell_def)

definition bin_names :: "bytes option \<Rightarrow> (string \<times> bytes) list \<Rightarrow> string list" where
  "bin_names shell extra_bins = [''.'', ''..''] @ map fst (bin_files shell extra_bins)"

definition bin_dir_blocks :: "bytes option \<Rightarrow> (string \<times> bytes) list \<Rightarrow> nat" where
  "bin_dir_blocks shell extra_bins = (if has_bin shell extra_bins then names_span (bin_names shell extra_bins) else 0)"

definition bin_entries :: "nat \<Rightarrow> bytes option \<Rightarrow> (string \<times> bytes) list \<Rightarrow> dirent list" where
  "bin_entries i shell extra_bins =
     [(i, ''.'', FT_DIR), (2, ''..'', FT_DIR)] @ file_entries (i + 1) (bin_files shell extra_bins)"

lemma bin_entries_ok:
  assumes "files_ok (bin_files shell bins)" "1 \<le> i" "i + 1 + length (bin_files shell bins) \<le> 2 ^ 32"
  shows "entries_ok (bin_entries i shell bins)" and "entry_names (bin_entries i shell bins) = bin_names shell bins"
proof -
  have "i < 2 ^ 32" using assms(3) by simp
  moreover have "entries_ok (file_entries (i + 1) (bin_files shell bins))" using assms by (intro file_entries_ok) simp_all
  ultimately show "entries_ok (bin_entries i shell bins)"
    using assms(2) by (simp add: bin_entries_def entries_ok_def dirent_ok_def FT_DIR_def is_ascii_def)
  show "entry_names (bin_entries i shell bins) = bin_names shell bins"
    using file_entries_names[of "i + 1" "bin_files shell bins"] by (simp add: bin_entries_def bin_names_def entry_names_def)
qed

text \<open>
  The inode numbers that are taken for the scripts and for the host tree, when \<open>i\<close> is the first
  number after the fixed ones.
\<close>

definition scripts_ino :: "nat \<Rightarrow> 'a image_args_scheme \<Rightarrow> nat" where
  "scripts_ino i a = i + bin_inodes (shell_binary a) (bins_of a)"

definition zig_ino_of :: "nat \<Rightarrow> 'a image_args_scheme \<Rightarrow> nat" where
  "zig_ino_of i a = scripts_ino i a + length (scripts_of a)"

section \<open>Host trees\<close>

definition tree_node :: "(string \<times> host) list option option \<Rightarrow> host" where
  "tree_node tree = HDir (the tree)"

definition opt_blocks :: "(bytes \<Rightarrow> nat) \<Rightarrow> (string \<times> host) list option option \<Rightarrow> nat" where
  "opt_blocks span tree = (if tree = None then 0 else node_blocks span names_span (tree_node tree))"

definition opt_inodes :: "(string \<times> host) list option option \<Rightarrow> nat" where
  "opt_inodes tree = (if tree = None then 0 else node_inodes (tree_node tree))"

definition opt_ok :: "(string list \<Rightarrow> bool) \<Rightarrow> (string \<times> host) list option option \<Rightarrow> bool" where
  "opt_ok dok tree \<longleftrightarrow> tree = None \<or> node_ok dok (tree_node tree)"

definition opt_ino :: "nat \<Rightarrow> (string \<times> host) list option option \<Rightarrow> nat option" where
  "opt_ino i tree = (if tree = None then None else Some i)"

definition opt_read ::
  "(bytes \<Rightarrow> nat \<Rightarrow> int \<times> bytes) \<Rightarrow> (bytes \<Rightarrow> nat \<Rightarrow> dirent list option) \<Rightarrow> bytes \<Rightarrow> string \<Rightarrow> nat \<Rightarrow> (string \<times> host) list option option \<Rightarrow> bool" where
  "opt_read rf rd im name i tree \<longleftrightarrow> tree = None \<or>
     (\<forall>n. node_height (tree_node tree) \<le> n \<longrightarrow>
        read_node rf rd n im 2 (i, name, FT_DIR) = Some (prune (tree_node tree)))"

section \<open>Reading\<close>

definition file_nodes :: "bool \<Rightarrow> (string \<times> bytes) list \<Rightarrow> (string \<times> host) list" where
  "file_nodes x fs = map (\<lambda>f. (fst f, HFile (snd f) x)) fs"

lemma read_dir:
  assumes "rd im i = Some ([(i, ''.'', FT_DIR), (self, ''..'', FT_DIR)] @ es)"
    and "map (read_node rf rd n im i) es = map (\<lambda>c. Some (snd c)) cs" and "entry_names es = map fst cs"
  shows "read_node rf rd (Suc n) im self (i, name, FT_DIR) = Some (HDir (Some cs))"
  using assms(1) those_read[OF assms(2), of "\<lambda>e. fst (snd e)"] assms(3)
  by (simp add: FT_DIR_def FT_REG_def entry_names_def)

end
