(* ===== verification/Ext4_Main.thy ===== *)
theory Ext4_Main
  imports Meta4 Main_Parts
begin

text \<open>
  \<^verbatim>\<open>main\<close> of \<^verbatim>\<open>make_ext4_img.py\<close>: the fixed files and directories, the binaries, the scripts and
  the two host trees, put together in the order of the script, and what the finished image shows
  to a reader.  What the command line and the host file system supply is a record.
\<close>

section \<open>Inputs\<close>

record ext4_args = image_args +
  kernel_tree :: "(string \<times> host) list option option"

section \<open>Fixed content\<close>

definition hello_data :: bytes where
  "hello_data = raw_bytes (''Hello from ext4!'' @ nl)"

definition test2_data :: bytes where
  "test2_data = raw_bytes (''Nested file with extent tree (ext4)'' @ nl)"

definition motd_data :: bytes where
  "motd_data = raw_bytes (''Welcome to Zigix ext4!'' @ nl @
     ''Extent trees, checksums, 64-bit block groups.'' @ nl)"

definition www_index_data :: bytes where
  \<open>www_index_data = raw_bytes (''<html>'' @ nl @ ''<head><title>Zigix ext4</title></head>'' @ nl @
     ''<body>'' @ nl @ ''<h1>Welcome to Zigix</h1>'' @ nl @
     ''<p>Served by zhttpd from ext4 filesystem.</p>'' @ nl @
     ''<p><a href="/hello.txt">hello.txt</a> | <a href="/etc/">/etc/</a> | <a href="/bin/">/bin/</a></p>'' @ nl @
     ''</body>'' @ nl @ ''</html>'' @ nl)\<close>

definition hello_zig_data :: bytes where
  \<open>hello_zig_data = raw_bytes (''const std = @import("std");'' @ nl @ ''pub fn main() void {'' @ nl @
     ''    const w = std.io.getStdOut().writer();'' @ nl @
     ''    w.print("Hello from Zigix!'' @ [CHR 0x5C] @ ''n", .{}) catch {};'' @ nl @ ''}'' @ nl)\<close>

section \<open>Phases\<close>

definition e4_fixed_inodes :: "(ext4_state, fixed_inodes) py" where
  "e4_fixed_inodes = alloc_fixed_inodes e4_alloc_inode"

definition e4_test_files :: "int \<Rightarrow> bytes \<Rightarrow> fixed_inodes \<Rightarrow> (ext4_state, unit) py" where
  "e4_test_files now fs_uuid f =
     py_each (\<lambda>(ino, data_bytes, mode). e4_put_file now fs_uuid ino mode data_bytes)
       [(hello_ino f, hello_data, 0x81A4), (test2_ino f, test2_data, 0x81A4), (motd_ino f, motd_data, 0x81A4),
        (passwd_ino f, passwd_data, 0x81A4), (www_index_ino f, www_index_data, 0x81A4),
        (hello_zig_ino f, hello_zig_data, 0x81A4)]"

definition e4_store_named :: "int \<Rightarrow> bytes \<Rightarrow> int \<Rightarrow> (string \<times> bytes) list \<Rightarrow> (ext4_state, (string \<times> nat) list) py" where
  "e4_store_named now fs_uuid mode files =
     py_collect (\<lambda>(name, data). py_bind (e4_store_file now fs_uuid mode data) (\<lambda>ino. py_ret (name, ino)))
       (sort_key fst files)"

definition e4_binaries ::
  "int \<Rightarrow> bytes \<Rightarrow> bytes option \<Rightarrow> (string \<times> bytes) list \<Rightarrow>
   (ext4_state, nat option \<times> nat option \<times> (string \<times> nat) list) py" where
  "e4_binaries now fs_uuid shell extra_bins =
     (if has_bin shell extra_bins then
        py_bind e4_alloc_inode (\<lambda>bin_ino.
        py_bind (if has_shell shell
           then py_bind (e4_store_file now fs_uuid 0x81ED (the shell)) (\<lambda>i. py_ret (Some i))
           else py_ret None) (\<lambda>zsh_ino.
        py_bind (e4_store_named now fs_uuid 0x81ED extra_bins) (\<lambda>extra_bin_info.
        py_ret (Some bin_ino, zsh_ino, extra_bin_info))))
      else py_ret (None, None, []))"

definition e4_tree_dir ::
  "int \<Rightarrow> bytes \<Rightarrow> (string \<times> host) list option option \<Rightarrow> (ext4_state, nat option) py" where
  "e4_tree_dir now fs_uuid tree =
     (case tree of
        None \<Rightarrow> py_ret None
      | Some cs \<Rightarrow>
          py_bind (py_bind e4_alloc_inode (\<lambda>i.
            py_bind (e4_add_tree now fs_uuid (HDir cs) i 2) (\<lambda>entries.
            py_seq (e4_make_directory now fs_uuid i ([(i, ''.'', FT_DIR), (2, ''..'', FT_DIR)] @ entries)
              (2 + int (length (filter (\<lambda>e. snd (snd e) = FT_DIR) entries)))) (py_ret i))))
          (\<lambda>i. py_ret (Some i)))"

definition e4_small_dirs :: "int \<Rightarrow> bytes \<Rightarrow> fixed_inodes \<Rightarrow> (ext4_state, unit) py" where
  "e4_small_dirs now fs_uuid f =
     py_seq (py_each (\<lambda>(ino, parent_ino, mode, uid, gid).
         e4_put_small_dir now fs_uuid ino mode [(ino, ''.'', FT_DIR), (parent_ino, ''..'', FT_DIR)] 2 uid gid)
       [(11, 2, 0x41C0, 0, 0), (root_home_ino f, 2, 0x41C0, 0, 0),
        (home_user_ino f, home_ino f, 0x41C0, 1000, 1000), (tmp_ino f, 2, 0x43FF, 0, 0)])
     (py_seq (e4_put_small_dir now fs_uuid (testdir_ino f) 0x41ED
        [(testdir_ino f, ''.'', FT_DIR), (2, ''..'', FT_DIR), (test2_ino f, ''test2.txt'', FT_REG)] 2 0 0)
     (py_seq (e4_put_small_dir now fs_uuid (etc_ino f) 0x41ED
        [(etc_ino f, ''.'', FT_DIR), (2, ''..'', FT_DIR), (motd_ino f, ''motd'', FT_REG), (passwd_ino f, ''passwd'', FT_REG)] 2 0 0)
     (py_seq (e4_put_small_dir now fs_uuid (www_ino f) 0x41ED
        [(www_ino f, ''.'', FT_DIR), (2, ''..'', FT_DIR), (www_index_ino f, ''index.html'', FT_REG)] 2 0 0)
     (e4_put_small_dir now fs_uuid (home_ino f) 0x41ED
        [(home_ino f, ''.'', FT_DIR), (2, ''..'', FT_DIR), (home_user_ino f, ''user'', FT_DIR)] 3 0 0))))"

definition e4_bin_dir ::
  "int \<Rightarrow> bytes \<Rightarrow> nat option \<times> nat option \<times> (string \<times> nat) list \<Rightarrow> (ext4_state, unit) py" where
  "e4_bin_dir now fs_uuid = (\<lambda>(bin_ino, zsh_ino, extra_bin_info).
     case bin_ino of
       None \<Rightarrow> py_ret ()
     | Some b \<Rightarrow> e4_put_dir now fs_uuid b 0x41ED
         ([(b, ''.'', FT_DIR), (2, ''..'', FT_DIR)] @
          (case zsh_ino of Some z \<Rightarrow> [(z, ''zsh'', FT_REG)] | None \<Rightarrow> []) @
          map (\<lambda>(name, ino). (ino, name, FT_REG)) extra_bin_info) 2 0 0)"

definition e4_root_entries ::
  "fixed_inodes \<Rightarrow> (string \<times> nat) list \<Rightarrow> nat option \<Rightarrow> nat option \<Rightarrow> nat option \<Rightarrow> dirent list" where
  "e4_root_entries f script_info bin_ino zig_ino kernel_src_ino =
     [(2, ''.'', FT_DIR), (2, ''..'', FT_DIR), (11, ''lost+found'', FT_DIR),
      (hello_ino f, ''hello.txt'', FT_REG), (hello_zig_ino f, ''hello.zig'', FT_REG),
      (testdir_ino f, ''testdir'', FT_DIR), (etc_ino f, ''etc'', FT_DIR), (root_home_ino f, ''root'', FT_DIR),
      (home_ino f, ''home'', FT_DIR), (www_ino f, ''www'', FT_DIR), (tmp_ino f, ''tmp'', FT_DIR)] @
     map (\<lambda>(name, ino). (ino, name, FT_REG)) script_info @
     opt_dir bin_ino ''bin'' @ opt_dir zig_ino ''zig'' @ opt_dir kernel_src_ino ''zigix''"

definition e4_root_nlink :: "nat option \<Rightarrow> nat option \<Rightarrow> nat option \<Rightarrow> int" where
  "e4_root_nlink bin_ino zig_ino kernel_src_ino =
     9 + (if bin_ino \<noteq> None then 1 else 0) + (if zig_ino \<noteq> None then 1 else 0) +
     (if kernel_src_ino \<noteq> None then 1 else 0)"

text \<open>Everything up to the metadata; the result tells whether there is \<^verbatim>\<open>/bin\<close> and \<^verbatim>\<open>/zig\<close>.\<close>

definition e4_populate :: "int \<Rightarrow> bytes \<Rightarrow> ext4_args \<Rightarrow> (ext4_state, bool \<times> bool) py" where
  "e4_populate now fs_uuid a =
     (let extra_bins = read_files (bins_listing a); root_scripts = read_files (scripts_listing a) in
     py_seq (e4_journal now fs_uuid)
     (py_bind e4_fixed_inodes (\<lambda>f.
      py_seq (e4_test_files now fs_uuid f)
      (py_bind (e4_binaries now fs_uuid (shell_binary a) extra_bins) (\<lambda>bins.
       py_bind (e4_store_named now fs_uuid 0x81A4 root_scripts) (\<lambda>script_info.
       py_bind (e4_tree_dir now fs_uuid (zig_tree a)) (\<lambda>zig_ino.
       py_bind (e4_tree_dir now fs_uuid (kernel_tree a)) (\<lambda>kernel_src_ino.
       py_seq (e4_small_dirs now fs_uuid f)
       (py_seq (e4_bin_dir now fs_uuid bins)
       (py_seq (e4_put_dir now fs_uuid 2 0x41ED (e4_root_entries f script_info (fst bins) zig_ino kernel_src_ino)
          (e4_root_nlink (fst bins) zig_ino kernel_src_ino) 0 0)
       (py_ret (fst bins \<noteq> None, zig_ino \<noteq> None))))))))))))"

definition e4_main :: "(bytes \<Rightarrow> bytes) \<Rightarrow> int \<Rightarrow> ext4_args \<Rightarrow> bytes result" where
  "e4_main md5 now a =
     res_bind (fs_uuid_of now) (\<lambda>fs_uuid.
     res_bind (py_bind (e4_populate now fs_uuid a)
         (\<lambda>(has_bin, has_zig). e4_write_metadata md5 now fs_uuid has_bin has_zig) e4_init)
       (\<lambda>(_, s). Inr (img s)))"

section \<open>The operations as phases\<close>

lemma e4_phase_put_file:
  assumes "e4_tree_ready now s" "1 \<le> ino" "ino \<le> TOTAL_INODES" "next_block s + e4_span data \<le> TOTAL_BLOCKS"
    "0 \<le> mode" "mode < 2 ^ 16" "length data < 2 ^ 32"
  shows "e4_tree.phase now (e4_put_file now uuid ino mode data) s () {ino} (e4_span data) 0
    (\<lambda>im. x4_file uuid im ino = (mode, data))"
  using e4_put_file_law[OF assms, of uuid] assms(2,3)
  by (auto simp: e4_tree.phase_def e4_tree.stepped_def e4_tree.holds_def)

lemma e4_phase_put_dir:
  assumes "e4_tree_ready now s" "1 \<le> ino" "ino \<le> TOTAL_INODES" "entries_ok es" "e4_dir_names_ok (entry_names es)"
    "next_block s + names_span (entry_names es) \<le> TOTAL_BLOCKS" "0 \<le> nlink" "nlink < 2 ^ 16" "0 \<le> mode" "mode < 2 ^ 16"
    "0 \<le> uid" "uid < 2 ^ 16" "0 \<le> gid" "gid < 2 ^ 16"
  shows "e4_tree.phase now (e4_put_dir now uuid ino mode es nlink uid gid) s () {ino} (names_span (entry_names es)) 0
    (\<lambda>im. x4_dir uuid im ino = Some es)"
  using e4_put_dir_law[OF assms, of uuid] assms(2,3)
  by (auto simp: e4_tree.phase_def e4_tree.stepped_def e4_tree.holds_def)

lemma e4_phase_small_dir:
  assumes "e4_tree_ready now s" "1 \<le> ino" "ino \<le> TOTAL_INODES" "entries_ok es" "es \<noteq> []"
    and small: "sum_list (map (\<lambda>n. min_rec_len (length n)) (entry_names es)) \<le> BLOCK_SIZE"
    and "next_block s < TOTAL_BLOCKS" "0 \<le> nlink" "nlink < 2 ^ 16" "0 \<le> mode" "mode < 2 ^ 16"
    "0 \<le> uid" "uid < 2 ^ 16" "0 \<le> gid" "gid < 2 ^ 16"
  shows "e4_tree.phase now (e4_put_small_dir now uuid ino mode es nlink uid gid) s () {ino} 1 0
    (\<lambda>im. x4_dir uuid im ino = Some es)"
proof -
  have ne: "entry_names es \<noteq> []" using assms(5) by (simp add: entry_names_def)
  note n = names_small[OF ne small]
  have nm: "e4_dir_names_ok (entry_names es)" using n by (simp add: e4_dir_names_ok_def)
  have "e4_put_small_dir now uuid ino mode es nlink uid gid s = e4_put_dir now uuid ino mode es nlink uid gid s"
    using assms nm n(1) by (intro e4_put_small_dir_eq) (simp_all add: e4_tree_ready_def)
  with e4_phase_put_dir[OF assms(1-4) nm _ assms(8-15)] assms(7) show ?thesis by (simp add: n(1) e4_tree.phase_def)
qed

lemma e4_phase_journal:
  assumes "e4_tree_ready now s" "next_block s + 8201 \<le> TOTAL_BLOCKS"
  shows "e4_tree.phase now (e4_journal now uuid) s () {8} 8201 0
    (\<lambda>im. x4_verified uuid im 8 \<and> journal_at im (inode_table_offset 8) (next_block s) 8192)"
proof -
  have "8 \<le> TOTAL_INODES" by (simp add: layout)
  with e4_journal_law[OF assms, of uuid] show ?thesis
    by (auto simp: e4_tree.phase_def e4_tree.stepped_def e4_tree.holds_def)
qed

lemma e4_phase_fixed_inodes:
  assumes "e4_tree_ready now s" "next_inode s + 13 \<le> TOTAL_INODES + 1"
  shows "e4_tree.phase now e4_fixed_inodes s (fixed_at (next_inode s)) {} 0 13 (\<lambda>_. True)"
proof -
  let ?t = "next_inode_update (\<lambda>n. n + 13) s"
  have "e4_fixed_inodes s = Inr (fixed_at (next_inode s), ?t)"
    using assms(2) by (simp add: e4_fixed_inodes_def alloc_fixed_inodes_def py_bind_run e4_alloc_inode_run fixed_at_def comp_def)
  then show ?thesis
    using assms(1) by (auto simp: e4_tree.phase_def e4_tree.stepped_def e4_tree.holds_def e4_tree_ready_def full_image_def)
qed

lemma e4_phase_store_files:
  assumes "e4_tree_ready now s" "next_inode s + length fs \<le> TOTAL_INODES + 1"
    "next_block s + files_blocks e4_span fs \<le> TOTAL_BLOCKS" "files_ok fs"
  shows "e4_tree.phase now (py_collect (\<lambda>(name, data).
        py_bind (e4_store_file now uuid (file_mode x) data) (\<lambda>ino. py_ret (name, ino))) fs) s
      (files_info (next_inode s) fs) {next_inode s..<next_inode s + length fs} (files_blocks e4_span fs) (length fs)
      (\<lambda>im. files_at (x4_file uuid im) x (next_inode s) fs)"
  using assms
proof (induction fs arbitrary: s)
  case Nil
  from e4_tree.phase_ret[OF Nil.prems(1)] show ?case by (simp add: files_blocks_def py_ret_def)
next
  case (Cons f fs)
  let ?i = "next_inode s" and ?rest = "py_collect (\<lambda>(name, data).
        py_bind (e4_store_file now uuid (file_mode x) data) (\<lambda>ino. py_ret (name, ino))) fs"
  obtain name data where f: "f = (name, data)" by (cases f)
  have p: "next_inode s \<le> TOTAL_INODES" "next_block s + e4_span data \<le> TOTAL_BLOCKS" "length data < 2 ^ 32" "files_ok fs"
    using Cons.prems by (simp_all add: f files_blocks_def files_ok_def)
  have st: "e4_tree.phase now (py_bind (e4_store_file now uuid (file_mode x) data) (\<lambda>ino. py_ret (name, ino))) s (name, ?i)
      ({?i} \<union> {}) (e4_span data + 0) (1 + 0) (\<lambda>im. x4_file uuid im ?i = (file_mode x, data) \<and> True)"
    using Cons.prems(1) p by (intro e4_tree.phase_bind[OF e4_tree.phase_store] e4_tree.phase_ret) (simp_all add: file_mode_def)
  have "e4_tree.phase now (py_bind ?rest (\<lambda>ys. py_ret ((name, ?i) # ys))) t ((name, ?i) # files_info (Suc ?i) fs)
      ({Suc ?i..<Suc ?i + length fs} \<union> {}) (files_blocks e4_span fs + 0) (length fs + 0) (\<lambda>im. files_at (x4_file uuid im) x (Suc ?i) fs \<and> True)"
    if t: "e4_tree_ready now t" "next_block t = next_block s + e4_span data" "next_inode t = Suc ?i" for t
  proof (rule e4_tree.phase_bind)
    show "e4_tree.phase now ?rest t (files_info (Suc ?i) fs) {Suc ?i..<Suc ?i + length fs} (files_blocks e4_span fs) (length fs)
        (\<lambda>im. files_at (x4_file uuid im) x (Suc ?i) fs)"
      using Cons.IH[OF t(1) _ _ p(4)] Cons.prems(2,3) t by (simp add: f files_blocks_def del: py_ret_run)
  qed (auto intro: e4_tree.phase_ret)
  then have "e4_tree.phase now (py_collect (\<lambda>(name, data).
        py_bind (e4_store_file now uuid (file_mode x) data) (\<lambda>ino. py_ret (name, ino))) (f # fs)) s
      ((name, ?i) # files_info (Suc ?i) fs) (({?i} \<union> {}) \<union> ({Suc ?i..<Suc ?i + length fs} \<union> {}))
      ((e4_span data + 0) + (files_blocks e4_span fs + 0)) ((1 + 0) + (length fs + 0))
      (\<lambda>im. (x4_file uuid im ?i = (file_mode x, data) \<and> True) \<and> (files_at (x4_file uuid im) x (Suc ?i) fs \<and> True))"
    unfolding py_collect.simps f prod.case by (intro e4_tree.phase_bind[OF st]) auto
  then show ?case by (rule e4_tree.phase_mono) (auto simp: f files_blocks_def)
qed

lemma one_block_span: "0 < length data \<Longrightarrow> length data \<le> BLOCK_SIZE \<Longrightarrow> e4_span data = 1"
proof -
  assume n: "0 < length data" "length data \<le> BLOCK_SIZE"
  have "(4095 + n) div 4096 = 1" if "0 < n" "n \<le> 4096" for n :: nat using that by linarith
  with n have "num_blocks_of data = 1" by (simp add: num_blocks_of_def ceil_div_def layout)
  then show ?thesis by (simp add: e4_span_def e4_leaf_def layout)
qed

lemmas fixed_data_defs = hello_data_def test2_data_def motd_data_def passwd_data_def www_index_data_def hello_zig_data_def nl_def

lemma fixed_spans:
  "e4_span hello_data = 1" "e4_span test2_data = 1" "e4_span motd_data = 1" "e4_span passwd_data = 1"
  "e4_span www_index_data = 1" "e4_span hello_zig_data = 1"
  by (rule one_block_span; simp add: fixed_data_defs layout)+

lemma fixed_lengths:
  "length hello_data < 2 ^ 32" "length test2_data < 2 ^ 32" "length motd_data < 2 ^ 32" "length passwd_data < 2 ^ 32"
  "length www_index_data < 2 ^ 32" "length hello_zig_data < 2 ^ 32"
  by (simp_all add: fixed_data_defs)

text \<open>What the test files leave, and what the small directories leave.\<close>

definition test_files_at :: "bytes \<Rightarrow> bytes \<Rightarrow> bool" where
  "test_files_at uuid im \<longleftrightarrow>
     x4_file uuid im 12 = (0x81A4, hello_data) \<and> x4_file uuid im 14 = (0x81A4, test2_data) \<and>
     x4_file uuid im 16 = (0x81A4, motd_data) \<and> x4_file uuid im 17 = (0x81A4, passwd_data) \<and>
     x4_file uuid im 22 = (0x81A4, www_index_data) \<and> x4_file uuid im 24 = (0x81A4, hello_zig_data)"

lemma e4_phase_test_files:
  assumes "e4_tree_ready now s" "next_block s + 6 \<le> TOTAL_BLOCKS"
  shows "e4_tree.phase now (e4_test_files now uuid (fixed_at 12)) s () {12, 14, 16, 17, 22, 24} 6 0 (test_files_at uuid)"
proof -
  have p: "e4_tree.phase now (e4_put_file now uuid i 0x81A4 d) t () {i} 1 0 (\<lambda>im. x4_file uuid im i = (0x81A4, d))"
    if "e4_tree_ready now t" "next_block t + 1 \<le> TOTAL_BLOCKS" "1 \<le> i" "i \<le> 24" "e4_span d = 1" "length d < 2 ^ 32" for t i d
  proof -
    have "i \<le> TOTAL_INODES" using that(4) by (simp add: layout)
    from e4_phase_put_file[OF that(1,3) this, of d "0x81A4" uuid] that show ?thesis by simp
  qed
  have "e4_tree.phase now (e4_test_files now uuid (fixed_at 12)) s () ({12} \<union> ({14} \<union> ({16} \<union> ({17} \<union> ({22} \<union> ({24} \<union> {}))))))
      (1 + (1 + (1 + (1 + (1 + (1 + 0)))))) (0 + (0 + (0 + (0 + (0 + (0 + 0))))))
      (\<lambda>im. x4_file uuid im 12 = (0x81A4, hello_data) \<and> x4_file uuid im 14 = (0x81A4, test2_data) \<and>
        x4_file uuid im 16 = (0x81A4, motd_data) \<and> x4_file uuid im 17 = (0x81A4, passwd_data) \<and>
        x4_file uuid im 22 = (0x81A4, www_index_data) \<and> x4_file uuid im 24 = (0x81A4, hello_zig_data) \<and> True)"
    unfolding e4_test_files_def py_each.simps prod.case
    by (intro e4_tree.phase_seq) (use assms fixed_spans fixed_lengths in \<open>simp_all add: fixed_at_def p e4_tree.phase_ret del: One_nat_def\<close>)
  then show ?thesis by (rule e4_tree.phase_mono) (auto simp: test_files_at_def)
qed

section \<open>Binaries and host trees\<close>

definition bin_result ::
  "nat \<Rightarrow> bytes option \<Rightarrow> (string \<times> bytes) list \<Rightarrow> nat option \<times> nat option \<times> (string \<times> nat) list" where
  "bin_result i shell extra_bins =
     (if has_bin shell extra_bins
      then (Some i, if has_shell shell then Some (i + 1) else None,
            files_info (if has_shell shell then i + 2 else i + 1) (sort_key fst extra_bins))
      else (None, None, []))"

lemma e4_phase_binaries:
  assumes s: "e4_tree_ready now s" "next_inode s + bin_inodes shell bins \<le> TOTAL_INODES + 1"
    "next_block s + files_blocks e4_span (bin_files shell bins) \<le> TOTAL_BLOCKS" "files_ok (bin_files shell bins)"
  shows "e4_tree.phase now (e4_binaries now uuid shell bins) s (bin_result (next_inode s) shell bins)
    {next_inode s + 1..<next_inode s + 1 + length (bin_files shell bins)} (files_blocks e4_span (bin_files shell bins))
    (bin_inodes shell bins) (\<lambda>im. files_at (x4_file uuid im) True (next_inode s + 1) (bin_files shell bins))"
proof (cases "has_bin shell bins")
  case False
  then show ?thesis
    using e4_tree.phase_ret[OF s(1), of "(None, None, [])"]
    by (simp add: e4_binaries_def no_bin bin_result_def bin_inodes_def files_blocks_def del: py_ret_run)
next
  case True
  let ?i = "next_inode s" and ?fs = "sort_key fst bins" and ?sh = "if has_shell shell then [(''zsh'', the shell)] else []"
  let ?z = "if has_shell shell then Some (?i + 1) else None"
  let ?j = "if has_shell shell then ?i + 2 else ?i + 1"
  have fm: "0x81ED = file_mode True" by (simp add: file_mode_def)
  have fb: "files_blocks e4_span (bin_files shell bins) = files_blocks e4_span ?sh + files_blocks e4_span ?fs"
    and fo: "files_ok ?sh" "files_ok ?fs" using s(4) by (simp_all add: bin_files_def files_blocks_def files_ok_def)
  have ni: "bin_inodes shell bins = 1 + (length ?sh + length ?fs)" using True by (simp add: bin_inodes_def bin_files_def)
  have zsh: "e4_tree.phase now (if has_shell shell then py_bind (e4_store_file now uuid 0x81ED (the shell)) (\<lambda>i. py_ret (Some i))
        else py_ret None) t ?z {?i + 1..<?i + 1 + length ?sh} (files_blocks e4_span ?sh) (length ?sh)
      (\<lambda>im. files_at (x4_file uuid im) True (?i + 1) ?sh)"
    if t: "e4_tree_ready now t" "next_block t = next_block s" "next_inode t = ?i + 1" for t
  proof (cases "has_shell shell")
    case True
    have "e4_tree.phase now (py_bind (e4_store_file now uuid (file_mode True) (the shell)) (\<lambda>i. py_ret (Some i))) t (Some (?i + 1))
        ({?i + 1} \<union> {}) (e4_span (the shell) + 0) (1 + 0) (\<lambda>im. x4_file uuid im (?i + 1) = (file_mode True, the shell) \<and> True)"
      unfolding t(3)[symmetric]
      by (rule e4_tree.phase_bind[OF e4_tree.phase_store[OF t(1)]])
        (use s True t fo ni fb in \<open>auto simp: files_blocks_def files_ok_def file_mode_def intro: e4_tree.phase_ret\<close>)
    then show ?thesis using True by (simp add: files_blocks_def fm del: py_ret_run)
  next
    case False
    then show ?thesis using e4_tree.phase_ret[OF t(1), of None] by (simp add: files_blocks_def del: py_ret_run)
  qed
  have rest: "e4_tree.phase now (e4_store_named now uuid 0x81ED bins) t (files_info ?j ?fs) {?j..<?j + length ?fs}
      (files_blocks e4_span ?fs) (length ?fs) (\<lambda>im. files_at (x4_file uuid im) True ?j ?fs)"
    if t: "e4_tree_ready now t" "next_block t = next_block s + files_blocks e4_span ?sh" "next_inode t = ?j" for t
    unfolding e4_store_named_def fm t(3)[symmetric]
    by (rule e4_phase_store_files[OF t(1) _ _ fo(2)]) (use t s fb ni in \<open>auto split: if_splits\<close>)
  have "e4_tree.phase now (e4_binaries now uuid shell bins) s (Some ?i, ?z, files_info ?j ?fs)
      ({} \<union> ({?i + 1..<?i + 1 + length ?sh} \<union> ({?j..<?j + length ?fs} \<union> {})))
      (0 + (files_blocks e4_span ?sh + (files_blocks e4_span ?fs + 0))) (1 + (length ?sh + (length ?fs + 0)))
      (\<lambda>im. True \<and> files_at (x4_file uuid im) True (?i + 1) ?sh \<and> files_at (x4_file uuid im) True ?j ?fs \<and> True)"
    unfolding e4_binaries_def using True
    apply (simp only: if_True)
    apply (rule e4_tree.phase_bind[OF e4_tree.phase_alloc[OF s(1)]])
    subgoal using s(2) ni by simp
    subgoal for t
      apply (rule e4_tree.phase_bind[OF zsh])
      apply simp_all[3]
      subgoal for u
        by (rule e4_tree.phase_bind[OF rest]) (auto intro: e4_tree.phase_ret)
      by auto
    by simp
  then show ?thesis
    using True by (elim e4_tree.phase_mono) (auto simp: bin_result_def fb ni bin_files_def files_blocks_def)
qed

text \<open>The host trees.\<close>

lemma e4_phase_opt_tree:
  assumes s: "e4_tree_ready now s" "next_inode s + opt_inodes tree \<le> TOTAL_INODES + 1"
    "next_block s + opt_blocks e4_span tree \<le> TOTAL_BLOCKS" "opt_ok e4_dir_names_ok tree" and name: "is_ascii name" "length name < 256"
  shows "e4_tree.phase now (e4_tree_dir now uuid tree) s (opt_ino (next_inode s) tree)
    {next_inode s..<next_inode s + opt_inodes tree} (opt_blocks e4_span tree) (opt_inodes tree)
    (\<lambda>im. opt_read (x4_file uuid) (x4_dir uuid) im name (next_inode s) tree)"
proof (cases tree)
  case None
  then show ?thesis
    using e4_tree.phase_ret[OF s(1), of None]
    by (simp add: e4_tree_dir_def opt_ino_def opt_inodes_def opt_blocks_def opt_read_def del: py_ret_run)
next
  case (Some cs)
  have two: "1 \<le> (2 :: nat)" "2 \<le> TOTAL_INODES" by (simp_all add: layout)
  have ok: "node_ok e4_dir_names_ok (HDir cs)" "next_inode s + node_inodes (HDir cs) \<le> TOTAL_INODES + 1"
    "next_block s + node_blocks e4_span names_span (HDir cs) \<le> TOTAL_BLOCKS"
    using s(2-4) Some by (simp_all add: opt_ok_def opt_inodes_def opt_blocks_def tree_node_def)
  note td = e4_tree.phase_tree_dir[OF s(1) ok two name, of uuid]
  show ?thesis
    unfolding e4_tree_dir_def Some option.case e4_add_tree_def
    by (rule e4_tree.phase_mono[OF e4_tree.phase_bind[OF td e4_tree.phase_ret]])
      (simp_all add: Some opt_ino_def opt_inodes_def opt_blocks_def opt_read_def tree_node_def)
qed

section \<open>Directories\<close>

definition small_dirs_at :: "bytes \<Rightarrow> bytes \<Rightarrow> bool" where
  "small_dirs_at uuid im \<longleftrightarrow>
     x4_dir uuid im 11 = Some [(11, ''.'', FT_DIR), (2, ''..'', FT_DIR)] \<and>
     x4_dir uuid im 18 = Some [(18, ''.'', FT_DIR), (2, ''..'', FT_DIR)] \<and>
     x4_dir uuid im 20 = Some [(20, ''.'', FT_DIR), (19, ''..'', FT_DIR)] \<and>
     x4_dir uuid im 23 = Some [(23, ''.'', FT_DIR), (2, ''..'', FT_DIR)] \<and>
     x4_dir uuid im 13 = Some [(13, ''.'', FT_DIR), (2, ''..'', FT_DIR), (14, ''test2.txt'', FT_REG)] \<and>
     x4_dir uuid im 15 = Some [(15, ''.'', FT_DIR), (2, ''..'', FT_DIR), (16, ''motd'', FT_REG), (17, ''passwd'', FT_REG)] \<and>
     x4_dir uuid im 21 = Some [(21, ''.'', FT_DIR), (2, ''..'', FT_DIR), (22, ''index.html'', FT_REG)] \<and>
     x4_dir uuid im 19 = Some [(19, ''.'', FT_DIR), (2, ''..'', FT_DIR), (20, ''user'', FT_DIR)]"

lemma e4_phase_small_dirs:
  assumes "e4_tree_ready now s" "next_block s + 8 \<le> TOTAL_BLOCKS"
  shows "e4_tree.phase now (e4_small_dirs now uuid (fixed_at 12)) s () {11, 18, 20, 23, 13, 15, 21, 19} 8 0 (small_dirs_at uuid)"
proof -
  have p: "e4_tree.phase now (e4_put_small_dir now uuid i mode es nlink uid gid) t () {i} 1 0 (\<lambda>im. x4_dir uuid im i = Some es)"
    if "e4_tree_ready now t" "next_block t + 1 \<le> TOTAL_BLOCKS" "1 \<le> i" "i \<le> 24" "entries_ok es" "es \<noteq> []"
      "sum_list (map (\<lambda>n. min_rec_len (length n)) (entry_names es)) \<le> BLOCK_SIZE"
      "0 \<le> nlink" "nlink < 2 ^ 16" "0 \<le> mode" "mode < 2 ^ 16" "0 \<le> uid" "uid < 2 ^ 16" "0 \<le> gid" "gid < 2 ^ 16"
    for t i mode es nlink uid gid
    by (rule e4_phase_small_dir) (use that in \<open>simp_all add: layout\<close>)
  have "e4_tree.phase now (e4_small_dirs now uuid (fixed_at 12)) s ()
      (({11} \<union> ({18} \<union> ({20} \<union> ({23} \<union> {})))) \<union> ({13} \<union> ({15} \<union> ({21} \<union> {19}))))
      ((1 + (1 + (1 + (1 + 0)))) + (1 + (1 + (1 + 1)))) ((0 + (0 + (0 + (0 + 0)))) + (0 + (0 + (0 + 0))))
      (\<lambda>im. (x4_dir uuid im 11 = Some [(11, ''.'', FT_DIR), (2, ''..'', FT_DIR)] \<and>
        x4_dir uuid im 18 = Some [(18, ''.'', FT_DIR), (2, ''..'', FT_DIR)] \<and>
        x4_dir uuid im 20 = Some [(20, ''.'', FT_DIR), (19, ''..'', FT_DIR)] \<and>
        x4_dir uuid im 23 = Some [(23, ''.'', FT_DIR), (2, ''..'', FT_DIR)] \<and> True) \<and>
        x4_dir uuid im 13 = Some [(13, ''.'', FT_DIR), (2, ''..'', FT_DIR), (14, ''test2.txt'', FT_REG)] \<and>
        x4_dir uuid im 15 = Some [(15, ''.'', FT_DIR), (2, ''..'', FT_DIR), (16, ''motd'', FT_REG), (17, ''passwd'', FT_REG)] \<and>
        x4_dir uuid im 21 = Some [(21, ''.'', FT_DIR), (2, ''..'', FT_DIR), (22, ''index.html'', FT_REG)] \<and>
        x4_dir uuid im 19 = Some [(19, ''.'', FT_DIR), (2, ''..'', FT_DIR), (20, ''user'', FT_DIR)])"
    unfolding e4_small_dirs_def py_each.simps prod.case
    by (intro e4_tree.phase_seq)
      (use assms in \<open>simp_all add: fixed_at_def p e4_tree.phase_ret entries_ok_def dirent_ok_def FT_DIR_def FT_REG_def is_ascii_def
        min_rec_len_def entry_names_def BLOCK_SIZE_def del: One_nat_def\<close>)
  then show ?thesis by (rule e4_tree.phase_mono) (auto simp: small_dirs_at_def)
qed

lemma e4_phase_bin_dir:
  assumes s: "e4_tree_ready now s" and i: "1 \<le> i" "i + bin_inodes shell bins \<le> TOTAL_INODES + 1"
    and "next_block s + bin_dir_blocks shell bins \<le> TOTAL_BLOCKS" "files_ok (bin_files shell bins)"
    and nm: "has_bin shell bins \<Longrightarrow> e4_dir_names_ok (bin_names shell bins)"
  shows "e4_tree.phase now (e4_bin_dir now uuid (bin_result i shell bins)) s () (if has_bin shell bins then {i} else {})
    (bin_dir_blocks shell bins) 0 (\<lambda>im. has_bin shell bins \<longrightarrow> x4_dir uuid im i = Some (bin_entries i shell bins))"
proof (cases "has_bin shell bins")
  case False
  then show ?thesis
    using e4_tree.phase_ret[OF s, of "()"] by (simp add: e4_bin_dir_def bin_result_def bin_dir_blocks_def del: py_ret_run)
next
  case True
  have le: "i + 1 + length (bin_files shell bins) \<le> TOTAL_INODES + 1" using i(2) True by (simp add: bin_inodes_def)
  have "i + 1 + length (bin_files shell bins) \<le> 2 ^ 32" using le by (simp add: layout)
  note ok = bin_entries_ok[OF assms(5) i(1) this]
  have es: "e4_bin_dir now uuid (bin_result i shell bins) = e4_put_dir now uuid i 0x41ED (bin_entries i shell bins) 2 0 0"
    using True by (auto simp: e4_bin_dir_def bin_result_def bin_entries_def bin_files_def files_entries)
  have "e4_tree.phase now (e4_put_dir now uuid i 0x41ED (bin_entries i shell bins) 2 0 0) s () {i}
      (names_span (entry_names (bin_entries i shell bins))) 0 (\<lambda>im. x4_dir uuid im i = Some (bin_entries i shell bins))"
    by (rule e4_phase_put_dir[OF s i(1) _ ok(1)]) (use True nm assms(4) le in \<open>simp_all add: ok(2) bin_dir_blocks_def\<close>)
  then show ?thesis using True by (simp add: es ok(2) bin_dir_blocks_def)
qed

section \<open>The root directory\<close>

definition kernel_ino_of :: "ext4_args \<Rightarrow> nat" where
  "kernel_ino_of a = zig_ino_of 25 a + opt_inodes (zig_tree a)"

definition image_inodes :: "ext4_args \<Rightarrow> nat" where
  "image_inodes a = kernel_ino_of a + opt_inodes (kernel_tree a)"

definition root_names :: "ext4_args \<Rightarrow> string list" where
  "root_names a =
     [''.'', ''..'', ''lost+found'', ''hello.txt'', ''hello.zig'', ''testdir'', ''etc'', ''root'', ''home'', ''www'', ''tmp''] @
     map fst (scripts_of a) @ (if has_bin (shell_binary a) (bins_of a) then [''bin''] else []) @
     (if zig_tree a \<noteq> None then [''zig''] else []) @ (if kernel_tree a \<noteq> None then [''zigix''] else [])"

definition root_entries :: "ext4_args \<Rightarrow> dirent list" where
  "root_entries a = e4_root_entries (fixed_at 12) (files_info (scripts_ino 25 a) (scripts_of a))
     (fst (bin_result 25 (shell_binary a) (bins_of a)))
     (opt_ino (zig_ino_of 25 a) (zig_tree a)) (opt_ino (kernel_ino_of a) (kernel_tree a))"

definition image_blocks :: "ext4_args \<Rightarrow> nat" where
  "image_blocks a = METADATA_END + (8201 + (0 + (6 + (files_blocks e4_span (bin_files (shell_binary a) (bins_of a)) +
     (files_blocks e4_span (scripts_of a) + (opt_blocks e4_span (zig_tree a) + (opt_blocks e4_span (kernel_tree a) +
     (8 + (bin_dir_blocks (shell_binary a) (bins_of a) + names_span (root_names a))))))))))"

text \<open>The arguments the script can handle.\<close>

definition args_ok :: "ext4_args \<Rightarrow> bool" where
  "args_ok a \<longleftrightarrow>
     files_ok (bin_files (shell_binary a) (bins_of a)) \<and> files_ok (scripts_of a) \<and>
     opt_ok e4_dir_names_ok (zig_tree a) \<and> opt_ok e4_dir_names_ok (kernel_tree a) \<and>
     (has_bin (shell_binary a) (bins_of a) \<longrightarrow> e4_dir_names_ok (bin_names (shell_binary a) (bins_of a))) \<and>
     e4_dir_names_ok (root_names a) \<and> image_inodes a \<le> TOTAL_INODES + 1 \<and> image_blocks a \<le> TOTAL_BLOCKS"

lemma opt_small: "0 < opt_inodes tree" if "tree \<noteq> None"
  using that by (simp add: opt_inodes_def tree_node_def node_dir_simps)

lemma root_entries_eq:
  "root_entries a =
     [(2, ''.'', FT_DIR), (2, ''..'', FT_DIR), (11, ''lost+found'', FT_DIR), (12, ''hello.txt'', FT_REG),
      (24, ''hello.zig'', FT_REG), (13, ''testdir'', FT_DIR), (15, ''etc'', FT_DIR), (18, ''root'', FT_DIR),
      (19, ''home'', FT_DIR), (21, ''www'', FT_DIR), (23, ''tmp'', FT_DIR)] @
     file_entries (scripts_ino 25 a) (scripts_of a) @
     (if has_bin (shell_binary a) (bins_of a) then [(25, ''bin'', FT_DIR)] else []) @
     (if zig_tree a \<noteq> None then [(zig_ino_of 25 a, ''zig'', FT_DIR)] else []) @
     (if kernel_tree a \<noteq> None then [(kernel_ino_of a, ''zigix'', FT_DIR)] else [])"
  by (simp add: root_entries_def e4_root_entries_def files_entries fixed_at_def opt_dir_def opt_ino_def bin_result_def)

lemma root_entries_ok:
  assumes "args_ok a"
  shows "entries_ok (root_entries a)" and "entry_names (root_entries a) = root_names a"
proof -
  have lt: "scripts_ino 25 a + length (scripts_of a) \<le> TOTAL_INODES + 1" "25 \<le> scripts_ino 25 a"
    "image_inodes a \<le> TOTAL_INODES + 1"
    using assms by (simp_all add: args_ok_def image_inodes_def kernel_ino_of_def zig_ino_of_def scripts_ino_def)
  have "entries_ok (file_entries (scripts_ino 25 a) (scripts_of a))"
    using assms lt by (intro file_entries_ok) (simp_all add: args_ok_def TOTAL_INODES_def layout)
  moreover have "zig_ino_of 25 a < 2 ^ 32" "kernel_ino_of a < 2 ^ 32" "zig_ino_of 25 a \<noteq> 0" "kernel_ino_of a \<noteq> 0"
    using lt by (simp_all add: image_inodes_def kernel_ino_of_def zig_ino_of_def layout)
  ultimately show "entries_ok (root_entries a)"
    by (simp add: root_entries_eq entries_ok_def dirent_ok_def FT_DIR_def FT_REG_def is_ascii_def)
  show "entry_names (root_entries a) = root_names a"
    using file_entries_names[of "scripts_ino 25 a" "scripts_of a"]
    by (simp add: root_entries_eq entry_names_def root_names_def)
qed

section \<open>All phases together\<close>

definition image_holds :: "bytes \<Rightarrow> ext4_args \<Rightarrow> bytes \<Rightarrow> bool" where
  "image_holds uuid a im \<longleftrightarrow>
     (x4_verified uuid im 8 \<and> journal_at im (inode_table_offset 8) METADATA_END 8192) \<and>
     test_files_at uuid im \<and> files_at (x4_file uuid im) True (25 + 1) (bin_files (shell_binary a) (bins_of a)) \<and>
     files_at (x4_file uuid im) False (scripts_ino 25 a) (scripts_of a) \<and>
     opt_read (x4_file uuid) (x4_dir uuid) im ''zig'' (zig_ino_of 25 a) (zig_tree a) \<and> opt_read (x4_file uuid) (x4_dir uuid) im ''zigix'' (kernel_ino_of a) (kernel_tree a) \<and>
     small_dirs_at uuid im \<and>
     (has_bin (shell_binary a) (bins_of a) \<longrightarrow> x4_dir uuid im 25 = Some (bin_entries 25 (shell_binary a) (bins_of a))) \<and>
     x4_dir uuid im 2 = Some (root_entries a)"

lemma args_bounds:
  assumes "args_ok a"
  shows "METADATA_END + (8201 + (0 + (6 + (files_blocks e4_span (bin_files (shell_binary a) (bins_of a)) +
     (files_blocks e4_span (scripts_of a) + (opt_blocks e4_span (zig_tree a) + (opt_blocks e4_span (kernel_tree a) +
     (8 + (bin_dir_blocks (shell_binary a) (bins_of a) + names_span (root_names a)))))))))) \<le> TOTAL_BLOCKS"
    and "25 + bin_inodes (shell_binary a) (bins_of a) + length (scripts_of a) + opt_inodes (zig_tree a) +
      opt_inodes (kernel_tree a) \<le> TOTAL_INODES + 1"
  using assms by (simp_all add: args_ok_def image_blocks_def image_inodes_def kernel_ino_of_def zig_ino_of_def scripts_ino_def)

text \<open>Each phase at the inode number it finds.\<close>

lemma populate_bins:
  assumes "args_ok a" "e4_tree_ready now t" "next_inode t = 25"
    "next_block t + files_blocks e4_span (bin_files (shell_binary a) (bins_of a)) \<le> TOTAL_BLOCKS"
  shows "e4_tree.phase now (e4_binaries now uuid (shell_binary a) (bins_of a)) t (bin_result 25 (shell_binary a) (bins_of a))
    {25 + 1..<25 + 1 + length (bin_files (shell_binary a) (bins_of a))} (files_blocks e4_span (bin_files (shell_binary a) (bins_of a)))
    (bin_inodes (shell_binary a) (bins_of a)) (\<lambda>im. files_at (x4_file uuid im) True (25 + 1) (bin_files (shell_binary a) (bins_of a)))"
  unfolding assms(3)[symmetric] using assms args_bounds(2)[OF assms(1)] by (intro e4_phase_binaries) (simp_all add: args_ok_def)

lemma populate_scripts:
  assumes "args_ok a" "e4_tree_ready now t" "next_inode t = scripts_ino 25 a" "next_block t + files_blocks e4_span (scripts_of a) \<le> TOTAL_BLOCKS"
  shows "e4_tree.phase now (e4_store_named now uuid 0x81A4 (read_files (scripts_listing a))) t (files_info (scripts_ino 25 a) (scripts_of a))
    {scripts_ino 25 a..<scripts_ino 25 a + length (scripts_of a)} (files_blocks e4_span (scripts_of a)) (length (scripts_of a))
    (\<lambda>im. files_at (x4_file uuid im) False (scripts_ino 25 a) (scripts_of a))"
proof -
  have "0x81A4 = file_mode False" by (simp add: file_mode_def)
  then show ?thesis
    using e4_phase_store_files[OF assms(2), of "scripts_of a" uuid False] assms args_bounds(2)[OF assms(1)]
    by (simp add: e4_store_named_def scripts_of_def[symmetric] args_ok_def scripts_ino_def)
qed

lemma populate_tree:
  assumes "e4_tree_ready now t" "next_inode t = i" "i + opt_inodes tree \<le> TOTAL_INODES + 1"
    "next_block t + opt_blocks e4_span tree \<le> TOTAL_BLOCKS" "opt_ok e4_dir_names_ok tree" "is_ascii name" "length name < 256"
  shows "e4_tree.phase now (e4_tree_dir now uuid tree) t (opt_ino i tree) {i..<i + opt_inodes tree} (opt_blocks e4_span tree)
      (opt_inodes tree) (\<lambda>im. opt_read (x4_file uuid) (x4_dir uuid) im name i tree)"
  using e4_phase_opt_tree[OF assms(1) _ assms(4-7)] assms(2,3) by simp

lemma populate_fixed:
  assumes "e4_tree_ready now t" "next_inode t = 12"
  shows "e4_tree.phase now e4_fixed_inodes t (fixed_at 12) {} 0 13 (\<lambda>_. True)"
  using e4_phase_fixed_inodes[OF assms(1)] assms(2) by (simp add: layout)

lemma populate_bin_dir:
  assumes "args_ok a" "e4_tree_ready now t" "next_block t + bin_dir_blocks (shell_binary a) (bins_of a) \<le> TOTAL_BLOCKS"
  shows "e4_tree.phase now (e4_bin_dir now uuid (bin_result 25 (shell_binary a) (bins_of a))) t ()
    (if has_bin (shell_binary a) (bins_of a) then {25} else {}) (bin_dir_blocks (shell_binary a) (bins_of a)) 0
    (\<lambda>im. has_bin (shell_binary a) (bins_of a) \<longrightarrow> x4_dir uuid im 25 = Some (bin_entries 25 (shell_binary a) (bins_of a)))"
  using assms args_bounds(2)[OF assms(1)] by (intro e4_phase_bin_dir) (simp_all add: args_ok_def)

lemma populate_root:
  assumes "args_ok a" "e4_tree_ready now t" "next_block t + names_span (root_names a) \<le> TOTAL_BLOCKS"
  shows "e4_tree.phase now (e4_put_dir now uuid 2 0x41ED
      (e4_root_entries (fixed_at 12) (files_info (scripts_ino 25 a) (scripts_of a)) (fst (bin_result 25 (shell_binary a) (bins_of a)))
        (opt_ino (zig_ino_of 25 a) (zig_tree a)) (opt_ino (kernel_ino_of a) (kernel_tree a)))
      (e4_root_nlink (fst (bin_result 25 (shell_binary a) (bins_of a)))
        (opt_ino (zig_ino_of 25 a) (zig_tree a)) (opt_ino (kernel_ino_of a) (kernel_tree a))) 0 0) t () {2}
    (names_span (root_names a)) 0 (\<lambda>im. x4_dir uuid im 2 = Some (root_entries a))"
proof -
  have two: "2 \<le> TOTAL_INODES" by (simp add: layout)
  show ?thesis
    using e4_phase_put_dir[OF assms(2) _ two root_entries_ok(1)[OF assms(1)], of _ "0x41ED" 0 0 uuid] assms
    by (simp add: root_entries_ok(2)[OF assms(1)] root_entries_def[symmetric] args_ok_def e4_root_nlink_def)
qed

lemmas populate_steps =
  e4_tree.phase_seq[OF e4_phase_journal] e4_tree.phase_bind[OF populate_fixed] e4_tree.phase_seq[OF e4_phase_test_files]
  e4_tree.phase_bind[OF populate_bins] e4_tree.phase_bind[OF populate_scripts] e4_tree.phase_bind[OF populate_tree]
  e4_tree.phase_seq[OF e4_phase_small_dirs] e4_tree.phase_seq[OF populate_bin_dir] e4_tree.phase_seq[OF populate_root]

lemma e4_populate_phase:
  assumes a: "args_ok a" and s: "e4_tree_ready now s" "next_block s = METADATA_END" "next_inode s = 12"
  shows "\<exists>J. e4_tree.phase now (e4_populate now uuid a) s (has_bin (shell_binary a) (bins_of a), zig_tree a \<noteq> None) J
    (image_blocks a - METADATA_END) (image_inodes a - 12) (image_holds uuid a)"
proof -
  let ?sh = "shell_binary a" and ?bs = "bins_of a" and ?sc = "scripts_of a"
  let ?bf = "bin_files ?sh ?bs"
  note ab = args_bounds[OF a]
  have o: "has_bin ?sh ?bs \<Longrightarrow> 25 + 1 + length ?bf \<le> scripts_ino 25 a" "\<not> has_bin ?sh ?bs \<Longrightarrow> ?bf = []" "25 \<le> scripts_ino 25 a"
    by (simp_all add: scripts_ino_def bin_inodes_def no_bin)
  have side: "opt_ok e4_dir_names_ok (zig_tree a)" "opt_ok e4_dir_names_ok (kernel_tree a)" "is_ascii ''zig''" "is_ascii ''zigix''"
    "length ''zig'' < 256" "length ''zigix'' < 256" using a by (simp_all add: args_ok_def is_ascii_def)
  note ino = kernel_ino_of_def[of a] zig_ino_of_def[of 25 a] scripts_ino_def[of 25 a]
  let ?J = "{8} \<union> ({} \<union> ({12, 14, 16, 17, 22, 24} \<union> ({25 + 1..<25 + 1 + length ?bf} \<union>
      ({scripts_ino 25 a..<scripts_ino 25 a + length ?sc} \<union> ({zig_ino_of 25 a..<zig_ino_of 25 a + opt_inodes (zig_tree a)} \<union>
      ({kernel_ino_of a..<kernel_ino_of a + opt_inodes (kernel_tree a)} \<union> ({11, 18, 20, 23, 13, 15, 21, 19} \<union>
      ((if has_bin ?sh ?bs then {25} else {}) \<union> ({2} \<union> {})))))))))"
  let ?r = "(fst (bin_result 25 ?sh ?bs) \<noteq> None, opt_ino (zig_ino_of 25 a) (zig_tree a) \<noteq> None)"
  have "e4_tree.phase now (e4_populate now uuid a) s ?r ?J
      (8201 + (0 + (6 + (files_blocks e4_span ?bf + (files_blocks e4_span ?sc + (opt_blocks e4_span (zig_tree a) + (opt_blocks e4_span (kernel_tree a) +
        (8 + (bin_dir_blocks ?sh ?bs + (names_span (root_names a) + 0))))))))))
      (0 + (13 + (0 + (bin_inodes ?sh ?bs + (length ?sc + (opt_inodes (zig_tree a) + (opt_inodes (kernel_tree a) + (0 + (0 + (0 + 0))))))))))
      (\<lambda>im. (x4_verified uuid im 8 \<and> journal_at im (inode_table_offset 8) (next_block s) 8192) \<and> True \<and>
        test_files_at uuid im \<and> files_at (x4_file uuid im) True (25 + 1) ?bf \<and> files_at (x4_file uuid im) False (scripts_ino 25 a) ?sc \<and>
        opt_read (x4_file uuid) (x4_dir uuid) im ''zig'' (zig_ino_of 25 a) (zig_tree a) \<and> opt_read (x4_file uuid) (x4_dir uuid) im ''zigix'' (kernel_ino_of a) (kernel_tree a) \<and>
        small_dirs_at uuid im \<and> (has_bin ?sh ?bs \<longrightarrow> x4_dir uuid im 25 = Some (bin_entries 25 ?sh ?bs)) \<and>
        x4_dir uuid im 2 = Some (root_entries a) \<and> True)"
    unfolding e4_populate_def Let_def
    apply ((rule populate_steps; (assumption | rule s(1) a side | (use s(2,3) ab ino in linarith))?)+)
    by (rule e4_tree.phase_ret, assumption)
      (use o in \<open>auto simp: zig_ino_of_def kernel_ino_of_def split: if_splits\<close>)
  then show ?thesis
    by (intro exI[of _ ?J], elim e4_tree.phase_mono)
      (use s in \<open>simp_all add: bin_result_def opt_ino_def image_blocks_def image_inodes_def kernel_ino_of_def zig_ino_of_def
        scripts_ino_def image_holds_def\<close>)
qed

section \<open>What a reader sees\<close>

text \<open>The tree the script means to build.\<close>

definition fixed_nodes :: "(string \<times> host) list" where
  "fixed_nodes =
     [(''lost+found'', HDir (Some [])), (''hello.txt'', HFile hello_data False), (''hello.zig'', HFile hello_zig_data False),
      (''testdir'', HDir (Some [(''test2.txt'', HFile test2_data False)])),
      (''etc'', HDir (Some [(''motd'', HFile motd_data False), (''passwd'', HFile passwd_data False)])),
      (''root'', HDir (Some [])), (''home'', HDir (Some [(''user'', HDir (Some []))])),
      (''www'', HDir (Some [(''index.html'', HFile www_index_data False)])), (''tmp'', HDir (Some []))]"

definition image_tree :: "ext4_args \<Rightarrow> host" where
  "image_tree a = HDir (Some (fixed_nodes @ file_nodes False (scripts_of a) @
     (if has_bin (shell_binary a) (bins_of a)
      then [(''bin'', HDir (Some (file_nodes True (bin_files (shell_binary a) (bins_of a)))))] else []) @
     (if zig_tree a \<noteq> None then [(''zig'', prune (tree_node (zig_tree a)))] else []) @
     (if kernel_tree a \<noteq> None then [(''zigix'', prune (tree_node (kernel_tree a)))] else [])))"

lemma fixed_read:
  assumes "test_files_at uuid im" "small_dirs_at uuid im"
  shows "map (read_node (x4_file uuid) (x4_dir uuid) (Suc (Suc n)) im 2)
     [(11, ''lost+found'', FT_DIR), (12, ''hello.txt'', FT_REG), (24, ''hello.zig'', FT_REG), (13, ''testdir'', FT_DIR),
      (15, ''etc'', FT_DIR), (18, ''root'', FT_DIR), (19, ''home'', FT_DIR), (21, ''www'', FT_DIR), (23, ''tmp'', FT_DIR)] =
     map (\<lambda>c. Some (snd c)) fixed_nodes"
  using assms by (simp add: test_files_at_def small_dirs_at_def fixed_nodes_def FT_DIR_def FT_REG_def file_mode_def)

lemma image_read:
  assumes h: "image_holds uuid a im" and n: "2 \<le> n"
    and z: "zig_tree a \<noteq> None \<Longrightarrow> node_height (tree_node (zig_tree a)) \<le> n"
    and k: "kernel_tree a \<noteq> None \<Longrightarrow> node_height (tree_node (kernel_tree a)) \<le> n"
  shows "read_node (x4_file uuid) (x4_dir uuid) (Suc n) im 2 (2, name, FT_DIR) = Some (image_tree a)"
proof -
  obtain m where m: "n = Suc (Suc m)" using n by (metis One_nat_def Suc_1 Suc_le_D Suc_le_mono)
  let ?R = "read_node (x4_file uuid) (x4_dir uuid) n im 2"
  have sc: "map ?R (file_entries (scripts_ino 25 a) (scripts_of a)) = map (\<lambda>c. Some (snd c)) (file_nodes False (scripts_of a))"
    using h by (simp add: m image_holds_def files_at_read file_nodes_def comp_def)
  have bin: "?R (25, ''bin'', FT_DIR) = Some (HDir (Some (file_nodes True (bin_files (shell_binary a) (bins_of a)))))"
    if "has_bin (shell_binary a) (bins_of a)"
    unfolding m
  proof (rule read_dir)
    show "x4_dir uuid im 25 = Some ([(25, ''.'', FT_DIR), (2, ''..'', FT_DIR)] @ file_entries (25 + 1) (bin_files (shell_binary a) (bins_of a)))"
      using h that by (simp add: image_holds_def bin_entries_def)
  qed (use h in \<open>simp_all add: image_holds_def files_at_read file_nodes_def comp_def file_entries_names\<close>)
  have zig: "?R (zig_ino_of 25 a, ''zig'', FT_DIR) = Some (prune (tree_node (zig_tree a)))" if "zig_tree a \<noteq> None"
    using h z that by (simp add: image_holds_def opt_read_def)
  have ker: "?R (kernel_ino_of a, ''zigix'', FT_DIR) = Some (prune (tree_node (kernel_tree a)))" if "kernel_tree a \<noteq> None"
    using h k that by (simp add: image_holds_def opt_read_def)
  note fx = fixed_read[of uuid im m]
  show ?thesis
    unfolding image_tree_def
  proof (rule read_dir)
    show "x4_dir uuid im 2 = Some ([(2, ''.'', FT_DIR), (2, ''..'', FT_DIR)] @ drop 2 (root_entries a))"
      using h by (simp add: image_holds_def root_entries_eq)
    show "map ?R (drop 2 (root_entries a)) = map (\<lambda>c. Some (snd c)) (fixed_nodes @ file_nodes False (scripts_of a) @
       (if has_bin (shell_binary a) (bins_of a)
        then [(''bin'', HDir (Some (file_nodes True (bin_files (shell_binary a) (bins_of a)))))] else []) @
       (if zig_tree a \<noteq> None then [(''zig'', prune (tree_node (zig_tree a)))] else []) @
       (if kernel_tree a \<noteq> None then [(''zigix'', prune (tree_node (kernel_tree a)))] else []))"
      using fx h sc bin zig ker
      by (simp add: root_entries_eq image_holds_def m[symmetric] del: read_node.simps)
    show "entry_names (drop 2 (root_entries a)) = map fst (fixed_nodes @ file_nodes False (scripts_of a) @
       (if has_bin (shell_binary a) (bins_of a)
        then [(''bin'', HDir (Some (file_nodes True (bin_files (shell_binary a) (bins_of a)))))] else []) @
       (if zig_tree a \<noteq> None then [(''zig'', prune (tree_node (zig_tree a)))] else []) @
       (if kernel_tree a \<noteq> None then [(''zigix'', prune (tree_node (kernel_tree a)))] else []))"
      using file_entries_names[of "scripts_ino 25 a" "scripts_of a"]
      by (simp add: root_entries_eq fixed_nodes_def file_nodes_def entry_names_def comp_def)
  qed
qed

lemma uuid_run: "\<exists>uuid. fs_uuid_of now = Inr uuid \<and> length uuid = 16"
proof -
  have "now AND 0xFFFFFFFF = now mod 2 ^ 32"
    using take_bit_eq_mask[of 32 now] by (simp add: take_bit_eq_mod mask_eq_exp_minus_1)
  then show ?thesis by (simp add: fs_uuid_of_def pack_le_def)
qed

text \<open>
  C1: for every set of arguments that fits, \<^verbatim>\<open>make_ext4_img.py\<close> produces a full-size image whose
  root directory reads back, through verified inodes, extent trees and directory blocks, as
  exactly the tree the script means to build: the fixed files and directories, the scripts, the
  binaries under \<^verbatim>\<open>/bin\<close> and the copies of the two host trees; the journal is whole, all eight
  groups are consistent, and the superblock's free counts are what is left.
\<close>

theorem e4_main_image:
  assumes "args_ok a" and "clock_ok now" and "\<And>x. length (md5 x) = 16" and "2 \<le> n"
    and "zig_tree a \<noteq> None \<Longrightarrow> node_height (tree_node (zig_tree a)) \<le> n"
    and "kernel_tree a \<noteq> None \<Longrightarrow> node_height (tree_node (kernel_tree a)) \<le> n"
  shows "\<exists>fs_uuid im. fs_uuid_of now = Inr fs_uuid \<and> e4_main md5 now a = Inr im \<and>
    length im = TOTAL_BLOCKS * BLOCK_SIZE \<and>
    read_node (x4_file fs_uuid) (x4_dir fs_uuid) (Suc n) im 2 (2, ''/'', FT_DIR) = Some (image_tree a) \<and>
    x4_verified fs_uuid im 8 \<and> journal_at im (inode_table_offset 8) METADATA_END 8192 \<and>
    (\<forall>g < NUM_GROUPS. group_valid fs_uuid im (image_blocks a) (image_inodes a) g) \<and>
    superblock_valid fs_uuid im (TOTAL_BLOCKS - image_blocks a) (TOTAL_INODES - (image_inodes a - 1))"
proof -
  obtain uuid where uuid: "fs_uuid_of now = Inr uuid" "length uuid = 16" using uuid_run by blast
  let ?hb = "has_bin (shell_binary a) (bins_of a)" and ?hz = "zig_tree a \<noteq> None"
  have s: "e4_tree_ready now e4_init" "next_block e4_init = METADATA_END" "next_inode e4_init = 12"
    using e4_init_ready[OF assms(2)] by (simp_all add: e4_init_def e4_FIRST_DATA_BLOCK_def)
  obtain J t where t: "e4_populate now uuid a e4_init = Inr ((?hb, ?hz), t)"
    and st: "e4_tree.stepped now e4_init t J (image_blocks a - METADATA_END) (image_inodes a - 12)"
    and ho: "e4_tree.holds t J (image_holds uuid a)"
    using e4_populate_phase[OF assms(1) s, of uuid] by (auto simp: e4_tree.phase_def)
  have ge: "METADATA_END \<le> image_blocks a" "12 \<le> image_inodes a"
    by (simp_all add: image_blocks_def image_inodes_def kernel_ino_of_def zig_ino_of_def scripts_ino_def)
  have le: "image_blocks a \<le> TOTAL_BLOCKS" "image_inodes a \<le> TOTAL_INODES + 1" using assms(1) by (simp_all add: args_ok_def)
  have r: "e4_tree_ready now t" "next_block t = image_blocks a" "next_inode t = image_inodes a"
    using st s(2,3) ge by (simp_all add: e4_tree.stepped_def)
  obtain u where u: "e4_write_metadata md5 now uuid ?hb ?hz t = Inr ((), u)" "full_image u"
    "\<forall>g < NUM_GROUPS. group_valid uuid (img u) (image_blocks a) (image_inodes a) g"
    "superblock_valid uuid (img u) (TOTAL_BLOCKS - image_blocks a) (TOTAL_INODES - (image_inodes a - 1))"
    "agrees METADATA_END inode_table_offset e4_INODE_SIZE (img t) (img u) TOTAL_BLOCKS {1..TOTAL_INODES}"
    using e4_metadata_law[of now t uuid md5 ?hb ?hz] r le uuid(2) assms(3) by auto
  have "agrees METADATA_END inode_table_offset e4_INODE_SIZE (img t) (img u) (next_block t) J"
    using ho le r(2) by (intro agrees_weaken[OF u(5)]) (simp_all add: e4_tree.holds_def)
  then have ih: "image_holds uuid a (img u)" using ho by (simp add: e4_tree.holds_def)
  have "e4_main md5 now a = Inr (img u)" using uuid(1) t u(1) by (simp add: e4_main_def py_bind_run)
  then show ?thesis
    using uuid(1) u(2-4) ih image_read[OF ih assms(4-6), of "''/''"]
    by (auto simp: full_image_def image_holds_def)
qed

definition sample_args :: ext4_args where
  "sample_args = \<lparr>shell_binary = Some [0x7F], bins_listing = [(''ls'', Some [1, 2]), (''doc'', None)], scripts_listing = [],
     zig_tree = Some (Some [(''lib'', HFile [3] False)]), kernel_tree = None\<rparr>"

lemma small_names_ok: "ns \<noteq> [] \<Longrightarrow> sum_list (map (\<lambda>n. min_rec_len (length n)) ns) \<le> BLOCK_SIZE \<Longrightarrow>
    e4_dir_names_ok ns \<and> names_span ns = 1"
  using names_small by (simp add: e4_dir_names_ok_def)

lemma sample_args_ok:
  "args_ok sample_args" "node_height (tree_node (zig_tree sample_args)) \<le> 2" "zig_tree sample_args \<noteq> None"
  "kernel_tree sample_args = None"
  "image_tree sample_args = HDir (Some (fixed_nodes @
     [(''bin'', HDir (Some [(''zsh'', HFile [0x7F] True), (''ls'', HFile [1, 2] True)])),
      (''zig'', HDir (Some [(''lib'', HFile [3] False)]))]))"
proof -
  have r: "read_files [(''ls'', Some [1 :: byte, 2]), (''doc'', None)] = [(''ls'', [1, 2])]" "read_files [] = []"
    by (simp_all add: read_files_def)
  have b: "bin_files (Some [0x7F]) [(''ls'', [1 :: byte, 2])] = [(''zsh'', [0x7F]), (''ls'', [1, 2])]"
    "has_bin (Some [0x7F]) [(''ls'', [1 :: byte, 2])]" by (simp_all add: bin_files_def has_shell_def has_bin_def)
  have c: "children (HDir (Some [(''lib'', HFile [3] False)])) = [(''lib'', HFile [3] False)]"
    by (simp add: children_def visible_def)
  have sp: "e4_span [0x7F] = 1" "e4_span [1, 2] = 1" "e4_span [3] = 1" by (simp_all add: one_block_span layout)
  have d: "e4_dir_names_ok [''.'', ''..'', ''lib''] \<and> names_span [''.'', ''..'', ''lib''] = 1"
    "e4_dir_names_ok [''.'', ''..'', ''zsh'', ''ls''] \<and> names_span [''.'', ''..'', ''zsh'', ''ls''] = 1"
    "e4_dir_names_ok (root_names sample_args) \<and> names_span (root_names sample_args) = 1"
    by (rule small_names_ok; simp add: min_rec_len_def layout root_names_def sample_args_def scripts_of_def r b)+
  show "args_ok sample_args"
    using d by (simp add: args_ok_def sample_args_def r b files_ok_def is_ascii_def scripts_of_def opt_ok_def tree_node_def
        node_dir_simps c dot_names_def bin_names_def image_inodes_def kernel_ino_of_def zig_ino_of_def scripts_ino_def
        bin_inodes_def opt_inodes_def image_blocks_def files_blocks_def sp opt_blocks_def bin_dir_blocks_def layout)
  show "node_height (tree_node (zig_tree sample_args)) \<le> 2"
    by (simp add: sample_args_def tree_node_def node_height.simps c height_file)
  show "zig_tree sample_args \<noteq> None" "kernel_tree sample_args = None" by (simp_all add: sample_args_def)
  show "image_tree sample_args = HDir (Some (fixed_nodes @
     [(''bin'', HDir (Some [(''zsh'', HFile [0x7F] True), (''ls'', HFile [1, 2] True)])),
      (''zig'', HDir (Some [(''lib'', HFile [3] False)]))]))"
    by (simp add: image_tree_def sample_args_def r b scripts_of_def file_nodes_def tree_node_def prune_dir c prune_file)
qed

theorem e4_main_image_witness:
  "\<exists>fs_uuid im. e4_main (\<lambda>_. zeros 16) 1700000000 sample_args = Inr im \<and>
     read_node (x4_file fs_uuid) (x4_dir fs_uuid) 3 im 2 (2, ''/'', FT_DIR) = Some (HDir (Some (fixed_nodes @
       [(''bin'', HDir (Some [(''zsh'', HFile [0x7F] True), (''ls'', HFile [1, 2] True)])),
        (''zig'', HDir (Some [(''lib'', HFile [3] False)]))])))"
proof -
  have "clock_ok 1700000000" by (simp add: clock_ok_def)
  from e4_main_image[OF sample_args_ok(1) this, of "\<lambda>_. zeros 16" 2] sample_args_ok(2,4) show ?thesis
    unfolding sample_args_ok(5) by (auto simp: eval_nat_numeral)
qed

end
