(* ===== verification/Tree_Frame.thy ===== *)
theory Tree_Frame
  imports Tree_Ext23
begin

text \<open>
  What \<^verbatim>\<open>add_tree\<close> leaves alone: a reflexive and transitive relation between the states before and
  after that every primitive step keeps is kept by storing a file, by writing a directory and by
  the copy of a whole tree.  It is used for the zone that is not being filled and for the count of
  directories, which the group descriptor records.
\<close>

section \<open>Relations kept by a run\<close>

locale frame_rel =
  fixes R :: "'s \<Rightarrow> 's \<Rightarrow> bool"
  assumes rel_refl: "R s s" and rel_trans: "R s t \<Longrightarrow> R t u \<Longrightarrow> R s u"
begin

definition relates :: "('s, 'a) py \<Rightarrow> bool" where
  "relates p \<longleftrightarrow> (\<forall>s a t. p s = Inr (a, t) \<longrightarrow> R s t)"

lemma relates_ret: "relates (py_ret a)"
  by (simp add: relates_def rel_refl)

lemma relates_get: "relates (py_get f)"
  by (simp add: relates_def rel_refl)

lemma relates_raise: "relates (py_raise e)"
  by (simp add: relates_def)

lemma relates_lift: "relates (py_lift r)"
  by (simp add: relates_def py_lift_Inr_iff rel_refl)

lemma relates_mod: "(\<And>s. R s (f s)) \<Longrightarrow> relates (py_mod f)"
  by (simp add: relates_def)

lemma relates_bind: "relates p \<Longrightarrow> (\<And>a. relates (f a)) \<Longrightarrow> relates (py_bind p f)"
  unfolding relates_def py_bind_Inr_iff using rel_trans by blast

lemma relates_seq: "relates p \<Longrightarrow> relates k \<Longrightarrow> relates (py_seq p k)"
  unfolding relates_def py_seq_Inr_iff using rel_trans by blast

lemma relates_times: "relates p \<Longrightarrow> relates (py_times n p)"
  by (induction n) (simp_all add: relates_ret relates_bind del: py_ret_run)

lemma relates_each: "(\<And>x. relates (f x)) \<Longrightarrow> relates (py_each f xs)"
  by (induction xs) (simp_all add: relates_ret relates_seq del: py_ret_run)

lemma relates_collect: "(\<And>x. relates (f x)) \<Longrightarrow> relates (py_collect f xs)"
  by (induction xs) (simp_all add: relates_ret relates_bind del: py_ret_run)

lemma relates_fold: "(\<And>x a. x \<in> set xs \<Longrightarrow> relates (f x a)) \<Longrightarrow> relates (py_fold f xs a)"
  by (induction xs arbitrary: a) (simp_all add: relates_ret relates_bind del: py_ret_run)

lemma relates_if: "(b \<Longrightarrow> relates p) \<Longrightarrow> (\<not> b \<Longrightarrow> relates k) \<Longrightarrow> relates (if b then p else k)"
  by simp

lemma relates_prod: "(\<And>a b. x = (a, b) \<Longrightarrow> relates (f a b)) \<Longrightarrow> relates (case x of (a, b) \<Rightarrow> f a b)"
  by (cases x) simp

lemma relates_prod_app: "(\<And>a b. x = (a, b) \<Longrightarrow> relates (f a b y)) \<Longrightarrow> relates ((case x of (a, b) \<Rightarrow> f a b) y)"
  by (cases x) simp

lemmas relates_rules = relates_ret relates_get relates_raise relates_lift relates_bind relates_seq relates_times
  relates_each relates_collect relates_if relates_prod relates_prod_app

end

section \<open>Files, directories and trees\<close>

text \<open>\<open>R1\<close> is what holds after an inode number has been taken for a new directory.\<close>

locale tree_frame = frame_rel R for R :: "'a core_scheme \<Rightarrow> 'a core_scheme \<Rightarrow> bool" +
  fixes R1 :: "'a core_scheme \<Rightarrow> 'a core_scheme \<Rightarrow> bool"
    and alloc alloc_ino :: "('a core_scheme, nat) py" and pad :: "bytes \<Rightarrow> bytes result"
  assumes rel_alloc: "alloc s = Inr (b, t) \<Longrightarrow> R s t"
    and rel_ino: "alloc_ino s = Inr (i, t) \<Longrightarrow> R s t"
    and rel_img: "R s (img_update f s)"
    and rel_file: "R s (tree_files_added_update g s)"
    and rel_new: "alloc_ino s = Inr (i, t) \<Longrightarrow> R1 s t"
    and rel_more: "R1 s t \<Longrightarrow> R t u \<Longrightarrow> R1 s u"
    and rel_dir: "R1 s t \<Longrightarrow> R s (tree_dirs_created_update (\<lambda>n. n + 1) t)"
begin

lemma relates_steps: "relates alloc" "relates alloc_ino" "relates (write_block b d)"
  "relates (write_inode now ino mode i_size blocks ptrs nlink ind dind uid gid)"
  by (auto simp: relates_def write_block_def write_inode_def Let_def rel_alloc rel_ino rel_img py_elims)

lemma relates_store: "relates (store_file alloc alloc_ino now mode data)"
  unfolding store_file_def alloc_file_blocks_def write_file_data_def write_chunks_def Let_def
  by (intro relates_rules relates_steps)

lemma relates_write_dir: "relates (write_dir_blocks pad alloc es)"
  unfolding write_dir_blocks_def dir_round_def Let_def
  by (intro relates_rules relates_steps relates_fold)

lemma relates_mkdir: "relates (make_directory (write_dir_blocks pad alloc) now ino es nlink)"
  unfolding make_directory_def Let_def
  by (intro relates_rules relates_steps relates_write_dir)

lemma relates_add_tree:
  "relates (add_tree (store_file alloc alloc_ino now) alloc_ino (make_directory (write_dir_blocks pad alloc) now) d self parent)"
proof (induction d arbitrary: self parent rule: measure_induct_rule[of size])
  case (less d)
  let ?st = "store_file alloc alloc_ino now" and ?mk = "make_directory (write_dir_blocks pad alloc) now"
  have dir: "relates (py_bind alloc_ino (\<lambda>ino. py_bind (add_tree ?st alloc_ino ?mk c ino self) (\<lambda>ces.
      py_bind (?mk ino (F ino ces) (G ces)) (\<lambda>_.
      py_seq (py_mod (tree_dirs_created_update (\<lambda>n. n + 1))) (py_ret (H ino ces))))))"
    if "size c < size d" for c F G and H :: "nat \<Rightarrow> dirent list \<Rightarrow> dirent list"
    unfolding relates_def
  proof (intro allI impI)
    fix s a t
    assume "py_bind alloc_ino (\<lambda>ino. py_bind (add_tree ?st alloc_ino ?mk c ino self) (\<lambda>ces.
      py_bind (?mk ino (F ino ces) (G ces)) (\<lambda>_.
      py_seq (py_mod (tree_dirs_created_update (\<lambda>n. n + 1))) (py_ret (H ino ces))))) s = Inr (a, t)"
    then obtain i s1 ces s2 s3 where r: "alloc_ino s = Inr (i, s1)" "add_tree ?st alloc_ino ?mk c i self s1 = Inr (ces, s2)"
      "?mk i (F i ces) (G ces) s2 = Inr ((), s3)" "t = tree_dirs_created_update (\<lambda>n. n + 1) s3"
      by (auto simp: py_elims)
    have "R s1 s2" using less.IH[OF that] r(2) by (auto simp: relates_def)
    moreover have "R s2 s3" using relates_mkdir r(3) by (auto simp: relates_def)
    ultimately show "R s t" unfolding r(4) by (intro rel_dir rel_more[OF rel_new[OF r(1)]]) (rule rel_trans)
  qed
  have files: "relates (py_mod (tree_files_added_update g))" for g by (rule relates_mod) (rule rel_file)
  show ?case
  proof (cases "listdir d")
    case (Some cs)
    have size: "size c < size d" if "(n, c) \<in> set cs" for n c
      using Some size_child[OF that] by (cases d) simp_all
    show ?thesis
      unfolding add_tree.simps[of ?st alloc_ino ?mk d] Some option.case Let_def
    proof (intro relates_fold relates_prod_app)
      fix x a n c
      assume "x \<in> set (sort_key fst cs)" "x = (n, c)"
      then have c: "size c < size d" using size by auto
      show "relates (case c of
          HLink \<Rightarrow> py_ret a
        | HFile data x \<Rightarrow> py_bind (?st (file_mode x) data) (\<lambda>ino.
            py_seq (py_mod (tree_files_added_update (\<lambda>n. n + 1))) (py_ret (a @ [(ino, n, FT_REG)])))
        | HDir xs \<Rightarrow> py_bind alloc_ino (\<lambda>ino. py_bind (add_tree ?st alloc_ino ?mk c ino self) (\<lambda>ces.
            py_bind (?mk ino ([(ino, ''.'', FT_DIR), (self, ''..'', FT_DIR)] @ ces)
              (2 + int (length (filter (\<lambda>e. snd (snd e) = FT_DIR) ces)))) (\<lambda>_.
            py_seq (py_mod (tree_dirs_created_update (\<lambda>n. n + 1))) (py_ret (a @ [(ino, n, FT_DIR)])))))
        | HOther \<Rightarrow> py_ret a)"
        using dir[OF c] by (cases c) (auto intro!: relates_rules files relates_store simp del: py_ret_run)
    qed
  qed (simp add: add_tree.simps relates_ret del: py_ret_run)
qed

end

section \<open>The two scripts\<close>

text \<open>While the overflow zone is being filled, the counter of the other zone stays.\<close>

definition low_kept :: "ext2_state \<Rightarrow> ext2_state \<Rightarrow> bool" where
  "low_kept s t \<longleftrightarrow> (use_high_zone s \<longrightarrow> use_high_zone t \<and> next_block t = next_block s)"

interpretation e2_low: tree_frame low_kept low_kept e2_alloc_block e2_alloc_inode e2_pad
proof
  show "low_kept s t" if "e2_alloc_block s = Inr (b, t)" for s b t
    using that by (cases rule: e2_alloc_block_cases) (simp_all add: low_kept_def)
  show "low_kept s t" if "e2_alloc_inode s = Inr (i, t)" for s i t
    using that by (auto simp: low_kept_def e2_alloc_inode_def py_elims split: if_splits)
qed (simp_all add: low_kept_def)

text \<open>No directory is counted without an inode number of its own.\<close>

definition dirs_bounded :: "'a core_scheme \<Rightarrow> 'a core_scheme \<Rightarrow> bool" where
  "dirs_bounded s t \<longleftrightarrow> next_inode s + tree_dirs_created t \<le> next_inode t + tree_dirs_created s"

definition dirs_pending :: "'a core_scheme \<Rightarrow> 'a core_scheme \<Rightarrow> bool" where
  "dirs_pending s t \<longleftrightarrow> next_inode s + tree_dirs_created t < next_inode t + tree_dirs_created s"

lemmas dirs_defs = dirs_bounded_def dirs_pending_def

interpretation e2_dirs: tree_frame dirs_bounded dirs_pending e2_alloc_block e2_alloc_inode e2_pad
proof
  show "dirs_bounded s t" if "e2_alloc_block s = Inr (b, t)" for s b t
    using that by (cases rule: e2_alloc_block_cases) (simp_all add: dirs_defs)
  show "dirs_pending s t" if "e2_alloc_inode s = Inr (i, t)" for s i t
    using that by (auto simp: dirs_defs e2_alloc_inode_def py_elims split: if_splits)
  then show "dirs_bounded s t" if "e2_alloc_inode s = Inr (i, t)" for s i t using that by (fastforce simp: dirs_defs)
qed (simp_all add: dirs_defs)

interpretation e3_dirs: tree_frame dirs_bounded dirs_pending e3_alloc_block e3_alloc_inode e3_pad
proof
  show "dirs_bounded s t" if "e3_alloc_block s = Inr (b, t)" for s b t
    using that by (auto simp: dirs_defs e3_alloc_block_def py_elims split: if_splits)
  show "dirs_pending s t" if "e3_alloc_inode s = Inr (i, t)" for s i t
    using that by (auto simp: dirs_defs e3_alloc_inode_def py_elims split: if_splits)
  then show "dirs_bounded s t" if "e3_alloc_inode s = Inr (i, t)" for s i t using that by (fastforce simp: dirs_defs)
qed (simp_all add: dirs_defs)

end
