(* ===== verification/Zones.thy ===== *)
theory Zones
  imports Meta23 Journals Tree_Frame
begin

text \<open>
  The straight-line parts of \<^verbatim>\<open>make_ext2_img.py\<close> and \<^verbatim>\<open>make_ext3_img.py\<close> write a file's blocks
  early and its inode late, and \<^verbatim>\<open>make_ext2_img.py\<close> goes back and forth between two zones of
  blocks.  A phase of such a script takes blocks and inode numbers, fills the slots of the
  inodes in a set \<open>J\<close>, keeps every block in use and every other slot, and leaves something that
  can be read from each image with the same blocks in use and the same slots \<open>J\<close>.
\<close>

section \<open>What a phase takes\<close>

datatype need = Need (low_blocks: nat) (high_blocks: nat) (inodes: nat)

instantiation need :: comm_monoid_add
begin

definition zero_need :: need where
  "zero_need = Need 0 0 0"

fun plus_need :: "need \<Rightarrow> need \<Rightarrow> need" where
  "plus_need (Need a b c) (Need a' b' c') = Need (a + a') (b + b') (c + c')"

instance
proof
  fix x y z :: need
  show "x + y + z = x + (y + z)" by (cases x; cases y; cases z) simp
  show "x + y = y + x" by (cases x; cases y) simp
  show "0 + x = x" by (cases x) (simp add: zero_need_def)
qed

end

lemma need_plus [simp]:
  "low_blocks (x + y) = low_blocks x + low_blocks y" "high_blocks (x + y) = high_blocks x + high_blocks y"
  "inodes (x + y) = inodes x + inodes y"
  by (cases x; cases y; simp)+

lemma need_zero [simp]: "low_blocks 0 = 0" "high_blocks 0 = 0" "inodes 0 = 0"
  by (simp_all add: zero_need_def)

text \<open>Blocks of the zone in use.\<close>

definition blk :: "bool \<Rightarrow> nat \<Rightarrow> need" where
  "blk z n = (if z then Need 0 n 0 else Need n 0 0)"

lemma blk_simps [simp]:
  "low_blocks (blk z n) = (if z then 0 else n)" "high_blocks (blk z n) = (if z then n else 0)" "inodes (blk z n) = 0"
  by (simp_all add: blk_def)

lemma blk_add: "blk z a + blk z b = blk z (a + b)" "blk z 0 = 0"
  by (simp_all add: blk_def zero_need_def)

section \<open>Images with the same blocks and slots\<close>

definition same_on :: "bytes \<Rightarrow> bytes \<Rightarrow> nat set \<Rightarrow> nat set \<Rightarrow> bool" where
  "same_on im im' B I \<longleftrightarrow> length im' = length im \<and> (\<forall>b \<in> B. block_at im' b = block_at im b) \<and>
     (\<forall>i \<in> I. sub im' (inode_offset i) INODE_SIZE = sub im (inode_offset i) INODE_SIZE)"

lemma same_on_refl [simp]: "same_on im im B I"
  by (simp add: same_on_def)

lemma same_on_trans: "same_on im im' B I \<Longrightarrow> same_on im' im'' B I \<Longrightarrow> same_on im im'' B I"
  by (auto simp: same_on_def)

lemma same_on_weaken: "same_on im im' B I \<Longrightarrow> B' \<subseteq> B \<Longrightarrow> I' \<subseteq> I \<Longrightarrow> same_on im im' B' I'"
  by (auto simp: same_on_def)

lemma blocks_same_range:
  assumes "\<And>b. lo \<le> b \<Longrightarrow> b < nb \<Longrightarrow> block_at im' b = block_at im b"
  shows "same_range im im' (lo * BLOCK_SIZE) (nb * BLOCK_SIZE)"
proof (cases "lo \<le> nb")
  case True
  have "sub im' (lo * BLOCK_SIZE) (n * BLOCK_SIZE) = sub im (lo * BLOCK_SIZE) (n * BLOCK_SIZE)" if "lo + n \<le> nb" for n
    using that
  proof (induction n)
    case (Suc n)
    have b: "block_at im' (lo + n) = block_at im (lo + n)" using Suc.prems by (intro assms) simp_all
    show ?case
      using Suc b sub_add[of im "lo * BLOCK_SIZE" "n * BLOCK_SIZE" BLOCK_SIZE]
        sub_add[of im' "lo * BLOCK_SIZE" "n * BLOCK_SIZE" BLOCK_SIZE]
      by (simp add: block_at_def add_mult_distrib add.commute)
  qed (simp add: sub_def)
  from this[of "nb - lo"] True show ?thesis by (simp add: same_range_def diff_mult_distrib)
qed (simp add: same_range_def diff_mult_distrib[symmetric] sub_def)

lemma same_on_agrees:
  "same_on im im' B I \<Longrightarrow> {lo..<nb} \<subseteq> B \<Longrightarrow> agrees lo inode_offset INODE_SIZE im im' nb I"
  by (auto simp: same_on_def agrees_def intro!: blocks_same_range)

lemma agrees_same_on:
  "agrees lo inode_offset INODE_SIZE im im' nb I \<Longrightarrow> B \<subseteq> {lo..<nb} \<Longrightarrow> same_on im im' B I"
  using same_range_block[OF agrees_blocks[of lo inode_offset INODE_SIZE im im' nb I lo nb]]
  by (auto simp: same_on_def agrees_def)

section \<open>What is left behind\<close>

text \<open>The blocks of a log are in place.\<close>

definition log_at :: "bytes \<Rightarrow> (nat \<times> bytes) list \<Rightarrow> bool" where
  "log_at im bds \<longleftrightarrow> length im = TOTAL_BLOCKS * BLOCK_SIZE \<and> (\<forall>(b, d) \<in> set bds. sub im (b * BLOCK_SIZE) (length d) = d)"

text \<open>An inode as \<^verbatim>\<open>write_inode\<close> leaves it.\<close>

definition inode_at :: "bytes \<Rightarrow> nat \<Rightarrow> int \<Rightarrow> nat \<Rightarrow> nat list \<Rightarrow> nat option \<Rightarrow> nat option \<Rightarrow> bool" where
  "inode_at im ino mode i_size ptrs ind dind \<longleftrightarrow>
     int (u16_at im (inode_offset ino)) = mode \<and> i_size_at im (inode_offset ino) = i_size \<and>
     (\<forall>i < 15. i_block_at im (inode_offset ino) i = le_val (field_le (i_block_field ptrs ind dind i)))"

lemma file_readable:
  fixes data :: bytes
  defines "n \<equiv> num_blocks_of data"
  assumes log: "log_at im (file_log nb data)" and span: "nb + file_span n \<le> TOTAL_BLOCKS"
    and ino: "inode_at im ino mode (length data) (take 12 (file_blocks nb n)) (indirect_of nb n) (dindirect_of nb n)"
  shows "bm_file im ino = (mode, data)"
proof -
  let ?io = "inode_offset ino"
  have ib: "i_block_at im ?io i = le_val (field_le (i_block_field (take 12 (file_blocks nb n)) (indirect_of nb n) (dindirect_of nb n) i))"
    if "i < 15" for i using ino that by (simp add: inode_at_def)
  have small: "file_block nb i < 2 ^ 32" if "i < n" for i
    using file_block_bounds[OF that, of nb] span by (simp add: file_span_def layout)
  have direct: "i_block_at im ?io i = file_block nb i" if "i < n" "i < 12" for i
    using ib[of i] that small by (simp add: i_block_field_def)
  have ind: "12 < n \<longrightarrow> i_block_at im ?io 12 = nb + 12"
    using ib[of 12] span by (auto simp: i_block_field_def indirect_of_def file_span_def data_span_def layout)
  have dind: "12 + ADDRS_PER_INDIRECT < n \<longrightarrow> i_block_at im ?io 13 = nb + 13 + ADDRS_PER_INDIRECT"
    using ib[of 13] span by (auto simp: i_block_field_def dindirect_of_def file_span_def data_span_def layout)
  have "file_stored im ?io nb data"
    using log ino direct ind dind span by (auto simp: file_stored_def Let_def n_def[symmetric] log_at_def inode_at_def)
  then show ?thesis using ino by (simp add: bm_file_def read_file_stored inode_at_def)
qed

lemma dir_readable:
  assumes dir: "read_directory im [nb..<nb + k] = Some es" and k: "k \<le> 12" "nb + k \<le> TOTAL_BLOCKS"
    and ino: "inode_at im ino mode (k * BLOCK_SIZE) [nb..<nb + k] None None"
  shows "bm_dir im ino = Some es"
proof -
  let ?io = "inode_offset ino"
  have "bmap im ?io j = nb + j" if "j < k" for j
    using ino that k by (simp add: bmap_def inode_at_def i_block_field_def layout)
  then have "map (bmap im ?io) [0..<k] = [nb..<nb + k]" by (intro nth_equalityI) simp_all
  then show ?thesis using dir ino by (simp add: bm_dir_def Let_def inode_at_def)
qed

text \<open>A file in a single block.\<close>

lemma one_block_file:
  assumes "0 < length data" and "length data \<le> BLOCK_SIZE"
  shows "num_blocks_of data = 1" and "file_log nb data = [(nb, data)]" and "file_span (num_blocks_of data) = 1"
proof -
  have "(4095 + n) div 4096 = 1" if "0 < n" "n \<le> 4096" for n :: nat using that by linarith
  with assms show n: "num_blocks_of data = 1" by (simp add: num_blocks_of_def ceil_div_def layout)
  have "sub data 0 BLOCK_SIZE = data" using assms(2) by (simp add: sub_def)
  then show "file_log nb data = [(nb, data)]" by (simp add: file_log_def n data_log_def ind_log_def dind_log_def file_block_def)
  show "file_span (num_blocks_of data) = 1" by (simp add: n file_span_def data_span_def dind_groups_0)
qed

lemma one_block_readable:
  assumes "log_at im [(b, data)]" and "inode_at im ino mode (length data) [b] None None"
    and "0 < length data" "length data \<le> BLOCK_SIZE" "b < TOTAL_BLOCKS"
  shows "bm_file im ino = (mode, data)"
  using assms one_block_file[OF assms(3,4)]
  by (intro file_readable[where nb = b])
    (simp_all add: file_blocks_def file_block_def indirect_of_def dindirect_of_def)


section \<open>Phases\<close>

text \<open>
  What the phases rely on, besides the allocator and the directory writer: the counters of the
  state (\<open>ctr\<close>) and the blocks in use (\<open>used\<close>), which allocation extends by fresh blocks.  \<open>zone\<close>
  tells which zone is being filled, \<open>lim\<close> where it ends.
\<close>

locale zone_source = dir_cover alloc nxt limit bump pad pad_chain gap_ok
  for alloc :: "('a core_scheme, nat) py" and nxt limit bump pad pad_chain gap_ok +
  fixes alloc_ino :: "('a core_scheme, nat) py"
    and ready :: "'a core_scheme \<Rightarrow> bool" and zone :: "'a core_scheme \<Rightarrow> bool"
    and ctr :: "'a core_scheme \<Rightarrow> need" and used :: "'a core_scheme \<Rightarrow> nat set"
    and lim :: "bool \<Rightarrow> nat" and lo m :: nat
  assumes fits: "table_fits m lo" and lo_total: "lo \<le> TOTAL_BLOCKS"
    and ready_full: "ready s \<Longrightarrow> full_image s \<and> 1 \<le> next_inode s \<and> lo \<le> nxt s"
    and ready_img: "ready s \<Longrightarrow> length (f (img s)) = length (img s) \<Longrightarrow> ready (img_update f s)"
    and ready_bump: "ready s \<Longrightarrow> nxt s + n \<le> limit s \<Longrightarrow> ready (bump n s)"
    and ready_ino: "ready s \<Longrightarrow> ready (next_inode_update (\<lambda>n. n + 1) s)"
    and alloc_ino: "next_inode s \<le> m \<Longrightarrow> alloc_ino s = Inr (next_inode s, next_inode_update (\<lambda>n. n + 1) s)"
    and zone_other: "zone (img_update f s) = zone s" "zone (bump n s) = zone s" "zone (next_inode_update g s) = zone s"
    and ctr_img: "ctr (img_update f s) = ctr s" and ctr_bump: "ctr (bump n s) = ctr s + blk (zone s) n"
    and ctr_ino: "ctr (next_inode_update (\<lambda>n. n + 1) s) = ctr s + Need 0 0 1"
    and used_other: "used (img_update f s) = used s" "used (next_inode_update g s) = used s"
    and used_bump: "ready s \<Longrightarrow> used (bump n s) = used s \<union> {nxt s..<nxt s + n}"
    and used_fresh: "ready s \<Longrightarrow> b \<in> used s \<Longrightarrow> lo \<le> b \<and> \<not> (nxt s \<le> b \<and> b < limit s)"
    and nxt_ctr: "nxt s = (if zone s then high_blocks (ctr s) else low_blocks (ctr s))"
    and limit_zone: "limit s = lim (zone s)" and ino_ctr: "next_inode s = inodes (ctr s)"
    and dirs_bump: "tree_dirs_created (bump n s) = tree_dirs_created s"
begin

definition phase :: "('a core_scheme, 'r) py \<Rightarrow> 'a core_scheme \<Rightarrow> 'r \<Rightarrow> nat set \<Rightarrow> need \<Rightarrow> (bytes \<Rightarrow> bool) \<Rightarrow> bool" where
  "phase p s r J d P \<longleftrightarrow> (\<exists>t. p s = Inr (r, t) \<and> ready t \<and> zone t = zone s \<and> ctr t = ctr s + d \<and>
     next_inode s + tree_dirs_created t \<le> next_inode t + tree_dirs_created s \<and>
     used s \<subseteq> used t \<and> J \<subseteq> {1..m} \<and> same_on (img s) (img t) (used s) ({1..m} - J) \<and>
     (\<forall>im. same_on (img t) im (used t) J \<longrightarrow> P im))"

lemma phase_bind:
  assumes p: "phase p s r J d P"
    and f: "\<And>t. ready t \<Longrightarrow> zone t = zone s \<Longrightarrow> ctr t = ctr s + d \<Longrightarrow> phase (f r) t r' K e Q"
    and "J \<inter> K = {}"
  shows "phase (py_bind p f) s r' (J \<union> K) (d + e) (\<lambda>im. P im \<and> Q im)"
proof -
  obtain t where t: "p s = Inr (r, t)" "ready t" "zone t = zone s" "ctr t = ctr s + d"
    "next_inode s + tree_dirs_created t \<le> next_inode t + tree_dirs_created s" "used s \<subseteq> used t" "J \<subseteq> {1..m}"
    "same_on (img s) (img t) (used s) ({1..m} - J)" "\<And>im. same_on (img t) im (used t) J \<Longrightarrow> P im"
    using p by (auto simp: phase_def)
  obtain u where u: "f r t = Inr (r', u)" "ready u" "zone u = zone t" "ctr u = ctr t + e"
    "next_inode t + tree_dirs_created u \<le> next_inode u + tree_dirs_created t" "used t \<subseteq> used u" "K \<subseteq> {1..m}"
    "same_on (img t) (img u) (used t) ({1..m} - K)" "\<And>im. same_on (img u) im (used u) K \<Longrightarrow> Q im"
    using f[OF t(2-4)] by (auto simp: phase_def)
  have "same_on (img s) (img u) (used s) ({1..m} - (J \<union> K))"
    using same_on_weaken[OF t(8), of "used s" "{1..m} - (J \<union> K)"] same_on_weaken[OF u(8) t(6), of "{1..m} - (J \<union> K)"]
    by (auto intro: same_on_trans)
  moreover have "P im \<and> Q im" if im: "same_on (img u) im (used u) (J \<union> K)" for im
  proof
    have "same_on (img t) (img u) (used t) J" using same_on_weaken[OF u(8) order.refl, of J] t(7) assms(3) by auto
    moreover have "same_on (img u) im (used t) J" using same_on_weaken[OF im u(6), of J] by simp
    ultimately show "P im" by (intro t(9)) (rule same_on_trans)
    show "Q im" using same_on_weaken[OF im order.refl, of K] by (intro u(9)) simp
  qed
  ultimately show ?thesis
    unfolding phase_def using t u by (intro exI[of _ u]) (auto simp: py_bind_run add.assoc)
qed

lemma phase_seq:
  assumes "phase p s () J d P" and "\<And>t. ready t \<Longrightarrow> zone t = zone s \<Longrightarrow> ctr t = ctr s + d \<Longrightarrow> phase k t r' K e Q"
    and "J \<inter> K = {}"
  shows "phase (py_seq p k) s r' (J \<union> K) (d + e) (\<lambda>im. P im \<and> Q im)"
  unfolding py_seq_def using assms by (rule phase_bind)

lemma phase_ret: "ready s \<Longrightarrow> phase (py_ret r) s r {} 0 (\<lambda>_. True)"
  by (simp add: phase_def)

lemma phase_mono:
  "phase p s r J d P \<Longrightarrow> r = r' \<Longrightarrow> J = J' \<Longrightarrow> d = d' \<Longrightarrow> (\<And>im. P im \<Longrightarrow> Q im) \<Longrightarrow> phase p s r' J' d' Q"
  unfolding phase_def by blast

lemma phase_map:
  assumes "phase p s r J d P"
  shows "phase (py_bind p (\<lambda>x. py_ret (g x))) s (g r) J d P"
proof -
  have "phase (py_bind p (\<lambda>x. py_ret (g x))) s (g r) (J \<union> {}) (d + 0) (\<lambda>im. P im \<and> True)"
    by (rule phase_bind[OF assms]) (simp_all add: phase_ret del: py_ret_run)
  then show ?thesis by simp
qed

lemma phase_alloc_ino:
  "ready s \<Longrightarrow> next_inode s \<le> m \<Longrightarrow> phase alloc_ino s (next_inode s) {} (Need 0 0 1) (\<lambda>_. True)"
  using ready_ino[of s] ctr_ino[of s] by (auto simp: phase_def alloc_ino zone_other used_other)

lemma slot_low:
  assumes "1 \<le> i" "i \<le> m" "lo \<le> b"
  shows "inode_offset i + INODE_SIZE \<le> b * BLOCK_SIZE"
  using slot_below(2)[OF fits] assms by blast

text \<open>Fresh blocks that are written whole or in part.\<close>

lemma phase_log:
  assumes s: "ready s" and room: "nxt s + n \<le> limit s"
    and run: "p s = Inr (r, img_update (apply_writes (block_log bds)) (bump n s))"
    and bds: "\<And>b d. (b, d) \<in> set bds \<Longrightarrow> nxt s \<le> b \<and> b < nxt s + n \<and> length d \<le> BLOCK_SIZE"
    and di: "distinct (map fst bds)"
  shows "phase p s r {} (blk (zone s) n) (\<lambda>im. log_at im bds)"
proof -
  let ?ws = "block_log bds" and ?t = "img_update (apply_writes (block_log bds)) (bump n s)"
  let ?F = "apply_writes ?ws (img s)"
  have full: "length (img s) = TOTAL_BLOCKS * BLOCK_SIZE" and lo: "lo \<le> nxt s"
    using ready_full[OF s] by (simp_all add: full_image_def)
  have rg: "list_all (in_range (length (img s))) ?ws"
    unfolding full
  proof (rule block_log_in_range[of _ "nxt s + n"])
    show "(nxt s + n) * BLOCK_SIZE \<le> TOTAL_BLOCKS * BLOCK_SIZE"
      using room limit_le[of s] by (intro mult_le_mono1) simp
  qed (use bds in blast)
  have ap: "sorted_wrt apart ?ws" using bds by (intro block_log_apart[OF di]) blast
  have img: "img ?t = ?F" by (simp add: source_simps)
  have above: "nxt s * BLOCK_SIZE \<le> fst v" if v: "v \<in> set ?ws" for v
  proof -
    obtain b d where "(b, d) \<in> set bds" "v = (b * BLOCK_SIZE, d)" using v by (auto simp: block_log_def)
    with bds[of b d] show ?thesis by (auto intro: mult_le_mono1)
  qed
  have keep: "block_at ?F b = block_at (img s) b" if b: "b \<in> used s" for b
    unfolding block_at_def
  proof (rule sub_apply_writes_frame[OF rg])
    fix v assume "v \<in> set ?ws"
    then obtain c d where cd: "(c, d) \<in> set bds" "v = (c * BLOCK_SIZE, d)" by (auto simp: block_log_def)
    have "b \<noteq> c" using used_fresh[OF s b] bds[OF cd(1)] room by auto
    from apart_blocks[OF this, of "zeros BLOCK_SIZE" d] bds[OF cd(1)]
    show "b * BLOCK_SIZE + BLOCK_SIZE \<le> fst v \<or> fst v + length (snd v) \<le> b * BLOCK_SIZE" by (simp add: cd apart_def)
  qed
  have slots: "sub ?F (inode_offset i) INODE_SIZE = sub (img s) (inode_offset i) INODE_SIZE" if "i \<in> {1..m}" for i
    using slot_low[OF _ _ lo, of i] that above by (intro sub_apply_writes_frame[OF rg]) fastforce
  have "same_on (img s) ?F (used s) {1..m}" using keep slots rg by (simp add: same_on_def)
  moreover have "log_at im bds" if im: "same_on (img ?t) im (used ?t) {}" for im
    unfolding log_at_def
  proof (intro conjI ballI, goal_cases)
    case 1
    show ?case using im rg full by (simp add: same_on_def img)
  next
    case (2 bd)
    obtain b d where bd: "bd = (b, d)" by fastforce
    with 2 have bd2: "(b, d) \<in> set bds" by simp
    have d: "length d \<le> BLOCK_SIZE" and u: "b \<in> used ?t" using bds[OF bd2] s by (auto simp: used_bump used_other)
    have cut: "sub x (b * BLOCK_SIZE) (length d) = sub (block_at x b) 0 (length d)" for x
      using d sub_sub[of 0 "length d" BLOCK_SIZE x "b * BLOCK_SIZE"] by (simp add: block_at_def)
    have "sub im (b * BLOCK_SIZE) (length d) = sub ?F (b * BLOCK_SIZE) (length d)"
      using im u by (simp add: cut same_on_def img)
    also have "\<dots> = d" using bd2 by (intro sub_apply_writes_in[OF rg ap]) (auto simp: block_log_def)
    finally show ?case by (simp add: bd)
  qed
  moreover have "ready ?t" using ready_bump[OF s room] rg by (intro ready_img) (simp_all add: source_simps)
  ultimately show ?thesis
    unfolding phase_def using run s
    by (intro exI[of _ ?t]) (auto simp: zone_other ctr_img ctr_bump used_other used_bump dirs_bump source_simps)
qed

end


section \<open>The statements of the scripts as phases\<close>

text \<open>\<^verbatim>\<open>blk = alloc_block(); write_block(blk, data)\<close>.\<close>

definition put_block :: "('a core_scheme, nat) py \<Rightarrow> bytes \<Rightarrow> ('a core_scheme, nat) py" where
  "put_block alloc data = py_bind alloc (\<lambda>b. py_seq (write_block b data) (py_ret b))"

text \<open>A directory written by hand into one block.\<close>

definition put_dir_block :: "('a core_scheme, nat) py \<Rightarrow> dirent list \<Rightarrow> ('a core_scheme, nat) py" where
  "put_dir_block alloc entries =
     py_bind alloc (\<lambda>blk.
     py_bind (py_lift (dir_block_bytes [] entries)) (\<lambda>data.
     py_seq (write_block blk data) (py_ret blk)))"

text \<open>The blocks of a file, allocated and written; the inode comes later.\<close>

definition put_file_blocks ::
  "('a core_scheme, nat) py \<Rightarrow> bytes \<Rightarrow> ('a core_scheme, nat list \<times> nat option \<times> nat option) py" where
  "put_file_blocks alloc data =
     py_bind (alloc_file_blocks alloc data) (\<lambda>(blocks, indirect, dindirect).
     py_seq (write_file_data alloc data blocks indirect dindirect) (py_ret (blocks, indirect, dindirect)))"

context zone_source
begin

lemma phase_put_block:
  assumes s: "ready s" "nxt s + 1 \<le> limit s" and d: "length data \<le> BLOCK_SIZE"
  shows "phase (put_block alloc data) s (nxt s) {} (blk (zone s) 1) (\<lambda>im. log_at im [(nxt s, data)])"
proof (rule phase_log[OF s])
  show "put_block alloc data s = Inr (nxt s, img_update (apply_writes (block_log [(nxt s, data)])) (bump 1 s))"
    using s d by (simp add: put_block_def alloc_run py_seq_run write_block_run block_log_def)
qed (use d in auto)

lemma phase_put_dir_block:
  assumes s: "ready s" "nxt s + 1 \<le> limit s" and es: "entries_ok es" "es \<noteq> []"
    and small: "sum_list (map (\<lambda>n. min_rec_len (length n)) (entry_names es)) \<le> BLOCK_SIZE"
  shows "phase (put_dir_block alloc es) s (nxt s) {} (blk (zone s) 1) (\<lambda>im. read_directory im [nxt s] = Some es)"
proof -
  have ne: "entry_names es \<noteq> []" using es(2) by (simp add: entry_names_def)
  have sp: "dir_span es = 1" and fit: "last_fits es" "list_all gap_ok (dir_gaps 0 es)"
    using names_small[OF ne small] names_fit_entries[of gap_ok es] by (simp_all add: names_span_entries)
  obtain c where c: "dir_chains pad_chain [] es = [c]" "dir_block_bytes [] es = Inr (chain_bytes c)"
    using dir_block_bytes_run[OF es(1) sp es(2)] .
  have full: "full_image s" using ready_full[OF s(1)] by simp
  have cs: "chain_ok c \<and> clen c = BLOCK_SIZE"
    using directory_run(2)[OF es(1) fit full] s(2) sp by (simp add: c)
  have A: "phase (put_dir_block alloc es) s (nxt s) {} (blk (zone s) 1) (\<lambda>im. log_at im [(nxt s, chain_bytes c)])"
  proof (rule phase_log[OF s])
    show "put_dir_block alloc es s = Inr (nxt s, img_update (apply_writes (block_log [(nxt s, chain_bytes c)])) (bump 1 s))"
      using s cs by (simp add: put_dir_block_def alloc_run py_bind_run c py_seq_run write_block_run block_log_def)
  qed (use cs in auto)
  have B: "read_directory im [nxt s] = Some es" if "log_at im [(nxt s, chain_bytes c)]" for im
  proof -
    have "block_at im (nxt s) = chain_bytes c" using that cs by (simp add: log_at_def block_at_def)
    then have "read_blocks im [nxt s..<nxt s + length [c]] = Some (concat (map (map fst) [c]))"
      using cs by (intro read_blocks_chains) simp_all
    then show ?thesis
      using chains_live[OF entries_dirent_ok[OF es(1)] es(2), of "[]"] live_entries[OF es(1)]
      by (simp add: read_directory_def c)
  qed
  show ?thesis by (rule phase_mono[OF A refl refl refl B])
qed

lemma phase_write_dir:
  assumes s: "ready s" "nxt s + names_span (entry_names es) \<le> limit s" and es: "entries_ok es"
    and nm: "names_fit gap_ok (entry_names es)"
  shows "phase (write_dir_blocks pad alloc es) s [nxt s..<nxt s + names_span (entry_names es)] {}
    (blk (zone s) (names_span (entry_names es)))
    (\<lambda>im. read_directory im [nxt s..<nxt s + names_span (entry_names es)] = Some es)"
proof -
  let ?cs = "dir_chains pad_chain [] es" and ?k = "dir_span es"
  have fit: "last_fits es" "list_all gap_ok (dir_gaps 0 es)" using nm by (simp_all add: names_fit_entries)
  have ne: "es \<noteq> []" using fit by (simp add: last_fits_def)
  have full: "full_image s" using ready_full[OF s(1)] by simp
  have room: "nxt s + ?k \<le> limit s" using s(2) by (simp add: names_span_entries)
  note d = directory_run[OF es fit full room]
  have A: "phase (write_dir_blocks pad alloc es) s [nxt s..<nxt s + ?k] {} (blk (zone s) ?k)
      (\<lambda>im. log_at im (dir_log (nxt s) ?cs))"
  proof (rule phase_log[OF s(1) room])
    show "write_dir_blocks pad alloc es s = Inr ([nxt s..<nxt s + ?k],
        img_update (apply_writes (block_log (dir_log (nxt s) ?cs))) (bump ?k s))" by (rule d(1))
  qed (use d(2,3) in \<open>auto simp: dir_log_nth list_all_length fst_dir_log\<close>)
  have B: "read_directory im [nxt s..<nxt s + ?k] = Some es" if l: "log_at im (dir_log (nxt s) ?cs)" for im
  proof -
    have "block_at im (nxt s + i) = chain_bytes (?cs ! i)" if "i < length ?cs" for i
    proof -
      have "(nxt s + i, chain_bytes (?cs ! i)) \<in> set (dir_log (nxt s) ?cs)" using that by (auto simp: dir_log_nth)
      then have "sub im ((nxt s + i) * BLOCK_SIZE) (length (chain_bytes (?cs ! i))) = chain_bytes (?cs ! i)"
        using l unfolding log_at_def by blast
      then show ?thesis using d(2) that by (simp add: block_at_def list_all_length)
    qed
    then have "read_blocks im [nxt s..<nxt s + length ?cs] = Some (concat (map (map fst) ?cs))"
      using d(2) by (intro read_blocks_chains) (simp_all add: list_all_iff)
    then show ?thesis
      using chains_live[OF entries_dirent_ok[OF es] ne, of "[]"] live_entries[OF es] d(3) by (simp add: read_directory_def)
  qed
  show ?thesis unfolding names_span_entries by (rule phase_mono[OF A refl refl refl B])
qed

lemma phase_put_file_blocks:
  fixes data :: bytes
  defines "n \<equiv> num_blocks_of data"
  assumes s: "ready s" "nxt s + file_span n \<le> limit s" and m1: "1 \<le> m"
  shows "phase (put_file_blocks alloc data) s (file_blocks (nxt s) n, indirect_of (nxt s) n, dindirect_of (nxt s) n) {}
    (blk (zone s) (file_span n)) (\<lambda>im. log_at im (file_log (nxt s) data))"
proof (rule phase_log[OF s])
  let ?nb = "nxt s" and ?s2 = "bump (data_span n) s"
  have lo: "lo \<le> ?nb" using ready_full[OF s(1)] by simp
  have nb: "0 < ?nb" using slot_low[OF order.refl m1 lo] by (cases ?nb) (simp_all add: inode_offset_def layout)
  have span: "?nb + file_span n \<le> TOTAL_BLOCKS" using s(2) limit_le[of s] by simp
  have a: "alloc_file_blocks alloc data s = Inr ((file_blocks ?nb n, indirect_of ?nb n, dindirect_of ?nb n), ?s2)"
    using alloc_file_blocks_run[of s data] s(2) by (simp add: n_def file_span_def Let_def)
  have w: "write_file_data alloc data (file_blocks ?nb n) (indirect_of ?nb n) (dindirect_of ?nb n) ?s2 =
      Inr ((), img_update (apply_writes (block_log (file_log ?nb data))) (bump (dind_groups n) ?s2))"
    unfolding n_def by (rule write_file_data_run[OF nb]) (use s(2) in \<open>simp_all add: n_def source_simps file_span_def\<close>)
  show "put_file_blocks alloc data s = Inr ((file_blocks ?nb n, indirect_of ?nb n, dindirect_of ?nb n),
      img_update (apply_writes (block_log (file_log ?nb data))) (bump (file_span n) s))"
    using a w by (simp add: put_file_blocks_def py_bind_run py_seq_run source_simps file_span_def)
  show "nxt s \<le> b \<and> b < nxt s + file_span n \<and> length d \<le> BLOCK_SIZE" if "(b, d) \<in> set (file_log ?nb data)" for b d
    using file_log_bounds[OF that] dind_groups_le[OF span] by (simp add: n_def)
qed (rule file_log_distinct)

lemma phase_write_inode:
  assumes s: "ready s" and ino: "1 \<le> ino" "ino \<le> m" and ok: "inode_args_ok now mode i_size blocks nlink uid gid"
    and ptrs: "\<And>b. b \<in> set ptrs \<Longrightarrow> b < 2 ^ 32" and p: "ptr_ok ind" "ptr_ok dind"
  shows "phase (write_inode now ino mode i_size blocks ptrs nlink ind dind uid gid) s () {ino} 0
    (\<lambda>im. inode_at im ino mode i_size ptrs ind dind)"
proof -
  let ?io = "inode_offset ino"
  obtain d where run: "\<And>s :: 'a core_scheme. write_inode now ino mode i_size blocks ptrs nlink ind dind uid gid s =
       Inr ((), img_update (put_at ?io d) s)"
    and d: "length d = INODE_SIZE" "sub d 0 2 = le_bytes 2 (nat mode)" "sub d 4 4 = le_bytes 4 i_size"
      "\<And>i. i < 15 \<Longrightarrow> sub d (40 + 4 * i) 4 = field_le (i_block_field ptrs ind dind i)"
    using write_inode_run[where 'a = 'a, OF ok ptrs p] by metis
  let ?F = "put_at ?io d (img s)"
  have full: "length (img s) = TOTAL_BLOCKS * BLOCK_SIZE" and lo: "lo \<le> nxt s"
    using ready_full[OF s] by (simp_all add: full_image_def)
  have io: "?io + INODE_SIZE \<le> lo * BLOCK_SIZE" by (rule slot_low[OF ino order.refl])
  have in_img: "?io + INODE_SIZE \<le> length (img s)"
  proof -
    have "lo * BLOCK_SIZE \<le> TOTAL_BLOCKS * BLOCK_SIZE"
      using lo_total by (rule mult_le_mono1)
    with io show ?thesis unfolding full by (rule order.trans)
  qed
  have blocks: "block_at ?F b = block_at (img s) b" if "b \<in> used s" for b
  proof -
    have "lo * BLOCK_SIZE \<le> b * BLOCK_SIZE" using used_fresh[OF s that] by (intro mult_le_mono1) simp
    with io have "?io + length d \<le> b * BLOCK_SIZE" unfolding d(1) by (rule order.trans)
    then show ?thesis unfolding block_at_def using in_img d(1) by (intro sub_put_at_disjoint) simp_all
  qed
  have slots: "sub ?F (inode_offset i) INODE_SIZE = sub (img s) (inode_offset i) INODE_SIZE" if "i \<in> {1..m} - {ino}" for i
    using inode_offset_apart[of i ino] that ino in_img d(1) by (intro sub_put_at_disjoint) auto
  have "same_on (img s) ?F (used s) ({1..m} - {ino})"
    using blocks slots in_img d(1) by (simp add: same_on_def)
  moreover have "inode_at im ino mode i_size ptrs ind dind" if im: "same_on ?F im B {ino}" for im B
  proof -
    have sl: "sub im ?io INODE_SIZE = d"
      using im sub_put_at_same[of ?io d "img s"] in_img d(1) by (simp add: same_on_def)
    have at: "sub im (?io + k) n = sub d k n" if "k + n \<le> INODE_SIZE" for k n
      using sub_sub[OF that, of im ?io] by (simp add: sl)
    have "u16_at im ?io = nat mode" "i_size_at im ?io = i_size"
      using at[of 0 2] at[of 4 4] d(2,3) ok
      by (simp_all add: u16_at_def i_size_at_def u32_at_def layout inode_args_ok_def nat_less_iff)
    moreover have "i_block_at im ?io i = le_val (field_le (i_block_field ptrs ind dind i))" if "i < 15" for i
      using at[of "40 + 4 * i" 4] d(4)[OF that] that by (simp add: i_block_at_def u32_at_def add.assoc layout)
    ultimately show ?thesis using ok by (simp add: inode_at_def inode_args_ok_def)
  qed
  ultimately show ?thesis
    unfolding phase_def using run s ino d(1) in_img
    by (intro exI[of _ "img_update (put_at ?io d) s"]) (auto simp: zone_other ctr_img used_other intro!: ready_img)
qed

end

end
