(* ===== verification/Zone_Scripts.thy ===== *)
theory Zone_Scripts
  imports Zones Main_Parts
begin

text \<open>
  The phases of \<^verbatim>\<open>make_ext3_img.py\<close>, which fills one zone, and of \<^verbatim>\<open>make_ext2_img.py\<close>, which
  fills the zone of the block bitmap and the overflow zone above it; the copy of a host tree and
  the journals as phases.
\<close>

section \<open>make\_ext3\_img.py\<close>

definition e3_ctr :: "core \<Rightarrow> need" where
  "e3_ctr s = Need (next_block s) 0 (next_inode s)"

definition e3_used :: "core \<Rightarrow> nat set" where
  "e3_used s = {e3_FIRST_DATA_BLOCK..<next_block s}"

lemma e3_ctr_sel [simp]: "low_blocks (e3_ctr s) = next_block s" "inodes (e3_ctr s) = next_inode s" "high_blocks (e3_ctr s) = 0"
  by (simp_all add: e3_ctr_def)

interpretation e3z: zone_source e3_alloc_block next_block "\<lambda>_. TOTAL_BLOCKS" e3_bump e3_pad e3_pad_chain "\<lambda>g. g = 0 \<or> 12 \<le> g"
  e3_alloc_inode "e3_tree_ready now" "\<lambda>_. False" e3_ctr e3_used "\<lambda>_. TOTAL_BLOCKS" e3_FIRST_DATA_BLOCK e3_INODES_PER_GROUP
  for now
proof unfold_locales
  show "table_fits e3_INODES_PER_GROUP e3_FIRST_DATA_BLOCK" by (rule e3_table_fits)
  show "e3_FIRST_DATA_BLOCK \<le> TOTAL_BLOCKS" by (simp add: layout)
qed (auto simp: e3_tree_ready_def full_image_def e3_bump_def e3_ctr_def e3_used_def blk_def e3_alloc_inode_run)

lemma e3_phase_of_tree:
  assumes p: "e3_tree.phase now p s r J nb ni P" and s: "e3_tree_ready now s" and J: "J \<subseteq> {1..e3_INODES_PER_GROUP}"
    and d: "e3_dirs.relates p"
  shows "e3z.phase now p s r J (Need nb 0 ni) P"
proof -
  obtain t where t: "p s = Inr (r, t)" "e3_tree_ready now t" "next_block t = next_block s + nb" "next_inode t = next_inode s + ni"
    and ag: "agrees e3_FIRST_DATA_BLOCK inode_offset INODE_SIZE (img s) (img t) (next_block s) ({1..e3_INODES_PER_GROUP} - J)"
    and ho: "\<And>im. agrees e3_FIRST_DATA_BLOCK inode_offset INODE_SIZE (img t) im (next_block t) J \<Longrightarrow> P im"
    using p by (auto simp: e3_tree.phase_def e3_tree.stepped_def e3_tree.holds_def)
  have "dirs_bounded s t" using d t(1) by (auto simp: e3_dirs.relates_def)
  moreover have "same_on (img s) (img t) (e3_used s) ({1..e3_INODES_PER_GROUP} - J)"
    by (rule agrees_same_on[OF ag]) (simp add: e3_used_def)
  moreover have "P im" if "same_on (img t) im (e3_used t) J" for im
    by (rule ho, rule same_on_agrees[OF that]) (simp add: e3_used_def)
  ultimately show ?thesis
    unfolding e3z.phase_def using t J by (intro exI[of _ t]) (auto simp: e3_ctr_def e3_used_def dirs_bounded_def)
qed

section \<open>make\_ext2\_img.py\<close>

definition e2_ctr :: "ext2_state \<Rightarrow> need" where
  "e2_ctr s = Need (next_block s) (high_block s) (next_inode s)"

definition e2_used :: "ext2_state \<Rightarrow> nat set" where
  "e2_used s = {e2_FIRST_DATA_BLOCK..<next_block s} \<union> {BITMAP_CAPACITY..<high_block s}"

definition e2_zone_ready :: "int \<Rightarrow> ext2_state \<Rightarrow> bool" where
  "e2_zone_ready now s \<longleftrightarrow> clock_ok now \<and> full_image s \<and> e2_FIRST_DATA_BLOCK \<le> next_block s \<and> next_block s \<le> BITMAP_CAPACITY \<and>
     BITMAP_CAPACITY \<le> high_block s \<and> high_block s \<le> TOTAL_BLOCKS \<and> 1 \<le> next_inode s"

lemma e2_ctr_sel [simp]:
  "low_blocks (e2_ctr s) = next_block s" "inodes (e2_ctr s) = next_inode s" "high_blocks (e2_ctr s) = high_block s"
  by (simp_all add: e2_ctr_def)

lemma zone_bounds: "e2_FIRST_DATA_BLOCK \<le> BITMAP_CAPACITY" "BITMAP_CAPACITY \<le> TOTAL_BLOCKS"
  by (simp_all add: layout)

lemma e2_used_bump: "e2_zone_ready now s \<Longrightarrow> e2_used (e2_bump n s) = e2_used s \<union> {e2_nxt s..<e2_nxt s + n}"
  by (auto simp: e2_zone_ready_def e2_used_def e2_bump_def e2_nxt_def)

lemma e2_used_fresh:
  "e2_zone_ready now s \<Longrightarrow> b \<in> e2_used s \<Longrightarrow> e2_FIRST_DATA_BLOCK \<le> b \<and> \<not> (e2_nxt s \<le> b \<and> b < e2_limit s)"
  using zone_bounds by (auto simp: e2_zone_ready_def e2_used_def e2_nxt_def e2_limit_def)

interpretation e2z: zone_source e2_alloc_block e2_nxt e2_limit e2_bump e2_pad e2_pad_chain "\<lambda>_. True"
  e2_alloc_inode "e2_zone_ready now" use_high_zone e2_ctr e2_used "\<lambda>z. if z then TOTAL_BLOCKS else BITMAP_CAPACITY"
  e2_FIRST_DATA_BLOCK e2_INODES_PER_GROUP
  for now
proof unfold_locales
  show "table_fits e2_INODES_PER_GROUP e2_FIRST_DATA_BLOCK" by (rule e2_table_fits)
  show "e2_FIRST_DATA_BLOCK \<le> TOTAL_BLOCKS" by (simp add: layout)
  show "e2_used (e2_bump n s) = e2_used s \<union> {e2_nxt s..<e2_nxt s + n}" if "e2_zone_ready now s" for s n
    using that by (rule e2_used_bump)
  show "e2_FIRST_DATA_BLOCK \<le> b \<and> \<not> (e2_nxt s \<le> b \<and> b < e2_limit s)" if "e2_zone_ready now s" "b \<in> e2_used s" for s b
    using that by (rule e2_used_fresh)
qed (use zone_bounds in \<open>auto simp: e2_zone_ready_def full_image_def e2_bump_def e2_nxt_def e2_limit_def e2_ctr_def e2_used_def blk_def
  e2_alloc_inode_run split: if_splits\<close>)


text \<open>A stretch of the script in the overflow zone.\<close>

definition in_high_zone :: "(ext2_state, 'a) py \<Rightarrow> (ext2_state, 'a) py" where
  "in_high_zone p = py_seq (set_high_zone True) (py_bind p (\<lambda>r. py_seq (set_high_zone False) (py_ret r)))"

lemma e2_zone_switch: "e2_zone_ready now (use_high_zone_update f s) = e2_zone_ready now s"
  "e2_ctr (use_high_zone_update f s) = e2_ctr s" "e2_used (use_high_zone_update f s) = e2_used s"
  by (simp_all add: e2_zone_ready_def e2_ctr_def e2_used_def full_image_def)

lemma phase_in_high:
  assumes p: "e2z.phase now p (s\<lparr>use_high_zone := True\<rparr>) r J d P" and s: "\<not> use_high_zone s"
  shows "e2z.phase now (in_high_zone p) s r J d P"
proof -
  obtain t where t: "p (s\<lparr>use_high_zone := True\<rparr>) = Inr (r, t)" "e2_zone_ready now t" "e2_ctr t = e2_ctr s + d"
    "next_inode s + tree_dirs_created t \<le> next_inode t + tree_dirs_created s" "e2_used s \<subseteq> e2_used t"
    "J \<subseteq> {1..e2_INODES_PER_GROUP}" "same_on (img s) (img t) (e2_used s) ({1..e2_INODES_PER_GROUP} - J)"
    "\<And>im. same_on (img t) im (e2_used t) J \<Longrightarrow> P im"
    using p by (auto simp: e2z.phase_def e2_zone_switch)
  then show ?thesis
    unfolding e2z.phase_def using s
    by (intro exI[of _ "t\<lparr>use_high_zone := False\<rparr>"])
      (auto simp: in_high_zone_def set_high_zone_def py_seq_run py_bind_run e2_zone_switch)
qed

text \<open>
  In the overflow zone what \<^verbatim>\<open>add_tree\<close> copied only depends on the blocks of that zone.
\<close>

definition e2_high_ready :: "int \<Rightarrow> ext2_state \<Rightarrow> bool" where
  "e2_high_ready now s \<longleftrightarrow> clock_ok now \<and> full_image s \<and> BITMAP_CAPACITY \<le> e2_nxt s \<and> 1 \<le> next_inode s"

lemma e2_high_fits: "table_fits e2_INODES_PER_GROUP BITMAP_CAPACITY"
  by (simp add: table_fits_def layout)

lemma e2_high_ready_eq: "e2_high_ready now s \<longleftrightarrow> clock_ok now \<and> e2.bm_ready BITMAP_CAPACITY s"
  by (simp add: e2_high_ready_def e2.bm_ready_def)

interpretation e2_high: tree_target "e2_store_file now" e2_alloc_inode "make_directory e2_write_dir_blocks now"
  "e2_high_ready now" e2_nxt e2_limit BITMAP_CAPACITY inode_offset INODE_SIZE e2_INODES_PER_GROUP
  "\<lambda>data. file_span (num_blocks_of data)" names_span e2_dir_names_ok bm_file bm_dir
  for now
proof (unfold_locales, goal_cases)
  case (1 s data mode)
  then show ?case
    using e2.store_file_law[OF e2_high_fits, of s e2_alloc_inode data now mode] e2_alloc_inode_run[of s]
    by (simp add: e2_store_file_def e2_high_ready_eq clock_ok_def)
next
  case (2 s ino es nlink)
  have "names_fit (\<lambda>_. True) (entry_names es)" "names_span (entry_names es) \<le> 12"
    using 2(5) by (simp_all add: e2_dir_names_ok_def names_fit_def list_all_iff)
  then show ?case
    using e2_dir.make_directory_law[OF e2_high_fits, of s ino es now nlink] 2
    by (simp add: e2_write_dir_blocks_def e2_high_ready_eq clock_ok_def)
next
  case (3 s)
  then show ?case using e2_alloc_inode_run[of s] by (auto simp: e2_high_ready_def full_image_def e2_nxt_def)
qed (auto simp: e2_high_ready_def full_image_def e2_nxt_def e2_limit_def e2_INODES_PER_GROUP_def)

lemma e2_phase_of_tree:
  assumes p: "e2_tree.phase now p s r J nb ni (\<lambda>_. True)" and h: "e2_high.phase now p s r J nb ni P"
    and s: "e2_zone_ready now s" "use_high_zone s" and J: "J \<subseteq> {1..e2_INODES_PER_GROUP}"
    and d: "e2_dirs.relates p" and l: "e2_low.relates p" and room: "high_block s + nb \<le> TOTAL_BLOCKS"
  shows "e2z.phase now p s r J (Need 0 nb ni) P"
proof -
  obtain t where t: "p s = Inr (r, t)" "e2_nxt t = high_block s + nb" "next_inode t = next_inode s + ni"
    and ag: "agrees e2_FIRST_DATA_BLOCK inode_offset INODE_SIZE (img s) (img t) (high_block s) ({1..e2_INODES_PER_GROUP} - J)"
    and ho: "\<And>im. agrees BITMAP_CAPACITY inode_offset INODE_SIZE (img t) im (e2_nxt t) J \<Longrightarrow> P im"
    and r: "e2_tree_ready now t"
    using p h s(2) by (auto simp: e2_tree.phase_def e2_high.phase_def e2_tree.stepped_def e2_high.holds_def e2_nxt_def)
  have db: "dirs_bounded s t" using d t(1) by (auto simp: e2_dirs.relates_def)
  have "low_kept s t" using l t(1) by (auto simp: e2_low.relates_def)
  then have nb: "use_high_zone t" "next_block t = next_block s" "high_block t = high_block s + nb"
    using s(2) t(2) by (auto simp: low_kept_def e2_nxt_def)
  have "same_on (img s) (img t) (e2_used s) ({1..e2_INODES_PER_GROUP} - J)"
    using s(1) zone_bounds by (intro agrees_same_on[OF ag]) (auto simp: e2_used_def e2_zone_ready_def)
  moreover have "P im" if "same_on (img t) im (e2_used t) J" for im
    by (rule ho, rule same_on_agrees[OF that]) (use nb t(2) in \<open>auto simp: e2_used_def\<close>)
  moreover have "e2_zone_ready now t" using r s(1) nb room t(3) by (auto simp: e2_zone_ready_def e2_tree_ready_def)
  ultimately show ?thesis
    unfolding e2z.phase_def using t nb s(2) J db
    by (intro exI[of _ t]) (auto simp: e2_ctr_def e2_used_def dirs_bounded_def)
qed

section \<open>The host tree under \<^verbatim>\<open>/zig\<close>\<close>

definition e3_tree_dir :: "int \<Rightarrow> (string \<times> host) list option option \<Rightarrow> (core, nat option) py" where
  "e3_tree_dir now tree =
     (case tree of
        None \<Rightarrow> py_ret None
      | Some cs \<Rightarrow>
          py_bind e3_alloc_inode (\<lambda>zig_ino.
          py_bind (e3_add_tree now (HDir cs) zig_ino 2) (\<lambda>zig_entries.
          py_seq (make_directory e3_write_dir_blocks now zig_ino ([(zig_ino, ''.'', FT_DIR), (2, ''..'', FT_DIR)] @ zig_entries)
            (2 + int (length (filter (\<lambda>e. snd (snd e) = FT_DIR) zig_entries)))) (py_ret (Some zig_ino)))))"

definition e2_tree_dir :: "int \<Rightarrow> (string \<times> host) list option option \<Rightarrow> (ext2_state, nat option) py" where
  "e2_tree_dir now tree =
     (case tree of
        None \<Rightarrow> py_ret None
      | Some cs \<Rightarrow>
          py_bind e2_alloc_inode (\<lambda>zig_ino.
          py_seq (set_high_zone True)
          (py_bind (e2_add_tree now (HDir cs) zig_ino 2) (\<lambda>zig_entries.
           py_seq (make_directory e2_write_dir_blocks now zig_ino ([(zig_ino, ''.'', FT_DIR), (2, ''..'', FT_DIR)] @ zig_entries)
             (2 + int (length (filter (\<lambda>e. snd (snd e) = FT_DIR) zig_entries))))
           (py_seq (set_high_zone False) (py_ret (Some zig_ino)))))))"

abbreviation bm_span :: "bytes \<Rightarrow> nat" where
  "bm_span data \<equiv> file_span (num_blocks_of data)"

lemma e3_phase_tree_dir:
  assumes s: "e3_tree_ready now s" "next_inode s + opt_inodes tree \<le> e3_INODES_PER_GROUP + 1"
    "next_block s + opt_blocks bm_span tree \<le> TOTAL_BLOCKS" "opt_ok e3_dir_names_ok tree" and name: "is_ascii name" "length name < 256"
  shows "e3z.phase now (e3_tree_dir now tree) s (opt_ino (next_inode s) tree)
    {next_inode s..<next_inode s + opt_inodes tree} (Need (opt_blocks bm_span tree) 0 (opt_inodes tree))
    (\<lambda>im. opt_read bm_file bm_dir im name (next_inode s) tree)"
proof (cases tree)
  case None
  then show ?thesis
    using e3z.phase_ret[OF s(1), of None]
    by (simp add: e3_tree_dir_def opt_ino_def opt_inodes_def opt_blocks_def opt_read_def zero_need_def del: py_ret_run)
next
  case (Some cs)
  have two: "1 \<le> (2 :: nat)" "2 \<le> e3_INODES_PER_GROUP" by (simp_all add: layout)
  have ok: "node_ok e3_dir_names_ok (HDir cs)" "next_inode s + node_inodes (HDir cs) \<le> e3_INODES_PER_GROUP + 1"
    "next_block s + node_blocks bm_span names_span (HDir cs) \<le> TOTAL_BLOCKS"
    using s(2-4) Some by (simp_all add: opt_ok_def opt_inodes_def opt_blocks_def tree_node_def)
  let ?p = "py_bind e3_alloc_inode (\<lambda>i. py_bind (e3_add_tree now (HDir cs) i 2) (\<lambda>es.
      py_seq (make_directory e3_write_dir_blocks now i ([(i, ''.'', FT_DIR), (2, ''..'', FT_DIR)] @ es)
        (2 + int (length (filter (\<lambda>e. snd (snd e) = FT_DIR) es)))) (py_ret i)))"
  have rel: "e3_dirs.relates ?p"
    unfolding e3_add_tree_def e3_store_file_def e3_write_dir_blocks_def
    by (intro e3_dirs.relates_rules e3_dirs.relates_steps e3_dirs.relates_add_tree e3_dirs.relates_mkdir)
  have "{next_inode s..<next_inode s + node_inodes (HDir cs)} \<subseteq> {1..e3_INODES_PER_GROUP}"
    using ok(2) s(1) by (auto simp: e3_tree_ready_def)
  from e3_phase_of_tree[OF e3_tree.phase_tree_dir[OF s(1) ok two name, folded e3_add_tree_def] s(1) this rel]
  have "e3z.phase now (py_bind ?p (\<lambda>i. py_ret (Some i))) s (Some (next_inode s))
      {next_inode s..<next_inode s + node_inodes (HDir cs)} (Need (node_blocks bm_span names_span (HDir cs)) 0 (node_inodes (HDir cs)))
      (\<lambda>im. \<forall>n. node_height (HDir cs) \<le> n \<longrightarrow> read_node bm_file bm_dir n im 2 (next_inode s, name, FT_DIR) = Some (prune (HDir cs)))"
    by (rule e3z.phase_map)
  then show ?thesis
    by (simp add: Some e3_tree_dir_def py_bind_assoc py_seq_def opt_ino_def opt_inodes_def opt_blocks_def opt_read_def tree_node_def
        del: py_ret_run)
qed


text \<open>Taking an inode number does not depend on the zone.\<close>

lemma switch_ino: "next_inode_update f (x\<lparr>use_high_zone := z\<rparr>) = (next_inode_update f x)\<lparr>use_high_zone := z\<rparr>" for x :: ext2_state
  by (cases x) simp

lemma alloc_inode_switch:
  "py_bind e2_alloc_inode (\<lambda>i. py_seq (set_high_zone z) (k i)) = py_seq (set_high_zone z) (py_bind e2_alloc_inode k)"
  by (rule ext) (simp add: e2_alloc_inode_def set_high_zone_def py_bind_def py_seq_def switch_ino split: sum.splits)

lemma e2_phase_tree_dir:
  assumes s: "e2_zone_ready now s" "next_inode s + opt_inodes tree \<le> e2_INODES_PER_GROUP + 1"
    "high_block s + opt_blocks bm_span tree \<le> TOTAL_BLOCKS" "opt_ok e2_dir_names_ok tree" and name: "is_ascii name" "length name < 256"
    and z: "\<not> use_high_zone s"
  shows "e2z.phase now (e2_tree_dir now tree) s (opt_ino (next_inode s) tree)
    {next_inode s..<next_inode s + opt_inodes tree} (Need 0 (opt_blocks bm_span tree) (opt_inodes tree))
    (\<lambda>im. opt_read bm_file bm_dir im name (next_inode s) tree)"
proof (cases tree)
  case None
  then show ?thesis
    using e2z.phase_ret[OF s(1), of None]
    by (simp add: e2_tree_dir_def opt_ino_def opt_inodes_def opt_blocks_def opt_read_def zero_need_def del: py_ret_run)
next
  case (Some cs)
  let ?s = "s\<lparr>use_high_zone := True\<rparr>"
  have two: "1 \<le> (2 :: nat)" "2 \<le> e2_INODES_PER_GROUP" by (simp_all add: layout)
  have ok: "node_ok e2_dir_names_ok (HDir cs)" "next_inode ?s + node_inodes (HDir cs) \<le> e2_INODES_PER_GROUP + 1"
    "e2_nxt ?s + node_blocks bm_span names_span (HDir cs) \<le> e2_limit ?s"
    "high_block ?s + node_blocks bm_span names_span (HDir cs) \<le> TOTAL_BLOCKS"
    using s(2-4) Some by (simp_all add: opt_ok_def opt_inodes_def opt_blocks_def tree_node_def e2_nxt_def e2_limit_def)
  have r: "e2_tree_ready now ?s" "e2_high_ready now ?s" "e2_zone_ready now ?s" "use_high_zone ?s"
    using s(1) zone_bounds by (auto simp: e2_zone_ready_def e2_tree_ready_def e2_high_ready_def e2_nxt_def full_image_def)
  let ?p = "py_bind e2_alloc_inode (\<lambda>i. py_bind (e2_add_tree now (HDir cs) i 2) (\<lambda>es.
      py_seq (make_directory e2_write_dir_blocks now i ([(i, ''.'', FT_DIR), (2, ''..'', FT_DIR)] @ es)
        (2 + int (length (filter (\<lambda>e. snd (snd e) = FT_DIR) es)))) (py_ret i)))"
  have rel: "e2_dirs.relates ?p" "e2_low.relates ?p"
    unfolding e2_add_tree_def e2_store_file_def e2_write_dir_blocks_def
    by (intro e2_dirs.relates_rules e2_dirs.relates_steps e2_dirs.relates_add_tree e2_dirs.relates_mkdir
        e2_low.relates_rules e2_low.relates_steps e2_low.relates_add_tree e2_low.relates_mkdir)+
  have J: "{next_inode ?s..<next_inode ?s + node_inodes (HDir cs)} \<subseteq> {1..e2_INODES_PER_GROUP}"
    using ok(2) s(1) by (auto simp: e2_zone_ready_def)
  note td = e2_tree.phase_tree_dir[OF r(1) ok(1-3) two name, folded e2_add_tree_def]
    and hd = e2_high.phase_tree_dir[OF r(2) ok(1-3) two name, folded e2_add_tree_def]
  have fr: "e2_tree.phase now ?p ?s (next_inode ?s) {next_inode ?s..<next_inode ?s + node_inodes (HDir cs)}
      (node_blocks bm_span names_span (HDir cs)) (node_inodes (HDir cs)) (\<lambda>_. True)"
    by (rule e2_tree.phase_mono[OF td]) simp_all
  note ph = e2_phase_of_tree[OF fr hd r(3,4) J rel ok(4)]
  have "in_high_zone (py_bind ?p (\<lambda>i. py_ret (Some i))) = e2_tree_dir now tree"
    by (simp add: in_high_zone_def e2_tree_dir_def Some alloc_inode_switch py_bind_assoc py_seq_def del: py_ret_run)
       (simp add: alloc_inode_switch[unfolded py_seq_def])
  with phase_in_high[OF e2z.phase_map[OF ph, of Some] z] show ?thesis
    by (simp add: Some opt_ino_def opt_inodes_def opt_blocks_def opt_read_def tree_node_def del: py_ret_run)
qed

section \<open>Journals\<close>

text \<open>The part of \<^verbatim>\<open>make_ext3_img.py\<close> that takes and writes the blocks of the journal.\<close>

lemma e3_phase_journal:
  assumes s: "e3_tree_ready now s" and room: "next_block s + 1025 \<le> TOTAL_BLOCKS"
  shows "e3z.phase now (e3_journal now) s () {8} (Need 1025 0 0) (\<lambda>im. journal_at im (inode_offset 8) (next_block s) 1024)"
proof -
  let ?nb = "next_block s" and ?n = e3_JOURNAL_BLOCKS
  let ?bs = "[?nb..<?nb + ?n]" and ?ib = "?nb + ?n"
  define jsb where "jsb = put_at 0 (be_fields (jsb_fields ?n)) (zeros BLOCK_SIZE)"
  have j: "jsb_block (jsb_fields ?n) = Inr jsb" "length jsb = BLOCK_SIZE"
    unfolding jsb_def using jsb_fields_ok[of ?n] by (intro jsb_block_run; simp add: layout)+
  have p: "pointer_block (drop 12 ?bs) = Inr (ptrs_bytes (drop 12 ?bs))" "length (ptrs_bytes (drop 12 ?bs)) = BLOCK_SIZE"
    using room by (intro pointer_block_eq length_ptrs_bytes; auto simp: layout)+
  have rm: "?nb + (?n + 1) \<le> TOTAL_BLOCKS" using room by (simp add: layout)
  let ?bds = "[(?nb, jsb), (?ib, ptrs_bytes (drop 12 ?bs))]"
  define blocks :: "(core, nat list \<times> nat) py" where "blocks =
     py_bind (py_get next_block) (\<lambda>journal_start.
     py_bind (py_times ?n e3_alloc_block) (\<lambda>ptrs.
     py_bind (py_lift (jsb_block (jsb_fields ?n))) (\<lambda>jsb.
     py_seq (write_block journal_start jsb)
     (py_bind e3_alloc_block (\<lambda>ib.
      py_bind (py_lift (pointer_block (drop 12 ptrs))) (\<lambda>ind_data.
      py_seq (write_block ib ind_data) (py_ret (ptrs, ib))))))))"
  have eq: "e3_journal now = py_bind blocks (\<lambda>(ptrs, ib).
      write_inode now 8 0x8180 (?n * BLOCK_SIZE) ?n (take 12 ptrs) 1 (Some ib) None 0 0)"
    by (simp add: e3_journal_def blocks_def Let_def py_bind_assoc py_seq_def del: py_ret_run)
  have B: "e3z.phase now blocks s (?bs, ?ib) {} (blk False (?n + 1)) (\<lambda>im. log_at im ?bds)"
  proof (rule e3z.phase_log[OF s rm])
    have ta: "py_times ?n e3_alloc_block s = Inr (?bs, e3_bump ?n s)" by (rule e3.times_alloc) (use rm in simp)
    have a: "e3_alloc_block (img_update f (e3_bump ?n s)) = Inr (?ib, img_update f (e3_bump (?n + 1) s))" for f
      using rm e3.alloc_ok[of "img_update f (e3_bump ?n s)"] by (simp add: e3_bump_def)
    show "blocks s = Inr ((?bs, ?ib), img_update (apply_writes (block_log ?bds)) (e3_bump (?n + 1) s))"
      using p j by (simp add: blocks_def py_bind_run py_seq_run ta a write_block_run block_log_def comp_def)
  qed (use j(2) p(2) in \<open>auto simp: layout\<close>)
  have I: "e3z.phase now (write_inode now 8 0x8180 (?n * BLOCK_SIZE) ?n (take 12 ?bs) 1 (Some ?ib) None 0 0) t () {8} 0
      (\<lambda>im. inode_at im 8 0x8180 (?n * BLOCK_SIZE) (take 12 ?bs) (Some ?ib) None)" if "e3_tree_ready now t" for t
    by (rule e3z.phase_write_inode[OF that])
      (use s room in \<open>auto simp: e3_tree_ready_def clock_ok_def inode_args_ok_def layout ptr_ok_def dest: in_set_takeD\<close>)
  have ph: "e3z.phase now (e3_journal now) s () ({} \<union> {8}) (blk False (?n + 1) + 0)
      (\<lambda>im. log_at im ?bds \<and> inode_at im 8 0x8180 (?n * BLOCK_SIZE) (take 12 ?bs) (Some ?ib) None)"
    unfolding eq by (rule e3z.phase_bind[OF B]) (unfold prod.case, rule I, simp_all)
  have "journal_at im (inode_offset 8) ?nb 1024" if l: "log_at im ?bds"
    and i: "inode_at im 8 0x8180 (?n * BLOCK_SIZE) (take 12 ?bs) (Some ?ib) None" for im
  proof -
    have b: "block_at im ?nb = jsb" "block_at im ?ib = ptrs_bytes (drop 12 ?bs)"
      using l j(2) p(2) by (simp_all add: log_at_def block_at_def)
    have ptr: "i_block_at im (inode_offset 8) k = (if k < 12 then ?nb + k else ?ib)" if "k < 13" for k
      using i that rm by (auto simp: inode_at_def i_block_field_def layout)
    have "run_mapped im (inode_offset 8) ?nb ?n ?ib 0 0" using ptr b(2) by (simp add: run_mapped_def layout)
    then have "bmap im (inode_offset 8) k = ?nb + k" if "k < ?n" for k
      by (rule run_mapped_bmap[OF _ that]) (use rm in \<open>simp_all add: dind_groups_def ceil_div_def layout\<close>)
    moreover have "jsb_valid im ?nb ?n" by (rule jsb_valid_block) (use b(1) in \<open>simp_all add: jsb_def layout\<close>)
    ultimately show ?thesis using i by (simp add: journal_at_def e3_JOURNAL_BLOCKS_def inode_at_def)
  qed
  then show ?thesis
    by (intro e3z.phase_mono[OF ph]) (auto simp: blk_def zero_need_def e3_JOURNAL_BLOCKS_def)
qed


text \<open>The journal of \<^verbatim>\<open>make_ext2_img.py\<close> takes its blocks from the overflow zone without a switch.\<close>

definition e2_journal_at :: "bytes \<Rightarrow> nat \<Rightarrow> bool" where
  "e2_journal_at im b \<longleftrightarrow>
     jsb_valid im b e2_JOURNAL_BLOCKS \<and> inode_at im 8 0x8180 (e2_JOURNAL_BLOCKS * BLOCK_SIZE) [b] None None"

lemma e2_phase_journal:
  assumes s: "e2_zone_ready now s" and z: "\<not> use_high_zone s" and room: "high_block s + 1024 \<le> TOTAL_BLOCKS"
  shows "e2z.phase now (e2_journal now) s () {8} (Need 0 1024 0) (\<lambda>im. e2_journal_at im (high_block s))"
proof -
  let ?hb = "high_block s" and ?n = e2_JOURNAL_BLOCKS and ?s = "s\<lparr>use_high_zone := True\<rparr>"
  define jsb where "jsb = put_at 0 (be_fields e2_jsb_fields) (zeros BLOCK_SIZE)"
  have j: "jsb_block e2_jsb_fields = Inr jsb" "length jsb = BLOCK_SIZE"
    unfolding jsb_def by (intro jsb_block_run; simp add: e2_jsb_fields_def layout)+
  define q :: "(ext2_state, nat) py" where "q =
     py_bind (py_get high_block) (\<lambda>journal_start.
     py_seq (py_mod (high_block_update (\<lambda>n. n + ?n)))
     (py_bind (py_lift (jsb_block e2_jsb_fields)) (\<lambda>jsb.
      py_seq (write_block journal_start jsb) (py_ret journal_start))))"
  have rm: "?hb + ?n \<le> TOTAL_BLOCKS" using room by (simp add: layout)
  have nx: "e2_nxt ?s = ?hb" "e2_limit ?s = TOTAL_BLOCKS" by (simp_all add: e2_nxt_def e2_limit_def)
  have B: "e2z.phase now q ?s ?hb {} (blk (use_high_zone ?s) ?n) (\<lambda>im. log_at im [(?hb, jsb)])"
  proof (rule e2z.phase_log)
    show "q ?s = Inr (?hb, img_update (apply_writes (block_log [(?hb, jsb)])) (e2_bump ?n ?s))"
      using j by (simp add: q_def py_bind_run py_seq_run write_block_run block_log_def e2_bump_def)
  qed (use s rm j(2) nx in \<open>auto simp: e2_zone_switch layout\<close>)
  have I: "e2z.phase now (write_inode now 8 0x8180 (?n * BLOCK_SIZE) ?n [?hb] 1 None None 0 0) t () {8} 0
      (\<lambda>im. inode_at im 8 0x8180 (?n * BLOCK_SIZE) [?hb] None None)" if "e2_zone_ready now t" for t
    by (rule e2z.phase_write_inode[OF that])
      (use s room in \<open>auto simp: e2_zone_ready_def clock_ok_def inode_args_ok_def layout ptr_ok_def\<close>)
  let ?r = "py_bind (in_high_zone q) (\<lambda>b. write_inode now 8 0x8180 (?n * BLOCK_SIZE) ?n [b] 1 None None 0 0)"
  have ph: "e2z.phase now ?r s () ({} \<union> {8}) (blk (use_high_zone ?s) ?n + 0)
      (\<lambda>im. log_at im [(?hb, jsb)] \<and> inode_at im 8 0x8180 (?n * BLOCK_SIZE) [?hb] None None)"
    by (rule e2z.phase_bind[OF phase_in_high[OF B z]]) (rule I, simp_all)
  have eq: "e2_journal now s = ?r s"
  proof -
    have "s = s\<lparr>use_high_zone := False\<rparr>" using z by simp
    then have b: "img_update f (high_block_update g s) = (img_update f (high_block_update g (s\<lparr>use_high_zone := True\<rparr>)))\<lparr>use_high_zone := False\<rparr>"
      for f g by (cases s) simp
    show ?thesis
      using rm j b by (simp add: e2_journal_def q_def in_high_zone_def set_high_zone_def py_bind_run py_seq_run Let_def write_block_run)
  qed
  have "e2_journal_at im ?hb" if "log_at im [(?hb, jsb)]" "inode_at im 8 0x8180 (?n * BLOCK_SIZE) [?hb] None None" for im
    using that j(2) e2_jsb_valid[of im ?hb] by (simp add: e2_journal_at_def log_at_def block_at_def jsb_def)
  then have "e2z.phase now ?r s () {8} (Need 0 1024 0) (\<lambda>im. e2_journal_at im ?hb)"
    by (intro e2z.phase_mono[OF ph]) (auto simp: blk_def zero_need_def e2_JOURNAL_BLOCKS_def)
  then show ?thesis by (simp add: e2z.phase_def eq)
qed

end
