(* ===== verification/Main23.thy ===== *)
theory Main23
  imports Zone_Scripts
begin

text \<open>
  The statements that the \<^verbatim>\<open>main\<close> functions of \<^verbatim>\<open>make_ext2_img.py\<close> and \<^verbatim>\<open>make_ext3_img.py\<close> share:
  the blocks of the fixed files and directories, the blocks of binaries and scripts, and the
  inodes that are written once all blocks are in place.
\<close>

section \<open>Binaries and scripts\<close>

text \<open>What the scripts remember of a file between its blocks and its inode.\<close>

type_synonym file_info = "string \<times> nat \<times> nat list \<times> nat option \<times> nat option \<times> bytes"

definition put_file ::
  "('a core_scheme, nat) py \<Rightarrow> ('a core_scheme, nat) py \<Rightarrow> string \<times> bytes \<Rightarrow> ('a core_scheme, file_info) py" where
  "put_file alloc alloc_inode = (\<lambda>(name, data).
     py_bind alloc_inode (\<lambda>ino.
     py_bind (put_file_blocks alloc data) (\<lambda>(blocks, indirect, dindirect).
     py_ret (name, ino, blocks, indirect, dindirect, data))))"

definition put_files ::
  "('a core_scheme, nat) py \<Rightarrow> ('a core_scheme, nat) py \<Rightarrow> (string \<times> bytes) list \<Rightarrow> ('a core_scheme, file_info list) py" where
  "put_files alloc alloc_inode files = py_collect (put_file alloc alloc_inode) (sort_key fst files)"

text \<open>The shell, when it is not empty, and the other binaries.\<close>

definition put_bin_files ::
  "('a core_scheme, nat) py \<Rightarrow> ('a core_scheme, nat) py \<Rightarrow> bytes option \<Rightarrow> (string \<times> bytes) list \<Rightarrow>
   ('a core_scheme, file_info option \<times> file_info list) py" where
  "put_bin_files alloc alloc_inode shell extra_bins =
     py_bind (if has_shell shell
       then py_bind (put_file alloc alloc_inode (''zsh'', the shell)) (\<lambda>i. py_ret (Some i))
       else py_ret None) (\<lambda>zsh.
     py_bind (put_files alloc alloc_inode extra_bins) (\<lambda>extra_bin_info.
     py_ret (zsh, extra_bin_info)))"

definition write_file_inode :: "int \<Rightarrow> int \<Rightarrow> file_info \<Rightarrow> ('a core_scheme, unit) py" where
  "write_file_inode now mode = (\<lambda>(name, ino, blocks, indirect, dindirect, data).
     let num_data_blocks = length blocks; direct_ptrs = take 12 blocks in
     write_inode now ino mode (length data) num_data_blocks direct_ptrs 1 indirect dindirect 0 0)"

definition info_entry :: "file_info \<Rightarrow> dirent" where
  "info_entry = (\<lambda>(name, ino, blocks, indirect, dindirect, data). (ino, name, FT_REG))"

text \<open>The directory \<^verbatim>\<open>/bin\<close>.\<close>

definition bin_entries_list :: "nat \<Rightarrow> file_info option \<Rightarrow> file_info list \<Rightarrow> dirent list" where
  "bin_entries_list bin_ino zsh extra_bin_info =
     [(bin_ino, ''.'', FT_DIR), (2, ''..'', FT_DIR)] @
     (case zsh of Some i \<Rightarrow> [info_entry i] | None \<Rightarrow> []) @ map info_entry extra_bin_info"

text \<open>The inode of a directory of at most twelve blocks.\<close>

definition write_dir_inode :: "int \<Rightarrow> nat \<Rightarrow> nat list \<Rightarrow> int \<Rightarrow> ('a core_scheme, unit) py" where
  "write_dir_inode now ino dir_blocks nlink =
     (let dir_size = length dir_blocks * BLOCK_SIZE in
      write_inode now ino 0x41ED dir_size (length dir_blocks) (take 12 dir_blocks) nlink None None 0 0)"

definition write_bin_inodes ::
  "int \<Rightarrow> nat \<Rightarrow> nat list \<Rightarrow> file_info option \<Rightarrow> file_info list \<Rightarrow> ('a core_scheme, unit) py" where
  "write_bin_inodes now bin_ino dir_blocks zsh extra_bin_info =
     py_seq (write_dir_inode now bin_ino dir_blocks 2)
     (py_seq (case zsh of Some i \<Rightarrow> write_file_inode now 0x81ED i | None \<Rightarrow> py_ret ())
     (py_each (write_file_inode now 0x81ED) extra_bin_info))"

section \<open>Fixed files and directories\<close>

record fixed_texts =
  hello_txt :: bytes
  test2_txt :: bytes
  motd_txt :: bytes
  passwd_txt :: bytes
  www_index_txt :: bytes
  hello_zig_txt :: bytes

record test_blocks =
  hello_block :: nat
  test2_block :: nat
  motd_block :: nat
  passwd_block :: nat
  www_index_block :: nat
  hello_zig_block :: nat

definition put_test_blocks :: "('a core_scheme, nat) py \<Rightarrow> fixed_texts \<Rightarrow> ('a core_scheme, test_blocks) py" where
  "put_test_blocks alloc d =
     py_bind (put_block alloc (hello_txt d)) (\<lambda>hello. py_bind (put_block alloc (test2_txt d)) (\<lambda>test2.
     py_bind (put_block alloc (motd_txt d)) (\<lambda>motd. py_bind (put_block alloc (passwd_txt d)) (\<lambda>passwd.
     py_bind (put_block alloc (www_index_txt d)) (\<lambda>www_index. py_bind (put_block alloc (hello_zig_txt d)) (\<lambda>hello_zig.
     py_ret \<lparr>hello_block = hello, test2_block = test2, motd_block = motd, passwd_block = passwd,
       www_index_block = www_index, hello_zig_block = hello_zig\<rparr>))))))"

record home_blocks =
  www_block :: nat
  root_home_block :: nat
  home_block :: nat
  home_user_block :: nat

definition put_home_blocks :: "('a core_scheme, nat) py \<Rightarrow> fixed_inodes \<Rightarrow> ('a core_scheme, home_blocks) py" where
  "put_home_blocks alloc f =
     py_bind (put_dir_block alloc
       [(www_ino f, ''.'', FT_DIR), (2, ''..'', FT_DIR), (www_index_ino f, ''index.html'', FT_REG)]) (\<lambda>www.
     py_bind (put_dir_block alloc [(root_home_ino f, ''.'', FT_DIR), (2, ''..'', FT_DIR)]) (\<lambda>root_home.
     py_bind (put_dir_block alloc
       [(home_ino f, ''.'', FT_DIR), (2, ''..'', FT_DIR), (home_user_ino f, ''user'', FT_DIR)]) (\<lambda>home.
     py_bind (put_dir_block alloc [(home_user_ino f, ''.'', FT_DIR), (home_ino f, ''..'', FT_DIR)]) (\<lambda>home_user.
     py_ret \<lparr>www_block = www, root_home_block = root_home, home_block = home, home_user_block = home_user\<rparr>))))"

record late_blocks =
  lost_found_block :: nat
  testdir_block :: nat
  etc_block :: nat

definition put_late_blocks :: "('a core_scheme, nat) py \<Rightarrow> fixed_inodes \<Rightarrow> ('a core_scheme, late_blocks) py" where
  "put_late_blocks alloc f =
     py_bind (put_dir_block alloc [(11, ''.'', FT_DIR), (2, ''..'', FT_DIR)]) (\<lambda>lost_found.
     py_bind (put_dir_block alloc
       [(testdir_ino f, ''.'', FT_DIR), (2, ''..'', FT_DIR), (test2_ino f, ''test2.txt'', FT_REG)]) (\<lambda>testdir.
     py_bind (put_dir_block alloc
       [(etc_ino f, ''.'', FT_DIR), (2, ''..'', FT_DIR), (motd_ino f, ''motd'', FT_REG), (passwd_ino f, ''passwd'', FT_REG)]) (\<lambda>etc.
     py_ret \<lparr>lost_found_block = lost_found, testdir_block = testdir, etc_block = etc\<rparr>)))"

text \<open>Inodes with one block: number, mode, size, block, link count, owner and group.\<close>

type_synonym inode_row = "nat \<times> int \<times> nat \<times> nat \<times> int \<times> int \<times> int"

definition write_row :: "int \<Rightarrow> inode_row \<Rightarrow> ('a core_scheme, unit) py" where
  "write_row now = (\<lambda>(ino, mode, i_size, block, nlink, uid, gid).
     write_inode now ino mode i_size 1 [block] nlink None None uid gid)"

definition fixed_rows ::
  "fixed_texts \<Rightarrow> fixed_inodes \<Rightarrow> test_blocks \<Rightarrow> home_blocks \<Rightarrow> late_blocks \<Rightarrow> nat \<Rightarrow> int \<Rightarrow> inode_row list" where
  "fixed_rows d f tb hb lb tmp_block tmp_nlink =
     [(11, 0x41C0, BLOCK_SIZE, lost_found_block lb, 2, 0, 0),
      (hello_ino f, 0x81A4, length (hello_txt d), hello_block tb, 1, 0, 0),
      (testdir_ino f, 0x41ED, BLOCK_SIZE, testdir_block lb, 3, 0, 0),
      (test2_ino f, 0x81A4, length (test2_txt d), test2_block tb, 1, 0, 0),
      (etc_ino f, 0x41ED, BLOCK_SIZE, etc_block lb, 2, 0, 0),
      (motd_ino f, 0x81A4, length (motd_txt d), motd_block tb, 1, 0, 0),
      (passwd_ino f, 0x81A4, length (passwd_txt d), passwd_block tb, 1, 0, 0),
      (root_home_ino f, 0x41C0, BLOCK_SIZE, root_home_block hb, 2, 0, 0),
      (home_ino f, 0x41ED, BLOCK_SIZE, home_block hb, 3, 0, 0),
      (home_user_ino f, 0x41C0, BLOCK_SIZE, home_user_block hb, 2, 1000, 1000),
      (www_ino f, 0x41ED, BLOCK_SIZE, www_block hb, 2, 0, 0),
      (www_index_ino f, 0x81A4, length (www_index_txt d), www_index_block tb, 1, 0, 0),
      (tmp_ino f, 0x43FF, BLOCK_SIZE, tmp_block, tmp_nlink, 0, 0),
      (hello_zig_ino f, 0x81A4, length (hello_zig_txt d), hello_zig_block tb, 1, 0, 0)]"

section \<open>Their effect\<close>

definition info_of :: "nat \<Rightarrow> nat \<Rightarrow> string \<times> bytes \<Rightarrow> file_info" where
  "info_of i nb f = (let n = num_blocks_of (snd f) in
     (fst f, i, file_blocks nb n, indirect_of nb n, dindirect_of nb n, snd f))"

primrec infos :: "nat \<Rightarrow> nat \<Rightarrow> (string \<times> bytes) list \<Rightarrow> file_info list" where
  "infos i nb [] = []"
| "infos i nb (f # fs) = info_of i nb f # infos (Suc i) (nb + bm_span (snd f)) fs"

primrec infos_data :: "bytes \<Rightarrow> nat \<Rightarrow> (string \<times> bytes) list \<Rightarrow> bool" where
  "infos_data im nb [] \<longleftrightarrow> True"
| "infos_data im nb (f # fs) \<longleftrightarrow> log_at im (file_log nb (snd f)) \<and> infos_data im (nb + bm_span (snd f)) fs"

definition file_inode_at :: "bytes \<Rightarrow> int \<Rightarrow> nat \<Rightarrow> nat \<Rightarrow> bytes \<Rightarrow> bool" where
  "file_inode_at im mode i nb data \<longleftrightarrow> (let n = num_blocks_of data in
     inode_at im i mode (length data) (take 12 (file_blocks nb n)) (indirect_of nb n) (dindirect_of nb n))"

primrec infos_inodes :: "bytes \<Rightarrow> int \<Rightarrow> nat \<Rightarrow> nat \<Rightarrow> (string \<times> bytes) list \<Rightarrow> bool" where
  "infos_inodes im mode i nb [] \<longleftrightarrow> True"
| "infos_inodes im mode i nb (f # fs) \<longleftrightarrow>
     file_inode_at im mode i nb (snd f) \<and> infos_inodes im mode (Suc i) (nb + bm_span (snd f)) fs"

definition rows_at :: "bytes \<Rightarrow> inode_row list \<Rightarrow> bool" where
  "rows_at im rows \<longleftrightarrow> list_all (\<lambda>(ino, mode, i_size, block, nlink, uid, gid). inode_at im ino mode i_size [block] None None) rows"

definition row_ok :: "inode_row \<Rightarrow> bool" where
  "row_ok = (\<lambda>(ino, mode, i_size, block, nlink, uid, gid). 1 \<le> ino \<and> 0 \<le> mode \<and> mode < 2 ^ 16 \<and> i_size < 2 ^ 32 \<and>
     block < TOTAL_BLOCKS \<and> 0 \<le> nlink \<and> nlink < 2 ^ 16 \<and> 0 \<le> uid \<and> uid < 2 ^ 16 \<and> 0 \<le> gid \<and> gid < 2 ^ 16)"

lemma infos_entries: "map info_entry (infos i nb fs) = file_entries i fs"
  by (induction fs arbitrary: i nb) (simp_all add: info_of_def info_entry_def Let_def)

lemma infos_readable:
  assumes "infos_data im nb fs" "infos_inodes im (file_mode x) i nb fs" "nb + files_blocks bm_span fs \<le> TOTAL_BLOCKS"
  shows "files_at (bm_file im) x i fs"
  using assms
proof (induction fs arbitrary: i nb)
  case (Cons f fs)
  have "bm_file im i = (file_mode x, snd f)"
    by (rule file_readable[where nb = nb]) (use Cons.prems in \<open>simp_all add: file_inode_at_def Let_def files_blocks_def\<close>)
  moreover have "files_at (bm_file im) x (Suc i) fs"
    by (rule Cons.IH[of "nb + bm_span (snd f)"]) (use Cons.prems in \<open>simp_all add: files_blocks_def\<close>)
  ultimately show ?case by simp
qed simp


context zone_source
begin

lemma ready_bounds: "ready s \<Longrightarrow> 1 \<le> next_inode s"
  using ready_full by simp

lemma phase_put_file:
  fixes f :: "string \<times> bytes"
  assumes s: "ready s" "next_inode s \<le> m" "nxt s + bm_span (snd f) \<le> limit s"
  shows "phase (put_file alloc alloc_ino f) s (info_of (next_inode s) (nxt s) f) {} (Need 0 0 1 + blk (zone s) (bm_span (snd f)))
    (\<lambda>im. log_at im (file_log (nxt s) (snd f)))"
proof -
  obtain name data where f: "f = (name, data)" by (cases f)
  let ?n = "num_blocks_of data"
  let ?k = "\<lambda>(blocks, indirect, dindirect). py_ret (name, next_inode s, blocks, indirect, dindirect, data)"
  have m1: "1 \<le> m" using s(2) ready_bounds[OF s(1)] by simp
  have "phase (py_bind (put_file_blocks alloc data) ?k) t (info_of (next_inode s) (nxt s) f) {} (blk (zone s) (file_span ?n))
      (\<lambda>im. log_at im (file_log (nxt s) data))"
    if t: "ready t" "zone t = zone s" "ctr t = ctr s + Need 0 0 1" for t
  proof -
    have nx: "nxt t = nxt s" "limit t = limit s" using t by (simp_all add: nxt_ctr limit_zone)
    have "phase (put_file_blocks alloc data) t (file_blocks (nxt s) ?n, indirect_of (nxt s) ?n, dindirect_of (nxt s) ?n) {}
        (blk (zone s) (file_span ?n)) (\<lambda>im. log_at im (file_log (nxt s) data))"
      using phase_put_file_blocks[OF t(1) _ m1, of data] s(3) nx t(2) by (simp add: f)
    from phase_map[OF this, of "\<lambda>(blocks, indirect, dindirect). (name, next_inode s, blocks, indirect, dindirect, data)"]
    show ?thesis by (simp add: info_of_def f Let_def case_prod_unfold del: py_ret_run)
  qed
  then have "phase (put_file alloc alloc_ino f) s (info_of (next_inode s) (nxt s) f) ({} \<union> {})
      (Need 0 0 1 + blk (zone s) (bm_span (snd f))) (\<lambda>im. True \<and> log_at im (file_log (nxt s) (snd f)))"
    unfolding put_file_def f prod.case
    by (intro phase_bind[OF phase_alloc_ino[OF s(1,2)]]) (simp_all add: f del: py_ret_run)
  then show ?thesis by simp
qed

lemma phase_put_each:
  assumes "ready s" "next_inode s + length fs \<le> m + 1" "nxt s + files_blocks bm_span fs \<le> limit s"
  shows "phase (py_collect (put_file alloc alloc_ino) fs) s (infos (next_inode s) (nxt s) fs) {}
    (Need 0 0 (length fs) + blk (zone s) (files_blocks bm_span fs)) (\<lambda>im. infos_data im (nxt s) fs)"
  using assms
proof (induction fs arbitrary: s)
  case Nil
  from phase_ret[OF Nil.prems(1), of "[]"] show ?case
    by (simp add: files_blocks_def blk_add zero_need_def del: py_ret_run)
next
  case (Cons f fs)
  let ?i = "next_inode s" and ?nb = "nxt s" and ?k = "bm_span (snd f)"
  have p: "?i \<le> m" "?nb + ?k \<le> limit s" using Cons.prems by (simp_all add: files_blocks_def)
  have rest: "phase (py_bind (py_collect (put_file alloc alloc_ino) fs) (\<lambda>ys. py_ret (info_of ?i ?nb f # ys))) t
      (infos ?i ?nb (f # fs)) {} (Need 0 0 (length fs) + blk (zone s) (files_blocks bm_span fs)) (\<lambda>im. infos_data im (?nb + ?k) fs)"
    if t: "ready t" "zone t = zone s" "ctr t = ctr s + (Need 0 0 1 + blk (zone s) ?k)" for t
  proof -
    have nx: "nxt t = ?nb + ?k" "limit t = limit s" "next_inode t = Suc ?i"
      using t by (auto simp: nxt_ctr limit_zone ino_ctr)
    have "phase (py_collect (put_file alloc alloc_ino) fs) t (infos (Suc ?i) (?nb + ?k) fs) {}
      (Need 0 0 (length fs) + blk (zone s) (files_blocks bm_span fs)) (\<lambda>im. infos_data im (?nb + ?k) fs)"
      using Cons.IH[OF t(1)] Cons.prems(2,3) nx t(2) by (simp add: files_blocks_def del: py_ret_run)
    from phase_map[OF this, of "\<lambda>ys. info_of ?i ?nb f # ys"] show ?thesis by simp
  qed
  have "phase (py_collect (put_file alloc alloc_ino) (f # fs)) s (infos ?i ?nb (f # fs)) ({} \<union> {})
      ((Need 0 0 1 + blk (zone s) ?k) + (Need 0 0 (length fs) + blk (zone s) (files_blocks bm_span fs)))
      (\<lambda>im. log_at im (file_log ?nb (snd f)) \<and> infos_data im (?nb + ?k) fs)"
    unfolding py_collect.simps by (rule phase_bind[OF phase_put_file[OF Cons.prems(1) p]]) (simp_all only: rest, simp)
  then show ?case
    by (elim phase_mono) (simp_all add: files_blocks_def blk_def)
qed

text \<open>The result of \<open>put_bin_files\<close> when it starts at inode \<open>i\<close> and block \<open>nb\<close>.\<close>

lemma phase_put_bin_files:
  fixes shell :: "bytes option"
  defines "sh \<equiv> if has_shell shell then [(''zsh'', the shell)] else []"
  assumes s: "ready s" "next_inode s + length (bin_files shell bins) \<le> m + 1"
    "nxt s + files_blocks bm_span (bin_files shell bins) \<le> limit s"
  shows "phase (put_bin_files alloc alloc_ino shell bins) s
    (if has_shell shell then Some (info_of (next_inode s) (nxt s) (''zsh'', the shell)) else None,
     infos (next_inode s + length sh) (nxt s + files_blocks bm_span sh) (sort_key fst bins)) {}
    (Need 0 0 (length (bin_files shell bins)) + blk (zone s) (files_blocks bm_span (bin_files shell bins)))
    (\<lambda>im. infos_data im (nxt s) (bin_files shell bins))"
proof -
  let ?i = "next_inode s" and ?nb = "nxt s" and ?fs = "sort_key fst bins"
  have bf: "bin_files shell bins = sh @ ?fs" by (simp add: bin_files_def sh_def)
  have fb: "files_blocks bm_span (bin_files shell bins) = files_blocks bm_span sh + files_blocks bm_span ?fs"
    by (simp add: bf files_blocks_def)
  let ?z = "if has_shell shell then Some (info_of ?i ?nb (''zsh'', the shell)) else None"
  have zsh: "phase (if has_shell shell then py_bind (put_file alloc alloc_ino (''zsh'', the shell)) (\<lambda>i. py_ret (Some i))
      else py_ret None) s ?z {} (Need 0 0 (length sh) + blk (zone s) (files_blocks bm_span sh)) (\<lambda>im. infos_data im ?nb sh)"
  proof (cases "has_shell shell")
    case True
    have "phase (put_file alloc alloc_ino (''zsh'', the shell)) s (info_of ?i ?nb (''zsh'', the shell)) {}
        (Need 0 0 1 + blk (zone s) (bm_span (the shell))) (\<lambda>im. log_at im (file_log ?nb (the shell)))"
      using phase_put_file[OF s(1), of "(''zsh'', the shell)"] s(2,3) True by (simp add: bf fb sh_def files_blocks_def)
    from phase_map[OF this, of Some] True show ?thesis by (simp add: sh_def files_blocks_def del: py_ret_run)
  next
    case False
    then show ?thesis using phase_ret[OF s(1), of None]
      by (simp add: sh_def files_blocks_def zero_need_def blk_def del: py_ret_run)
  qed
  have rest: "phase (py_bind (put_files alloc alloc_ino bins) (\<lambda>extra. py_ret (?z, extra))) t
      (?z, infos (?i + length sh) (?nb + files_blocks bm_span sh) ?fs) {}
      (Need 0 0 (length ?fs) + blk (zone s) (files_blocks bm_span ?fs)) (\<lambda>im. infos_data im (?nb + files_blocks bm_span sh) ?fs)"
    if t: "ready t" "zone t = zone s" "ctr t = ctr s + (Need 0 0 (length sh) + blk (zone s) (files_blocks bm_span sh))" for t
  proof -
    have nx: "nxt t = ?nb + files_blocks bm_span sh" "limit t = limit s" "next_inode t = ?i + length sh"
      using t by (auto simp: nxt_ctr limit_zone ino_ctr)
    have "phase (put_files alloc alloc_ino bins) t (infos (?i + length sh) (?nb + files_blocks bm_span sh) ?fs) {}
        (Need 0 0 (length ?fs) + blk (zone s) (files_blocks bm_span ?fs)) (\<lambda>im. infos_data im (?nb + files_blocks bm_span sh) ?fs)"
      using phase_put_each[OF t(1), of ?fs] s(2) s(3)[unfolded fb] nx t(2) by (simp add: put_files_def bf)
    then show ?thesis by (rule phase_map)
  qed
  have "phase (put_bin_files alloc alloc_ino shell bins) s (?z, infos (?i + length sh) (?nb + files_blocks bm_span sh) ?fs) ({} \<union> {})
      ((Need 0 0 (length sh) + blk (zone s) (files_blocks bm_span sh)) + (Need 0 0 (length ?fs) + blk (zone s) (files_blocks bm_span ?fs)))
      (\<lambda>im. infos_data im ?nb sh \<and> infos_data im (?nb + files_blocks bm_span sh) ?fs)"
    unfolding put_bin_files_def by (rule phase_bind[OF zsh]) (simp_all only: rest, simp)
  then show ?thesis
  proof (rule phase_mono)
    show "infos_data im ?nb (bin_files shell bins)"
      if "infos_data im ?nb sh \<and> infos_data im (?nb + files_blocks bm_span sh) ?fs" for im
      using that by (auto simp: bf sh_def files_blocks_def)
  qed (auto simp: bf files_blocks_def blk_def)
qed

end


text \<open>Blocks taken one after the other.\<close>

lemma collect_blocks:
  "put_test_blocks alloc d = py_bind (py_collect (put_block alloc)
       [hello_txt d, test2_txt d, motd_txt d, passwd_txt d, www_index_txt d, hello_zig_txt d])
     (\<lambda>bs. py_ret \<lparr>hello_block = bs ! 0, test2_block = bs ! 1, motd_block = bs ! 2, passwd_block = bs ! 3,
       www_index_block = bs ! 4, hello_zig_block = bs ! 5\<rparr>)"
  "put_home_blocks alloc f = py_bind (py_collect (put_dir_block alloc)
       [[(www_ino f, ''.'', FT_DIR), (2, ''..'', FT_DIR), (www_index_ino f, ''index.html'', FT_REG)],
        [(root_home_ino f, ''.'', FT_DIR), (2, ''..'', FT_DIR)],
        [(home_ino f, ''.'', FT_DIR), (2, ''..'', FT_DIR), (home_user_ino f, ''user'', FT_DIR)],
        [(home_user_ino f, ''.'', FT_DIR), (home_ino f, ''..'', FT_DIR)]])
     (\<lambda>bs. py_ret \<lparr>www_block = bs ! 0, root_home_block = bs ! 1, home_block = bs ! 2, home_user_block = bs ! 3\<rparr>)"
  "put_late_blocks alloc f = py_bind (py_collect (put_dir_block alloc)
       [[(11, ''.'', FT_DIR), (2, ''..'', FT_DIR)],
        [(testdir_ino f, ''.'', FT_DIR), (2, ''..'', FT_DIR), (test2_ino f, ''test2.txt'', FT_REG)],
        [(etc_ino f, ''.'', FT_DIR), (2, ''..'', FT_DIR), (motd_ino f, ''motd'', FT_REG), (passwd_ino f, ''passwd'', FT_REG)]])
     (\<lambda>bs. py_ret \<lparr>lost_found_block = bs ! 0, testdir_block = bs ! 1, etc_block = bs ! 2\<rparr>)"
  by (simp_all add: put_test_blocks_def put_home_blocks_def put_late_blocks_def py_bind_assoc del: py_ret_run)

definition small_dir :: "dirent list \<Rightarrow> bool" where
  "small_dir es \<longleftrightarrow> entries_ok es \<and> es \<noteq> [] \<and> sum_list (map (\<lambda>n. min_rec_len (length n)) (entry_names es)) \<le> BLOCK_SIZE"

context zone_source
begin

lemma phase_collect:
  assumes "ready s" "nxt s + length xs \<le> limit s"
    and p: "\<And>x t. x \<in> set xs \<Longrightarrow> ready t \<Longrightarrow> nxt t + 1 \<le> limit t \<Longrightarrow> phase (p x) t (nxt t) {} (blk (zone t) 1) (Q x (nxt t))"
  shows "phase (py_collect p xs) s [nxt s..<nxt s + length xs] {} (blk (zone s) (length xs))
    (\<lambda>im. list_all (\<lambda>(b, x). Q x b im) (List.enumerate (nxt s) xs))"
  using assms
proof (induction xs arbitrary: s)
  case Nil
  from phase_ret[OF Nil.prems(1), of "[]"] show ?case by (simp add: blk_add del: py_ret_run)
next
  case (Cons x xs)
  let ?nb = "nxt s"
  have rest: "phase (py_bind (py_collect p xs) (\<lambda>ys. py_ret (?nb # ys))) t [?nb..<?nb + length (x # xs)] {}
      (blk (zone s) (length xs)) (\<lambda>im. list_all (\<lambda>(b, x). Q x b im) (List.enumerate (Suc ?nb) xs))"
    if t: "ready t" "zone t = zone s" "ctr t = ctr s + blk (zone s) 1" for t
  proof -
    have nx: "nxt t = Suc ?nb" "limit t = limit s" using t by (auto simp: nxt_ctr limit_zone)
    have "phase (py_collect p xs) t [Suc ?nb..<Suc ?nb + length xs] {} (blk (zone s) (length xs))
        (\<lambda>im. list_all (\<lambda>(b, x). Q x b im) (List.enumerate (Suc ?nb) xs))"
      using Cons.IH[OF t(1)] Cons.prems(2,3) nx t(2) by simp
    moreover have "[?nb..<?nb + length (x # xs)] = ?nb # [Suc ?nb..<Suc ?nb + length xs]" by (simp add: upt_conv_Cons del: upt_Suc)
    ultimately show ?thesis using phase_map[of "py_collect p xs" t _ _ _ _ "\<lambda>ys. ?nb # ys"] by (simp only:)
  qed
  have "phase (py_collect p (x # xs)) s [?nb..<?nb + length (x # xs)] ({} \<union> {}) (blk (zone s) 1 + blk (zone s) (length xs))
      (\<lambda>im. Q x ?nb im \<and> list_all (\<lambda>(b, x). Q x b im) (List.enumerate (Suc ?nb) xs))"
    unfolding py_collect.simps
    by (rule phase_bind[OF Cons.prems(3)]) (use Cons.prems in simp, rule Cons.prems(1), use Cons.prems in simp, erule rest, simp_all)
  then show ?case by (elim phase_mono) (simp_all add: blk_def)
qed

lemma phase_put_blocks:
  assumes "ready s" "nxt s + length ds \<le> limit s" "list_all (\<lambda>d. length d \<le> BLOCK_SIZE) ds"
  shows "phase (py_collect (put_block alloc) ds) s [nxt s..<nxt s + length ds] {} (blk (zone s) (length ds))
    (\<lambda>im. list_all (\<lambda>(b, d). log_at im [(b, d)]) (List.enumerate (nxt s) ds))"
  by (rule phase_collect[OF assms(1,2)]) (rule phase_put_block; use assms(3) in \<open>auto simp: list_all_iff\<close>)

lemma phase_put_dir_blocks:
  assumes "ready s" "nxt s + length ess \<le> limit s" "list_all small_dir ess"
  shows "phase (py_collect (put_dir_block alloc) ess) s [nxt s..<nxt s + length ess] {} (blk (zone s) (length ess))
    (\<lambda>im. list_all (\<lambda>(b, es). read_directory im [b] = Some es) (List.enumerate (nxt s) ess))"
  by (rule phase_collect[OF assms(1,2)]) (rule phase_put_dir_block; use assms(3) in \<open>auto simp: list_all_iff small_dir_def\<close>)

text \<open>The inodes.\<close>

lemma phase_rows:
  assumes "ready s" "list_all row_ok rows" "list_all (\<lambda>r. fst r \<le> m) rows" "distinct (map fst rows)" "0 \<le> now" "now < 2 ^ 32"
  shows "phase (py_each (write_row now) rows) s () (set (map fst rows)) 0 (\<lambda>im. rows_at im rows)"
  using assms
proof (induction rows arbitrary: s)
  case Nil
  from phase_ret[OF Nil.prems(1), of "()"] show ?case by (simp add: rows_at_def del: py_ret_run)
next
  case (Cons r rows)
  obtain ino mode i_size block nlink uid gid where r: "r = (ino, mode, i_size, block, nlink, uid, gid)" by (cases r)
  have "phase (write_row now r) s () {ino} 0 (\<lambda>im. inode_at im ino mode i_size [block] None None)"
    unfolding write_row_def r prod.case
    by (rule phase_write_inode[OF Cons.prems(1)])
      (use Cons.prems in \<open>auto simp: r row_ok_def inode_args_ok_def ptr_ok_def TOTAL_BLOCKS_def\<close>)
  moreover have "phase (py_each (write_row now) rows) t () (set (map fst rows)) 0 (\<lambda>im. rows_at im rows)" if "ready t" for t
    using Cons.prems that by (intro Cons.IH) simp_all
  ultimately have "phase (py_each (write_row now) (r # rows)) s () ({ino} \<union> set (map fst rows)) (0 + 0)
      (\<lambda>im. inode_at im ino mode i_size [block] None None \<and> rows_at im rows)"
    unfolding py_each.simps using Cons.prems(4) by (intro phase_seq) (auto simp: r)
  then show ?case by (elim phase_mono) (auto simp: r rows_at_def)
qed

lemma phase_file_inode:
  assumes "ready s" "1 \<le> i" "i \<le> m" "nb + bm_span (snd f) \<le> TOTAL_BLOCKS" "length (snd f) < 2 ^ 32"
    "0 \<le> mode" "mode < 2 ^ 16" "0 \<le> now" "now < 2 ^ 32"
  shows "phase (write_file_inode now mode (info_of i nb f)) s () {i} 0 (\<lambda>im. file_inode_at im mode i nb (snd f))"
proof -
  let ?n = "num_blocks_of (snd f)"
  have small: "b < 2 ^ 32" if "b \<in> set (take 12 (file_blocks nb ?n))" for b
    using in_set_takeD[OF that] file_block_bounds[of _ ?n nb] assms(4)
    by (fastforce simp: file_blocks_def file_span_def layout)
  have "phase (write_inode now i mode (length (snd f)) ?n (take 12 (file_blocks nb ?n)) 1 (indirect_of nb ?n) (dindirect_of nb ?n) 0 0)
      s () {i} 0 (\<lambda>im. inode_at im i mode (length (snd f)) (take 12 (file_blocks nb ?n)) (indirect_of nb ?n) (dindirect_of nb ?n))"
  proof (rule phase_write_inode[OF assms(1-3) _ small])
    show "inode_args_ok now mode (length (snd f)) ?n 1 0 0"
      using assms by (simp add: inode_args_ok_def file_span_def data_span_def)
    show "ptr_ok (indirect_of nb ?n)" "ptr_ok (dindirect_of nb ?n)"
      using assms(4) by (auto simp: ptr_ok_def indirect_of_def dindirect_of_def file_span_def data_span_def layout)
  qed
  then show ?thesis by (simp add: write_file_inode_def info_of_def Let_def file_inode_at_def)
qed

lemma phase_file_inodes:
  assumes "ready s" "1 \<le> i" "i + length fs \<le> m + 1" "nb + files_blocks bm_span fs \<le> TOTAL_BLOCKS" "files_ok fs"
    "0 \<le> mode" "mode < 2 ^ 16" "0 \<le> now" "now < 2 ^ 32"
  shows "phase (py_each (write_file_inode now mode) (infos i nb fs)) s () {i..<i + length fs} 0
    (\<lambda>im. infos_inodes im mode i nb fs)"
  using assms
proof (induction fs arbitrary: s i nb)
  case Nil
  from phase_ret[OF Nil.prems(1), of "()"] show ?case by (simp del: py_ret_run)
next
  case (Cons f fs)
  let ?nb = "nb + bm_span (snd f)"
  have ok: "files_ok fs" "length (snd f) < 2 ^ 32" using Cons.prems(5) by (auto simp: files_ok_def)
  have "phase (write_file_inode now mode (info_of i nb f)) s () {i} 0 (\<lambda>im. file_inode_at im mode i nb (snd f))"
    using Cons.prems ok by (intro phase_file_inode) (simp_all add: files_blocks_def)
  moreover have "phase (py_each (write_file_inode now mode) (infos (Suc i) ?nb fs)) t () {Suc i..<Suc i + length fs} 0
      (\<lambda>im. infos_inodes im mode (Suc i) ?nb fs)" if "ready t" for t
    using Cons.prems that ok by (intro Cons.IH) (simp_all add: files_blocks_def)
  ultimately have "phase (py_each (write_file_inode now mode) (infos i nb (f # fs))) s () ({i} \<union> {Suc i..<Suc i + length fs}) (0 + 0)
      (\<lambda>im. file_inode_at im mode i nb (snd f) \<and> infos_inodes im mode (Suc i) ?nb fs)"
    unfolding infos.simps py_each.simps by (intro phase_seq) auto
  then show ?case by (elim phase_mono) auto
qed

lemma phase_dir_inode:
  assumes "ready s" "1 \<le> i" "i \<le> m" "k \<le> 12" "nb + k \<le> TOTAL_BLOCKS" "0 \<le> nlink" "nlink < 2 ^ 16" "0 \<le> now" "now < 2 ^ 32"
  shows "phase (write_dir_inode now i [nb..<nb + k] nlink) s () {i} 0 (\<lambda>im. inode_at im i 0x41ED (k * BLOCK_SIZE) [nb..<nb + k] None None)"
proof -
  have "phase (write_inode now i 0x41ED (k * BLOCK_SIZE) k [nb..<nb + k] nlink None None 0 0) s () {i} 0
      (\<lambda>im. inode_at im i 0x41ED (k * BLOCK_SIZE) [nb..<nb + k] None None)"
    by (rule phase_write_inode[OF assms(1-3)]) (use assms in \<open>auto simp: inode_args_ok_def ptr_ok_def layout\<close>)
  then show ?thesis using assms(4) by (simp add: write_dir_inode_def Let_def)
qed

lemma phase_bin_inodes:
  fixes shell :: "bytes option"
  defines "sh \<equiv> if has_shell shell then [(''zsh'', the shell)] else []"
  assumes s: "ready s" "1 \<le> i" "i + 1 + length (bin_files shell bins) \<le> m + 1" "nb + files_blocks bm_span (bin_files shell bins) \<le> TOTAL_BLOCKS"
    "files_ok (bin_files shell bins)" "k \<le> 12" "db + k \<le> TOTAL_BLOCKS" "0 \<le> now" "now < 2 ^ 32"
  shows "phase (write_bin_inodes now i [db..<db + k]
      (if has_shell shell then Some (info_of (i + 1) nb (''zsh'', the shell)) else None)
      (infos (i + 1 + length sh) (nb + files_blocks bm_span sh) (sort_key fst bins))) s () {i..<i + 1 + length (bin_files shell bins)} 0
    (\<lambda>im. inode_at im i 0x41ED (k * BLOCK_SIZE) [db..<db + k] None None \<and>
      infos_inodes im (file_mode True) (i + 1) nb (bin_files shell bins))"
proof -
  let ?fs = "sort_key fst bins"
  let ?j = "i + 1 + length sh" and ?nb = "nb + files_blocks bm_span sh"
  have bf: "bin_files shell bins = sh @ ?fs" by (simp add: bin_files_def sh_def)
  have fm: "0x81ED = file_mode True" "0 \<le> file_mode True" "file_mode True < 2 ^ 16" by (simp_all add: file_mode_def)
  have ok: "files_ok sh" "files_ok ?fs" "nb + files_blocks bm_span sh + files_blocks bm_span ?fs \<le> TOTAL_BLOCKS"
    using s(4,5) by (simp_all add: bf files_ok_def files_blocks_def)
  have z: "phase (case if has_shell shell then Some (info_of (i + 1) nb (''zsh'', the shell)) else None of
        Some i \<Rightarrow> write_file_inode now (file_mode True) i | None \<Rightarrow> py_ret ()) t () {i + 1..<i + 1 + length sh} 0
      (\<lambda>im. infos_inodes im (file_mode True) (i + 1) nb sh)" if t: "ready t" for t
  proof -
    have "phase (py_each (write_file_inode now (file_mode True)) (infos (i + 1) nb sh)) t () {i + 1..<i + 1 + length sh} 0
        (\<lambda>im. infos_inodes im (file_mode True) (i + 1) nb sh)"
      using s t ok fm by (intro phase_file_inodes) (simp_all add: bf)
    moreover have "py_seq p (py_ret ()) = p" for p :: "('a core_scheme, unit) py"
      by (rule ext) (auto simp: py_seq_def py_bind_def split: sum.splits)
    ultimately show ?thesis by (cases "has_shell shell") (simp_all add: sh_def del: py_ret_run)
  qed
  have r: "phase (py_each (write_file_inode now (file_mode True)) (infos ?j ?nb ?fs)) t () {?j..<?j + length ?fs} 0
      (\<lambda>im. infos_inodes im (file_mode True) ?j ?nb ?fs)" if t: "ready t" for t
    using s t ok fm by (intro phase_file_inodes) (simp_all add: bf)
  have "phase (write_bin_inodes now i [db..<db + k]
      (if has_shell shell then Some (info_of (i + 1) nb (''zsh'', the shell)) else None) (infos ?j ?nb ?fs)) s ()
      ({i} \<union> ({i + 1..<i + 1 + length sh} \<union> {?j..<?j + length ?fs})) (0 + (0 + 0))
      (\<lambda>im. inode_at im i 0x41ED (k * BLOCK_SIZE) [db..<db + k] None None \<and>
        infos_inodes im (file_mode True) (i + 1) nb sh \<and> infos_inodes im (file_mode True) ?j ?nb ?fs)"
    unfolding write_bin_inodes_def fm(1)
    by (intro phase_seq phase_dir_inode z r) (use s in auto)
  then show ?thesis
  proof (rule phase_mono)
    show "inode_at im i 0x41ED (k * BLOCK_SIZE) [db..<db + k] None None \<and> infos_inodes im (file_mode True) (i + 1) nb (bin_files shell bins)"
      if "inode_at im i 0x41ED (k * BLOCK_SIZE) [db..<db + k] None None \<and>
        infos_inodes im (file_mode True) (i + 1) nb sh \<and> infos_inodes im (file_mode True) ?j ?nb ?fs" for im
      using that by (auto simp: bf sh_def files_blocks_def)
  qed (auto simp: bf)
qed

end


section \<open>The fixed part of an image\<close>

definition test_at :: "nat \<Rightarrow> test_blocks" where
  "test_at b = \<lparr>hello_block = b, test2_block = b + 1, motd_block = b + 2, passwd_block = b + 3, www_index_block = b + 4,
     hello_zig_block = b + 5\<rparr>"

definition home_at :: "nat \<Rightarrow> home_blocks" where
  "home_at b = \<lparr>www_block = b, root_home_block = b + 1, home_block = b + 2, home_user_block = b + 3\<rparr>"

definition late_at :: "nat \<Rightarrow> late_blocks" where
  "late_at b = \<lparr>lost_found_block = b, testdir_block = b + 1, etc_block = b + 2\<rparr>"

definition tests_written :: "fixed_texts \<Rightarrow> nat \<Rightarrow> bytes \<Rightarrow> bool" where
  "tests_written d b im \<longleftrightarrow> log_at im [(b, hello_txt d)] \<and> log_at im [(b + 1, test2_txt d)] \<and> log_at im [(b + 2, motd_txt d)] \<and>
     log_at im [(b + 3, passwd_txt d)] \<and> log_at im [(b + 4, www_index_txt d)] \<and> log_at im [(b + 5, hello_zig_txt d)]"

definition homes_written :: "nat \<Rightarrow> bytes \<Rightarrow> bool" where
  "homes_written b im \<longleftrightarrow>
     read_directory im [b] = Some [(21, ''.'', FT_DIR), (2, ''..'', FT_DIR), (22, ''index.html'', FT_REG)] \<and>
     read_directory im [b + 1] = Some [(18, ''.'', FT_DIR), (2, ''..'', FT_DIR)] \<and>
     read_directory im [b + 2] = Some [(19, ''.'', FT_DIR), (2, ''..'', FT_DIR), (20, ''user'', FT_DIR)] \<and>
     read_directory im [b + 3] = Some [(20, ''.'', FT_DIR), (19, ''..'', FT_DIR)]"

definition lates_written :: "nat \<Rightarrow> bytes \<Rightarrow> bool" where
  "lates_written b im \<longleftrightarrow>
     read_directory im [b] = Some [(11, ''.'', FT_DIR), (2, ''..'', FT_DIR)] \<and>
     read_directory im [b + 1] = Some [(13, ''.'', FT_DIR), (2, ''..'', FT_DIR), (14, ''test2.txt'', FT_REG)] \<and>
     read_directory im [b + 2] =
       Some [(15, ''.'', FT_DIR), (2, ''..'', FT_DIR), (16, ''motd'', FT_REG), (17, ''passwd'', FT_REG)]"

definition text_ok :: "bytes \<Rightarrow> bool" where
  "text_ok d \<longleftrightarrow> 0 < length d \<and> length d \<le> BLOCK_SIZE"

definition texts_ok :: "fixed_texts \<Rightarrow> bool" where
  "texts_ok d \<longleftrightarrow> text_ok (hello_txt d) \<and> text_ok (test2_txt d) \<and> text_ok (motd_txt d) \<and> text_ok (passwd_txt d) \<and>
     text_ok (www_index_txt d) \<and> text_ok (hello_zig_txt d)"

lemmas small_dir_simps = small_dir_def entries_ok_def dirent_ok_def FT_DIR_def FT_REG_def is_ascii_def min_rec_len_def
  entry_names_def BLOCK_SIZE_def

context zone_source
begin

lemma phase_test_blocks:
  assumes "ready s" "nxt s + 6 \<le> limit s" "texts_ok d"
  shows "phase (put_test_blocks alloc d) s (test_at (nxt s)) {} (blk (zone s) 6) (tests_written d (nxt s))"
  unfolding collect_blocks
  by (rule phase_mono[OF phase_map[OF phase_put_blocks[OF assms(1)]]])
    (use assms(2) in simp, use assms(3) in \<open>simp add: texts_ok_def text_ok_def\<close>,
     simp_all add: test_at_def tests_written_def eval_nat_numeral)

lemma phase_home_blocks:
  assumes "ready s" "nxt s + 4 \<le> limit s"
  shows "phase (put_home_blocks alloc (fixed_at 12)) s (home_at (nxt s)) {} (blk (zone s) 4) (homes_written (nxt s))"
  unfolding collect_blocks
  by (rule phase_mono[OF phase_map[OF phase_put_dir_blocks[OF assms(1)]]])
    (use assms(2) in simp, simp add: small_dir_simps fixed_at_def, simp_all add: fixed_at_def home_at_def homes_written_def eval_nat_numeral)

lemma phase_late_blocks:
  assumes "ready s" "nxt s + 3 \<le> limit s"
  shows "phase (put_late_blocks alloc (fixed_at 12)) s (late_at (nxt s)) {} (blk (zone s) 3) (lates_written (nxt s))"
  unfolding collect_blocks
  by (rule phase_mono[OF phase_map[OF phase_put_dir_blocks[OF assms(1)]]])
    (use assms(2) in simp, simp add: small_dir_simps fixed_at_def, simp_all add: fixed_at_def late_at_def lates_written_def eval_nat_numeral)

lemma phase_inodes:
  assumes "ready s" and run: "p s = Inr (r, next_inode_update (\<lambda>n. n + k) s)"
  shows "phase p s r {} (Need 0 0 k) (\<lambda>_. True)"
proof -
  have r: "ready (next_inode_update (\<lambda>n. n + k) s) \<and> ctr (next_inode_update (\<lambda>n. n + k) s) = ctr s + Need 0 0 k" for k
  proof (induction k)
    case (Suc k)
    have "next_inode_update (\<lambda>n. n + Suc k) s = next_inode_update (\<lambda>n. n + 1) (next_inode_update (\<lambda>n. n + k) s)"
      by (simp add: comp_def)
    then show ?case
      using Suc ready_ino[of "next_inode_update (\<lambda>n. n + k) s"] ctr_ino[of "next_inode_update (\<lambda>n. n + k) s"]
      by (simp add: add.assoc comp_def)
  next
    case 0
    have eq: "next_inode_update (\<lambda>n. n + 0) s = s" by (cases s) simp
    show ?case unfolding eq using assms(1) by (simp add: zero_need_def[symmetric])
  qed
  show ?thesis
    unfolding phase_def using r[of k] run
    by (intro exI[of _ "next_inode_update (\<lambda>n. n + k) s"]) (auto simp: zone_other used_other)
qed

lemma phase_fixed_inodes:
  assumes "ready s" "next_inode s + 13 \<le> m + 1"
  shows "phase (alloc_fixed_inodes alloc_ino) s (fixed_at (next_inode s)) {} (Need 0 0 13) (\<lambda>_. True)"
proof (rule phase_inodes[OF assms(1)])
  have run: "alloc_ino t = Inr (next_inode t, next_inode_update (\<lambda>n. n + 1) t)" if "next_inode t \<le> m" for t
    using that by (rule alloc_ino)
  show "alloc_fixed_inodes alloc_ino s = Inr (fixed_at (next_inode s), next_inode_update (\<lambda>n. n + 13) s)"
    using assms(2) by (simp add: alloc_fixed_inodes_def py_bind_run run fixed_at_def comp_def)
qed

end

text \<open>What a reader finds of the fixed files and directories.\<close>

definition fixed_holds :: "fixed_texts \<Rightarrow> bytes \<Rightarrow> bool" where
  "fixed_holds d im \<longleftrightarrow>
     bm_file im 12 = (0x81A4, hello_txt d) \<and> bm_file im 14 = (0x81A4, test2_txt d) \<and> bm_file im 16 = (0x81A4, motd_txt d) \<and>
     bm_file im 17 = (0x81A4, passwd_txt d) \<and> bm_file im 22 = (0x81A4, www_index_txt d) \<and> bm_file im 24 = (0x81A4, hello_zig_txt d) \<and>
     bm_dir im 11 = Some [(11, ''.'', FT_DIR), (2, ''..'', FT_DIR)] \<and>
     bm_dir im 13 = Some [(13, ''.'', FT_DIR), (2, ''..'', FT_DIR), (14, ''test2.txt'', FT_REG)] \<and>
     bm_dir im 15 = Some [(15, ''.'', FT_DIR), (2, ''..'', FT_DIR), (16, ''motd'', FT_REG), (17, ''passwd'', FT_REG)] \<and>
     bm_dir im 18 = Some [(18, ''.'', FT_DIR), (2, ''..'', FT_DIR)] \<and>
     bm_dir im 19 = Some [(19, ''.'', FT_DIR), (2, ''..'', FT_DIR), (20, ''user'', FT_DIR)] \<and>
     bm_dir im 20 = Some [(20, ''.'', FT_DIR), (19, ''..'', FT_DIR)] \<and>
     bm_dir im 21 = Some [(21, ''.'', FT_DIR), (2, ''..'', FT_DIR), (22, ''index.html'', FT_REG)]"

lemma small_dir_readable:
  assumes "read_directory im [b] = Some es" and "inode_at im ino mode BLOCK_SIZE [b] None None" and "b < TOTAL_BLOCKS"
  shows "bm_dir im ino = Some es"
  by (rule dir_readable[of im b 1]) (use assms in simp_all)

lemma fixed_readable:
  assumes t: "tests_written d tb im" "texts_ok d" "tb + 6 \<le> TOTAL_BLOCKS" and h: "homes_written hb im" "hb + 4 \<le> TOTAL_BLOCKS"
    and l: "lates_written lb im" "lb + 3 \<le> TOTAL_BLOCKS"
    and r: "rows_at im (fixed_rows d (fixed_at 12) (test_at tb) (home_at hb) (late_at lb) tmp nlink)"
  shows "fixed_holds d im"
proof -
  have f: "bm_file im i = (m, x)" if "log_at im [(b, x)]" "inode_at im i m (length x) [b] None None" "text_ok x" "b < TOTAL_BLOCKS"
    for i m x b using that by (intro one_block_readable) (simp_all add: text_ok_def)
  have tt: "log_at im [(tb, hello_txt d)]" "log_at im [(tb + 1, test2_txt d)]" "log_at im [(tb + 2, motd_txt d)]"
    "log_at im [(tb + 3, passwd_txt d)]" "log_at im [(tb + 4, www_index_txt d)]" "log_at im [(tb + 5, hello_zig_txt d)]"
    using t(1) by (simp_all add: tests_written_def)
  note hh = h(1)[unfolded homes_written_def, THEN conjunct1] h(1)[unfolded homes_written_def, THEN conjunct2, THEN conjunct1]
    h(1)[unfolded homes_written_def, THEN conjunct2, THEN conjunct2, THEN conjunct1]
    h(1)[unfolded homes_written_def, THEN conjunct2, THEN conjunct2, THEN conjunct2]
  note ll = l(1)[unfolded lates_written_def, THEN conjunct1] l(1)[unfolded lates_written_def, THEN conjunct2, THEN conjunct1]
    l(1)[unfolded lates_written_def, THEN conjunct2, THEN conjunct2]
  have rr: "inode_at im 11 0x41C0 BLOCK_SIZE [lb] None None" "inode_at im 12 0x81A4 (length (hello_txt d)) [tb] None None"
    "inode_at im 13 0x41ED BLOCK_SIZE [lb + 1] None None" "inode_at im 14 0x81A4 (length (test2_txt d)) [tb + 1] None None"
    "inode_at im 15 0x41ED BLOCK_SIZE [lb + 2] None None" "inode_at im 16 0x81A4 (length (motd_txt d)) [tb + 2] None None"
    "inode_at im 17 0x81A4 (length (passwd_txt d)) [tb + 3] None None" "inode_at im 18 0x41C0 BLOCK_SIZE [hb + 1] None None"
    "inode_at im 19 0x41ED BLOCK_SIZE [hb + 2] None None" "inode_at im 20 0x41C0 BLOCK_SIZE [hb + 3] None None"
    "inode_at im 21 0x41ED BLOCK_SIZE [hb] None None" "inode_at im 22 0x81A4 (length (www_index_txt d)) [tb + 4] None None"
    "inode_at im 24 0x81A4 (length (hello_zig_txt d)) [tb + 5] None None"
    using r by (simp_all add: rows_at_def fixed_rows_def fixed_at_def test_at_def home_at_def late_at_def)
  show ?thesis
    unfolding fixed_holds_def
    by (intro conjI; (rule f | rule small_dir_readable);
      (rule tt hh ll)?; (rule rr)?; (use t h l in \<open>simp add: texts_ok_def\<close>)?)
qed

definition fixed_nodes_of :: "fixed_texts \<Rightarrow> host \<Rightarrow> (string \<times> host) list" where
  "fixed_nodes_of d tmp =
     [(''lost+found'', HDir (Some [])), (''hello.txt'', HFile (hello_txt d) False), (''hello.zig'', HFile (hello_zig_txt d) False),
      (''testdir'', HDir (Some [(''test2.txt'', HFile (test2_txt d) False)])),
      (''etc'', HDir (Some [(''motd'', HFile (motd_txt d) False), (''passwd'', HFile (passwd_txt d) False)])),
      (''root'', HDir (Some [])), (''home'', HDir (Some [(''user'', HDir (Some []))])),
      (''www'', HDir (Some [(''index.html'', HFile (www_index_txt d) False)])), (''tmp'', tmp)]"

end
