(* ===== verification/Triples.thy ===== *)
theory Triples
  imports Main23
begin

text \<open>
  Phases as triples over the counters: from counters \<open>c\<close> the statement runs, leaves counters \<open>c'\<close>
  and returns \<open>r\<close>.  In this form the statements of a \<^verbatim>\<open>main\<close> function compose with the block and
  inode numbers written out.
\<close>

section \<open>Binaries, scripts and the root directory\<close>

type_synonym bins_info = "nat option \<times> file_info option \<times> file_info list"

definition put_bin_dir :: "(dirent list \<Rightarrow> ('a core_scheme, nat list) py) \<Rightarrow> bins_info \<Rightarrow> ('a core_scheme, nat list) py" where
  "put_bin_dir write_dir = (\<lambda>(bin_ino, zsh, extra_bin_info).
     case bin_ino of None \<Rightarrow> py_ret [] | Some b \<Rightarrow> write_dir (bin_entries_list b zsh extra_bin_info))"

definition write_bins :: "int \<Rightarrow> bins_info \<Rightarrow> nat list \<Rightarrow> ('a core_scheme, unit) py" where
  "write_bins now = (\<lambda>(bin_ino, zsh, extra_bin_info) dir_blocks.
     case bin_ino of None \<Rightarrow> py_ret () | Some b \<Rightarrow> write_bin_inodes now b dir_blocks zsh extra_bin_info)"

text \<open>The entries of the root directory; \<open>swap\<close> is the swap file of \<^verbatim>\<open>make_ext2_img.py\<close>.\<close>

definition root_entries_list ::
  "fixed_inodes \<Rightarrow> dirent list \<Rightarrow> file_info list \<Rightarrow> nat option \<Rightarrow> nat option \<Rightarrow> dirent list" where
  "root_entries_list f swap script_info bin_ino zig_ino =
     [(2, ''.'', FT_DIR), (2, ''..'', FT_DIR), (11, ''lost+found'', FT_DIR),
      (hello_ino f, ''hello.txt'', FT_REG), (hello_zig_ino f, ''hello.zig'', FT_REG),
      (testdir_ino f, ''testdir'', FT_DIR), (etc_ino f, ''etc'', FT_DIR), (root_home_ino f, ''root'', FT_DIR),
      (home_ino f, ''home'', FT_DIR), (www_ino f, ''www'', FT_DIR), (tmp_ino f, ''tmp'', FT_DIR)] @ swap @
     map info_entry script_info @ opt_dir bin_ino ''bin'' @ opt_dir zig_ino ''zig''"

definition root_nlink :: "nat option \<Rightarrow> nat option \<Rightarrow> int" where
  "root_nlink bin_ino zig_ino = 9 + (if bin_ino \<noteq> None then 1 else 0) + (if zig_ino \<noteq> None then 1 else 0)"

text \<open>What the binaries leave behind when they start at inode \<open>i\<close> and block \<open>nb\<close>.\<close>

definition shell_file :: "bytes option \<Rightarrow> (string \<times> bytes) list" where
  "shell_file shell = (if has_shell shell then [(''zsh'', the shell)] else [])"

definition bins_at :: "nat \<Rightarrow> nat \<Rightarrow> bytes option \<Rightarrow> (string \<times> bytes) list \<Rightarrow> bins_info" where
  "bins_at i nb shell bins =
     (if has_bin shell bins
      then (Some i, if has_shell shell then Some (info_of (i + 1) nb (''zsh'', the shell)) else None,
            infos (i + 1 + length (shell_file shell)) (nb + files_blocks bm_span (shell_file shell)) (sort_key fst bins))
      else (None, None, []))"

lemma bins_at_ino: "fst (bins_at i nb shell bins) = (if has_bin shell bins then Some i else None)"
  by (simp add: bins_at_def)

lemma info_entry_of: "info_entry (info_of i nb f) = (i, fst f, FT_REG)"
  by (simp add: info_entry_def info_of_def Let_def)

lemma bins_at_entries:
  "has_bin shell bins \<Longrightarrow>
   (case bins_at i nb shell bins of (b, z, x) \<Rightarrow> bin_entries_list (the b) z x) = bin_entries i shell bins"
  by (auto simp: bins_at_def bin_entries_list_def bin_entries_def bin_files_def shell_file_def infos_entries info_entry_of)

section \<open>Triples\<close>

context zone_source
begin

definition triple :: "bool \<Rightarrow> need \<Rightarrow> ('a core_scheme, 'r) py \<Rightarrow> 'r \<Rightarrow> nat set \<Rightarrow> need \<Rightarrow> (bytes \<Rightarrow> bool) \<Rightarrow> bool" where
  "triple z c p r J c' P \<longleftrightarrow> (\<forall>s. ready s \<longrightarrow> zone s = z \<longrightarrow> ctr s = c \<longrightarrow> (\<exists>d. c' = c + d \<and> phase p s r J d P))"

lemma triple_intro:
  "(\<And>s. ready s \<Longrightarrow> zone s = z \<Longrightarrow> ctr s = c \<Longrightarrow> phase p s r J d P) \<Longrightarrow> c' = c + d \<Longrightarrow> triple z c p r J c' P"
  by (auto simp: triple_def)

lemma triple_bind:
  assumes "triple z c p r J c' P" and "triple z c' (f r) r' K c'' Q" and "J \<inter> K = {}"
  shows "triple z c (py_bind p f) r' (J \<union> K) c'' (\<lambda>im. P im \<and> Q im)"
  unfolding triple_def
proof (intro allI impI)
  fix s assume s: "ready s" "zone s = z" "ctr s = c"
  obtain d where d: "c' = c + d" "phase p s r J d P" using assms(1) s by (auto simp: triple_def)
  obtain t where t: "ready t" "zone t = z" "ctr t = c'" using d s by (auto simp: phase_def)
  obtain e where e: "c'' = c' + e" using assms(2) t by (auto simp: triple_def)
  have cancel: "x = y" if "c' + x = c' + y" for x y :: need using that by (cases c'; cases x; cases y) auto
  have "phase (f r) t r' K e Q" if "ready t" "zone t = zone s" "ctr t = ctr s + d" for t
    using assms(2) that s d e cancel by (auto simp: triple_def)
  then have "phase (py_bind p f) s r' (J \<union> K) (d + e) (\<lambda>im. P im \<and> Q im)" by (rule phase_bind[OF d(2) _ assms(3)])
  then show "\<exists>d. c'' = c + d \<and> phase (py_bind p f) s r' (J \<union> K) d (\<lambda>im. P im \<and> Q im)"
    using d(1) e by (intro exI[of _ "d + e"]) (simp add: add.assoc)
qed

lemma triple_seq:
  assumes "triple z c p () J c' P" and "triple z c' k r' K c'' Q" and "J \<inter> K = {}"
  shows "triple z c (py_seq p k) r' (J \<union> K) c'' (\<lambda>im. P im \<and> Q im)"
  unfolding py_seq_def using assms by (rule triple_bind)

lemma triple_ret: "triple z c (py_ret r) r {} c (\<lambda>_. True)"
  by (rule triple_intro[OF phase_ret]) simp_all

lemma triple_mono:
  "triple z c p r J c' P \<Longrightarrow> r = r' \<Longrightarrow> J = J' \<Longrightarrow> c' = c'' \<Longrightarrow> (\<And>im. P im \<Longrightarrow> Q im) \<Longrightarrow> triple z c p r' J' c'' Q"
proof -
  assume t: "triple z c p r J c' P" and e: "r = r'" "J = J'" "c' = c''" and q: "\<And>im. P im \<Longrightarrow> Q im"
  have "phase p s r' J' d Q" if "phase p s r J d P" for s d by (rule phase_mono[OF that e(1,2) refl q])
  with t e(3) show ?thesis unfolding triple_def by fast
qed

lemma low_ctr: "zone s = False \<Longrightarrow> ctr s = Need nb hb ni \<Longrightarrow> nxt s = nb \<and> next_inode s = ni \<and> limit s = lim False"
  by (simp add: nxt_ctr ino_ctr limit_zone)

lemma triple_low:
  assumes "\<And>s. ready s \<Longrightarrow> nxt s = nb \<Longrightarrow> next_inode s = ni \<Longrightarrow> limit s = lim False \<Longrightarrow>
      phase p s r J (Need 0 0 i + blk (zone s) n) P"
  shows "triple False (Need nb hb ni) p r J (Need (nb + n) hb (ni + i)) P"
proof (rule triple_intro[where d = "Need 0 0 i + blk False n"])
  fix s assume s: "ready s" "zone s = False" "ctr s = Need nb hb ni"
  show "phase p s r J (Need 0 0 i + blk False n) P" using assms[OF s(1)] low_ctr[OF s(2,3)] s(2) by simp
qed (simp add: blk_def)

lemma need_parts: "Need 0 0 0 + x = x" "x + blk z 0 = x" "blk z 0 + x = x"
  by (simp_all add: zero_need_def[symmetric] blk_add)

lemma triple_fixed_inodes:
  "ni + 13 \<le> m + 1 \<Longrightarrow>
   triple False (Need nb hb ni) (alloc_fixed_inodes alloc_ino) (fixed_at ni) {} (Need (nb + 0) hb (ni + 13)) (\<lambda>_. True)"
  by (rule triple_low) (use phase_fixed_inodes in \<open>auto simp: need_parts\<close>)

lemma triple_alloc_ino:
  "ni \<le> m \<Longrightarrow> triple False (Need nb hb ni) alloc_ino ni {} (Need (nb + 0) hb (ni + 1)) (\<lambda>_. True)"
  by (rule triple_low) (use phase_alloc_ino in \<open>auto simp: need_parts\<close>)

lemma triple_test_blocks:
  "nb + 6 \<le> lim False \<Longrightarrow> texts_ok d \<Longrightarrow>
   triple False (Need nb hb ni) (put_test_blocks alloc d) (test_at nb) {} (Need (nb + 6) hb (ni + 0)) (tests_written d nb)"
  by (rule triple_low) (use phase_test_blocks in \<open>auto simp: need_parts\<close>)

lemma triple_home_blocks:
  "nb + 4 \<le> lim False \<Longrightarrow>
   triple False (Need nb hb ni) (put_home_blocks alloc (fixed_at 12)) (home_at nb) {} (Need (nb + 4) hb (ni + 0)) (homes_written nb)"
  by (rule triple_low) (use phase_home_blocks in \<open>auto simp: need_parts\<close>)

lemma triple_late_blocks:
  "nb + 3 \<le> lim False \<Longrightarrow>
   triple False (Need nb hb ni) (put_late_blocks alloc (fixed_at 12)) (late_at nb) {} (Need (nb + 3) hb (ni + 0)) (lates_written nb)"
  by (rule triple_low) (use phase_late_blocks in \<open>auto simp: need_parts\<close>)

lemma triple_dir_block:
  "nb + 1 \<le> lim False \<Longrightarrow> small_dir es \<Longrightarrow>
   triple False (Need nb hb ni) (put_dir_block alloc es) nb {} (Need (nb + 1) hb (ni + 0)) (\<lambda>im. read_directory im [nb] = Some es)"
  by (rule triple_low) (use phase_put_dir_block[where es = es] in \<open>auto simp: need_parts small_dir_def\<close>)

lemma triple_write_dir:
  "nb + names_span (entry_names es) \<le> lim False \<Longrightarrow> entries_ok es \<Longrightarrow> names_fit gap_ok (entry_names es) \<Longrightarrow>
   triple False (Need nb hb ni) (write_dir_blocks pad alloc es) [nb..<nb + names_span (entry_names es)] {}
     (Need (nb + names_span (entry_names es)) hb (ni + 0))
     (\<lambda>im. read_directory im [nb..<nb + names_span (entry_names es)] = Some es)"
  by (rule triple_low) (use phase_write_dir[where es = es] in \<open>auto simp: need_parts\<close>)

lemma triple_put_files:
  "nb + files_blocks bm_span (sort_key fst fs) \<le> lim False \<Longrightarrow> ni + length (sort_key fst fs) \<le> m + 1 \<Longrightarrow>
   triple False (Need nb hb ni) (put_files alloc alloc_ino fs) (infos ni nb (sort_key fst fs)) {}
     (Need (nb + files_blocks bm_span (sort_key fst fs)) hb (ni + length (sort_key fst fs)))
     (\<lambda>im. infos_data im nb (sort_key fst fs))"
  unfolding put_files_def by (rule triple_low) (use phase_put_each[of _ "sort_key fst fs"] in auto)

lemma triple_same:
  assumes "\<And>s. ready s \<Longrightarrow> phase p s r J 0 P"
  shows "triple z c p r J c P"
  by (rule triple_intro[OF assms]) simp_all

end


section \<open>Binaries\<close>

text \<open>\<open>zone\<close> wraps the statements that \<^verbatim>\<open>make_ext2_img.py\<close> runs in the overflow zone.\<close>

definition put_binaries ::
  "(('a core_scheme, file_info option \<times> file_info list) py \<Rightarrow> ('a core_scheme, file_info option \<times> file_info list) py) \<Rightarrow>
   ('a core_scheme, nat) py \<Rightarrow> ('a core_scheme, nat) py \<Rightarrow> bytes option \<Rightarrow> (string \<times> bytes) list \<Rightarrow>
   ('a core_scheme, bins_info) py" where
  "put_binaries zone alloc alloc_inode shell extra_bins =
     (if has_bin shell extra_bins then
        py_bind alloc_inode (\<lambda>bin_ino.
        py_bind (zone (put_bin_files alloc alloc_inode shell extra_bins)) (\<lambda>(zsh, extra_bin_info).
        py_ret (Some bin_ino, zsh, extra_bin_info)))
      else py_ret (None, None, []))"

lemma bin_inodes_yes: "has_bin shell bins \<Longrightarrow> bin_inodes shell bins = 1 + length (bin_files shell bins)"
  by (simp add: bin_inodes_def)

lemma no_bin_blocks: "\<not> has_bin shell bins \<Longrightarrow> files_blocks span (bin_files shell bins) = 0"
  by (simp add: no_bin files_blocks_def)

context zone_source
begin

lemma triple_map:
  assumes "triple z c p r J c' P"
  shows "triple z c (py_bind p (\<lambda>x. py_ret (g x))) (g r) J c' P"
proof -
  have "triple z c (py_bind p (\<lambda>x. py_ret (g x))) (g r) (J \<union> {}) c' (\<lambda>im. P im \<and> True)"
    by (rule triple_bind[OF assms], rule triple_ret, simp)
  then show ?thesis by simp
qed

text \<open>The statements that run in the zone of the blocks \<open>nb\<close>, \<open>nb'\<close>.\<close>

lemma triple_binaries:
  assumes wrap: "triple False (Need nb hb (ni + 1)) (w (put_bin_files alloc alloc_ino shell bins)) (zs, xs) {}
      (Need nb' hb' (ni + 1 + length (bin_files shell bins))) (\<lambda>im. infos_data im b (bin_files shell bins))"
    and r: "has_bin shell bins \<Longrightarrow> bins_at ni b shell bins = (Some ni, zs, xs)"
    and no: "\<not> has_bin shell bins \<Longrightarrow> nb' = nb \<and> hb' = hb" and ni: "ni + bin_inodes shell bins \<le> m + 1"
  shows "triple False (Need nb hb ni) (put_binaries w alloc alloc_ino shell bins) (bins_at ni b shell bins) {}
    (Need nb' hb' (ni + bin_inodes shell bins)) (\<lambda>im. infos_data im b (bin_files shell bins))"
proof (cases "has_bin shell bins")
  case True
  have le: "ni \<le> m" using ni True by (simp add: bin_inodes_def)
  have a: "triple False (Need nb hb ni) alloc_ino ni {} (Need nb hb (ni + 1)) (\<lambda>_. True)"
    using triple_alloc_ino[OF le, of nb hb] by simp
  have b: "triple False (Need nb hb (ni + 1)) (py_bind (w (put_bin_files alloc alloc_ino shell bins)) (\<lambda>(zsh, extra). py_ret (Some ni, zsh, extra)))
      (Some ni, zs, xs) {} (Need nb' hb' (ni + 1 + length (bin_files shell bins))) (\<lambda>im. infos_data im b (bin_files shell bins))"
    using triple_map[OF wrap, of "\<lambda>(zsh, extra). (Some ni, zsh, extra)"] by (simp add: case_prod_unfold del: py_ret_run)
  have "triple False (Need nb hb ni) (put_binaries w alloc alloc_ino shell bins) (Some ni, zs, xs) ({} \<union> {})
      (Need nb' hb' (ni + 1 + length (bin_files shell bins))) (\<lambda>im. True \<and> infos_data im b (bin_files shell bins))"
    unfolding put_binaries_def using True by (simp only: if_True) (rule triple_bind[OF a], rule b, simp)
  then show ?thesis using True r by (simp add: bin_inodes_yes)
next
  case False
  then show ?thesis
    using triple_ret[of False "Need nb hb ni" "(None, None, [])"] no
    by (simp add: put_binaries_def bins_at_def bin_inodes_def no_bin del: py_ret_run)
qed

lemma triple_put_bin_files:
  assumes "nb + files_blocks bm_span (bin_files shell bins) \<le> lim False" "ni + length (bin_files shell bins) \<le> m + 1"
  shows "triple False (Need nb hb ni) (put_bin_files alloc alloc_ino shell bins)
    (if has_shell shell then Some (info_of ni nb (''zsh'', the shell)) else None,
     infos (ni + length (shell_file shell)) (nb + files_blocks bm_span (shell_file shell)) (sort_key fst bins)) {}
    (Need (nb + files_blocks bm_span (bin_files shell bins)) hb (ni + length (bin_files shell bins)))
    (\<lambda>im. infos_data im nb (bin_files shell bins))"
  by (rule triple_low) (use phase_put_bin_files[where shell = shell and bins = bins] assms in \<open>auto simp: shell_file_def\<close>)

text \<open>The same in the other zone.\<close>

lemma triple_high:
  assumes "\<And>s. ready s \<Longrightarrow> nxt s = hb \<Longrightarrow> next_inode s = ni \<Longrightarrow> limit s = lim True \<Longrightarrow>
      phase p s r J (Need 0 0 i + blk (zone s) n) P"
  shows "triple True (Need nb hb ni) p r J (Need nb (hb + n) (ni + i)) P"
proof (rule triple_intro[where d = "Need 0 0 i + blk True n"])
  fix s assume s: "ready s" "zone s = True" "ctr s = Need nb hb ni"
  have "nxt s = hb" "next_inode s = ni" "limit s = lim True" using s by (simp_all add: nxt_ctr ino_ctr limit_zone)
  then show "phase p s r J (Need 0 0 i + blk True n) P" using assms[OF s(1)] s(2) by simp
qed (simp add: blk_def)

lemma triple_bin_files_high:
  assumes "hb + files_blocks bm_span (bin_files shell bins) \<le> lim True" "ni + length (bin_files shell bins) \<le> m + 1"
  shows "triple True (Need nb hb ni) (put_bin_files alloc alloc_ino shell bins)
    (if has_shell shell then Some (info_of ni hb (''zsh'', the shell)) else None,
     infos (ni + length (shell_file shell)) (hb + files_blocks bm_span (shell_file shell)) (sort_key fst bins)) {}
    (Need nb (hb + files_blocks bm_span (bin_files shell bins)) (ni + length (bin_files shell bins)))
    (\<lambda>im. infos_data im hb (bin_files shell bins))"
  by (rule triple_high) (use phase_put_bin_files[where shell = shell and bins = bins] assms in \<open>auto simp: shell_file_def\<close>)

lemma triple_put_file:
  fixes f :: "string \<times> bytes"
  assumes "nb + bm_span (snd f) \<le> lim False" "ni \<le> m"
  shows "triple False (Need nb hb ni) (put_file alloc alloc_ino f) (info_of ni nb f) {} (Need (nb + bm_span (snd f)) hb (ni + 1))
    (\<lambda>im. log_at im (file_log nb (snd f)))"
  by (rule triple_low) (use phase_put_file[where f = f] assms in auto)

lemma triple_binaries_low:
  assumes "nb + files_blocks bm_span (bin_files shell bins) \<le> lim False" "ni + bin_inodes shell bins \<le> m + 1"
  shows "triple False (Need nb hb ni) (put_binaries (\<lambda>p. p) alloc alloc_ino shell bins) (bins_at ni nb shell bins) {}
    (Need (nb + files_blocks bm_span (bin_files shell bins)) hb (ni + bin_inodes shell bins))
    (\<lambda>im. infos_data im nb (bin_files shell bins))"
proof (cases "has_bin shell bins")
  case True
  have le: "ni + 1 + length (bin_files shell bins) \<le> m + 1" using assms(2) True by (simp add: bin_inodes_yes)
  show ?thesis
    by (rule triple_binaries[where w = "\<lambda>p. p", OF triple_put_bin_files[OF assms(1) le] _ _ assms(2)])
      (use True in \<open>simp_all add: bins_at_def\<close>)
next
  case False
  then show ?thesis
    using triple_ret[of False "Need nb hb ni" "(None, None, [])"]
    by (simp add: put_binaries_def bins_at_def bin_inodes_def no_bin files_blocks_def del: py_ret_run)
qed

lemma triple_bin_dir:
  assumes "nb + bin_dir_blocks shell bins \<le> lim False" "files_ok (bin_files shell bins)" "1 \<le> i" "i + bin_inodes shell bins \<le> 2 ^ 32"
    "has_bin shell bins \<Longrightarrow> names_fit gap_ok (bin_names shell bins)"
  shows "triple False (Need nb hb ni) (put_bin_dir (write_dir_blocks pad alloc) (bins_at i b shell bins)) [nb..<nb + bin_dir_blocks shell bins] {}
    (Need (nb + bin_dir_blocks shell bins) hb (ni + 0))
    (\<lambda>im. has_bin shell bins \<longrightarrow> read_directory im [nb..<nb + bin_dir_blocks shell bins] = Some (bin_entries i shell bins))"
proof (cases "has_bin shell bins")
  case True
  have "i + 1 + length (bin_files shell bins) \<le> 2 ^ 32" using assms(4) True by (simp add: bin_inodes_yes)
  note ok = bin_entries_ok[OF assms(2,3) this]
  have "put_bin_dir (write_dir_blocks pad alloc) (bins_at i b shell bins) = write_dir_blocks pad alloc (bin_entries i shell bins)"
    using bins_at_entries[OF True, of i b] True by (simp add: put_bin_dir_def bins_at_def)
  with triple_write_dir[of nb "bin_entries i shell bins" hb ni] ok assms(1,5) True show ?thesis
    by (simp add: bin_dir_blocks_def)
next
  case False
  then show ?thesis
    using triple_ret[of False "Need nb hb ni" "[]"] by (simp add: put_bin_dir_def bins_at_def bin_dir_blocks_def del: py_ret_run)
qed

text \<open>The inodes.\<close>

lemma triple_rows:
  assumes "list_all row_ok rows" "list_all (\<lambda>r. fst r \<le> m) rows" "distinct (map fst rows)" "clock_ok now"
  shows "triple z c (py_each (write_row now) rows) () (set (map fst rows)) c (\<lambda>im. rows_at im rows)"
  by (rule triple_same, rule phase_rows) (use assms in \<open>simp_all add: clock_ok_def\<close>)

lemma triple_file_inodes:
  assumes "1 \<le> i" "i + length fs \<le> m + 1" "nb + files_blocks bm_span fs \<le> TOTAL_BLOCKS" "files_ok fs" "clock_ok now"
  shows "triple z c (py_each (write_file_inode now (file_mode x)) (infos i nb fs)) () {i..<i + length fs} c
    (\<lambda>im. infos_inodes im (file_mode x) i nb fs)"
  by (rule triple_same, rule phase_file_inodes) (use assms in \<open>simp_all add: clock_ok_def file_mode_def\<close>)

lemma triple_dir_inode:
  assumes "1 \<le> i" "i \<le> m" "k \<le> 12" "nb + k \<le> TOTAL_BLOCKS" "0 \<le> nlink" "nlink < 2 ^ 16" "clock_ok now"
  shows "triple z c (write_dir_inode now i [nb..<nb + k] nlink) () {i} c
    (\<lambda>im. inode_at im i 0x41ED (k * BLOCK_SIZE) [nb..<nb + k] None None)"
  by (rule triple_same, rule phase_dir_inode) (use assms in \<open>simp_all add: clock_ok_def\<close>)

lemma triple_write_bins:
  assumes "1 \<le> i" "i + bin_inodes shell bins \<le> m + 1" "b + files_blocks bm_span (bin_files shell bins) \<le> TOTAL_BLOCKS"
    "files_ok (bin_files shell bins)" "bin_dir_blocks shell bins \<le> 12" "db + bin_dir_blocks shell bins \<le> TOTAL_BLOCKS" "clock_ok now"
  shows "triple z c (write_bins now (bins_at i b shell bins) [db..<db + bin_dir_blocks shell bins]) () {i..<i + bin_inodes shell bins} c
    (\<lambda>im. has_bin shell bins \<longrightarrow>
       inode_at im i 0x41ED (bin_dir_blocks shell bins * BLOCK_SIZE) [db..<db + bin_dir_blocks shell bins] None None \<and>
       infos_inodes im (file_mode True) (i + 1) b (bin_files shell bins))"
proof (cases "has_bin shell bins")
  case True
  let ?k = "bin_dir_blocks shell bins"
  have le: "i + 1 + length (bin_files shell bins) \<le> m + 1" using assms(2) True by (simp add: bin_inodes_yes)
  have "phase (write_bins now (bins_at i b shell bins) [db..<db + ?k]) s () {i..<i + bin_inodes shell bins} 0
      (\<lambda>im. has_bin shell bins \<longrightarrow> inode_at im i 0x41ED (?k * BLOCK_SIZE) [db..<db + ?k] None None \<and>
         infos_inodes im (file_mode True) (i + 1) b (bin_files shell bins))" if "ready s" for s
    using phase_bin_inodes[OF that assms(1) le assms(3,4,5,6), of now] assms(7) True
    by (simp add: write_bins_def bins_at_def shell_file_def bin_inodes_yes clock_ok_def)
  then show ?thesis by (rule triple_same)
next
  case False
  then show ?thesis
    using triple_ret[of z c "()"] by (simp add: write_bins_def bins_at_def bin_inodes_def del: py_ret_run)
qed

end

text \<open>What a reader finds of \<^verbatim>\<open>/bin\<close>.\<close>

lemma bins_readable:
  assumes "has_bin shell bins" "infos_data im b (bin_files shell bins)" "b + files_blocks bm_span (bin_files shell bins) \<le> TOTAL_BLOCKS"
    and "read_directory im [db..<db + k] = Some (bin_entries i shell bins)" "k \<le> 12" "db + k \<le> TOTAL_BLOCKS"
    and "inode_at im i 0x41ED (k * BLOCK_SIZE) [db..<db + k] None None \<and>
       infos_inodes im (file_mode True) (i + 1) b (bin_files shell bins)"
  shows "files_at (bm_file im) True (i + 1) (bin_files shell bins) \<and> bm_dir im i = Some (bin_entries i shell bins)"
  using infos_readable[OF assms(2) _ assms(3), of True] dir_readable[OF assms(4-6)] assms(7) by blast

end
