(* ===== verification/Root23.thy ===== *)
theory Root23
  imports Triples
begin

text \<open>
  The root directory of \<^verbatim>\<open>make_ext2_img.py\<close> and \<^verbatim>\<open>make_ext3_img.py\<close>: its entries are well
  formed, and what they lead to is the tree that the scripts mean to build.
\<close>

abbreviation shell_of :: "'a image_args_scheme \<Rightarrow> bytes option" where
  "shell_of a \<equiv> shell_binary a"

abbreviation has_bin_of :: "'a image_args_scheme \<Rightarrow> bool" where
  "has_bin_of a \<equiv> has_bin (shell_binary a) (bins_of a)"

abbreviation bin_files_of :: "'a image_args_scheme \<Rightarrow> (string \<times> bytes) list" where
  "bin_files_of a \<equiv> bin_files (shell_binary a) (bins_of a)"

text \<open>\<open>i\<close> is the inode number of \<^verbatim>\<open>/bin\<close>, \<open>swap\<close> the entry of a swap file.\<close>

definition root_entries_of :: "nat \<Rightarrow> dirent list \<Rightarrow> 'a image_args_scheme \<Rightarrow> dirent list" where
  "root_entries_of i swap a = root_entries_list (fixed_at 12) swap (infos (scripts_ino i a) 0 (scripts_of a))
     (if has_bin_of a then Some i else None) (opt_ino (zig_ino_of i a) (zig_tree a))"

definition root_names_of :: "string list \<Rightarrow> 'a image_args_scheme \<Rightarrow> string list" where
  "root_names_of swap a =
     [''.'', ''..'', ''lost+found'', ''hello.txt'', ''hello.zig'', ''testdir'', ''etc'', ''root'', ''home'', ''www'', ''tmp''] @
     swap @ map fst (scripts_of a) @ (if has_bin_of a then [''bin''] else []) @ (if zig_tree a \<noteq> None then [''zig''] else [])"

lemma root_entries_run:
  "root_entries_list (fixed_at 12) swap (infos (scripts_ino i a) nb (scripts_of a)) (fst (bins_at i nb' (shell_binary a) (bins_of a)))
     (opt_ino (zig_ino_of i a) (zig_tree a)) = root_entries_of i swap a"
  by (simp add: root_entries_of_def root_entries_list_def infos_entries bins_at_ino)

lemma root_entries_eq23:
  "root_entries_of i swap a =
     [(2, ''.'', FT_DIR), (2, ''..'', FT_DIR), (11, ''lost+found'', FT_DIR), (12, ''hello.txt'', FT_REG), (24, ''hello.zig'', FT_REG),
      (13, ''testdir'', FT_DIR), (15, ''etc'', FT_DIR), (18, ''root'', FT_DIR), (19, ''home'', FT_DIR), (21, ''www'', FT_DIR),
      (23, ''tmp'', FT_DIR)] @ swap @ file_entries (scripts_ino i a) (scripts_of a) @
     (if has_bin_of a then [(i, ''bin'', FT_DIR)] else []) @ (if zig_tree a \<noteq> None then [(zig_ino_of i a, ''zig'', FT_DIR)] else [])"
  by (simp add: root_entries_of_def root_entries_list_def infos_entries fixed_at_def opt_dir_def opt_ino_def)

lemma root_entries_ok23:
  assumes "files_ok (scripts_of a)" "zig_ino_of i a < 2 ^ 32" "entries_ok swap" "1 \<le> i"
  shows "entries_ok (root_entries_of i swap a)" and "entry_names (root_entries_of i swap a) = root_names_of (entry_names swap) a"
proof -
  have "i \<le> scripts_ino i a" "scripts_ino i a \<le> zig_ino_of i a" by (simp_all add: scripts_ino_def zig_ino_of_def)
  moreover have "entries_ok (file_entries (scripts_ino i a) (scripts_of a))"
    using assms by (intro file_entries_ok) (simp_all add: zig_ino_of_def scripts_ino_def)
  ultimately show "entries_ok (root_entries_of i swap a)"
    using assms(2-4) unfolding root_entries_eq23 by (auto simp: entries_ok_def dirent_ok_def FT_DIR_def FT_REG_def is_ascii_def)
  show "entry_names (root_entries_of i swap a) = root_names_of (entry_names swap) a"
    using file_entries_names[of "scripts_ino i a" "scripts_of a"] by (simp add: root_entries_eq23 root_names_of_def entry_names_def)
qed

lemma fixed_row_inodes: "set (map fst (fixed_rows d (fixed_at 12) tb hb lb tmp n)) = {11..<25}"
proof -
  have "set (map fst (fixed_rows d (fixed_at 12) tb hb lb tmp n)) = set [11..<25]"
    by (simp add: fixed_rows_def fixed_at_def upt_rec del: set_upt)
  then show ?thesis by (simp only: set_upt)
qed

text \<open>The tree.\<close>

definition image_tree_of :: "fixed_texts \<Rightarrow> host \<Rightarrow> (string \<times> host) list \<Rightarrow> 'a image_args_scheme \<Rightarrow> host" where
  "image_tree_of d tmp swap a = HDir (Some (fixed_nodes_of d tmp @ swap @ file_nodes False (scripts_of a) @
     (if has_bin_of a then [(''bin'', HDir (Some (file_nodes True (bin_files_of a))))] else []) @
     (if zig_tree a \<noteq> None then [(''zig'', prune (tree_node (zig_tree a)))] else [])))"

lemma root_readable:
  assumes f: "fixed_holds d im" and r: "bm_dir im 2 = Some (root_entries_of i swap a)" and n: "n = Suc (Suc k)"
    and tmp: "read_node bm_file bm_dir n im 2 (23, ''tmp'', FT_DIR) = Some tmp_node"
    and sw: "map (read_node bm_file bm_dir n im 2) swap = map (\<lambda>c. Some (snd c)) swap_nodes" "entry_names swap = map fst swap_nodes"
    and sc: "files_at (bm_file im) False (scripts_ino i a) (scripts_of a)"
    and bin: "has_bin_of a \<Longrightarrow> files_at (bm_file im) True (i + 1) (bin_files_of a) \<and> bm_dir im i = Some (bin_entries i (shell_of a) (bins_of a))"
    and zig: "opt_read bm_file bm_dir im ''zig'' (zig_ino_of i a) (zig_tree a)" "zig_tree a \<noteq> None \<Longrightarrow> node_height (tree_node (zig_tree a)) \<le> n"
  shows "read_node bm_file bm_dir (Suc n) im 2 (2, name, FT_DIR) = Some (image_tree_of d tmp_node swap_nodes a)"
proof -
  let ?R = "read_node bm_file bm_dir n im 2"
  have fx: "map ?R [(11, ''lost+found'', FT_DIR), (12, ''hello.txt'', FT_REG), (24, ''hello.zig'', FT_REG), (13, ''testdir'', FT_DIR),
      (15, ''etc'', FT_DIR), (18, ''root'', FT_DIR), (19, ''home'', FT_DIR), (21, ''www'', FT_DIR)] =
      map (\<lambda>c. Some (snd c)) (take 8 (fixed_nodes_of d tmp_node))"
    using f by (simp add: n fixed_holds_def fixed_nodes_of_def FT_DIR_def FT_REG_def file_mode_def)
  have scr: "map ?R (file_entries (scripts_ino i a) (scripts_of a)) = map (\<lambda>c. Some (snd c)) (file_nodes False (scripts_of a))"
    using files_at_read[of bm_file im, OF sc] by (simp add: n file_nodes_def comp_def)
  have b: "?R (i, ''bin'', FT_DIR) = Some (HDir (Some (file_nodes True (bin_files_of a))))" if "has_bin_of a"
    unfolding n
  proof (rule read_dir)
    show "bm_dir im i = Some ([(i, ''.'', FT_DIR), (2, ''..'', FT_DIR)] @ file_entries (i + 1) (bin_files_of a))"
      using bin[OF that] by (simp add: bin_entries_def)
  qed (use bin[OF that] files_at_read[of bm_file im] in \<open>simp_all add: file_nodes_def comp_def file_entries_names\<close>)
  have z: "?R (zig_ino_of i a, ''zig'', FT_DIR) = Some (prune (tree_node (zig_tree a)))" if "zig_tree a \<noteq> None"
    using zig that by (simp add: opt_read_def)
  let ?cs = "fixed_nodes_of d tmp_node @ swap_nodes @ file_nodes False (scripts_of a) @
     (if has_bin_of a then [(''bin'', HDir (Some (file_nodes True (bin_files_of a))))] else []) @
     (if zig_tree a \<noteq> None then [(''zig'', prune (tree_node (zig_tree a)))] else [])"
  show ?thesis
    unfolding image_tree_of_def
  proof (rule read_dir)
    show "bm_dir im 2 = Some ([(2, ''.'', FT_DIR), (2, ''..'', FT_DIR)] @ drop 2 (root_entries_of i swap a))"
      using r by (simp add: root_entries_eq23)
    show "map ?R (drop 2 (root_entries_of i swap a)) = map (\<lambda>c. Some (snd c)) ?cs"
      using fx tmp sw(1) scr b z by (simp add: root_entries_eq23 fixed_nodes_of_def del: read_node.simps)
    show "entry_names (drop 2 (root_entries_of i swap a)) = map fst ?cs"
      using file_entries_names[of "scripts_ino i a" "scripts_of a"] sw(2)
      by (simp add: root_entries_eq23 fixed_nodes_of_def file_nodes_def entry_names_def comp_def)
  qed
qed


section \<open>Sample arguments\<close>

text \<open>A shell, one more binary beside a directory that is skipped, no scripts, and a small host tree.\<close>

definition sample_args :: image_args where
  "sample_args = \<lparr>shell_binary = Some [0x7F], bins_listing = [(''ls'', Some [1, 2]), (''doc'', None)], scripts_listing = [],
     zig_tree = Some (Some [(''lib'', HFile [3] False)])\<rparr>"

lemma sample_parts:
  "bins_of sample_args = [(''ls'', [1, 2])]" "scripts_of sample_args = []" "shell_binary sample_args = Some [0x7F]"
  "zig_tree sample_args = Some (Some [(''lib'', HFile [3] False)])"
  by (simp_all add: sample_args_def scripts_of_def read_files_def)

lemma sample_bins:
  "bin_files (Some [0x7F]) [(''ls'', [1 :: byte, 2])] = [(''zsh'', [0x7F]), (''ls'', [1, 2])]"
  "has_bin (Some [0x7F]) [(''ls'', [1 :: byte, 2])]"
  by (simp_all add: bin_files_def has_shell_def has_bin_def)

lemma sample_zig_children: "children (HDir (Some [(''lib'', HFile [3] False)])) = [(''lib'', HFile [3] False)]"
  by (simp add: children_def visible_def)

lemma sample_spans: "bm_span [0x7F] = 1" "bm_span [1, 2] = 1" "bm_span [3] = 1"
  by (rule one_block_file(3); simp add: layout)+

lemmas sample_facts = sample_parts sample_bins sample_zig_children sample_spans root_names_of_def

lemmas sample_layout = zig_ino_of_def scripts_ino_def bin_inodes_def opt_inodes_def files_blocks_def opt_blocks_def bin_dir_blocks_def
  bin_names_def dot_names_def tree_node_def

lemma sample_height: "node_height (tree_node (zig_tree sample_args)) \<le> 2"
  by (simp add: sample_facts tree_node_def node_height.simps height_file)

lemma sample_tree:
  "image_tree_of d tmp swap sample_args = HDir (Some (fixed_nodes_of d tmp @ swap @
     [(''bin'', HDir (Some [(''zsh'', HFile [0x7F] True), (''ls'', HFile [1, 2] True)])),
      (''zig'', HDir (Some [(''lib'', HFile [3] False)]))]))"
  by (simp add: image_tree_of_def sample_facts file_nodes_def tree_node_def prune_dir prune_file)

end
