(* ===== verification/Ext3_Main.thy ===== *)
theory Ext3_Main
  imports Root23
begin

text \<open>
  \<^verbatim>\<open>main\<close> of \<^verbatim>\<open>make_ext3_img.py\<close>: all its phases in the order of the script, and what the
  finished image shows to a reader.
\<close>

section \<open>Fixed content\<close>

definition e3_texts :: fixed_texts where
  \<open>e3_texts = \<lparr>
     hello_txt = raw_bytes (''Hello from ext3!'' @ nl),
     test2_txt = raw_bytes (''Nested file works (ext3)'' @ nl),
     motd_txt = raw_bytes (''Welcome to Zigix ext3!'' @ nl @ ''A minimal Unix-like OS written in Zig.'' @ nl @
       ''Journal-protected filesystem.'' @ nl),
     passwd_txt = passwd_data,
     www_index_txt = raw_bytes (''<html>'' @ nl @ ''<head><title>Zigix ext3</title></head>'' @ nl @ ''<body>'' @ nl @
       ''<h1>Welcome to Zigix</h1>'' @ nl @ ''<p>Served by zhttpd from ext3 filesystem.</p>'' @ nl @
       ''<p><a href="/hello.txt">hello.txt</a> | <a href="/etc/">/etc/</a> | <a href="/bin/">/bin/</a></p>'' @ nl @
       ''</body>'' @ nl @ ''</html>'' @ nl),
     hello_zig_txt = raw_bytes (''const std = @import("std");'' @ nl @ ''pub fn main() void {'' @ nl @
       ''    const w = std.io.getStdOut().writer();'' @ nl @
       ''    w.print("Hello from Zigix!'' @ [CHR 0x5C] @ ''n", .{}) catch {};'' @ nl @ ''}'' @ nl)\<rparr>\<close>

section \<open>The script\<close>

text \<open>Up to the binaries: the journal, the inode numbers, the blocks of files and directories.\<close>

definition e3_early :: "int \<Rightarrow> (core, fixed_inodes \<times> test_blocks \<times> nat \<times> home_blocks) py" where
  "e3_early now =
     py_seq (e3_journal now)
     (py_bind (alloc_fixed_inodes e3_alloc_inode) (\<lambda>f.
      py_bind (put_test_blocks e3_alloc_block e3_texts) (\<lambda>tb.
      py_bind (put_dir_block e3_alloc_block [(tmp_ino f, ''.'', FT_DIR), (2, ''..'', FT_DIR)]) (\<lambda>tmp_block.
      py_bind (put_home_blocks e3_alloc_block f) (\<lambda>hb.
      py_ret (f, tb, tmp_block, hb))))))"

text \<open>The inodes, once everything has its blocks.\<close>

definition e3_write_inodes ::
  "int \<Rightarrow> fixed_inodes \<times> test_blocks \<times> nat \<times> home_blocks \<Rightarrow> late_blocks \<Rightarrow> nat list \<Rightarrow> bins_info \<Rightarrow> nat list \<Rightarrow>
   file_info list \<Rightarrow> nat option \<Rightarrow> (core, unit) py" where
  "e3_write_inodes now = (\<lambda>(f, tb, tmp_block, hb) lb root_blocks bins bin_blocks script_info zig_ino.
     py_seq (write_dir_inode now 2 root_blocks (root_nlink (fst bins) zig_ino))
     (py_seq (py_each (write_row now) (fixed_rows e3_texts f tb hb lb tmp_block 2))
     (py_seq (write_bins now bins bin_blocks)
     (py_each (write_file_inode now 0x81A4) script_info))))"

text \<open>Binaries, scripts and the copy of the host tree.\<close>

definition e3_contents :: "int \<Rightarrow> image_args \<Rightarrow> (core, bins_info \<times> file_info list \<times> nat option) py" where
  "e3_contents now a =
     py_bind (put_binaries (\<lambda>p. p) e3_alloc_block e3_alloc_inode (shell_binary a) (bins_of a)) (\<lambda>bins.
     py_bind (put_files e3_alloc_block e3_alloc_inode (read_files (scripts_listing a))) (\<lambda>script_info.
     py_bind (e3_tree_dir now (zig_tree a)) (\<lambda>zig_ino.
     py_ret (bins, script_info, zig_ino))))"

text \<open>The directories whose entries are known only now.\<close>

definition e3_directories ::
  "fixed_inodes \<Rightarrow> bins_info \<times> file_info list \<times> nat option \<Rightarrow> (core, late_blocks \<times> nat list \<times> nat list) py" where
  "e3_directories f = (\<lambda>(bins, script_info, zig_ino).
     py_bind (put_late_blocks e3_alloc_block f) (\<lambda>lb.
     py_bind (put_bin_dir e3_write_dir_blocks bins) (\<lambda>bin_blocks.
     py_bind (e3_write_dir_blocks (root_entries_list f [] script_info (fst bins) zig_ino)) (\<lambda>root_blocks.
     py_ret (lb, bin_blocks, root_blocks)))))"

definition e3_populate :: "int \<Rightarrow> image_args \<Rightarrow> (core, bool \<times> bool) py" where
  "e3_populate now a =
     py_bind (e3_early now) (\<lambda>early.
     py_bind (e3_contents now a) (\<lambda>(bins, script_info, zig_ino).
     py_bind (e3_directories (fst early) (bins, script_info, zig_ino)) (\<lambda>(lb, bin_blocks, root_blocks).
     py_seq (e3_write_inodes now early lb root_blocks bins bin_blocks script_info zig_ino)
     (py_ret (fst bins \<noteq> None, zig_ino \<noteq> None)))))"

definition e3_main :: "int \<Rightarrow> image_args \<Rightarrow> bytes result" where
  "e3_main now a =
     res_bind (e3_uuid_of now) (\<lambda>fs_uuid.
     res_bind (py_bind (e3_populate now a) (\<lambda>(has_bin, has_zig). e3_write_metadata now fs_uuid has_bin has_zig) e3_init)
       (\<lambda>(_, s). Inr (img s)))"

section \<open>Layout\<close>

definition e3_scripts_blk :: "image_args \<Rightarrow> nat" where
  "e3_scripts_blk a = 1552 + files_blocks bm_span (bin_files_of a)"

definition e3_zig_blk :: "image_args \<Rightarrow> nat" where
  "e3_zig_blk a = e3_scripts_blk a + files_blocks bm_span (scripts_of a)"

definition e3_late_blk :: "image_args \<Rightarrow> nat" where
  "e3_late_blk a = e3_zig_blk a + opt_blocks bm_span (zig_tree a)"

definition e3_root_blk :: "image_args \<Rightarrow> nat" where
  "e3_root_blk a = e3_late_blk a + 3 + bin_dir_blocks (shell_binary a) (bins_of a)"

text \<open>The blocks and inodes in use at the end.\<close>

definition e3_blocks :: "image_args \<Rightarrow> nat" where
  "e3_blocks a = e3_root_blk a + names_span (root_names_of [] a)"

definition e3_inodes :: "image_args \<Rightarrow> nat" where
  "e3_inodes a = zig_ino_of 25 a + opt_inodes (zig_tree a)"

definition e3_args_ok :: "image_args \<Rightarrow> bool" where
  "e3_args_ok a \<longleftrightarrow> files_ok (bin_files_of a) \<and> files_ok (scripts_of a) \<and> opt_ok e3_dir_names_ok (zig_tree a) \<and>
     (has_bin_of a \<longrightarrow> e3_dir_names_ok (bin_names (shell_binary a) (bins_of a))) \<and>
     e3_dir_names_ok (root_names_of [] a) \<and> e3_blocks a \<le> TOTAL_BLOCKS \<and> e3_inodes a \<le> e3_INODES_PER_GROUP + 1"

lemmas e3_layout = e3_blocks_def e3_root_blk_def e3_late_blk_def e3_zig_blk_def e3_scripts_blk_def

lemma e3_texts_ok: "texts_ok e3_texts"
  by (simp add: texts_ok_def text_ok_def e3_texts_def passwd_data_def nl_def BLOCK_SIZE_def)

section \<open>The phases\<close>

definition e3_early_at :: "bytes \<Rightarrow> bool" where
  "e3_early_at im \<longleftrightarrow> journal_at im (inode_offset 8) 516 1024 \<and> tests_written e3_texts 1541 im \<and>
     read_directory im [1547] = Some [(23, ''.'', FT_DIR), (2, ''..'', FT_DIR)] \<and> homes_written 1548 im"

lemma e3_triple_journal:
  "e3z.triple now False (Need 516 0 12) (e3_journal now) () {8} (Need 1541 0 12) (\<lambda>im. journal_at im (inode_offset 8) 516 1024)"
proof (rule e3z.triple_intro)
  fix s assume s: "e3_tree_ready now s" "e3_ctr s = Need 516 0 12"
  then have "next_block s = 516" by (simp add: e3_ctr_def)
  with e3_phase_journal[OF s(1)] show "e3z.phase now (e3_journal now) s () {8} (Need 1025 0 0) (\<lambda>im. journal_at im (inode_offset 8) 516 1024)"
    by (simp add: layout)
qed simp

lemma e3_triple_early:
  "e3z.triple now False (Need 516 0 12) (e3_early now) (fixed_at 12, test_at 1541, 1547, home_at 1548) {8} (Need 1552 0 25) e3_early_at"
proof -
  have f: "e3z.triple now False (Need 1541 0 12) (alloc_fixed_inodes e3_alloc_inode) (fixed_at 12) {} (Need 1541 0 25) (\<lambda>_. True)"
    using e3z.triple_fixed_inodes[of 12 now 1541 0] by (simp add: layout)
  have t: "e3z.triple now False (Need 1541 0 25) (put_test_blocks e3_alloc_block e3_texts) (test_at 1541) {} (Need 1547 0 25) (tests_written e3_texts 1541)"
    using e3z.triple_test_blocks[OF _ e3_texts_ok, of 1541 now 0 25] by (simp add: layout)
  have d: "e3z.triple now False (Need 1547 0 25) (put_dir_block e3_alloc_block [(tmp_ino (fixed_at 12), ''.'', FT_DIR), (2, ''..'', FT_DIR)]) 1547 {} (Need 1548 0 25)
      (\<lambda>im. read_directory im [1547] = Some [(23, ''.'', FT_DIR), (2, ''..'', FT_DIR)])"
    using e3z.triple_dir_block[of 1547 "[(23, ''.'', FT_DIR), (2, ''..'', FT_DIR)]" now 0 25] by (simp add: layout small_dir_simps fixed_at_def)
  have h: "e3z.triple now False (Need 1548 0 25) (put_home_blocks e3_alloc_block (fixed_at 12)) (home_at 1548) {} (Need 1552 0 25) (homes_written 1548)"
    using e3z.triple_home_blocks[of 1548 now 0 25] by (simp add: layout)
  show ?thesis
    unfolding e3_early_def
    by (rule e3z.triple_mono, rule e3z.triple_seq, rule e3_triple_journal, rule e3z.triple_bind, rule f, rule e3z.triple_bind, rule t,
        rule e3z.triple_bind, rule d, rule e3z.triple_bind, rule h, rule e3z.triple_ret) (simp_all add: e3_early_at_def)
qed


text \<open>What the rest of the script leaves, block by block and inode by inode.\<close>

definition e3_contents_at :: "image_args \<Rightarrow> bytes \<Rightarrow> bool" where
  "e3_contents_at a im \<longleftrightarrow> infos_data im 1552 (bin_files_of a) \<and> infos_data im (e3_scripts_blk a) (scripts_of a) \<and>
     opt_read bm_file bm_dir im ''zig'' (zig_ino_of 25 a) (zig_tree a)"

definition e3_directories_at :: "image_args \<Rightarrow> bytes \<Rightarrow> bool" where
  "e3_directories_at a im \<longleftrightarrow> lates_written (e3_late_blk a) im \<and>
     (has_bin_of a \<longrightarrow> read_directory im [e3_late_blk a + 3..<e3_root_blk a] = Some (bin_entries 25 (shell_binary a) (bins_of a))) \<and>
     read_directory im [e3_root_blk a..<e3_blocks a] = Some (root_entries_of 25 [] a)"

definition e3_blocks_at :: "image_args \<Rightarrow> bytes \<Rightarrow> bool" where
  "e3_blocks_at a im \<longleftrightarrow> e3_early_at im \<and> e3_contents_at a im \<and> e3_directories_at a im"

lemmas e3_blocks_at_defs = e3_blocks_at_def e3_contents_at_def e3_directories_at_def

definition e3_inodes_at :: "image_args \<Rightarrow> bytes \<Rightarrow> bool" where
  "e3_inodes_at a im \<longleftrightarrow>
     inode_at im 2 0x41ED ((e3_blocks a - e3_root_blk a) * BLOCK_SIZE) [e3_root_blk a..<e3_blocks a] None None \<and>
     rows_at im (fixed_rows e3_texts (fixed_at 12) (test_at 1541) (home_at 1548) (late_at (e3_late_blk a)) 1547 2) \<and>
     (has_bin_of a \<longrightarrow>
        inode_at im 25 0x41ED ((e3_root_blk a - (e3_late_blk a + 3)) * BLOCK_SIZE) [e3_late_blk a + 3..<e3_root_blk a] None None \<and>
        infos_inodes im (file_mode True) 26 1552 (bin_files_of a)) \<and>
     infos_inodes im (file_mode False) (scripts_ino 25 a) (e3_scripts_blk a) (scripts_of a)"

lemma e3_rows_ok:
  assumes "e3_late_blk a + 3 \<le> TOTAL_BLOCKS"
  shows "list_all row_ok (fixed_rows e3_texts (fixed_at 12) (test_at 1541) (home_at 1548) (late_at (e3_late_blk a)) 1547 2)"
    and "list_all (\<lambda>r. fst r \<le> e3_INODES_PER_GROUP) (fixed_rows e3_texts (fixed_at 12) (test_at 1541) (home_at 1548) (late_at (e3_late_blk a)) 1547 2)"
  using assms e3_texts_ok
  by (simp_all add: fixed_rows_def row_ok_def fixed_at_def test_at_def home_at_def late_at_def texts_ok_def text_ok_def layout)

lemma e3_triple_inodes:
  assumes ok: "e3_args_ok a" and now: "clock_ok now"
  shows "e3z.triple now False c
    (e3_write_inodes now (fixed_at 12, test_at 1541, 1547, home_at 1548) (late_at (e3_late_blk a)) [e3_root_blk a..<e3_blocks a]
      (bins_at 25 1552 (shell_binary a) (bins_of a)) [e3_late_blk a + 3..<e3_root_blk a]
      (infos (scripts_ino 25 a) (e3_scripts_blk a) (scripts_of a)) (opt_ino (zig_ino_of 25 a) (zig_tree a))) ()
    ({2} \<union> ({11..<25} \<union> ({25..<scripts_ino 25 a} \<union> {scripts_ino 25 a..<zig_ino_of 25 a}))) c (e3_inodes_at a)"
proof -
  let ?bd = "bin_dir_blocks (shell_binary a) (bins_of a)" and ?rd = "names_span (root_names_of [] a)"
  have le: "e3_blocks a \<le> TOTAL_BLOCKS" "zig_ino_of 25 a \<le> e3_INODES_PER_GROUP + 1" using ok by (simp_all add: e3_args_ok_def e3_inodes_def)
  have k: "?rd \<le> 12" "?bd \<le> 12" using ok by (auto simp: e3_args_ok_def e3_dir_names_ok_def bin_dir_blocks_def)
  have root: "e3z.triple now False c (write_dir_inode now 2 [e3_root_blk a..<e3_root_blk a + ?rd]
      (root_nlink (fst (bins_at 25 1552 (shell_binary a) (bins_of a))) (opt_ino (zig_ino_of 25 a) (zig_tree a)))) () {2} c
      (\<lambda>im. inode_at im 2 0x41ED (?rd * BLOCK_SIZE) [e3_root_blk a..<e3_root_blk a + ?rd] None None)"
    by (rule e3z.triple_dir_inode) (use le k now in \<open>auto simp: e3_blocks_def root_nlink_def layout\<close>)
  let ?rows = "fixed_rows e3_texts (fixed_at 12) (test_at 1541) (home_at 1548) (late_at (e3_late_blk a)) 1547 2"
  have late: "e3_late_blk a + 3 \<le> TOTAL_BLOCKS" using le by (simp add: e3_blocks_def e3_root_blk_def)
  have rows: "e3z.triple now False c (py_each (write_row now) ?rows) () {11..<25} c (\<lambda>im. rows_at im ?rows)"
    unfolding fixed_row_inodes[symmetric, of e3_texts "test_at 1541" "home_at 1548" "late_at (e3_late_blk a)" 1547 2]
    by (rule e3z.triple_rows[OF e3_rows_ok[OF late] _ now]) (simp add: fixed_rows_def fixed_at_def)
  have bins: "e3z.triple now False c (write_bins now (bins_at 25 1552 (shell_binary a) (bins_of a)) [e3_late_blk a + 3..<e3_late_blk a + 3 + ?bd]) ()
      {25..<25 + bin_inodes (shell_binary a) (bins_of a)} c (\<lambda>im. has_bin_of a \<longrightarrow>
        inode_at im 25 0x41ED (?bd * BLOCK_SIZE) [e3_late_blk a + 3..<e3_late_blk a + 3 + ?bd] None None \<and>
        infos_inodes im (file_mode True) (25 + 1) 1552 (bin_files_of a))"
    by (rule e3z.triple_write_bins)
      (use ok le k now in \<open>auto simp: e3_args_ok_def e3_layout scripts_ino_def zig_ino_of_def\<close>)
  have scr: "e3z.triple now False c (py_each (write_file_inode now (file_mode False)) (infos (scripts_ino 25 a) (e3_scripts_blk a) (scripts_of a))) ()
      {scripts_ino 25 a..<scripts_ino 25 a + length (scripts_of a)} c
      (\<lambda>im. infos_inodes im (file_mode False) (scripts_ino 25 a) (e3_scripts_blk a) (scripts_of a))"
    by (rule e3z.triple_file_inodes) (use ok le now in \<open>auto simp: e3_args_ok_def e3_layout scripts_ino_def zig_ino_of_def\<close>)
  have ends: "e3_blocks a = e3_root_blk a + ?rd" "e3_root_blk a = e3_late_blk a + 3 + ?bd" by (simp_all add: e3_blocks_def e3_root_blk_def)
  have fm: "0x81A4 = file_mode False" by (simp add: file_mode_def)
  show ?thesis
    unfolding e3_write_inodes_def prod.case ends(1) fm
    by (rule e3z.triple_mono, rule e3z.triple_seq, rule root, rule e3z.triple_seq, rule rows, rule e3z.triple_seq,
        unfold ends(2), rule bins, rule scr)
      (auto simp: e3_inodes_at_def ends scripts_ino_def zig_ino_of_def bin_inodes_def)
qed


lemma e3_triple_tree:
  assumes "ni + opt_inodes tree \<le> e3_INODES_PER_GROUP + 1" "nb + opt_blocks bm_span tree \<le> TOTAL_BLOCKS" "opt_ok e3_dir_names_ok tree"
  shows "e3z.triple now False (Need nb 0 ni) (e3_tree_dir now tree) (opt_ino ni tree) {ni..<ni + opt_inodes tree}
    (Need (nb + opt_blocks bm_span tree) 0 (ni + opt_inodes tree)) (\<lambda>im. opt_read bm_file bm_dir im ''zig'' ni tree)"
proof (rule e3z.triple_intro)
  fix s assume s: "e3_tree_ready now s" "e3_ctr s = Need nb 0 ni"
  then have "next_block s = nb" "next_inode s = ni" by (simp_all add: e3_ctr_def)
  with e3_phase_tree_dir[OF s(1), of tree "''zig''"] assms
  show "e3z.phase now (e3_tree_dir now tree) s (opt_ino ni tree) {ni..<ni + opt_inodes tree}
      (Need (opt_blocks bm_span tree) 0 (opt_inodes tree)) (\<lambda>im. opt_read bm_file bm_dir im ''zig'' ni tree)"
    by (simp add: is_ascii_def)
qed simp

abbreviation e3_contents_of :: "image_args \<Rightarrow> bins_info \<times> file_info list \<times> nat option" where
  "e3_contents_of a \<equiv> (bins_at 25 1552 (shell_binary a) (bins_of a), infos (scripts_ino 25 a) (e3_scripts_blk a) (scripts_of a),
     opt_ino (zig_ino_of 25 a) (zig_tree a))"

lemma e3_triple_contents:
  assumes ok: "e3_args_ok a"
  shows "e3z.triple now False (Need 1552 0 25) (e3_contents now a) (e3_contents_of a) {zig_ino_of 25 a..<e3_inodes a}
    (Need (e3_late_blk a) 0 (e3_inodes a)) (e3_contents_at a)"
proof -
  let ?sh = "shell_binary a" and ?bs = "bins_of a" and ?sc = "sort_key fst (read_files (scripts_listing a))"
  let ?bins = "bins_at 25 1552 ?sh ?bs" and ?bd = "bin_dir_blocks ?sh ?bs" and ?z = "opt_ino (zig_ino_of 25 a) (zig_tree a)"
  have sc: "?sc = scripts_of a" by (simp add: scripts_of_def)
  have le: "e3_blocks a \<le> TOTAL_BLOCKS" "e3_inodes a \<le> e3_INODES_PER_GROUP + 1" and lt: "zig_ino_of 25 a < 2 ^ 32"
    using ok by (simp_all add: e3_args_ok_def e3_inodes_def layout)
  have b: "e3z.triple now False (Need 1552 0 25) (put_binaries (\<lambda>p. p) e3_alloc_block e3_alloc_inode ?sh ?bs) ?bins {}
      (Need (e3_scripts_blk a) 0 (scripts_ino 25 a)) (\<lambda>im. infos_data im 1552 (bin_files_of a))"
    using e3z.triple_binaries_low[of 1552 ?sh ?bs 25 now 0] le
    by (simp add: e3_scripts_blk_def scripts_ino_def e3_layout e3_inodes_def zig_ino_of_def)
  have s: "e3z.triple now False (Need (e3_scripts_blk a) 0 (scripts_ino 25 a)) (put_files e3_alloc_block e3_alloc_inode (read_files (scripts_listing a)))
      (infos (scripts_ino 25 a) (e3_scripts_blk a) (scripts_of a)) {} (Need (e3_zig_blk a) 0 (zig_ino_of 25 a))
      (\<lambda>im. infos_data im (e3_scripts_blk a) (scripts_of a))"
    unfolding sc[symmetric]
    by (rule e3z.triple_mono[OF e3z.triple_put_files])
      (use le in \<open>simp_all only: sc, simp_all add: e3_layout e3_inodes_def zig_ino_of_def\<close>)
  have z: "e3z.triple now False (Need (e3_zig_blk a) 0 (zig_ino_of 25 a)) (e3_tree_dir now (zig_tree a)) ?z {zig_ino_of 25 a..<e3_inodes a}
      (Need (e3_late_blk a) 0 (e3_inodes a)) (\<lambda>im. opt_read bm_file bm_dir im ''zig'' (zig_ino_of 25 a) (zig_tree a))"
    unfolding e3_late_blk_def e3_inodes_def
    by (rule e3z.triple_mono[OF e3_triple_tree]) (use le ok in \<open>simp_all add: e3_layout e3_inodes_def e3_args_ok_def\<close>)
  show ?thesis
    unfolding e3_contents_def
    by (rule e3z.triple_mono, rule e3z.triple_bind, rule b, rule e3z.triple_bind, rule s,
        rule e3z.triple_bind, rule z, rule e3z.triple_ret) (simp_all add: e3_contents_at_def)
qed

lemma e3_triple_directories:
  assumes ok: "e3_args_ok a"
  shows "e3z.triple now False (Need (e3_late_blk a) 0 (e3_inodes a)) (e3_directories (fixed_at 12) (e3_contents_of a))
    (late_at (e3_late_blk a), [e3_late_blk a + 3..<e3_root_blk a], [e3_root_blk a..<e3_blocks a]) {}
    (Need (e3_blocks a) 0 (e3_inodes a)) (e3_directories_at a)"
proof -
  let ?sh = "shell_binary a" and ?bs = "bins_of a"
  let ?bins = "bins_at 25 1552 ?sh ?bs" and ?bd = "bin_dir_blocks ?sh ?bs"
  have le: "e3_blocks a \<le> TOTAL_BLOCKS" "e3_inodes a \<le> e3_INODES_PER_GROUP + 1" and lt: "zig_ino_of 25 a < 2 ^ 32"
    using ok by (simp_all add: e3_args_ok_def e3_inodes_def layout)
  have l: "e3z.triple now False (Need (e3_late_blk a) 0 (e3_inodes a)) (put_late_blocks e3_alloc_block (fixed_at 12)) (late_at (e3_late_blk a)) {}
      (Need (e3_late_blk a + 3) 0 (e3_inodes a)) (lates_written (e3_late_blk a))"
    using e3z.triple_late_blocks[of "e3_late_blk a" now 0 "e3_inodes a"] le by (simp add: e3_blocks_def e3_root_blk_def)
  have d: "e3z.triple now False (Need (e3_late_blk a + 3) 0 (e3_inodes a)) (put_bin_dir e3_write_dir_blocks ?bins) [e3_late_blk a + 3..<e3_root_blk a] {}
      (Need (e3_root_blk a) 0 (e3_inodes a))
      (\<lambda>im. has_bin_of a \<longrightarrow> read_directory im [e3_late_blk a + 3..<e3_root_blk a] = Some (bin_entries 25 ?sh ?bs))"
    unfolding e3_root_blk_def e3_write_dir_blocks_def
    by (rule e3z.triple_mono[OF e3z.triple_bin_dir])
      (use le ok lt in \<open>simp_all add: e3_layout e3_args_ok_def e3_dir_names_ok_def scripts_ino_def zig_ino_of_def\<close>)
  note ro = root_entries_ok23[of a 25 "[]", OF _ lt]
  have r: "e3z.triple now False (Need (e3_root_blk a) 0 (e3_inodes a)) (e3_write_dir_blocks (root_entries_of 25 [] a)) [e3_root_blk a..<e3_blocks a] {}
      (Need (e3_blocks a) 0 (e3_inodes a)) (\<lambda>im. read_directory im [e3_root_blk a..<e3_blocks a] = Some (root_entries_of 25 [] a))"
    unfolding e3_blocks_def e3_write_dir_blocks_def
    using e3z.triple_write_dir[of "e3_root_blk a" "root_entries_of 25 [] a" now 0 "e3_inodes a"] ro ok le
    by (simp add: e3_args_ok_def e3_dir_names_ok_def entry_names_def entries_ok_def e3_blocks_def)
  show ?thesis
    unfolding e3_directories_def prod.case
    by (rule e3z.triple_mono, rule e3z.triple_bind, rule l, rule e3z.triple_bind, rule d,
        rule e3z.triple_bind, unfold root_entries_run, rule r, rule e3z.triple_ret) (simp_all add: e3_directories_at_def)
qed

lemma e3_triple_populate:
  assumes ok: "e3_args_ok a" and now: "clock_ok now"
  shows "\<exists>J. e3z.triple now False (Need 516 0 12) (e3_populate now a) (has_bin_of a, zig_tree a \<noteq> None) J
    (Need (e3_blocks a) 0 (e3_inodes a)) (\<lambda>im. e3_blocks_at a im \<and> e3_inodes_at a im)"
proof -
  note i = e3_triple_inodes[OF ok now, of "Need (e3_blocks a) 0 (e3_inodes a)"]
  show ?thesis
    unfolding e3_populate_def
    by (intro exI, rule e3z.triple_mono, rule e3z.triple_bind, rule e3_triple_early, rule e3z.triple_bind, rule e3_triple_contents[OF ok],
        unfold prod.case fst_conv, rule e3z.triple_bind, rule e3_triple_directories[OF ok], unfold prod.case, rule e3z.triple_seq,
        rule i, rule e3z.triple_ret)
      (auto simp: e3_blocks_at_defs bins_at_ino opt_ino_def scripts_ino_def zig_ino_of_def)
qed

section \<open>What a reader sees\<close>

lemma e3_image_read:
  assumes ok: "e3_args_ok a" and b: "e3_blocks_at a im" and i: "e3_inodes_at a im" and n: "2 \<le> n"
    and z: "zig_tree a \<noteq> None \<Longrightarrow> node_height (tree_node (zig_tree a)) \<le> n"
  shows "read_node bm_file bm_dir (Suc n) im 2 (2, name, FT_DIR) = Some (image_tree_of e3_texts (HDir (Some [])) [] a)"
proof -
  obtain k where k: "n = Suc (Suc k)" using n by (metis One_nat_def Suc_1 Suc_le_D Suc_le_mono)
  let ?bd = "bin_dir_blocks (shell_binary a) (bins_of a)" and ?rd = "names_span (root_names_of [] a)"
  have le: "e3_blocks a \<le> TOTAL_BLOCKS" using ok by (simp add: e3_args_ok_def)
  have k12: "?rd \<le> 12" "?bd \<le> 12" using ok by (auto simp: e3_args_ok_def e3_dir_names_ok_def bin_dir_blocks_def)
  have ends: "e3_blocks a = e3_root_blk a + ?rd" "e3_root_blk a = e3_late_blk a + 3 + ?bd" by (simp_all add: e3_blocks_def e3_root_blk_def)
  have fx: "fixed_holds e3_texts im"
    by (rule fixed_readable[of e3_texts 1541 im 1548 "e3_late_blk a" 1547 2])
      (use b i le e3_texts_ok in \<open>simp_all add: e3_blocks_at_defs e3_early_at_def e3_inodes_at_def ends, simp_all add: layout\<close>)
  have "inode_at im 23 0x43FF BLOCK_SIZE [1547] None None"
    using i by (simp add: e3_inodes_at_def rows_at_def fixed_rows_def fixed_at_def)
  then have "bm_dir im 23 = Some [(23, ''.'', FT_DIR), (2, ''..'', FT_DIR)]"
    by (intro small_dir_readable[where b = 1547 and mode = "0x43FF"]) (use b in \<open>simp_all add: e3_blocks_at_defs e3_early_at_def TOTAL_BLOCKS_def\<close>)
  then have tmp: "read_node bm_file bm_dir n im 2 (23, ''tmp'', FT_DIR) = Some (HDir (Some []))"
    by (simp add: k FT_DIR_def FT_REG_def)
  have root: "bm_dir im 2 = Some (root_entries_of 25 [] a)"
    by (rule dir_readable[where nb = "e3_root_blk a" and k = ?rd and mode = "0x41ED"])
      (use b i le k12 in \<open>simp_all add: e3_blocks_at_defs e3_inodes_at_def ends(1)\<close>)
  have sc: "files_at (bm_file im) False (scripts_ino 25 a) (scripts_of a)"
    by (rule infos_readable[of im "e3_scripts_blk a"])
      (use b i le in \<open>simp_all add: e3_blocks_at_defs e3_inodes_at_def e3_layout\<close>)
  have bin: "files_at (bm_file im) True (25 + 1) (bin_files_of a) \<and> bm_dir im 25 = Some (bin_entries 25 (shell_of a) (bins_of a))"
    if "has_bin_of a"
    by (rule bins_readable[OF that, of im 1552 "e3_late_blk a + 3" ?bd 25])
      (use that b i le k12 in \<open>simp_all add: e3_blocks_at_defs e3_inodes_at_def e3_layout\<close>)
  show ?thesis
    by (rule root_readable[OF fx root k tmp _ _ sc _ _ z])
      (use bin b in \<open>simp_all add: e3_blocks_at_defs entry_names_def\<close>)
qed

lemma e3_init_ready: "clock_ok now \<Longrightarrow> e3_tree_ready now e3_init" "e3_ctr e3_init = Need 516 0 12"
  by (simp_all add: e3_tree_ready_def full_image_def e3_init_def e3_ctr_def layout)

lemma e3_uuid_run: "\<exists>uuid. e3_uuid_of now = Inr uuid \<and> length uuid = 16"
proof -
  have "now AND 0xFFFFFFFF = now mod 2 ^ 32"
    using take_bit_eq_mask[of 32 now] by (simp add: take_bit_eq_mod mask_eq_exp_minus_1)
  then show ?thesis by (simp add: e3_uuid_of_def pack_le_def)
qed

text \<open>
  C3: for every set of arguments that fits, \<^verbatim>\<open>make_ext3_img.py\<close> produces a full-size image whose
  root directory reads back, through inodes, direct, indirect and double-indirect blocks, as
  exactly the tree the script means to build: the fixed files and directories, the scripts, the
  binaries under \<^verbatim>\<open>/bin\<close> and the copy of the host tree; the journal behind inode 8 is whole, and a
  bit of the bitmaps is set exactly for the blocks and inodes in use.
\<close>

theorem e3_main_image:
  assumes "e3_args_ok a" and "clock_ok now" and "2 \<le> n"
    and "zig_tree a \<noteq> None \<Longrightarrow> node_height (tree_node (zig_tree a)) \<le> n"
  shows "\<exists>im. e3_main now a = Inr im \<and> length im = TOTAL_BLOCKS * BLOCK_SIZE \<and>
    read_node bm_file bm_dir (Suc n) im 2 (2, ''/'', FT_DIR) = Some (image_tree_of e3_texts (HDir (Some [])) [] a) \<and>
    journal_at im (inode_offset 8) e3_FIRST_DATA_BLOCK 1024 \<and> u16_at im (1024 + 56) = 0xEF53 \<and>
    (\<forall>b < 32768. bit_of (block_at im 2) b \<longleftrightarrow> b < e3_blocks a) \<and>
    (\<forall>i < e3_INODES_PER_GROUP. bit_of (block_at im 3) i \<longleftrightarrow> i + 1 < e3_inodes a)"
proof -
  let ?lo = e3_FIRST_DATA_BLOCK and ?I = "{1..e3_INODES_PER_GROUP}"
  obtain uuid where uuid: "e3_uuid_of now = Inr uuid" "length uuid = 16" using e3_uuid_run by blast
  obtain J d where d: "Need (e3_blocks a) 0 (e3_inodes a) = e3_ctr e3_init + d"
    and ph: "e3z.phase now (e3_populate now a) e3_init (has_bin_of a, zig_tree a \<noteq> None) J d (\<lambda>im. e3_blocks_at a im \<and> e3_inodes_at a im)"
    using e3_triple_populate[OF assms(1,2)] e3_init_ready(1)[OF assms(2)] e3_init_ready(2) unfolding e3z.triple_def by metis
  obtain t where t: "e3_populate now a e3_init = Inr ((has_bin_of a, zig_tree a \<noteq> None), t)" "e3_tree_ready now t" "e3_ctr t = e3_ctr e3_init + d"
    "next_inode e3_init + tree_dirs_created t \<le> next_inode t + tree_dirs_created e3_init" "J \<subseteq> ?I"
    and P: "\<And>im. same_on (img t) im (e3_used t) J \<Longrightarrow> e3_blocks_at a im \<and> e3_inodes_at a im"
    using ph by (auto simp: e3z.phase_def)
  have "e3_ctr t = Need (e3_blocks a) 0 (e3_inodes a)" using t(3) d by simp
  then have c: "next_block t = e3_blocks a" "next_inode t = e3_inodes a" by (simp_all add: e3_ctr_def)
  have le: "e3_blocks a \<le> TOTAL_BLOCKS" "e3_inodes a \<le> e3_INODES_PER_GROUP + 1" "12 \<le> e3_inodes a"
    using assms(1) by (simp_all add: e3_args_ok_def e3_inodes_def zig_ino_of_def scripts_ino_def)
  have fin: "e3_finished t" using t(2,4) c le by (simp add: e3_finished_def e3_tree_ready_def e3_init_def layout)
  obtain u where u: "e3_write_metadata now uuid (has_bin_of a) (zig_tree a \<noteq> None) t = Inr ((), u)" "full_image u"
    "u16_at (img u) (1024 + 56) = 0xEF53" "\<forall>b < 32768. bit_of (block_at (img u) 2) b \<longleftrightarrow> b < next_block t"
    "\<forall>i < e3_INODES_PER_GROUP. bit_of (block_at (img u) 3) i \<longleftrightarrow> i + 1 < next_inode t"
    "agrees ?lo inode_offset INODE_SIZE (img t) (img u) TOTAL_BLOCKS ?I"
    using e3_metadata_law[OF fin assms(2) uuid(2), of "has_bin_of a" "zig_tree a \<noteq> None"] by blast
  have "same_on (img t) (img u) (e3_used t) J"
    using agrees_weaken[OF u(6) le(1) t(5)] by (rule agrees_same_on) (simp add: e3_used_def c)
  then have h: "e3_blocks_at a (img u)" "e3_inodes_at a (img u)" using P by blast+
  have "e3_main now a = Inr (img u)" using uuid(1) t(1) u(1) by (simp add: e3_main_def py_bind_run)
  then show ?thesis
    using u(2-5) h(1) c e3_image_read[OF assms(1) h assms(3,4), of "''/''"]
    by (auto simp: full_image_def e3_blocks_at_defs e3_early_at_def layout)
qed

lemma e3_small_names: "ns \<noteq> [] \<Longrightarrow> sum_list (map (\<lambda>n. min_rec_len (length n)) ns) \<le> BLOCK_SIZE \<Longrightarrow>
    e3_dir_names_ok ns \<and> names_span ns = 1"
  using names_small by (simp add: e3_dir_names_ok_def)

lemma e3_sample_ok: "e3_args_ok sample_args"
proof -
  have d: "e3_dir_names_ok [''.'', ''..'', ''lib''] \<and> names_span [''.'', ''..'', ''lib''] = 1"
    "e3_dir_names_ok [''.'', ''..'', ''zsh'', ''ls''] \<and> names_span [''.'', ''..'', ''zsh'', ''ls''] = 1"
    "e3_dir_names_ok (root_names_of [] sample_args) \<and> names_span (root_names_of [] sample_args) = 1"
    by (rule e3_small_names; simp add: min_rec_len_def layout sample_facts)+
  then show ?thesis
    by (simp add: e3_args_ok_def sample_facts sample_layout files_ok_def is_ascii_def e3_inodes_def e3_layout opt_ok_def node_dir_simps layout)
qed

theorem e3_main_image_witness:
  "\<exists>im. e3_main 1700000000 sample_args = Inr im \<and>
     read_node bm_file bm_dir 3 im 2 (2, ''/'', FT_DIR) = Some (HDir (Some (fixed_nodes_of e3_texts (HDir (Some [])) @
       [(''bin'', HDir (Some [(''zsh'', HFile [0x7F] True), (''ls'', HFile [1, 2] True)])),
        (''zig'', HDir (Some [(''lib'', HFile [3] False)]))])))"
proof -
  have "clock_ok 1700000000" by (simp add: clock_ok_def)
  from e3_main_image[OF e3_sample_ok this, of 2] sample_height show ?thesis
    unfolding sample_tree by (auto simp: numeral_3_eq_3 numeral_2_eq_2)
qed

end
