(* ===== verification/Cache_Dirs.thy ===== *)
theory Cache_Dirs
  imports Root23
begin

text \<open>
  The directories that \<^verbatim>\<open>make_ext2_img.py\<close> prepares under \<^verbatim>\<open>/tmp\<close> for the caches of the Zig
  compiler: their inode numbers, blocks and inodes, and what a reader finds there.
\<close>

section \<open>The statements\<close>

record cache_inodes =
  zig_global_ino :: nat
  zig_global_b_ino :: nat
  zig_global_h_ino :: nat
  zig_global_p_ino :: nat
  zig_global_tmp_ino :: nat
  zig_global_o_ino :: nat
  zig_cache_ino :: nat
  zig_cache_b_ino :: nat
  zig_cache_h_ino :: nat
  zig_cache_p_ino :: nat
  zig_cache_tmp_ino :: nat
  zig_cache_z_ino :: nat
  zig_cache_o_ino :: nat

definition alloc_cache_inodes :: "('s, nat) py \<Rightarrow> ('s, cache_inodes) py" where
  "alloc_cache_inodes alloc_inode =
     py_bind alloc_inode (\<lambda>g. py_bind alloc_inode (\<lambda>gb. py_bind alloc_inode (\<lambda>gh. py_bind alloc_inode (\<lambda>gp.
     py_bind alloc_inode (\<lambda>gt. py_bind alloc_inode (\<lambda>go.
     py_bind alloc_inode (\<lambda>c. py_bind alloc_inode (\<lambda>cb. py_bind alloc_inode (\<lambda>ch. py_bind alloc_inode (\<lambda>cp.
     py_bind alloc_inode (\<lambda>ct. py_bind alloc_inode (\<lambda>cz. py_bind alloc_inode (\<lambda>co.
     py_ret \<lparr>zig_global_ino = g, zig_global_b_ino = gb, zig_global_h_ino = gh, zig_global_p_ino = gp,
       zig_global_tmp_ino = gt, zig_global_o_ino = go, zig_cache_ino = c, zig_cache_b_ino = cb, zig_cache_h_ino = ch,
       zig_cache_p_ino = cp, zig_cache_tmp_ino = ct, zig_cache_z_ino = cz, zig_cache_o_ino = co\<rparr>)))))))))))))"

definition make_empty_dir :: "('a core_scheme, nat) py \<Rightarrow> nat \<Rightarrow> nat \<Rightarrow> ('a core_scheme, nat) py" where
  "make_empty_dir alloc self_ino parent_ino = put_dir_block alloc [(self_ino, ''.'', FT_DIR), (parent_ino, ''..'', FT_DIR)]"

record cache_blocks =
  zg_b_blk :: nat
  zg_h_blk :: nat
  zg_p_blk :: nat
  zg_tmp_blk :: nat
  zg_o_blk :: nat
  zc_b_blk :: nat
  zc_h_blk :: nat
  zc_p_blk :: nat
  zc_tmp_blk :: nat
  zc_z_blk :: nat
  zc_o_blk :: nat
  zg_block :: nat
  zc_block :: nat
  tmp_block :: nat

definition zg_entries :: "fixed_inodes \<Rightarrow> cache_inodes \<Rightarrow> dirent list" where
  "zg_entries f c =
     [(zig_global_ino c, ''.'', FT_DIR), (tmp_ino f, ''..'', FT_DIR), (zig_global_b_ino c, ''b'', FT_DIR),
      (zig_global_h_ino c, ''h'', FT_DIR), (zig_global_p_ino c, ''p'', FT_DIR), (zig_global_tmp_ino c, ''tmp'', FT_DIR),
      (zig_global_o_ino c, ''o'', FT_DIR)]"

definition zc_entries :: "fixed_inodes \<Rightarrow> cache_inodes \<Rightarrow> dirent list" where
  "zc_entries f c =
     [(zig_cache_ino c, ''.'', FT_DIR), (tmp_ino f, ''..'', FT_DIR), (zig_cache_b_ino c, ''b'', FT_DIR),
      (zig_cache_h_ino c, ''h'', FT_DIR), (zig_cache_p_ino c, ''p'', FT_DIR), (zig_cache_tmp_ino c, ''tmp'', FT_DIR),
      (zig_cache_z_ino c, ''z'', FT_DIR), (zig_cache_o_ino c, ''o'', FT_DIR)]"

definition tmp_entries :: "fixed_inodes \<Rightarrow> cache_inodes \<Rightarrow> dirent list" where
  "tmp_entries f c =
     [(tmp_ino f, ''.'', FT_DIR), (2, ''..'', FT_DIR), (zig_global_ino c, ''zig-global'', FT_DIR),
      (zig_cache_ino c, ''zig-cache'', FT_DIR)]"

definition put_cache_blocks ::
  "('a core_scheme, nat) py \<Rightarrow> fixed_inodes \<Rightarrow> cache_inodes \<Rightarrow> ('a core_scheme, cache_blocks) py" where
  "put_cache_blocks alloc f c =
     py_bind (make_empty_dir alloc (zig_global_b_ino c) (zig_global_ino c)) (\<lambda>gb.
     py_bind (make_empty_dir alloc (zig_global_h_ino c) (zig_global_ino c)) (\<lambda>gh.
     py_bind (make_empty_dir alloc (zig_global_p_ino c) (zig_global_ino c)) (\<lambda>gp.
     py_bind (make_empty_dir alloc (zig_global_tmp_ino c) (zig_global_ino c)) (\<lambda>gt.
     py_bind (make_empty_dir alloc (zig_global_o_ino c) (zig_global_ino c)) (\<lambda>go.
     py_bind (make_empty_dir alloc (zig_cache_b_ino c) (zig_cache_ino c)) (\<lambda>cb.
     py_bind (make_empty_dir alloc (zig_cache_h_ino c) (zig_cache_ino c)) (\<lambda>ch.
     py_bind (make_empty_dir alloc (zig_cache_p_ino c) (zig_cache_ino c)) (\<lambda>cp.
     py_bind (make_empty_dir alloc (zig_cache_tmp_ino c) (zig_cache_ino c)) (\<lambda>ct.
     py_bind (make_empty_dir alloc (zig_cache_z_ino c) (zig_cache_ino c)) (\<lambda>cz.
     py_bind (make_empty_dir alloc (zig_cache_o_ino c) (zig_cache_ino c)) (\<lambda>co.
     py_bind (put_dir_block alloc (zg_entries f c)) (\<lambda>zg.
     py_bind (put_dir_block alloc (zc_entries f c)) (\<lambda>zc.
     py_bind (put_dir_block alloc (tmp_entries f c)) (\<lambda>tmp.
     py_ret \<lparr>zg_b_blk = gb, zg_h_blk = gh, zg_p_blk = gp, zg_tmp_blk = gt, zg_o_blk = go, zc_b_blk = cb, zc_h_blk = ch,
       zc_p_blk = cp, zc_tmp_blk = ct, zc_z_blk = cz, zc_o_blk = co, zg_block = zg, zc_block = zc, tmp_block = tmp\<rparr>))))))))))))))"

definition cache_rows :: "cache_inodes \<Rightarrow> cache_blocks \<Rightarrow> inode_row list" where
  "cache_rows c b =
     [(zig_global_ino c, 0x41ED, BLOCK_SIZE, zg_block b, 7, 0, 0),
      (zig_global_b_ino c, 0x41ED, BLOCK_SIZE, zg_b_blk b, 2, 0, 0),
      (zig_global_h_ino c, 0x41ED, BLOCK_SIZE, zg_h_blk b, 2, 0, 0),
      (zig_global_p_ino c, 0x41ED, BLOCK_SIZE, zg_p_blk b, 2, 0, 0),
      (zig_global_tmp_ino c, 0x41ED, BLOCK_SIZE, zg_tmp_blk b, 2, 0, 0),
      (zig_global_o_ino c, 0x41ED, BLOCK_SIZE, zg_o_blk b, 2, 0, 0),
      (zig_cache_ino c, 0x41ED, BLOCK_SIZE, zc_block b, 8, 0, 0),
      (zig_cache_b_ino c, 0x41ED, BLOCK_SIZE, zc_b_blk b, 2, 0, 0),
      (zig_cache_h_ino c, 0x41ED, BLOCK_SIZE, zc_h_blk b, 2, 0, 0),
      (zig_cache_p_ino c, 0x41ED, BLOCK_SIZE, zc_p_blk b, 2, 0, 0),
      (zig_cache_tmp_ino c, 0x41ED, BLOCK_SIZE, zc_tmp_blk b, 2, 0, 0),
      (zig_cache_z_ino c, 0x41ED, BLOCK_SIZE, zc_z_blk b, 2, 0, 0),
      (zig_cache_o_ino c, 0x41ED, BLOCK_SIZE, zc_o_blk b, 2, 0, 0)]"

text \<open>The whole stretch of the script; the result is the block of \<^verbatim>\<open>/tmp\<close>.\<close>

definition put_tmp_dir ::
  "int \<Rightarrow> ('a core_scheme, nat) py \<Rightarrow> ('a core_scheme, nat) py \<Rightarrow> fixed_inodes \<Rightarrow> ('a core_scheme, nat) py" where
  "put_tmp_dir now alloc alloc_inode f =
     py_bind (alloc_cache_inodes alloc_inode) (\<lambda>c.
     py_bind (put_cache_blocks alloc f c) (\<lambda>b.
     py_seq (py_each (write_row now) (cache_rows c b)) (py_ret (tmp_block b))))"

section \<open>Their effect\<close>

definition cache_at :: "nat \<Rightarrow> cache_inodes" where
  "cache_at i = \<lparr>zig_global_ino = i, zig_global_b_ino = i + 1, zig_global_h_ino = i + 2, zig_global_p_ino = i + 3,
     zig_global_tmp_ino = i + 4, zig_global_o_ino = i + 5, zig_cache_ino = i + 6, zig_cache_b_ino = i + 7,
     zig_cache_h_ino = i + 8, zig_cache_p_ino = i + 9, zig_cache_tmp_ino = i + 10, zig_cache_z_ino = i + 11,
     zig_cache_o_ino = i + 12\<rparr>"

definition cache_blocks_at :: "nat \<Rightarrow> cache_blocks" where
  "cache_blocks_at b = \<lparr>zg_b_blk = b, zg_h_blk = b + 1, zg_p_blk = b + 2, zg_tmp_blk = b + 3, zg_o_blk = b + 4,
     zc_b_blk = b + 5, zc_h_blk = b + 6, zc_p_blk = b + 7, zc_tmp_blk = b + 8, zc_z_blk = b + 9, zc_o_blk = b + 10,
     zg_block = b + 11, zc_block = b + 12, tmp_block = b + 13\<rparr>"

definition cache_dirs :: "fixed_inodes \<Rightarrow> cache_inodes \<Rightarrow> dirent list list" where
  "cache_dirs f c =
     map (\<lambda>i. [(i, ''.'', FT_DIR), (zig_global_ino c, ''..'', FT_DIR)])
       [zig_global_b_ino c, zig_global_h_ino c, zig_global_p_ino c, zig_global_tmp_ino c, zig_global_o_ino c] @
     map (\<lambda>i. [(i, ''.'', FT_DIR), (zig_cache_ino c, ''..'', FT_DIR)])
       [zig_cache_b_ino c, zig_cache_h_ino c, zig_cache_p_ino c, zig_cache_tmp_ino c, zig_cache_z_ino c, zig_cache_o_ino c] @
     [zg_entries f c, zc_entries f c, tmp_entries f c]"

lemma collect_cache_blocks:
  "put_cache_blocks alloc f c = py_bind (py_collect (put_dir_block alloc) (cache_dirs f c))
     (\<lambda>bs. py_ret \<lparr>zg_b_blk = bs ! 0, zg_h_blk = bs ! 1, zg_p_blk = bs ! 2, zg_tmp_blk = bs ! 3, zg_o_blk = bs ! 4,
       zc_b_blk = bs ! 5, zc_h_blk = bs ! 6, zc_p_blk = bs ! 7, zc_tmp_blk = bs ! 8, zc_z_blk = bs ! 9, zc_o_blk = bs ! 10,
       zg_block = bs ! 11, zc_block = bs ! 12, tmp_block = bs ! 13\<rparr>)"
  by (simp add: put_cache_blocks_def cache_dirs_def make_empty_dir_def py_bind_assoc del: py_ret_run)

text \<open>The directories of the blocks from \<open>b\<close> on, with the inodes from \<open>i\<close> on.\<close>

definition caches_at :: "nat \<Rightarrow> nat \<Rightarrow> bytes \<Rightarrow> bool" where
  "caches_at i b im \<longleftrightarrow>
     list_all (\<lambda>(b, es). read_directory im [b] = Some es) (List.enumerate b (cache_dirs (fixed_at 12) (cache_at i))) \<and>
     rows_at im (cache_rows (cache_at i) (cache_blocks_at b))"

lemmas cache_entries = cache_dirs_def zg_entries_def zc_entries_def tmp_entries_def

lemma cache_dirs_small: "1 \<le> i \<Longrightarrow> i < 60000 \<Longrightarrow> list_all small_dir (cache_dirs (fixed_at 12) (cache_at i))"
  by (simp add: cache_entries fixed_at_def cache_at_def small_dir_simps)

lemma cache_row_inodes: "set (map fst (cache_rows (cache_at i) b)) = {i..<i + 13}"
proof -
  have "map fst (cache_rows (cache_at i) b) = [i..<i + 13]"
    by (simp add: cache_rows_def cache_at_def upt_rec)
  then show ?thesis by (simp only: set_upt)
qed

context zone_source
begin

lemma triple_cache_inodes:
  assumes "ni + 13 \<le> m + 1"
  shows "triple False (Need nb hb ni) (alloc_cache_inodes alloc_ino) (cache_at ni) {} (Need (nb + 0) hb (ni + 13)) (\<lambda>_. True)"
proof (rule triple_low, unfold need_parts)
  fix s assume s: "ready s" "next_inode s = ni"
  have run: "alloc_ino t = Inr (next_inode t, next_inode_update (\<lambda>n. n + 1) t)" if "next_inode t \<le> m" for t
    using that by (rule alloc_ino)
  show "phase (alloc_cache_inodes alloc_ino) s (cache_at ni) {} (Need 0 0 13) (\<lambda>_. True)"
    by (rule phase_inodes[OF s(1)])
      (use assms s(2) in \<open>simp add: alloc_cache_inodes_def py_bind_run run cache_at_def comp_def\<close>)
qed

lemma triple_cache_blocks:
  assumes "nb + 14 \<le> lim False" "1 \<le> i" "i < 60000"
  shows "triple False (Need nb hb ni) (put_cache_blocks alloc (fixed_at 12) (cache_at i)) (cache_blocks_at nb) {} (Need (nb + 14) hb (ni + 0))
    (\<lambda>im. list_all (\<lambda>(b, es). read_directory im [b] = Some es) (List.enumerate nb (cache_dirs (fixed_at 12) (cache_at i))))"
proof (rule triple_low, unfold need_parts)
  have l: "length (cache_dirs (fixed_at 12) (cache_at i)) = 14" by (simp add: cache_dirs_def)
  fix s assume s: "ready s" "nxt s = nb" "limit s = lim False"
  show "phase (put_cache_blocks alloc (fixed_at 12) (cache_at i)) s (cache_blocks_at nb) {} (blk (zone s) 14)
    (\<lambda>im. list_all (\<lambda>(b, es). read_directory im [b] = Some es) (List.enumerate nb (cache_dirs (fixed_at 12) (cache_at i))))"
    unfolding collect_cache_blocks
    by (rule phase_mono[OF phase_map[OF phase_put_dir_blocks[OF s(1) _ cache_dirs_small[OF assms(2,3)]]]])
      (use assms(1) s in \<open>simp_all add: l cache_blocks_at_def\<close>)
qed

lemma triple_tmp_dir:
  assumes "nb + 14 \<le> lim False" "nb + 14 \<le> TOTAL_BLOCKS" "1 \<le> ni" "ni + 13 \<le> m + 1" "ni < 60000" "clock_ok now"
  shows "triple False (Need nb hb ni) (put_tmp_dir now alloc alloc_ino (fixed_at 12)) (nb + 13) {ni..<ni + 13} (Need (nb + 14) hb (ni + 13)) (caches_at ni nb)"
proof -
  let ?c = "cache_at ni" and ?b = "cache_blocks_at nb"
  have i: "triple False (Need nb hb ni) (alloc_cache_inodes alloc_ino) ?c {} (Need nb hb (ni + 13)) (\<lambda>_. True)"
    using triple_cache_inodes[OF assms(4), of nb hb] by simp
  have b: "triple False (Need nb hb (ni + 13)) (put_cache_blocks alloc (fixed_at 12) ?c) ?b {} (Need (nb + 14) hb (ni + 13))
      (\<lambda>im. list_all (\<lambda>(b, es). read_directory im [b] = Some es) (List.enumerate nb (cache_dirs (fixed_at 12) ?c)))"
    using triple_cache_blocks[OF assms(1,3,5), of hb "ni + 13"] by simp
  have r: "triple False (Need (nb + 14) hb (ni + 13)) (py_each (write_row now) (cache_rows ?c ?b)) () {ni..<ni + 13} (Need (nb + 14) hb (ni + 13))
      (\<lambda>im. rows_at im (cache_rows ?c ?b))"
    unfolding cache_row_inodes[symmetric, of ni ?b]
    by (rule triple_rows) (use assms in \<open>simp_all add: cache_rows_def cache_at_def cache_blocks_at_def row_ok_def layout\<close>)
  show ?thesis
    unfolding put_tmp_dir_def
    by (rule triple_mono, rule triple_bind, rule i, rule triple_bind, rule b, rule triple_seq, rule r, rule triple_ret)
      (simp_all add: caches_at_def cache_blocks_at_def)
qed

end

section \<open>What a reader finds under \<^verbatim>\<open>/tmp\<close>\<close>

definition tmp_tree :: host where
  "tmp_tree = HDir (Some
     [(''zig-global'', HDir (Some (map (\<lambda>n. (n, HDir (Some []))) [''b'', ''h'', ''p'', ''tmp'', ''o'']))),
      (''zig-cache'', HDir (Some (map (\<lambda>n. (n, HDir (Some []))) [''b'', ''h'', ''p'', ''tmp'', ''z'', ''o''])))])"

lemma caches_bm:
  assumes "caches_at i b im" and "b + 14 \<le> TOTAL_BLOCKS" and t: "inode_at im 23 0x43FF BLOCK_SIZE [b + 13] None None"
  defines "c \<equiv> cache_at i"
  shows "list_all (\<lambda>j. bm_dir im j = Some [(j, ''.'', FT_DIR), (i, ''..'', FT_DIR)]) [i + 1, i + 2, i + 3, i + 4, i + 5]"
    and "list_all (\<lambda>j. bm_dir im j = Some [(j, ''.'', FT_DIR), (i + 6, ''..'', FT_DIR)]) [i + 7, i + 8, i + 9, i + 10, i + 11, i + 12]"
    and "bm_dir im i = Some (zg_entries (fixed_at 12) c)" and "bm_dir im (i + 6) = Some (zc_entries (fixed_at 12) c)"
    and "bm_dir im 23 = Some (tmp_entries (fixed_at 12) c)"
proof -
  have rd: "\<And>k es. (k, es) \<in> set (List.enumerate b (cache_dirs (fixed_at 12) c)) \<Longrightarrow> read_directory im [k] = Some es"
    using assms(1) by (auto simp: caches_at_def c_def list_all_iff)
  have ino: "\<And>r. r \<in> set (cache_rows c (cache_blocks_at b)) \<Longrightarrow>
      (case r of (ino, mode, i_size, block, nlink, uid, gid) \<Rightarrow> inode_at im ino mode i_size [block] None None)"
    using assms(1) by (auto simp: caches_at_def c_def rows_at_def list_all_iff)
  have at: "bm_dir im j = Some es" if "(k, es) \<in> set (List.enumerate b (cache_dirs (fixed_at 12) c))"
    "(j, 0x41ED, BLOCK_SIZE, k, n, 0, 0) \<in> set (cache_rows c (cache_blocks_at b))" "k < b + 14" for j k n es
    using small_dir_readable[OF rd[OF that(1)], of j "0x41ED"] ino[OF that(2)] that(3) assms(2) by simp
  let ?g = "\<lambda>j. [(j, ''.'', FT_DIR), (i, ''..'', FT_DIR)]" and ?z = "\<lambda>j. [(j, ''.'', FT_DIR), (i + 6, ''..'', FT_DIR)]"
  note d = cache_dirs_def c_def cache_at_def cache_rows_def cache_blocks_at_def
  show "list_all (\<lambda>j. bm_dir im j = Some (?g j)) [i + 1, i + 2, i + 3, i + 4, i + 5]"
    using at[of b "?g (i + 1)" "i + 1" 2] at[of "b + 1" "?g (i + 2)" "i + 2" 2] at[of "b + 2" "?g (i + 3)" "i + 3" 2]
      at[of "b + 3" "?g (i + 4)" "i + 4" 2] at[of "b + 4" "?g (i + 5)" "i + 5" 2] by (simp add: d)
  show "list_all (\<lambda>j. bm_dir im j = Some (?z j)) [i + 7, i + 8, i + 9, i + 10, i + 11, i + 12]"
    using at[of "b + 5" "?z (i + 7)" "i + 7" 2] at[of "b + 6" "?z (i + 8)" "i + 8" 2] at[of "b + 7" "?z (i + 9)" "i + 9" 2]
      at[of "b + 8" "?z (i + 10)" "i + 10" 2] at[of "b + 9" "?z (i + 11)" "i + 11" 2] at[of "b + 10" "?z (i + 12)" "i + 12" 2]
    by (simp add: d)
  show "bm_dir im i = Some (zg_entries (fixed_at 12) c)"
    using at[of "b + 11" "zg_entries (fixed_at 12) c" i 7] by (simp add: d)
  show "bm_dir im (i + 6) = Some (zc_entries (fixed_at 12) c)"
    using at[of "b + 12" "zc_entries (fixed_at 12) c" "i + 6" 8] by (simp add: d)
  have "read_directory im [b + 13] = Some (tmp_entries (fixed_at 12) c)" by (rule rd) (simp add: d)
  then show "bm_dir im 23 = Some (tmp_entries (fixed_at 12) c)" using t by (rule small_dir_readable) (use assms(2) in simp)
qed

lemma caches_readable:
  assumes "caches_at i b im" "b + 14 \<le> TOTAL_BLOCKS" "inode_at im 23 0x43FF BLOCK_SIZE [b + 13] None None"
  shows "read_node bm_file bm_dir (Suc (Suc (Suc n))) im 2 (23, ''tmp'', FT_DIR) = Some tmp_tree"
  using caches_bm[OF assms]
  by (simp add: tmp_tree_def zg_entries_def zc_entries_def tmp_entries_def cache_at_def fixed_at_def FT_DIR_def FT_REG_def)

end
