(* ===== verification/Ext2_Main.thy ===== *)
theory Ext2_Main
  imports Cache_Dirs
begin

text \<open>
  \<^verbatim>\<open>main\<close> of \<^verbatim>\<open>make_ext2_img.py\<close>: all its phases in the order of the script, in the zone of the
  block bitmap and in the overflow zone, and what the finished image shows to a reader.
\<close>

section \<open>Fixed content\<close>

definition e2_texts :: fixed_texts where
  \<open>e2_texts = \<lparr>
     hello_txt = raw_bytes (''Hello from ext2!'' @ nl),
     test2_txt = raw_bytes (''Nested file works'' @ nl),
     motd_txt = raw_bytes (''Welcome to Zigix!'' @ nl @ ''A minimal Unix-like OS written in Zig.'' @ nl @
       ''Powered by the Quantum Zig Forge software stack.'' @ nl),
     passwd_txt = passwd_data,
     www_index_txt = raw_bytes (''<html>'' @ nl @ ''<head><title>Zigix</title></head>'' @ nl @ ''<body>'' @ nl @
       ''<h1>Welcome to Zigix</h1>'' @ nl @ ''<p>Served by zhttpd on bare metal.</p>'' @ nl @
       ''<p><a href="/hello.txt">hello.txt</a> | <a href="/etc/">/etc/</a> | <a href="/bin/">/bin/</a></p>'' @ nl @
       ''</body>'' @ nl @ ''</html>'' @ nl),
     hello_zig_txt = raw_bytes (''const std = @import("std");'' @ nl @ ''pub fn main() !void {'' @ nl @
       ''    const stdout = std.io.getStdOut();'' @ nl @
       ''    _ = try stdout.write("Hello from Zigix!'' @ [CHR 0x5C] @ ''n");'' @ nl @ ''}'' @ nl)\<rparr>\<close>

text \<open>The swap file, 16 MiB of zeros.\<close>

definition swapfile_size :: nat where
  "swapfile_size = 16 * 1024 * 1024"

definition swap_file :: "string \<times> bytes" where
  "swap_file = (''swapfile'', zeros swapfile_size)"

section \<open>The script\<close>

text \<open>Up to the binaries: inode numbers, fixed files, the directories under \<^verbatim>\<open>/tmp\<close> and the others.\<close>

definition e2_early :: "int \<Rightarrow> (ext2_state, fixed_inodes \<times> test_blocks \<times> nat \<times> home_blocks) py" where
  "e2_early now =
     py_bind (alloc_fixed_inodes e2_alloc_inode) (\<lambda>f.
     py_bind (put_test_blocks e2_alloc_block e2_texts) (\<lambda>tb.
     py_bind (put_tmp_dir now e2_alloc_block e2_alloc_inode f) (\<lambda>tmp_block.
     py_bind (put_home_blocks e2_alloc_block f) (\<lambda>hb.
     py_ret (f, tb, tmp_block, hb)))))"

definition e2_write_inodes ::
  "int \<Rightarrow> fixed_inodes \<times> test_blocks \<times> nat \<times> home_blocks \<Rightarrow> late_blocks \<Rightarrow> nat list \<Rightarrow> file_info \<Rightarrow> bins_info \<Rightarrow>
   nat list \<Rightarrow> file_info list \<Rightarrow> nat option \<Rightarrow> (ext2_state, unit) py" where
  "e2_write_inodes now = (\<lambda>(f, tb, tmp_block, hb) lb root_blocks swap bins bin_blocks script_info zig_ino.
     py_seq (write_dir_inode now 2 root_blocks (root_nlink (fst bins) zig_ino))
     (py_seq (py_each (write_row now) (fixed_rows e2_texts f tb hb lb tmp_block 4))
     (py_seq (write_file_inode now 0x8180 swap)
     (py_seq (write_bins now bins bin_blocks)
     (py_each (write_file_inode now 0x81A4) script_info)))))"

text \<open>Binaries, scripts and the copy of the host tree.\<close>

definition e2_contents :: "int \<Rightarrow> image_args \<Rightarrow> (ext2_state, bins_info \<times> file_info list \<times> nat option) py" where
  "e2_contents now a =
     py_bind (put_binaries in_high_zone e2_alloc_block e2_alloc_inode (shell_binary a) (bins_of a)) (\<lambda>bins.
     py_bind (put_files e2_alloc_block e2_alloc_inode (read_files (scripts_listing a))) (\<lambda>script_info.
     py_bind (e2_tree_dir now (zig_tree a)) (\<lambda>zig_ino.
     py_ret (bins, script_info, zig_ino))))"

text \<open>The directories whose entries are known only now, and the swap file.\<close>

definition e2_directories ::
  "fixed_inodes \<Rightarrow> bins_info \<times> file_info list \<times> nat option \<Rightarrow>
   (ext2_state, late_blocks \<times> nat list \<times> file_info \<times> nat list) py" where
  "e2_directories f = (\<lambda>(bins, script_info, zig_ino).
     py_bind (put_late_blocks e2_alloc_block f) (\<lambda>lb.
     py_bind (put_bin_dir e2_write_dir_blocks bins) (\<lambda>bin_blocks.
     py_bind (put_file e2_alloc_block e2_alloc_inode swap_file) (\<lambda>swap.
     py_bind (e2_write_dir_blocks (root_entries_list f [info_entry swap] script_info (fst bins) zig_ino)) (\<lambda>root_blocks.
     py_ret (lb, bin_blocks, swap, root_blocks))))))"

definition e2_populate :: "int \<Rightarrow> image_args \<Rightarrow> (ext2_state, bool \<times> bool) py" where
  "e2_populate now a =
     py_bind (e2_early now) (\<lambda>early.
     py_bind (e2_contents now a) (\<lambda>(bins, script_info, zig_ino).
     py_bind (e2_directories (fst early) (bins, script_info, zig_ino)) (\<lambda>(lb, bin_blocks, swap, root_blocks).
     py_seq (e2_write_inodes now early lb root_blocks swap bins bin_blocks script_info zig_ino)
     (py_seq (e2_journal now)
     (py_ret (fst bins \<noteq> None, zig_ino \<noteq> None))))))"

definition e2_main :: "int \<Rightarrow> image_args \<Rightarrow> bytes result" where
  "e2_main now a =
     res_bind (py_bind (e2_populate now a) (\<lambda>(has_bin, has_zig). e2_write_metadata now has_bin has_zig) e2_init)
       (\<lambda>(_, s). Inr (img s))"

section \<open>Layout\<close>

text \<open>The overflow zone: binaries, the host tree, the journal.\<close>

definition e2_zig_blk :: "image_args \<Rightarrow> nat" where
  "e2_zig_blk a = BITMAP_CAPACITY + files_blocks bm_span (bin_files_of a)"

definition e2_journal_blk :: "image_args \<Rightarrow> nat" where
  "e2_journal_blk a = e2_zig_blk a + opt_blocks bm_span (zig_tree a)"

text \<open>The zone of the bitmap.\<close>

definition e2_late_blk :: "image_args \<Rightarrow> nat" where
  "e2_late_blk a = 1052 + files_blocks bm_span (scripts_of a)"

definition e2_swap_blk :: "image_args \<Rightarrow> nat" where
  "e2_swap_blk a = e2_late_blk a + 3 + bin_dir_blocks (shell_binary a) (bins_of a)"

definition e2_root_blk :: "image_args \<Rightarrow> nat" where
  "e2_root_blk a = e2_swap_blk a + bm_span (snd swap_file)"

definition e2_blocks :: "image_args \<Rightarrow> nat" where
  "e2_blocks a = e2_root_blk a + names_span (root_names_of [''swapfile''] a)"

definition e2_swap_ino :: "image_args \<Rightarrow> nat" where
  "e2_swap_ino a = zig_ino_of 38 a + opt_inodes (zig_tree a)"

definition e2_inodes :: "image_args \<Rightarrow> nat" where
  "e2_inodes a = e2_swap_ino a + 1"

definition e2_args_ok :: "image_args \<Rightarrow> bool" where
  "e2_args_ok a \<longleftrightarrow> files_ok (bin_files_of a) \<and> files_ok (scripts_of a) \<and> opt_ok e2_dir_names_ok (zig_tree a) \<and>
     (has_bin_of a \<longrightarrow> e2_dir_names_ok (bin_names (shell_binary a) (bins_of a))) \<and>
     e2_dir_names_ok (root_names_of [''swapfile''] a) \<and> e2_blocks a \<le> BITMAP_CAPACITY \<and>
     e2_journal_blk a + 1024 \<le> TOTAL_BLOCKS \<and> e2_inodes a \<le> e2_INODES_PER_GROUP + 1"

lemmas e2_layout = e2_blocks_def e2_root_blk_def e2_swap_blk_def e2_late_blk_def

lemma e2_texts_ok: "texts_ok e2_texts"
  by (simp add: texts_ok_def text_ok_def e2_texts_def passwd_data_def nl_def BLOCK_SIZE_def)

section \<open>The phases\<close>

definition e2_early_at :: "bytes \<Rightarrow> bool" where
  "e2_early_at im \<longleftrightarrow> tests_written e2_texts 1028 im \<and> caches_at 25 1034 im \<and> homes_written 1048 im"

lemma e2_triple_early:
  assumes "clock_ok now"
  shows "e2z.triple now False (Need 1028 32768 12) (e2_early now) (fixed_at 12, test_at 1028, 1047, home_at 1048) {25..<38}
    (Need 1052 32768 38) e2_early_at"
proof -
  have f: "e2z.triple now False (Need 1028 32768 12) (alloc_fixed_inodes e2_alloc_inode) (fixed_at 12) {} (Need 1028 32768 25) (\<lambda>_. True)"
    using e2z.triple_fixed_inodes[of 12 now 1028 32768] by (simp add: layout)
  have t: "e2z.triple now False (Need 1028 32768 25) (put_test_blocks e2_alloc_block e2_texts) (test_at 1028) {} (Need 1034 32768 25) (tests_written e2_texts 1028)"
    using e2z.triple_test_blocks[OF _ e2_texts_ok, of 1028 now 32768 25] by (simp add: layout)
  have d: "e2z.triple now False (Need 1034 32768 25) (put_tmp_dir now e2_alloc_block e2_alloc_inode (fixed_at 12)) 1047 {25..<38} (Need 1048 32768 38) (caches_at 25 1034)"
    using e2z.triple_tmp_dir[of 1034 25 now now 32768] assms by (simp add: layout)
  have h: "e2z.triple now False (Need 1048 32768 38) (put_home_blocks e2_alloc_block (fixed_at 12)) (home_at 1048) {} (Need 1052 32768 38) (homes_written 1048)"
    using e2z.triple_home_blocks[of 1048 now 32768 38] by (simp add: layout)
  show ?thesis
    unfolding e2_early_def
    by (rule e2z.triple_mono, rule e2z.triple_bind, rule f, rule e2z.triple_bind, rule t,
        rule e2z.triple_bind, rule d, rule e2z.triple_bind, rule h, rule e2z.triple_ret) (simp_all add: e2_early_at_def)
qed

lemma e2_triple_in_high:
  assumes "e2z.triple now True c p r J c' P"
  shows "e2z.triple now False c (in_high_zone p) r J c' P"
  unfolding e2z.triple_def
proof (intro allI impI)
  fix s assume s: "e2_zone_ready now s" "use_high_zone s = False" "e2_ctr s = c"
  let ?s = "s\<lparr>use_high_zone := True\<rparr>"
  have "e2_zone_ready now ?s" "use_high_zone ?s = True" "e2_ctr ?s = c" using s by (simp_all add: e2_zone_switch)
  then obtain d where "c' = c + d" "e2z.phase now p ?s r J d P" using assms unfolding e2z.triple_def by blast
  then show "\<exists>d. c' = c + d \<and> e2z.phase now (in_high_zone p) s r J d P" using phase_in_high[of now p s r J d P] s(2) by auto
qed

lemma e2_triple_binaries:
  assumes "hb + files_blocks bm_span (bin_files shell bins) \<le> TOTAL_BLOCKS" "ni + bin_inodes shell bins \<le> e2_INODES_PER_GROUP + 1"
  shows "e2z.triple now False (Need nb hb ni) (put_binaries in_high_zone e2_alloc_block e2_alloc_inode shell bins) (bins_at ni hb shell bins) {}
    (Need nb (hb + files_blocks bm_span (bin_files shell bins)) (ni + bin_inodes shell bins))
    (\<lambda>im. infos_data im hb (bin_files shell bins))"
proof (cases "has_bin shell bins")
  case True
  have le: "ni + 1 + length (bin_files shell bins) \<le> e2_INODES_PER_GROUP + 1" using assms(2) True by (simp add: bin_inodes_yes)
  have "hb + files_blocks bm_span (bin_files shell bins) \<le> (if True then TOTAL_BLOCKS else BITMAP_CAPACITY)" using assms(1) by simp
  note b = e2_triple_in_high[OF e2z.triple_bin_files_high[OF this le, of now nb]]
  show ?thesis
    by (rule e2z.triple_binaries[where w = in_high_zone, OF b _ _ assms(2)]) (use True in \<open>simp_all add: bins_at_def\<close>)
next
  case False
  then show ?thesis
    using e2z.triple_ret[of now False "Need nb hb ni" "(None, None, [])"]
    by (simp add: put_binaries_def bins_at_def bin_inodes_def no_bin files_blocks_def del: py_ret_run)
qed

lemma e2_triple_tree:
  assumes "ni + opt_inodes tree \<le> e2_INODES_PER_GROUP + 1" "hb + opt_blocks bm_span tree \<le> TOTAL_BLOCKS" "opt_ok e2_dir_names_ok tree"
  shows "e2z.triple now False (Need nb hb ni) (e2_tree_dir now tree) (opt_ino ni tree) {ni..<ni + opt_inodes tree}
    (Need nb (hb + opt_blocks bm_span tree) (ni + opt_inodes tree)) (\<lambda>im. opt_read bm_file bm_dir im ''zig'' ni tree)"
proof (rule e2z.triple_intro)
  fix s assume s: "e2_zone_ready now s" "use_high_zone s = False" "e2_ctr s = Need nb hb ni"
  then have "high_block s = hb" "next_inode s = ni" by (simp_all add: e2_ctr_def)
  with e2_phase_tree_dir[OF s(1), of tree "''zig''"] assms s(2)
  show "e2z.phase now (e2_tree_dir now tree) s (opt_ino ni tree) {ni..<ni + opt_inodes tree}
      (Need 0 (opt_blocks bm_span tree) (opt_inodes tree)) (\<lambda>im. opt_read bm_file bm_dir im ''zig'' ni tree)"
    by (simp add: is_ascii_def)
qed simp

lemma e2_triple_journal:
  assumes "hb + 1024 \<le> TOTAL_BLOCKS"
  shows "e2z.triple now False (Need nb hb ni) (e2_journal now) () {8} (Need nb (hb + 1024) ni) (\<lambda>im. e2_journal_at im hb)"
proof (rule e2z.triple_intro)
  fix s assume s: "e2_zone_ready now s" "use_high_zone s = False" "e2_ctr s = Need nb hb ni"
  then have "high_block s = hb" by (simp add: e2_ctr_def)
  with e2_phase_journal[OF s(1)] assms s(2)
  show "e2z.phase now (e2_journal now) s () {8} (Need 0 1024 0) (\<lambda>im. e2_journal_at im hb)" by simp
qed simp


section \<open>The inodes\<close>

definition e2_contents_at :: "image_args \<Rightarrow> bytes \<Rightarrow> bool" where
  "e2_contents_at a im \<longleftrightarrow> infos_data im BITMAP_CAPACITY (bin_files_of a) \<and> infos_data im 1052 (scripts_of a) \<and>
     opt_read bm_file bm_dir im ''zig'' (zig_ino_of 38 a) (zig_tree a)"

definition e2_directories_at :: "image_args \<Rightarrow> bytes \<Rightarrow> bool" where
  "e2_directories_at a im \<longleftrightarrow> lates_written (e2_late_blk a) im \<and>
     (has_bin_of a \<longrightarrow> read_directory im [e2_late_blk a + 3..<e2_swap_blk a] = Some (bin_entries 38 (shell_binary a) (bins_of a))) \<and>
     log_at im (file_log (e2_swap_blk a) (snd swap_file)) \<and>
     read_directory im [e2_root_blk a..<e2_blocks a] = Some (root_entries_of 38 [(e2_swap_ino a, ''swapfile'', FT_REG)] a)"

definition e2_blocks_at :: "image_args \<Rightarrow> bytes \<Rightarrow> bool" where
  "e2_blocks_at a im \<longleftrightarrow> e2_early_at im \<and> e2_contents_at a im \<and> e2_directories_at a im \<and> e2_journal_at im (e2_journal_blk a)"

lemmas e2_blocks_at_defs = e2_blocks_at_def e2_contents_at_def e2_directories_at_def

definition e2_inodes_at :: "image_args \<Rightarrow> bytes \<Rightarrow> bool" where
  "e2_inodes_at a im \<longleftrightarrow>
     inode_at im 2 0x41ED ((e2_blocks a - e2_root_blk a) * BLOCK_SIZE) [e2_root_blk a..<e2_blocks a] None None \<and>
     rows_at im (fixed_rows e2_texts (fixed_at 12) (test_at 1028) (home_at 1048) (late_at (e2_late_blk a)) 1047 4) \<and>
     file_inode_at im 0x8180 (e2_swap_ino a) (e2_swap_blk a) (snd swap_file) \<and>
     (has_bin_of a \<longrightarrow>
        inode_at im 38 0x41ED ((e2_swap_blk a - (e2_late_blk a + 3)) * BLOCK_SIZE) [e2_late_blk a + 3..<e2_swap_blk a] None None \<and>
        infos_inodes im (file_mode True) 39 BITMAP_CAPACITY (bin_files_of a)) \<and>
     infos_inodes im (file_mode False) (scripts_ino 38 a) 1052 (scripts_of a)"

lemma swap_file_ok: "length (snd swap_file) < 2 ^ 32" "fst swap_file = ''swapfile''"
  by (simp_all add: swap_file_def swapfile_size_def)

text \<open>The bounds that the arguments imply.\<close>

lemma e2_bounds:
  assumes "e2_args_ok a"
  shows "e2_blocks a \<le> TOTAL_BLOCKS" "e2_zig_blk a \<le> TOTAL_BLOCKS" "e2_swap_ino a \<le> e2_INODES_PER_GROUP"
    "38 \<le> scripts_ino 38 a" "scripts_ino 38 a \<le> zig_ino_of 38 a" "zig_ino_of 38 a \<le> e2_swap_ino a"
    "e2_late_blk a + 3 \<le> TOTAL_BLOCKS" "e2_swap_blk a \<le> TOTAL_BLOCKS" "e2_root_blk a \<le> TOTAL_BLOCKS"
    "names_span (root_names_of [''swapfile''] a) \<le> 12" "bin_dir_blocks (shell_binary a) (bins_of a) \<le> 12"
  using assms zone_bounds(2)
  by (auto simp: e2_args_ok_def e2_inodes_def e2_swap_ino_def scripts_ino_def zig_ino_of_def e2_layout e2_journal_blk_def
      e2_dir_names_ok_def bin_dir_blocks_def)

lemma e2_rows_ok:
  assumes "e2_late_blk a + 3 \<le> TOTAL_BLOCKS"
  shows "list_all row_ok (fixed_rows e2_texts (fixed_at 12) (test_at 1028) (home_at 1048) (late_at (e2_late_blk a)) 1047 4)"
    and "list_all (\<lambda>r. fst r \<le> e2_INODES_PER_GROUP) (fixed_rows e2_texts (fixed_at 12) (test_at 1028) (home_at 1048) (late_at (e2_late_blk a)) 1047 4)"
  using assms e2_texts_ok
  by (simp_all add: fixed_rows_def row_ok_def fixed_at_def test_at_def home_at_def late_at_def texts_ok_def text_ok_def layout)

lemma e2_triple_inodes:
  assumes ok: "e2_args_ok a" and now: "clock_ok now"
  shows "e2z.triple now False c
    (e2_write_inodes now (fixed_at 12, test_at 1028, 1047, home_at 1048) (late_at (e2_late_blk a)) [e2_root_blk a..<e2_blocks a]
      (info_of (e2_swap_ino a) (e2_swap_blk a) swap_file)
      (bins_at 38 BITMAP_CAPACITY (shell_binary a) (bins_of a)) [e2_late_blk a + 3..<e2_swap_blk a]
      (infos (scripts_ino 38 a) 1052 (scripts_of a)) (opt_ino (zig_ino_of 38 a) (zig_tree a))) ()
    ({2} \<union> ({11..<25} \<union> ({e2_swap_ino a} \<union> ({38..<scripts_ino 38 a} \<union> {scripts_ino 38 a..<zig_ino_of 38 a})))) c (e2_inodes_at a)"
proof -
  let ?bd = "bin_dir_blocks (shell_binary a) (bins_of a)" and ?rd = "names_span (root_names_of [''swapfile''] a)"
  note bd = e2_bounds[OF ok]
  have root: "e2z.triple now False c (write_dir_inode now 2 [e2_root_blk a..<e2_root_blk a + ?rd]
      (root_nlink (fst (bins_at 38 BITMAP_CAPACITY (shell_binary a) (bins_of a))) (opt_ino (zig_ino_of 38 a) (zig_tree a)))) () {2} c
      (\<lambda>im. inode_at im 2 0x41ED (?rd * BLOCK_SIZE) [e2_root_blk a..<e2_root_blk a + ?rd] None None)"
    by (rule e2z.triple_dir_inode) (use bd now in \<open>auto simp: e2_blocks_def root_nlink_def layout\<close>)
  let ?rows = "fixed_rows e2_texts (fixed_at 12) (test_at 1028) (home_at 1048) (late_at (e2_late_blk a)) 1047 4"
  have rows: "e2z.triple now False c (py_each (write_row now) ?rows) () {11..<25} c (\<lambda>im. rows_at im ?rows)"
    unfolding fixed_row_inodes[symmetric, of e2_texts "test_at 1028" "home_at 1048" "late_at (e2_late_blk a)" 1047 4]
    by (rule e2z.triple_rows[OF e2_rows_ok[OF bd(7)] _ now]) (simp add: fixed_rows_def fixed_at_def)
  have swap: "e2z.triple now False c (write_file_inode now 0x8180 (info_of (e2_swap_ino a) (e2_swap_blk a) swap_file)) () {e2_swap_ino a} c
      (\<lambda>im. file_inode_at im 0x8180 (e2_swap_ino a) (e2_swap_blk a) (snd swap_file))"
    by (rule e2z.triple_same, rule e2z.phase_file_inode) (use bd now swap_file_ok in \<open>simp_all add: e2_root_blk_def clock_ok_def\<close>)
  have bins: "e2z.triple now False c (write_bins now (bins_at 38 BITMAP_CAPACITY (shell_binary a) (bins_of a)) [e2_late_blk a + 3..<e2_late_blk a + 3 + ?bd]) ()
      {38..<38 + bin_inodes (shell_binary a) (bins_of a)} c (\<lambda>im. has_bin_of a \<longrightarrow>
        inode_at im 38 0x41ED (?bd * BLOCK_SIZE) [e2_late_blk a + 3..<e2_late_blk a + 3 + ?bd] None None \<and>
        infos_inodes im (file_mode True) (38 + 1) BITMAP_CAPACITY (bin_files_of a))"
    by (rule e2z.triple_write_bins)
      (use ok bd now in \<open>simp_all add: e2_args_ok_def e2_zig_blk_def e2_swap_blk_def scripts_ino_def zig_ino_of_def\<close>)
  have scr: "e2z.triple now False c (py_each (write_file_inode now (file_mode False)) (infos (scripts_ino 38 a) 1052 (scripts_of a))) ()
      {scripts_ino 38 a..<scripts_ino 38 a + length (scripts_of a)} c
      (\<lambda>im. infos_inodes im (file_mode False) (scripts_ino 38 a) 1052 (scripts_of a))"
    by (rule e2z.triple_file_inodes) (use ok bd now in \<open>simp_all add: e2_args_ok_def e2_late_blk_def zig_ino_of_def\<close>)
  have ends: "e2_blocks a = e2_root_blk a + ?rd" "e2_swap_blk a = e2_late_blk a + 3 + ?bd" by (simp_all add: e2_blocks_def e2_swap_blk_def)
  have fm: "0x81A4 = file_mode False" by (simp add: file_mode_def)
  show ?thesis
    unfolding e2_write_inodes_def prod.case ends(1) fm
    by (rule e2z.triple_mono, rule e2z.triple_seq, rule root, rule e2z.triple_seq, rule rows, rule e2z.triple_seq, rule swap,
        rule e2z.triple_seq, unfold ends(2), rule bins, rule scr)
      (use bd in \<open>auto simp: e2_inodes_at_def ends scripts_ino_def zig_ino_of_def bin_inodes_def\<close>)
qed


section \<open>The whole script\<close>

abbreviation e2_contents_of :: "image_args \<Rightarrow> bins_info \<times> file_info list \<times> nat option" where
  "e2_contents_of a \<equiv> (bins_at 38 BITMAP_CAPACITY (shell_binary a) (bins_of a), infos (scripts_ino 38 a) 1052 (scripts_of a),
     opt_ino (zig_ino_of 38 a) (zig_tree a))"

lemma e2_triple_contents:
  assumes ok: "e2_args_ok a"
  shows "e2z.triple now False (Need 1052 32768 38) (e2_contents now a) (e2_contents_of a) {zig_ino_of 38 a..<e2_swap_ino a}
    (Need (e2_late_blk a) (e2_journal_blk a) (e2_swap_ino a)) (e2_contents_at a)"
proof -
  let ?sh = "shell_binary a" and ?bs = "bins_of a" and ?sc = "sort_key fst (read_files (scripts_listing a))"
  let ?bins = "bins_at 38 BITMAP_CAPACITY ?sh ?bs" and ?bd = "bin_dir_blocks ?sh ?bs" and ?z = "opt_ino (zig_ino_of 38 a) (zig_tree a)"
  let ?hz = "e2_zig_blk a" and ?hj = "e2_journal_blk a"
  have sc: "?sc = scripts_of a" by (simp add: scripts_of_def)
  note bd = e2_bounds[OF ok]
  have le: "e2_blocks a \<le> BITMAP_CAPACITY" "?hj + 1024 \<le> TOTAL_BLOCKS" "e2_inodes a \<le> e2_INODES_PER_GROUP + 1"
    and lt: "zig_ino_of 38 a < 2 ^ 32" "e2_swap_ino a < 2 ^ 32"
    using ok bd by (simp_all add: e2_args_ok_def layout)
  have hi: "BITMAP_CAPACITY = 32768" by (simp add: layout)
  have b: "e2z.triple now False (Need 1052 32768 38) (put_binaries in_high_zone e2_alloc_block e2_alloc_inode ?sh ?bs) ?bins {}
      (Need 1052 ?hz (scripts_ino 38 a)) (\<lambda>im. infos_data im BITMAP_CAPACITY (bin_files_of a))"
    using e2_triple_binaries[of 32768 ?sh ?bs 38 now 1052] bd
    by (simp add: hi e2_zig_blk_def scripts_ino_def zig_ino_of_def)
  have s: "e2z.triple now False (Need 1052 ?hz (scripts_ino 38 a)) (put_files e2_alloc_block e2_alloc_inode (read_files (scripts_listing a)))
      (infos (scripts_ino 38 a) 1052 (scripts_of a)) {} (Need (e2_late_blk a) ?hz (zig_ino_of 38 a))
      (\<lambda>im. infos_data im 1052 (scripts_of a))"
    unfolding sc[symmetric]
    by (rule e2z.triple_mono[OF e2z.triple_put_files])
      (use le bd in \<open>simp_all only: sc, simp_all add: e2_layout zig_ino_of_def\<close>)
  have z: "e2z.triple now False (Need (e2_late_blk a) ?hz (zig_ino_of 38 a)) (e2_tree_dir now (zig_tree a)) ?z {zig_ino_of 38 a..<e2_swap_ino a}
      (Need (e2_late_blk a) ?hj (e2_swap_ino a)) (\<lambda>im. opt_read bm_file bm_dir im ''zig'' (zig_ino_of 38 a) (zig_tree a))"
    unfolding e2_journal_blk_def e2_swap_ino_def
    by (rule e2_triple_tree) (use le bd ok in \<open>simp_all add: e2_journal_blk_def e2_swap_ino_def e2_args_ok_def\<close>)
  show ?thesis
    unfolding e2_contents_def
    by (rule e2z.triple_mono, rule e2z.triple_bind, rule b, rule e2z.triple_bind, rule s,
        rule e2z.triple_bind, rule z, rule e2z.triple_ret) (simp_all add: e2_contents_at_def)
qed

lemma e2_triple_directories:
  assumes ok: "e2_args_ok a"
  shows "e2z.triple now False (Need (e2_late_blk a) (e2_journal_blk a) (e2_swap_ino a)) (e2_directories (fixed_at 12) (e2_contents_of a))
    (late_at (e2_late_blk a), [e2_late_blk a + 3..<e2_swap_blk a], info_of (e2_swap_ino a) (e2_swap_blk a) swap_file,
     [e2_root_blk a..<e2_blocks a]) {} (Need (e2_blocks a) (e2_journal_blk a) (e2_inodes a)) (e2_directories_at a)"
proof -
  let ?sh = "shell_binary a" and ?bs = "bins_of a"
  let ?bins = "bins_at 38 BITMAP_CAPACITY ?sh ?bs" and ?bd = "bin_dir_blocks ?sh ?bs"
  let ?sw = "[(e2_swap_ino a, ''swapfile'', FT_REG)]" and ?hj = "e2_journal_blk a"
  note bd = e2_bounds[OF ok]
  have le: "e2_blocks a \<le> BITMAP_CAPACITY" "?hj + 1024 \<le> TOTAL_BLOCKS" "e2_inodes a \<le> e2_INODES_PER_GROUP + 1"
    and lt: "zig_ino_of 38 a < 2 ^ 32" "e2_swap_ino a < 2 ^ 32"
    using ok bd by (simp_all add: e2_args_ok_def layout)
  have l: "e2z.triple now False (Need (e2_late_blk a) ?hj (e2_swap_ino a)) (put_late_blocks e2_alloc_block (fixed_at 12)) (late_at (e2_late_blk a)) {}
      (Need (e2_late_blk a + 3) ?hj (e2_swap_ino a)) (lates_written (e2_late_blk a))"
    using e2z.triple_late_blocks[of "e2_late_blk a" now ?hj "e2_swap_ino a"] le by (simp add: e2_blocks_def e2_root_blk_def e2_swap_blk_def)
  have d: "e2z.triple now False (Need (e2_late_blk a + 3) ?hj (e2_swap_ino a)) (put_bin_dir e2_write_dir_blocks ?bins) [e2_late_blk a + 3..<e2_swap_blk a] {}
      (Need (e2_swap_blk a) ?hj (e2_swap_ino a))
      (\<lambda>im. has_bin_of a \<longrightarrow> read_directory im [e2_late_blk a + 3..<e2_swap_blk a] = Some (bin_entries 38 ?sh ?bs))"
    unfolding e2_swap_blk_def e2_write_dir_blocks_def
    by (rule e2z.triple_mono[OF e2z.triple_bin_dir])
      (use le ok lt in \<open>simp_all add: e2_layout e2_args_ok_def e2_dir_names_ok_def names_fit_def list_all_iff scripts_ino_def zig_ino_of_def\<close>)
  have w: "e2z.triple now False (Need (e2_swap_blk a) ?hj (e2_swap_ino a)) (put_file e2_alloc_block e2_alloc_inode swap_file)
      (info_of (e2_swap_ino a) (e2_swap_blk a) swap_file) {} (Need (e2_root_blk a) ?hj (e2_inodes a))
      (\<lambda>im. log_at im (file_log (e2_swap_blk a) (snd swap_file)))"
    unfolding e2_root_blk_def e2_inodes_def
    by (rule e2z.triple_put_file) (use le bd in \<open>simp_all add: e2_blocks_def e2_root_blk_def\<close>)
  have sw: "entries_ok ?sw" "entry_names ?sw = [''swapfile'']" "[info_entry (info_of (e2_swap_ino a) (e2_swap_blk a) swap_file)] = ?sw"
    using lt(2) bd(4-6) by (simp_all add: entries_ok_def dirent_ok_def FT_REG_def is_ascii_def entry_names_def info_entry_of swap_file_ok)
  note ro = root_entries_ok23[of a 38 ?sw, OF _ lt(1) sw(1), unfolded sw(2)]
  have r: "e2z.triple now False (Need (e2_root_blk a) ?hj (e2_inodes a)) (e2_write_dir_blocks (root_entries_of 38 ?sw a)) [e2_root_blk a..<e2_blocks a] {}
      (Need (e2_blocks a) ?hj (e2_inodes a)) (\<lambda>im. read_directory im [e2_root_blk a..<e2_blocks a] = Some (root_entries_of 38 ?sw a))"
    unfolding e2_blocks_def e2_write_dir_blocks_def
    using e2z.triple_write_dir[of "e2_root_blk a" "root_entries_of 38 ?sw a" now ?hj "e2_inodes a"] ro ok le
    by (simp add: e2_args_ok_def e2_dir_names_ok_def names_fit_def list_all_iff e2_blocks_def)
  show ?thesis
    unfolding e2_directories_def prod.case
    by (rule e2z.triple_mono, rule e2z.triple_bind, rule l, rule e2z.triple_bind, rule d, rule e2z.triple_bind, rule w,
        rule e2z.triple_bind, unfold sw(3) root_entries_run, rule r, rule e2z.triple_ret) (simp_all add: e2_directories_at_def)
qed

lemma e2_triple_populate:
  assumes ok: "e2_args_ok a" and now: "clock_ok now"
  shows "\<exists>J. e2z.triple now False (Need 1028 32768 12) (e2_populate now a) (has_bin_of a, zig_tree a \<noteq> None) J
    (Need (e2_blocks a) (e2_journal_blk a + 1024) (e2_inodes a)) (\<lambda>im. e2_blocks_at a im \<and> e2_inodes_at a im)"
proof -
  let ?hj = "e2_journal_blk a"
  have le: "?hj + 1024 \<le> TOTAL_BLOCKS" using ok by (simp add: e2_args_ok_def)
  note i = e2_triple_inodes[OF ok now, of "Need (e2_blocks a) ?hj (e2_inodes a)"]
    and j = e2_triple_journal[OF le, of now "e2_blocks a" "e2_inodes a"]
  show ?thesis
    unfolding e2_populate_def
    by (intro exI, rule e2z.triple_mono, rule e2z.triple_bind, rule e2_triple_early[OF now], rule e2z.triple_bind,
        rule e2_triple_contents[OF ok], unfold prod.case fst_conv, rule e2z.triple_bind, rule e2_triple_directories[OF ok],
        unfold prod.case, rule e2z.triple_seq, rule i, rule e2z.triple_seq, rule j, rule e2z.triple_ret)
      (use e2_bounds[OF ok] in \<open>auto simp: e2_blocks_at_defs bins_at_ino opt_ino_def\<close>)
qed

section \<open>What a reader sees\<close>

abbreviation swap_nodes :: "(string \<times> host) list" where
  "swap_nodes \<equiv> [(''swapfile'', HFile (zeros swapfile_size) False)]"

lemma e2_image_read:
  assumes ok: "e2_args_ok a" and b: "e2_blocks_at a im" and i: "e2_inodes_at a im" and n: "3 \<le> n"
    and z: "zig_tree a \<noteq> None \<Longrightarrow> node_height (tree_node (zig_tree a)) \<le> n"
  shows "read_node bm_file bm_dir (Suc n) im 2 (2, name, FT_DIR) = Some (image_tree_of e2_texts tmp_tree swap_nodes a)"
proof -
  define k where "k = n - 3"
  have k: "n = Suc (Suc (Suc k))" using n by (simp add: k_def)
  let ?bd = "bin_dir_blocks (shell_binary a) (bins_of a)" and ?rd = "names_span (root_names_of [''swapfile''] a)"
  let ?sw = "[(e2_swap_ino a, ''swapfile'', FT_REG)]"
  note bd = e2_bounds[OF ok]
  have ends: "e2_blocks a = e2_root_blk a + ?rd" "e2_swap_blk a = e2_late_blk a + 3 + ?bd" by (simp_all add: e2_blocks_def e2_swap_blk_def)
  have fx: "fixed_holds e2_texts im"
    by (rule fixed_readable[of e2_texts 1028 im 1048 "e2_late_blk a" 1047 4])
      (use b i bd(7) e2_texts_ok in \<open>simp_all add: e2_blocks_at_defs e2_early_at_def e2_inodes_at_def ends, simp_all add: layout\<close>)
  have "inode_at im 23 0x43FF BLOCK_SIZE [1034 + 13] None None"
    using i by (simp add: e2_inodes_at_def rows_at_def fixed_rows_def fixed_at_def)
  then have tmp: "read_node bm_file bm_dir n im 2 (23, ''tmp'', FT_DIR) = Some tmp_tree"
    unfolding k by (intro caches_readable[of 25 1034]) (use b in \<open>simp_all add: e2_blocks_at_defs e2_early_at_def TOTAL_BLOCKS_def\<close>)
  have root: "bm_dir im 2 = Some (root_entries_of 38 ?sw a)"
    by (rule dir_readable[where nb = "e2_root_blk a" and k = ?rd and mode = "0x41ED"])
      (use b i bd in \<open>simp_all add: e2_blocks_at_defs e2_inodes_at_def ends(1)\<close>)
  have "bm_file im (e2_swap_ino a) = (0x8180, snd swap_file)"
    by (rule file_readable[where nb = "e2_swap_blk a"])
      (use b i bd(9) in \<open>simp_all add: e2_blocks_at_defs e2_inodes_at_def file_inode_at_def Let_def e2_root_blk_def\<close>)
  then have sw: "map (read_node bm_file bm_dir n im 2) ?sw = map (\<lambda>c. Some (snd c)) swap_nodes"
    by (simp add: k swap_file_def file_mode_def)
  have sc: "files_at (bm_file im) False (scripts_ino 38 a) (scripts_of a)"
    by (rule infos_readable[of im 1052])
      (use b i bd(7) in \<open>simp_all add: e2_blocks_at_defs e2_inodes_at_def e2_late_blk_def\<close>)
  have bin: "files_at (bm_file im) True (38 + 1) (bin_files_of a) \<and> bm_dir im 38 = Some (bin_entries 38 (shell_of a) (bins_of a))"
    if "has_bin_of a"
    by (rule bins_readable[OF that, of im BITMAP_CAPACITY "e2_late_blk a + 3" ?bd 38])
      (use that b i bd in \<open>simp_all add: e2_blocks_at_defs e2_inodes_at_def e2_zig_blk_def ends\<close>)
  show ?thesis
    by (rule root_readable[OF fx root k tmp sw _ sc _ _ z])
      (use bin b in \<open>simp_all add: e2_blocks_at_defs entry_names_def\<close>)
qed

lemma e2_init_ready: "clock_ok now \<Longrightarrow> e2_zone_ready now e2_init" "e2_ctr e2_init = Need 1028 32768 12" "\<not> use_high_zone e2_init"
  by (simp_all add: e2_zone_ready_def full_image_def e2_init_def e2_ctr_def layout)

text \<open>
  C2: for every set of arguments that fits, \<^verbatim>\<open>make_ext2_img.py\<close> produces a full-size image whose
  root directory reads back, through inodes, direct, indirect and double-indirect blocks of both
  zones, as exactly the tree the script means to build: the fixed files and directories, the cache
  directories under \<^verbatim>\<open>/tmp\<close>, the swap file, the scripts, the binaries under \<^verbatim>\<open>/bin\<close> and the copy of
  the host tree; the journal superblock is valid, and a bit of the bitmaps is set exactly for the
  inodes and the blocks of the bitmap zone in use.
\<close>

theorem e2_main_image:
  assumes "e2_args_ok a" and "clock_ok now" and "3 \<le> n"
    and "zig_tree a \<noteq> None \<Longrightarrow> node_height (tree_node (zig_tree a)) \<le> n"
  shows "\<exists>im. e2_main now a = Inr im \<and> length im = TOTAL_BLOCKS * BLOCK_SIZE \<and>
    read_node bm_file bm_dir (Suc n) im 2 (2, ''/'', FT_DIR) = Some (image_tree_of e2_texts tmp_tree swap_nodes a) \<and>
    e2_journal_at im (e2_journal_blk a) \<and> u16_at im (1024 + 56) = 0xEF53 \<and>
    (\<forall>b < BITMAP_CAPACITY. bit_of (block_at im 2) b \<longleftrightarrow> b < e2_blocks a) \<and>
    (\<forall>i < e2_INODES_PER_GROUP. bit_of (block_at im 3) i \<longleftrightarrow> i + 1 < e2_inodes a)"
proof -
  let ?lo = e2_FIRST_DATA_BLOCK and ?I = "{1..e2_INODES_PER_GROUP}"
  note bd = e2_bounds[OF assms(1)]
  obtain J where T: "e2z.triple now False (Need 1028 32768 12) (e2_populate now a) (has_bin_of a, zig_tree a \<noteq> None) J
      (Need (e2_blocks a) (e2_journal_blk a + 1024) (e2_inodes a)) (\<lambda>im. e2_blocks_at a im \<and> e2_inodes_at a im)"
    using e2_triple_populate[OF assms(1,2)] by blast
  have z: "use_high_zone e2_init = False" by (simp add: e2_init_ready(3))
  obtain d where d: "Need (e2_blocks a) (e2_journal_blk a + 1024) (e2_inodes a) = e2_ctr e2_init + d"
    and ph: "e2z.phase now (e2_populate now a) e2_init (has_bin_of a, zig_tree a \<noteq> None) J d (\<lambda>im. e2_blocks_at a im \<and> e2_inodes_at a im)"
    using T[unfolded e2z.triple_def, rule_format, OF e2_init_ready(1)[OF assms(2)] z e2_init_ready(2)] e2_init_ready(2) by auto
  obtain t where t: "e2_populate now a e2_init = Inr ((has_bin_of a, zig_tree a \<noteq> None), t)" "e2_zone_ready now t" "e2_ctr t = e2_ctr e2_init + d"
    "next_inode e2_init + tree_dirs_created t \<le> next_inode t + tree_dirs_created e2_init" "J \<subseteq> ?I"
    and P: "\<And>im. same_on (img t) im (e2_used t) J \<Longrightarrow> e2_blocks_at a im \<and> e2_inodes_at a im"
    using ph by (auto simp: e2z.phase_def)
  have "e2_ctr t = Need (e2_blocks a) (e2_journal_blk a + 1024) (e2_inodes a)" using t(3) d by simp
  then have c: "next_block t = e2_blocks a" "high_block t = e2_journal_blk a + 1024" "next_inode t = e2_inodes a" by (simp_all add: e2_ctr_def)
  have le: "e2_blocks a \<le> BITMAP_CAPACITY" "e2_journal_blk a + 1024 \<le> TOTAL_BLOCKS" "e2_inodes a \<le> e2_INODES_PER_GROUP + 1" "12 \<le> e2_inodes a"
    using assms(1) bd(4-6) by (simp_all add: e2_args_ok_def e2_inodes_def)
  have fin: "e2_finished t" using t(2,4) c le by (simp add: e2_finished_def e2_zone_ready_def e2_init_def layout)
  obtain u where u: "e2_write_metadata now (has_bin_of a) (zig_tree a \<noteq> None) t = Inr ((), u)" "full_image u"
    "u16_at (img u) (1024 + 56) = 0xEF53" "\<forall>b < BITMAP_CAPACITY. bit_of (block_at (img u) 2) b \<longleftrightarrow> b < next_block t"
    "\<forall>i < e2_INODES_PER_GROUP. bit_of (block_at (img u) 3) i \<longleftrightarrow> i + 1 < next_inode t"
    "agrees ?lo inode_offset INODE_SIZE (img t) (img u) TOTAL_BLOCKS ?I"
    using e2_metadata_law[OF fin assms(2), of "has_bin_of a" "zig_tree a \<noteq> None"] by blast
  have "same_on (img t) (img u) (e2_used t) J"
    using agrees_weaken[OF u(6) order.refl t(5)] by (rule agrees_same_on) (use c le zone_bounds in \<open>auto simp: e2_used_def\<close>)
  then have h: "e2_blocks_at a (img u)" "e2_inodes_at a (img u)" using P by blast+
  have "e2_main now a = Inr (img u)" using t(1) u(1) by (simp add: e2_main_def py_bind_run)
  then show ?thesis
    using u(2-5) h(1) c e2_image_read[OF assms(1) h assms(3,4), of "''/''"]
    by (auto simp: full_image_def e2_blocks_at_defs)
qed


lemma e2_small_names: "ns \<noteq> [] \<Longrightarrow> sum_list (map (\<lambda>n. min_rec_len (length n)) ns) \<le> BLOCK_SIZE \<Longrightarrow>
    e2_dir_names_ok ns \<and> names_span ns = 1"
  using names_small(1)[of ns] names_small(2)[of ns "\<lambda>_. True"] by (simp add: e2_dir_names_ok_def names_fit_def)

lemma swap_span: "bm_span (snd swap_file) = 4101"
proof -
  have "num_blocks_of (snd swap_file) = 4096"
    by (simp add: swap_file_def swapfile_size_def num_blocks_of_def ceil_div_def layout)
  then show ?thesis by (simp add: file_span_def data_span_def dind_groups_def ceil_div_def layout)
qed

lemma e2_sample_ok: "e2_args_ok sample_args"
proof -
  have d: "e2_dir_names_ok [''.'', ''..'', ''lib''] \<and> names_span [''.'', ''..'', ''lib''] = 1"
    "e2_dir_names_ok [''.'', ''..'', ''zsh'', ''ls''] \<and> names_span [''.'', ''..'', ''zsh'', ''ls''] = 1"
    "e2_dir_names_ok (root_names_of [''swapfile''] sample_args) \<and> names_span (root_names_of [''swapfile''] sample_args) = 1"
    by (rule e2_small_names; simp add: min_rec_len_def layout sample_facts)+
  then show ?thesis
    by (simp add: e2_args_ok_def sample_facts sample_layout files_ok_def is_ascii_def e2_inodes_def e2_swap_ino_def e2_layout
        e2_journal_blk_def e2_zig_blk_def swap_span opt_ok_def node_dir_simps layout)
qed

theorem e2_main_image_witness:
  "\<exists>im. e2_main 1700000000 sample_args = Inr im \<and>
     read_node bm_file bm_dir 4 im 2 (2, ''/'', FT_DIR) = Some (HDir (Some (fixed_nodes_of e2_texts tmp_tree @ swap_nodes @
       [(''bin'', HDir (Some [(''zsh'', HFile [0x7F] True), (''ls'', HFile [1, 2] True)])),
        (''zig'', HDir (Some [(''lib'', HFile [3] False)]))])))"
proof -
  have c: "clock_ok 1700000000" by (simp add: clock_ok_def)
  have h: "node_height (tree_node (zig_tree sample_args)) \<le> 3" using sample_height by simp
  have n: "Suc 3 = 4" by simp
  from e2_main_image[OF e2_sample_ok c order.refl h] show ?thesis
    unfolding sample_tree n by blast
qed

end
