(* ===== verification/Dir_Defects.thy ===== *)
theory Dir_Defects
  imports Dir_Read
begin

text \<open>
  The two cases in which \<^verbatim>\<open>write_dir_blocks\<close> does not write what was asked for: the last
  entry does not fit the current block (all three scripts), and a full block leaves 1 to 11
  bytes (\<^verbatim>\<open>make_ext3_img.py\<close> and \<^verbatim>\<open>make_ext4_img.py\<close>); followed by inputs on which the round-trip
  theorems and the theorems of this theory apply.
\<close>

lemma oversized_write:
  assumes "BLOCK_SIZE < length d" and "a + length d \<le> length xs"
  shows "length (slice_set a (a + length d) (take BLOCK_SIZE d) xs) + (length d - BLOCK_SIZE) = length xs"
  using assms by (simp add: length_slice_set)

context dir_padding
begin

text \<open>
  The flush of a full block is skipped for the last entry.  When the entries before it fit
  one block and it does not, \<^verbatim>\<open>write_block\<close> gets more than a block and its slice assignment
  removes the excess from the image.
\<close>

lemma one_block_fold:
  assumes "list_all dirent_ok es" and "chain_ok c"
    and "clen c + sum_list (map ent_min es) \<le> BLOCK_SIZE"
    and "int idx + int (length es) \<le> int count - 1"
  shows "py_fold (dir_round pad alloc count) (List.enumerate idx es) (dbs, chain_bytes c) s =
    Inr ((dbs, chain_bytes (c @ map (\<lambda>e. (e, ent_min e)) es)), s)
    \<and> chain_ok (c @ map (\<lambda>e. (e, ent_min e)) es)"
  using assms
proof (induction es arbitrary: c idx)
  case (Cons e es)
  have e: "dirent_ok e" using Cons.prems by simp
  have step: "dir_round pad alloc count (idx, e) (dbs, chain_bytes c) s =
      Inr ((dbs, chain_bytes (c @ [(e, ent_min e)])), s)"
    using Cons.prems by (intro round_middle) auto
  show ?case
    using Cons.IH[of "c @ [(e, ent_min e)]" "Suc idx"] Cons.prems chain_ok_min[OF e] step
    by (simp add: enumerate_simps py_bind_run del: chain_bytes_simps)
qed simp

lemma clen_min: "clen (map (\<lambda>e. (e, ent_min e)) es) = sum_list (map ent_min es)"
  by (induction es) simp_all

lemma last_overflow_run:
  assumes "list_all dirent_ok (es @ [e])" and "sum_list (map ent_min es) \<le> BLOCK_SIZE"
    and "BLOCK_SIZE < sum_list (map ent_min es) + 8 + name_len_of e"
    and "full_image s" and "nxt s + 2 \<le> limit s"
  shows "\<exists>t. write_dir_blocks pad alloc (es @ [e]) s = Inr ([nxt s], t) \<and>
    length (img t) + (sum_list (map ent_min es) + 8 + name_len_of e - BLOCK_SIZE) = length (img s)"
proof -
  let ?c = "map (\<lambda>e. (e, ent_min e)) es" and ?n = "Suc (length es)"
  let ?cur = "chain_bytes (?c @ [(e, BLOCK_SIZE - clen ?c)])"
  let ?a = "nxt s * BLOCK_SIZE"
  let ?img = "slice_set ?a (?a + length ?cur) (take BLOCK_SIZE ?cur) (img s)"
  have f: "py_fold (dir_round pad alloc ?n) (List.enumerate 0 es) ([], chain_bytes []) s =
      Inr (([], chain_bytes ?c), s)" and ok: "chain_ok ?c"
    using one_block_fold[of es "[]" 0 ?n "[]" s] assms(1,2) by simp_all
  have l: "dir_round pad alloc ?n (length es, e) ([], chain_bytes ?c) s = Inr (([nxt s], ?cur),
      img_update (slice_set ?a (?a + length ?cur) (take BLOCK_SIZE ?cur)) (bump 1 s))"
    using round_last[of e "length es" ?n ?c s "[]"] assms ok by (simp add: clen_min)
  have run: "write_dir_blocks pad alloc (es @ [e]) s =
      Inr ([nxt s], img_update (\<lambda>_. ?img) (bump 1 s))"
    using f l by (simp add: write_dir_blocks_def enumerate_append_eq py_fold_snoc py_bind_run source_simps)
  have cur: "length ?cur = sum_list (map ent_min es) + 8 + name_len_of e"
    using assms(3) ok by (simp add: length_ent_bytes clen_min)
  have le: "Suc (Suc (nxt s)) * BLOCK_SIZE \<le> TOTAL_BLOCKS * BLOCK_SIZE"
    using assms(5) limit_le[of s] by (intro mult_le_mono1) simp
  have nl: "8 + name_len_of e \<le> BLOCK_SIZE" using assms(1) by (cases e) (simp add: dirent_ok_def name_len_of_def layout)
  have "length ?img + (length ?cur - BLOCK_SIZE) = length (img s)"
  proof (rule oversized_write)
    show "?a + length ?cur \<le> length (img s)"
      unfolding cur using le nl assms(2,4) unfolding full_image_def by simp
  qed (use assms(3) in \<open>simp only: cur\<close>)
  then show ?thesis
    using run by (intro exI[of _ "img_update (\<lambda>_. ?img) (bump 1 s)"]) (simp only: cur, simp)
qed

end

text \<open>
  C10: when the entries before the last one fit a block and the last one does not fit behind
  them, \<^verbatim>\<open>make_ext2_img.py\<close> does not start a new block: it writes an oversized block, and the
  image loses the excess bytes, so that everything behind the block moves down.
\<close>

theorem e2_last_entry_overflow:
  assumes "list_all dirent_ok (es @ [e])" and "sum_list (map ent_min es) \<le> BLOCK_SIZE"
    and "BLOCK_SIZE < sum_list (map ent_min es) + 8 + name_len_of e"
    and "full_image s" and "e2_nxt s + 2 \<le> e2_limit s"
  shows "\<exists>t. e2_write_dir_blocks (es @ [e]) s = Inr ([e2_nxt s], t) \<and>
    length (img t) + (sum_list (map ent_min es) + 8 + name_len_of e - BLOCK_SIZE) = length (img s) \<and>
    \<not> full_image t"
proof -
  from e2_dir.last_overflow_run[OF assms] obtain t
    where t: "e2_write_dir_blocks (es @ [e]) s = Inr ([e2_nxt s], t)"
      "length (img t) + (sum_list (map ent_min es) + 8 + name_len_of e - BLOCK_SIZE) = length (img s)"
    unfolding e2_write_dir_blocks_def by metis
  then have "length (img t) < length (img s)" using assms(3) by linarith
  with t assms(4) show ?thesis by (intro exI[of _ t]) (simp add: full_image_def)
qed

section \<open>Gaps of the other two scripts\<close>

lemma e3_chains_le:
  assumes "list_all dirent_ok es" "es \<noteq> []" "chain_ok c" "clen c \<le> BLOCK_SIZE"
    and "dir_rest (clen c) es + 8 + name_len_of (last es) \<le> BLOCK_SIZE"
  shows "list_all (\<lambda>d. chain_ok d \<and> clen d \<le> BLOCK_SIZE) (dir_chains e3_pad_chain c es) \<and>
    (\<forall>g \<in> set (dir_gaps (clen c) es). g < 12 \<longrightarrow>
       (\<exists>d \<in> set (dir_chains e3_pad_chain c es). clen d = BLOCK_SIZE - g))"
  using assms
proof (induction es arbitrary: c rule: induct_list012)
  case (2 e)
  then show ?case by (simp add: layout) linarith
next
  case (3 e e' es)
  have e: "dirent_ok e" using "3.prems" by simp
  have pad: "chain_ok (e3_pad_chain c) \<and> clen (e3_pad_chain c) \<le> BLOCK_SIZE"
    "BLOCK_SIZE - clen c < 12 \<Longrightarrow> clen (e3_pad_chain c) = BLOCK_SIZE - (BLOCK_SIZE - clen c)"
    using "3.prems"(3,4) by (auto simp: e3_pad_chain_def layout dirent_ok_def is_ascii_def name_len_of_def)
  show ?case
    using "3.IH"(2)[of "[(e, ent_min e)]"] "3.IH"(2)[of "c @ [(e, ent_min e)]"] "3.prems"
      ent_min_le[OF e] chain_ok_min[OF e] pad
    by (simp split: if_splits)
qed simp

lemma e3_gap_unreadable:
  assumes le: "list_all (\<lambda>d. chain_ok d \<and> clen d \<le> BLOCK_SIZE) cs" and tot: "nb + length cs \<le> TOTAL_BLOCKS"
    and len: "length im = TOTAL_BLOCKS * BLOCK_SIZE" and d: "d \<in> set cs" "clen d = BLOCK_SIZE - g"
    and g: "0 < g" "g < 12" and zero: "\<forall>b \<in> {nb..<nb + length cs}. block_at im b = zeros BLOCK_SIZE"
  shows "read_blocks (apply_writes (block_log (dir_log nb cs)) im) [nb..<nb + length cs] = None"
proof -
  obtain i where i: "i < length cs" "d = cs ! i" using d(1) by (metis in_set_conv_nth)
  let ?F = "apply_writes (block_log (dir_log nb cs)) im" and ?o = "(nb + i) * BLOCK_SIZE"
  let ?n = "BLOCK_SIZE - g"
  have ok: "chain_ok d" and dl: "length (chain_bytes d) = ?n"
    using le d by (auto simp: list_all_iff)
  have w: "sorted_wrt apart (block_log (dir_log nb cs))"
    "list_all (in_range (length im)) (block_log (dir_log nb cs))"
    using dir_log_writes[OF _ tot] le len by (auto simp: list_all_iff)
  have "(?o, chain_bytes d) \<in> set (block_log (dir_log nb cs))"
    using i by (force simp: block_log_def dir_log_nth)
  from sub_apply_writes_in[OF w(2,1) this] have left: "sub ?F ?o ?n = chain_bytes d"
    by (simp add: dl)
  have "sub ?F (?o + ?n) g = sub im (?o + ?n) g"
  proof (rule sub_apply_writes_frame[OF w(2)])
    fix v assume "v \<in> set (block_log (dir_log nb cs))"
    then obtain c where c: "c < length cs" "v = ((nb + c) * BLOCK_SIZE, chain_bytes (cs ! c))"
      by (auto simp: block_log_def dir_log_nth)
    have small: "length (chain_bytes (cs ! c)) \<le> BLOCK_SIZE" using le c(1) by (simp add: list_all_length)
    show "?o + ?n + g \<le> fst v \<or> fst v + length (snd v) \<le> ?o + ?n"
    proof (cases "c = i")
      case True
      then show ?thesis using c i dl by simp
    next
      case False
      then show ?thesis
        using apart_blocks[of "nb + i" "nb + c" "zeros BLOCK_SIZE", OF _ _ small] c g
        by (auto simp: apart_def layout)
    qed
  qed
  moreover have "sub im (?o + ?n) g = sub (block_at im (nb + i)) ?n g"
    unfolding block_at_def using g by (simp add: sub_sub layout)
  ultimately have right: "sub ?F (?o + ?n) g = zeros g"
    using zero i(1) g by (simp add: sub_zeros layout)
  have "block_at ?F (nb + i) = chain_bytes d @ zeros g"
    using sub_add[of ?F ?o ?n g] left right g by (simp add: block_at_def layout)
  then have "read_dir (block_at ?F (nb + i)) 0 = None"
    using read_dir_zero_tail[OF ok g(1), of "[]"] by simp
  then show ?thesis using i(1) by (intro read_blocks_None[of "nb + i"]) auto
qed

text \<open>
  C11: a full block that leaves fewer than 12 bytes is written by \<^verbatim>\<open>make_ext3_img.py\<close> without
  extending its last entry: the chain of record lengths ends inside the block, and on a
  fresh image the directory cannot be read.
\<close>

theorem e3_directory_gap:
  assumes "entries_ok es" and "last_fits es" and "g \<in> set (dir_gaps 0 es)" and "0 < g" "g < 12"
    and "full_image s" and "next_block s + dir_span es \<le> TOTAL_BLOCKS"
    and "\<forall>b \<in> {next_block s..<next_block s + dir_span es}. block_at (img s) b = zeros BLOCK_SIZE"
  shows "\<exists>bs t. e3_write_dir_blocks es s = Inr (bs, t) \<and> read_directory (img t) bs = None"
proof -
  let ?cs = "dir_chains e3_pad_chain [] es"
  have ne: "es \<noteq> []" using assms(2) by (simp add: last_fits_def)
  have n: "length ?cs = dir_span es" using length_dir_chains[OF ne] by (simp add: dir_span_def)
  have c: "list_all (\<lambda>d. chain_ok d \<and> clen d \<le> BLOCK_SIZE) ?cs"
    and "\<exists>d \<in> set ?cs. clen d = BLOCK_SIZE - g"
    using e3_chains_le[OF entries_dirent_ok[OF assms(1)] ne, of "[]"] assms(2,3,5)
    by (auto simp: last_fits_def)
  then obtain d where d: "d \<in> set ?cs" "clen d = BLOCK_SIZE - g" by blast
  have run: "e3_write_dir_blocks es s = Inr ([next_block s..<next_block s + length ?cs],
      img_update (apply_writes (block_log (dir_log (next_block s) ?cs))) (e3_bump (length ?cs) s))"
    unfolding e3_write_dir_blocks_def
    by (rule e3_dir.write_dir_blocks_run[OF ne entries_dirent_ok[OF assms(1)]])
      (use c n assms(7) in \<open>auto simp: list_all_iff\<close>)
  show ?thesis
    using e3_gap_unreadable[OF c _ _ d assms(4,5), of "next_block s" "img s"] n assms(6-8) run
    by (simp add: read_directory_def full_image_def e3_bump_def)
qed

section \<open>Inputs\<close>

definition long_entry :: "nat \<Rightarrow> dirent" where
  "long_entry n = (12, replicate n CHR ''a'', 1)"

lemma long_entry_simps:
  "n < 256 \<Longrightarrow> dirent_ok (long_entry n)" "fst (long_entry n) = 12"
  "ent_min (long_entry n) = min_rec_len n" "name_len_of (long_entry n) = n"
  by (simp_all add: long_entry_def dirent_ok_def is_ascii_def ent_min_def name_len_of_def list_all_iff)

text \<open>
  Fifteen names of 255 characters and a sixteenth: the image shrinks by 127 bytes.
\<close>

theorem e2_last_entry_overflow_witness:
  "\<exists>t. e2_write_dir_blocks (replicate 15 (long_entry 255) @ [long_entry 255]) e2_init = Inr ([1028], t) \<and>
    length (img t) + 127 = length (img e2_init)"
proof -
  have s: "full_image e2_init" "e2_nxt e2_init = 1028" "e2_limit e2_init = 32768"
    by (simp_all add: full_image_def e2_init_def e2_nxt_def e2_limit_def e2_FIRST_DATA_BLOCK_def
        e2_INODE_TABLE_BLOCKS_def e2_INODES_PER_GROUP_def BITMAP_CAPACITY_def BLOCK_SIZE_def)
  have "sum_list (map ent_min (replicate 15 (long_entry 255))) = 3960"
    by (simp add: long_entry_simps min_rec_len_def sum_list_replicate)
  then show ?thesis
    using e2_last_entry_overflow[of "replicate 15 (long_entry 255)" "long_entry 255" e2_init] s
    by (simp add: long_entry_simps list_all_iff BLOCK_SIZE_def) blast
qed

text \<open>
  Fifteen names of 255 characters and one of 124 leave four bytes in the first block.
\<close>

theorem e3_directory_gap_witness:
  "\<exists>bs t. e3_write_dir_blocks (replicate 15 (long_entry 255) @ [long_entry 124, long_entry 1, long_entry 1])
     e3_init = Inr (bs, t) \<and> read_directory (img t) bs = None"
proof -
  let ?es = "replicate 15 (long_entry 255) @ [long_entry 124, long_entry 1, long_entry 1]"
  have r15: "replicate 15 x = [x, x, x, x, x, x, x, x, x, x, x, x, x, x, x]" for x :: dirent
    by (simp add: numeral_eq_Suc)
  have g: "dir_gaps 0 ?es = [4]" "dir_rest 0 ?es = 12"
    by (simp_all add: r15 long_entry_simps min_rec_len_def BLOCK_SIZE_def)
  have ok: "entries_ok ?es" by (simp add: entries_ok_def long_entry_simps list_all_iff)
  have lf: "last_fits ?es" unfolding last_fits_def g by (simp add: long_entry_simps BLOCK_SIZE_def)
  have s: "full_image e3_init" "next_block e3_init + dir_span ?es \<le> TOTAL_BLOCKS"
    unfolding dir_span_def g by (simp_all add: full_image_def e3_init_def layout)
  have z: "\<forall>b \<in> {next_block e3_init..<next_block e3_init + dir_span ?es}. block_at (img e3_init) b = zeros BLOCK_SIZE"
  proof
    fix b assume "b \<in> {next_block e3_init..<next_block e3_init + dir_span ?es}"
    then have "b < TOTAL_BLOCKS" using s(2) by simp
    then have "Suc b * BLOCK_SIZE \<le> TOTAL_BLOCKS * BLOCK_SIZE" by (intro mult_le_mono1) simp
    then show "block_at (img e3_init) b = zeros BLOCK_SIZE"
      by (simp add: block_at_def e3_init_def sub_zeros add.commute)
  qed
  have "4 \<in> set (dir_gaps 0 ?es)" by (simp only: g) simp
  from e3_directory_gap[OF ok lf this _ _ s z] show ?thesis by simp
qed

end
