(* ===== verification/Gpt.thy ===== *)
theory Gpt
  imports Crc Image_Core
begin

text \<open>
  \<^verbatim>\<open>make_gce_disk.py\<close>: the partition table of the cloud disk.  The theory holds the layout
  constants, the protective MBR, the two GPT headers with their checksums and the function that
  writes the disk image, and shows that the image has the size the cloud import asks for, that
  both headers verify and refer to each other, and that the partitions named in either table
  hold the boot file system and the root image.
\<close>

section \<open>Layout\<close>

definition SECTOR_SIZE :: nat where
  "SECTOR_SIZE = 512"

definition ESP_SIZE_MB :: nat where
  "ESP_SIZE_MB = 100"

definition ESP_SECTORS :: nat where
  "ESP_SECTORS = ESP_SIZE_MB * 1024 * 1024 div SECTOR_SIZE"

definition DISK_SIZE_GB :: nat where
  "DISK_SIZE_GB = 2"

definition DISK_SIZE :: nat where
  "DISK_SIZE = DISK_SIZE_GB * 1024 * 1024 * 1024"

definition TOTAL_SECTORS :: nat where
  "TOTAL_SECTORS = DISK_SIZE div SECTOR_SIZE"

definition GPT_HEADER_LBA :: nat where
  "GPT_HEADER_LBA = 1"

definition GPT_ENTRIES_START_LBA :: nat where
  "GPT_ENTRIES_START_LBA = 2"

definition GPT_ENTRY_SIZE :: nat where
  "GPT_ENTRY_SIZE = 128"

definition GPT_NUM_ENTRIES :: nat where
  "GPT_NUM_ENTRIES = 128"

definition GPT_ENTRIES_SECTORS :: nat where
  "GPT_ENTRIES_SECTORS = (GPT_NUM_ENTRIES * GPT_ENTRY_SIZE + SECTOR_SIZE - 1) div SECTOR_SIZE"

definition ESP_START_LBA :: nat where
  "ESP_START_LBA = GPT_ENTRIES_START_LBA + GPT_ENTRIES_SECTORS"

definition ESP_END_LBA :: nat where
  "ESP_END_LBA = ESP_START_LBA + ESP_SECTORS - 1"

definition ROOT_START_LBA :: nat where
  "ROOT_START_LBA = ESP_END_LBA + 1"

definition ROOT_END_LBA :: nat where
  "ROOT_END_LBA = TOTAL_SECTORS - GPT_ENTRIES_SECTORS - 2"

named_theorems disk_layout \<open>the layout constants of the cloud disk\<close>

declare SECTOR_SIZE_def [disk_layout] ESP_SIZE_MB_def [disk_layout] ESP_SECTORS_def [disk_layout]
  DISK_SIZE_GB_def [disk_layout] DISK_SIZE_def [disk_layout] TOTAL_SECTORS_def [disk_layout]
  GPT_HEADER_LBA_def [disk_layout] GPT_ENTRIES_START_LBA_def [disk_layout] GPT_ENTRY_SIZE_def [disk_layout]
  GPT_NUM_ENTRIES_def [disk_layout] GPT_ENTRIES_SECTORS_def [disk_layout] ESP_START_LBA_def [disk_layout]
  ESP_END_LBA_def [disk_layout] ROOT_START_LBA_def [disk_layout] ROOT_END_LBA_def [disk_layout]

text \<open>A \<^verbatim>\<open>uuid.UUID\<close> is its sixteen big-endian bytes.\<close>

definition EFI_SYSTEM_GUID :: bytes where
  "EFI_SYSTEM_GUID = be_bytes 16 0xC12A7328F81F11D2BA4B00A0C93EC93B"

definition LINUX_FS_GUID :: bytes where
  "LINUX_FS_GUID = be_bytes 16 0x0FC63DAF848347728E793D69D8477DE4"

definition guid_to_mixed_endian :: "bytes \<Rightarrow> bytes" where
  "guid_to_mixed_endian b = rev (sub b 0 4) @ rev (sub b 4 2) @ rev (sub b 6 2) @ sub b 8 8"

definition crc32 :: "bytes \<Rightarrow> nat" where
  "crc32 data = zlib_crc32 data AND 0xFFFFFFFF"

text \<open>\<^verbatim>\<open>str.encode('utf-16-le')\<close> on characters below 256.\<close>

definition utf16_le :: "string \<Rightarrow> bytes" where
  "utf16_le s = concat (map (\<lambda>c. [word_of_nat (of_char c), 0]) s)"

section \<open>Protective MBR\<close>

definition mbr_stmts :: "pack_stmt list" where
  "mbr_stmts =
     [(446, [U 1 0x00]), (447, [U 1 0x00]), (448, [U 1 0x02]), (449, [U 1 0x00]), (450, [U 1 0xEE]),
      (451, [U 1 0xFE]), (452, [U 1 0xFF]), (453, [U 1 0xFF]), (454, [U 4 1]),
      (458, [U 4 (int (min (TOTAL_SECTORS - 1) 0xFFFFFFFF))]), (510, [U 2 0xAA55])]"

definition make_protective_mbr :: "bytes \<Rightarrow> bytes result" where
  "make_protective_mbr disk_guid_bytes = pack_seq mbr_stmts (zeros SECTOR_SIZE)"

section \<open>Partition entries and headers\<close>

definition entry_stmts :: "nat \<Rightarrow> bytes \<Rightarrow> bytes \<Rightarrow> nat \<Rightarrow> nat \<Rightarrow> string \<Rightarrow> pack_stmt list" where
  "entry_stmts off type_guid part_guid first_lba last_lba name =
     [(off, [S 16 (guid_to_mixed_endian type_guid)]), (off + 16, [S 16 (guid_to_mixed_endian part_guid)]),
      (off + 32, [U 8 (int first_lba)]), (off + 40, [U 8 (int last_lba)]), (off + 48, [U 8 0]),
      (off + 56, [S (length (utf16_le name)) (utf16_le name)])]"

definition table_stmts :: "bytes \<Rightarrow> bytes \<Rightarrow> pack_stmt list" where
  "table_stmts esp_uuid root_uuid =
     entry_stmts 0 EFI_SYSTEM_GUID esp_uuid ESP_START_LBA ESP_END_LBA ''EFI System'' @
     entry_stmts GPT_ENTRY_SIZE LINUX_FS_GUID root_uuid ROOT_START_LBA ROOT_END_LBA ''Zigix Root''"

definition primary_stmts :: "bytes \<Rightarrow> nat \<Rightarrow> pack_stmt list" where
  "primary_stmts disk_uuid entries_crc =
     [(0, [S 8 (raw_bytes ''EFI PART'')]), (8, [U 4 0x00010000]), (12, [U 4 92]), (16, [U 4 0]), (20, [U 4 0]),
      (24, [U 8 (int GPT_HEADER_LBA)]), (32, [U 8 (int (TOTAL_SECTORS - 1))]), (40, [U 8 (int ESP_START_LBA)]),
      (48, [U 8 (int ROOT_END_LBA)]), (56, [S 16 (guid_to_mixed_endian disk_uuid)]),
      (72, [U 8 (int GPT_ENTRIES_START_LBA)]), (80, [U 4 (int GPT_NUM_ENTRIES)]), (84, [U 4 (int GPT_ENTRY_SIZE)]),
      (88, [U 4 (int entries_crc)])]"

definition backup_stmts :: "nat \<Rightarrow> pack_stmt list" where
  "backup_stmts backup_entries_lba =
     [(16, [U 4 0]), (24, [U 8 (int (TOTAL_SECTORS - 1))]), (32, [U 8 (int GPT_HEADER_LBA)]),
      (72, [U 8 (int backup_entries_lba)])]"

text \<open>The CRC of the first 92 bytes goes into the header itself.\<close>

definition seal_header :: "bytes \<Rightarrow> bytes result" where
  "seal_header h = pack_into [U 4 (int (crc32 (take 92 h)))] 16 h"

definition make_gpt :: "bytes \<Rightarrow> bytes \<Rightarrow> bytes \<Rightarrow> (bytes \<times> bytes \<times> bytes \<times> nat) result" where
  "make_gpt disk_uuid esp_uuid root_uuid =
     res_bind (pack_seq (table_stmts esp_uuid root_uuid) (zeros (GPT_NUM_ENTRIES * GPT_ENTRY_SIZE))) (\<lambda>entries.
     res_bind (pack_seq (primary_stmts disk_uuid (crc32 entries)) (zeros SECTOR_SIZE)) (\<lambda>primary0.
     res_bind (seal_header primary0) (\<lambda>primary.
     let backup_entries_lba = TOTAL_SECTORS - GPT_ENTRIES_SECTORS - 1 in
     res_bind (pack_seq (backup_stmts backup_entries_lba) primary) (\<lambda>backup0.
     res_bind (seal_header backup0) (\<lambda>backup.
     Inr (primary, entries, backup, backup_entries_lba))))))"

section \<open>Writing the disk\<close>

text \<open>
  The output file is the list of bytes written so far, \<^verbatim>\<open>f.tell()\<close> its length.
\<close>

definition f_assert :: "bool \<Rightarrow> 'a result \<Rightarrow> 'a result" where
  "f_assert b k = (if b then k else Inl AssertionError)"

definition root_image :: "nat \<Rightarrow> bytes option \<Rightarrow> bytes" where
  "root_image root_size ext4_data =
     (case ext4_data of
        None \<Rightarrow> zeros root_size
      | Some d \<Rightarrow>
          if d = [] then zeros root_size
          else if length d \<le> root_size then d @ zeros (root_size - length d)
          else take root_size d)"

definition write_disk ::
  "bytes \<Rightarrow> bytes \<times> bytes \<times> bytes \<times> nat \<Rightarrow> bytes \<Rightarrow> bytes option \<Rightarrow> bytes result" where
  "write_disk mbr gpt esp_image ext4_data =
     (case gpt of (primary_header, entries, backup_header, backup_entries_lba) \<Rightarrow>
      let padding = GPT_ENTRIES_SECTORS * SECTOR_SIZE - length entries;
          f = mbr @ primary_header @ entries @ zeros padding in
      f_assert (length f = ESP_START_LBA * SECTOR_SIZE)
      (let f = f @ esp_image in
       f_assert (length f = ROOT_START_LBA * SECTOR_SIZE)
       (let root_size = (ROOT_END_LBA - ROOT_START_LBA + 1) * SECTOR_SIZE;
            f = f @ root_image root_size ext4_data in
        f_assert (length f = backup_entries_lba * SECTOR_SIZE)
        (Inr (f @ entries @ zeros padding @ backup_header)))))"

section \<open>Reading a partition table\<close>

text \<open>
  A reader of the format: a header is accepted when signature, revision, size and its own
  checksum are right, it knows its place, and the checksum of the entries it points at is right.
\<close>

record gpt_header =
  my_lba :: nat
  alternate_lba :: nat
  first_usable :: nat
  last_usable :: nat
  disk_guid :: bytes
  entries_lba :: nat
  num_entries :: nat
  entry_size :: nat
  entries_crc :: nat

definition u64_at :: "bytes \<Rightarrow> nat \<Rightarrow> nat" where
  "u64_at im off = le_val (sub im off 8)"

definition parse_header :: "bytes \<Rightarrow> gpt_header option" where
  "parse_header h =
     (if sub h 0 8 = raw_bytes ''EFI PART'' \<and> u32_at h 8 = 0x00010000 \<and> u32_at h 12 = 92 \<and>
         u32_at h 16 = zlib_crc32 (put_at 16 (zeros 4) (take 92 h))
      then Some \<lparr>my_lba = u64_at h 24, alternate_lba = u64_at h 32, first_usable = u64_at h 40,
        last_usable = u64_at h 48, disk_guid = sub h 56 16, entries_lba = u64_at h 72,
        num_entries = u32_at h 80, entry_size = u32_at h 84, entries_crc = u32_at h 88\<rparr>
      else None)"

definition read_gpt :: "bytes \<Rightarrow> nat \<Rightarrow> gpt_header option" where
  "read_gpt disk lba =
     (case parse_header (sub disk (lba * SECTOR_SIZE) SECTOR_SIZE) of
        None \<Rightarrow> None
      | Some h \<Rightarrow>
          if my_lba h = lba \<and>
             entries_crc h = zlib_crc32 (sub disk (entries_lba h * SECTOR_SIZE) (num_entries h * entry_size h))
          then Some h else None)"

definition partition_at :: "bytes \<Rightarrow> gpt_header \<Rightarrow> nat \<Rightarrow> bytes \<times> bytes \<times> nat \<times> nat" where
  "partition_at disk h i =
     (let off = entries_lba h * SECTOR_SIZE + i * entry_size h in
      (sub disk off 16, sub disk (off + 16) 16, u64_at disk (off + 32), u64_at disk (off + 40)))"

definition partition_bytes :: "bytes \<Rightarrow> nat \<Rightarrow> nat \<Rightarrow> bytes" where
  "partition_bytes disk first_lba last_lba =
     sub disk (first_lba * SECTOR_SIZE) ((last_lba - first_lba + 1) * SECTOR_SIZE)"

section \<open>Checksums and identifiers\<close>

lemma crc32_eq: "crc32 data = zlib_crc32 data"
proof -
  have "zlib_crc32 data < 2 ^ 32" using zlib_crc32_fits by (simp add: fits32_def)
  then have "zlib_crc32 data AND mask 32 = zlib_crc32 data"
    by (simp add: take_bit_nat_eq_self flip: take_bit_eq_mask)
  then show ?thesis by (simp add: crc32_def mask_eq_exp_minus_1)
qed

lemma crc32_less: "crc32 data < 2 ^ 32"
  using zlib_crc32_fits by (simp add: crc32_eq fits32_def)

lemma length_mixed_endian [simp]: "length b = 16 \<Longrightarrow> length (guid_to_mixed_endian b) = 16"
  by (simp add: guid_to_mixed_endian_def)

lemma sub_pieces: "length b = 16 \<Longrightarrow> sub b 0 4 @ sub b 4 2 @ sub b 6 2 @ sub b 8 8 = b"
  using sub_add[of b 0 4 12] sub_add[of b 4 2 10] sub_add[of b 6 2 8] by (simp add: sub_def)

text \<open>The conversion is its own inverse, so no two identifiers share their stored form.\<close>

lemma mixed_endian_twice:
  assumes "length b = 16"
  shows "guid_to_mixed_endian (guid_to_mixed_endian b) = b"
proof -
  let ?m = "guid_to_mixed_endian b"
  have "sub ?m 0 4 = rev (sub b 0 4)" "sub ?m 4 2 = rev (sub b 4 2)" "sub ?m 6 2 = rev (sub b 6 2)"
    "sub ?m 8 8 = sub b 8 8"
    using assms by (simp_all add: guid_to_mixed_endian_def sub_append_left sub_append_right)
      (simp_all add: sub_def)
  then show ?thesis using sub_pieces[OF assms] by (simp add: guid_to_mixed_endian_def)
qed

lemma seal_header_run:
  assumes "length h = SECTOR_SIZE" and "sub h 16 4 = zeros 4"
  defines "h' \<equiv> put_at 16 (le_bytes 4 (crc32 (take 92 h))) h"
  shows "seal_header h = Inr h'" and "length h' = SECTOR_SIZE"
    and "off + n \<le> 16 \<or> 20 \<le> off \<Longrightarrow> sub h' off n = sub h off n"
    and "u32_at h' 16 = zlib_crc32 (put_at 16 (zeros 4) (take 92 h'))"
proof -
  have l: "length h = 512" using assms(1) by (simp add: disk_layout)
  show "seal_header h = Inr h'"
    using crc32_less l by (simp add: seal_header_def h'_def pack_into_def pack_le_def)
  show "length h' = SECTOR_SIZE" using l assms(1) by (simp add: h'_def)
  show "sub h' off n = sub h off n" if "off + n \<le> 16 \<or> 20 \<le> off"
    using that l unfolding h'_def by (intro sub_put_at_disjoint) auto
  have "put_at 16 (zeros 4) (take 92 h') = take 92 h"
  proof (rule nth_equalityI)
    fix i assume "i < length (put_at 16 (zeros 4) (take 92 h'))"
    then have i: "i < 92" using l by (simp add: h'_def)
    have z: "h ! (16 + j) = 0" if "j < 4" for j
      using that l assms(2) nth_sub[of j 4 16 h] by simp
    have "h ! i = 0" if "16 \<le> i" "i < 20" using that z[of "i - 16"] by simp
    then show "put_at 16 (zeros 4) (take 92 h') ! i = take 92 h ! i"
      using i l by (auto simp: h'_def nth_put_at)
  qed (use l in \<open>simp add: h'_def\<close>)
  moreover have "u32_at h' 16 = crc32 (take 92 h)"
    using l crc32_less sub_put_at_same[of 16 "le_bytes 4 (crc32 (take 92 h))" h]
    by (simp add: h'_def u32_at_def del: le_bytes.simps sub_put_at_same)
  ultimately show "u32_at h' 16 = zlib_crc32 (put_at 16 (zeros 4) (take 92 h'))"
    by (simp add: crc32_eq)
qed

section \<open>The parts of the table\<close>

definition gpt_entries :: "bytes \<Rightarrow> bytes \<Rightarrow> bytes" where
  "gpt_entries esp_uuid root_uuid =
     apply_writes (pack_log (table_stmts esp_uuid root_uuid)) (zeros (GPT_NUM_ENTRIES * GPT_ENTRY_SIZE))"

lemma length_utf16_le [simp]: "length (utf16_le s) = 2 * length s"
  by (induction s) (simp_all add: utf16_le_def)

lemma table_ok:
  "list_all (stmt_ok 16384) (table_stmts e r)" "stmts_ordered 0 (table_stmts e r)"
  by (simp_all add: table_stmts_def entry_stmts_def stmt_ok_def disk_layout)

lemma entries_run:
  shows "pack_seq (table_stmts e r) (zeros (GPT_NUM_ENTRIES * GPT_ENTRY_SIZE)) = Inr (gpt_entries e r)"
    and "length (gpt_entries e r) = 16384"
proof -
  have z: "length (zeros (GPT_NUM_ENTRIES * GPT_ENTRY_SIZE)) = 16384" by (simp add: disk_layout)
  show "pack_seq (table_stmts e r) (zeros (GPT_NUM_ENTRIES * GPT_ENTRY_SIZE)) = Inr (gpt_entries e r)"
    unfolding gpt_entries_def by (rule pack_seq_run) (simp only: z table_ok)
  show "length (gpt_entries e r) = 16384"
    unfolding gpt_entries_def using z pack_log_in_range[OF table_ok(1)] by simp
qed

definition entry_reads :: "bytes \<Rightarrow> nat \<Rightarrow> bytes \<Rightarrow> bytes \<Rightarrow> nat \<Rightarrow> nat \<Rightarrow> bool" where
  "entry_reads es off type_guid part_guid first_lba last_lba \<longleftrightarrow>
     sub es off 16 = guid_to_mixed_endian type_guid \<and> sub es (off + 16) 16 = guid_to_mixed_endian part_guid \<and>
     u64_at es (off + 32) = first_lba \<and> u64_at es (off + 40) = last_lba"

lemma entry_reads_stmts:
  assumes "set (entry_stmts off t p a b nm) \<subseteq> set (table_stmts e r)"
    and "length t = 16" "length p = 16" "a < 2 ^ 64" "b < 2 ^ 64"
  shows "entry_reads (gpt_entries e r) off t p a b"
proof -
  have f: "sub (gpt_entries e r) o' (field_size f) = field_le f" if "(o', [f]) \<in> set (entry_stmts off t p a b nm)" for o' f
    unfolding gpt_entries_def
    using pack_seq_field[of "zeros 16384" "table_stmts e r" o' "[f]" 0] table_ok that assms(1)
    by (auto simp: disk_layout)
  show ?thesis
    using f[of off "S 16 (guid_to_mixed_endian t)"] f[of "off + 16" "S 16 (guid_to_mixed_endian p)"]
      f[of "off + 32" "U 8 (int a)"] f[of "off + 40" "U 8 (int b)"] assms(2-5)
    by (simp add: entry_reads_def u64_at_def entry_stmts_def del: le_bytes.simps)
qed

lemma length_guids [simp]: "length EFI_SYSTEM_GUID = 16" "length LINUX_FS_GUID = 16"
  by (simp_all add: EFI_SYSTEM_GUID_def LINUX_FS_GUID_def)

lemma entries_read:
  assumes "length e = 16" "length r = 16"
  shows "entry_reads (gpt_entries e r) 0 EFI_SYSTEM_GUID e ESP_START_LBA ESP_END_LBA"
    and "entry_reads (gpt_entries e r) 128 LINUX_FS_GUID r ROOT_START_LBA ROOT_END_LBA"
proof -
  show "entry_reads (gpt_entries e r) 0 EFI_SYSTEM_GUID e ESP_START_LBA ESP_END_LBA"
    using assms by (intro entry_reads_stmts[where nm = "''EFI System''"]) (simp_all add: table_stmts_def disk_layout)
  show "entry_reads (gpt_entries e r) 128 LINUX_FS_GUID r ROOT_START_LBA ROOT_END_LBA"
    using assms by (intro entry_reads_stmts[where nm = "''Zigix Root''"]) (simp_all add: table_stmts_def disk_layout)
qed

definition header_of :: "nat \<Rightarrow> nat \<Rightarrow> nat \<Rightarrow> bytes \<Rightarrow> bytes \<Rightarrow> gpt_header" where
  "header_of my alt ents disk_uuid entries =
     \<lparr>my_lba = my, alternate_lba = alt, first_usable = ESP_START_LBA, last_usable = ROOT_END_LBA,
      disk_guid = guid_to_mixed_endian disk_uuid, entries_lba = ents, num_entries = GPT_NUM_ENTRIES,
      entry_size = GPT_ENTRY_SIZE, entries_crc = zlib_crc32 entries\<rparr>"

lemma parse_sealed:
  assumes l: "length h = SECTOR_SIZE" and z: "sub h 16 4 = zeros 4"
    and f: "sub h 0 8 = raw_bytes ''EFI PART''" "u32_at h 8 = 0x00010000" "u32_at h 12 = 92"
      "u64_at h 24 = my" "u64_at h 32 = alt" "u64_at h 40 = ESP_START_LBA" "u64_at h 48 = ROOT_END_LBA"
      "sub h 56 16 = guid_to_mixed_endian du" "u64_at h 72 = ents" "u32_at h 80 = GPT_NUM_ENTRIES"
      "u32_at h 84 = GPT_ENTRY_SIZE" "u32_at h 88 = zlib_crc32 es"
  shows "\<exists>h'. seal_header h = Inr h' \<and> length h' = SECTOR_SIZE \<and>
    parse_header h' = Some (header_of my alt ents du es) \<and>
    (\<forall>off n. off + n \<le> 16 \<or> 20 \<le> off \<longrightarrow> sub h' off n = sub h off n)"
proof -
  note s = seal_header_run[OF l z]
  let ?h = "put_at 16 (le_bytes 4 (crc32 (take 92 h))) h"
  have "parse_header ?h = Some (header_of my alt ents du es)"
    using f s(3)[of 0 8] s(3)[of 8 4] s(3)[of 12 4] s(3)[of 24 8] s(3)[of 32 8] s(3)[of 40 8] s(3)[of 48 8]
      s(3)[of 56 16] s(3)[of 72 8] s(3)[of 80 4] s(3)[of 84 4] s(3)[of 88 4] s(4)
    by (simp add: parse_header_def header_of_def u32_at_def u64_at_def del: le_bytes.simps)
  with s(1-3) show ?thesis by blast
qed

definition gpt_primary :: "bytes \<Rightarrow> bytes \<Rightarrow> bytes" where
  "gpt_primary disk_uuid entries =
     apply_writes (pack_log (primary_stmts disk_uuid (crc32 entries))) (zeros SECTOR_SIZE)"

lemma primary_ok:
  "list_all (stmt_ok SECTOR_SIZE) (primary_stmts du (crc32 es))" "stmts_ordered 0 (primary_stmts du (crc32 es))"
  using crc32_less[of es] by (simp_all add: primary_stmts_def stmt_ok_def disk_layout)

lemma primary_run:
  shows "pack_seq (primary_stmts du (crc32 es)) (zeros SECTOR_SIZE) = Inr (gpt_primary du es)"
    and "length (gpt_primary du es) = SECTOR_SIZE"
    and "(off, [f]) \<in> set (primary_stmts du (crc32 es)) \<Longrightarrow> sub (gpt_primary du es) off (field_size f) = field_le f"
proof -
  show "pack_seq (primary_stmts du (crc32 es)) (zeros SECTOR_SIZE) = Inr (gpt_primary du es)"
    unfolding gpt_primary_def by (rule pack_seq_run) (simp add: primary_ok)
  show "length (gpt_primary du es) = SECTOR_SIZE"
    unfolding gpt_primary_def using pack_log_in_range[OF primary_ok(1)] by simp
  show "sub (gpt_primary du es) off (field_size f) = field_le f" if "(off, [f]) \<in> set (primary_stmts du (crc32 es))"
    unfolding gpt_primary_def
    using pack_seq_field[of "zeros SECTOR_SIZE" "primary_stmts du (crc32 es)" off "[f]" 0] primary_ok that by simp
qed

lemma primary_header:
  assumes "length du = 16"
  shows "\<exists>p. seal_header (gpt_primary du es) = Inr p \<and> length p = SECTOR_SIZE \<and>
    parse_header p = Some (header_of GPT_HEADER_LBA (TOTAL_SECTORS - 1) GPT_ENTRIES_START_LBA du es) \<and>
    (\<forall>off n. off + n \<le> 16 \<or> 20 \<le> off \<longrightarrow> sub p off n = sub (gpt_primary du es) off n)"
proof (rule parse_sealed[OF primary_run(2)])
  let ?h = "gpt_primary du es"
  have f: "sub ?h off n = field_le f" if "(off, [f]) \<in> set (primary_stmts du (crc32 es))" "n = field_size f" for off n f
    using primary_run(3)[OF that(1)] that(2) by simp
  note m = primary_stmts_def
  show "sub ?h 16 4 = zeros 4" using f[of 16 "U 4 0" 4] by (simp add: m le_bytes_zero del: le_bytes.simps)
  show "sub ?h 0 8 = raw_bytes ''EFI PART''" using f[of 0 "S 8 (raw_bytes ''EFI PART'')" 8] by (simp add: m)
  show "u32_at ?h 8 = 0x00010000" using f[of 8 "U 4 65536" 4] by (simp add: m u32_at_def del: le_bytes.simps)
  show "u32_at ?h 12 = 92" using f[of 12 "U 4 92" 4] by (simp add: m u32_at_def del: le_bytes.simps)
  show "u64_at ?h 24 = GPT_HEADER_LBA"
    using f[of 24 "U 8 (int GPT_HEADER_LBA)" 8] by (simp add: m u64_at_def disk_layout del: le_bytes.simps)
  show "u64_at ?h 32 = TOTAL_SECTORS - 1"
    using f[of 32 "U 8 (int (TOTAL_SECTORS - 1))" 8] by (simp add: m u64_at_def disk_layout del: le_bytes.simps)
  show "u64_at ?h 40 = ESP_START_LBA"
    using f[of 40 "U 8 (int ESP_START_LBA)" 8] by (simp add: m u64_at_def disk_layout del: le_bytes.simps)
  show "u64_at ?h 48 = ROOT_END_LBA"
    using f[of 48 "U 8 (int ROOT_END_LBA)" 8] by (simp add: m u64_at_def disk_layout del: le_bytes.simps)
  show "sub ?h 56 16 = guid_to_mixed_endian du"
    using f[of 56 "S 16 (guid_to_mixed_endian du)" 16] assms by (simp add: m)
  show "u64_at ?h 72 = GPT_ENTRIES_START_LBA"
    using f[of 72 "U 8 (int GPT_ENTRIES_START_LBA)" 8] by (simp add: m u64_at_def disk_layout del: le_bytes.simps)
  show "u32_at ?h 80 = GPT_NUM_ENTRIES"
    using f[of 80 "U 4 (int GPT_NUM_ENTRIES)" 4] by (simp add: m u32_at_def disk_layout del: le_bytes.simps)
  show "u32_at ?h 84 = GPT_ENTRY_SIZE"
    using f[of 84 "U 4 (int GPT_ENTRY_SIZE)" 4] by (simp add: m u32_at_def disk_layout del: le_bytes.simps)
  show "u32_at ?h 88 = zlib_crc32 es"
    using f[of 88 "U 4 (int (crc32 es))" 4] crc32_less[of es]
    by (simp add: m u32_at_def crc32_eq[symmetric] del: le_bytes.simps)
qed

definition BACKUP_ENTRIES_LBA :: nat where
  "BACKUP_ENTRIES_LBA = TOTAL_SECTORS - GPT_ENTRIES_SECTORS - 1"

lemma backup_ok:
  "list_all (stmt_ok SECTOR_SIZE) (backup_stmts BACKUP_ENTRIES_LBA)" "stmts_ordered 0 (backup_stmts BACKUP_ENTRIES_LBA)"
  by (simp_all add: backup_stmts_def stmt_ok_def BACKUP_ENTRIES_LBA_def disk_layout)

text \<open>The backup header keeps what it does not overwrite.\<close>

lemma backup_run:
  assumes "length p = SECTOR_SIZE"
  defines "q \<equiv> apply_writes (pack_log (backup_stmts BACKUP_ENTRIES_LBA)) p"
  shows "pack_seq (backup_stmts BACKUP_ENTRIES_LBA) p = Inr q" and "length q = SECTOR_SIZE"
    and "(off, [f]) \<in> set (backup_stmts BACKUP_ENTRIES_LBA) \<Longrightarrow> sub q off (field_size f) = field_le f"
    and "off + n \<le> 16 \<or> 20 \<le> off \<and> off + n \<le> 24 \<or> 40 \<le> off \<and> off + n \<le> 72 \<or> 80 \<le> off \<Longrightarrow>
      sub q off n = sub p off n"
proof -
  have ok: "list_all (stmt_ok (length p)) (backup_stmts BACKUP_ENTRIES_LBA)"
    using backup_ok(1) assms(1) by simp
  show "pack_seq (backup_stmts BACKUP_ENTRIES_LBA) p = Inr q" unfolding q_def by (rule pack_seq_run[OF ok])
  show "length q = SECTOR_SIZE" unfolding q_def using pack_log_in_range[OF ok] assms(1) by simp
  show "sub q off (field_size f) = field_le f" if "(off, [f]) \<in> set (backup_stmts BACKUP_ENTRIES_LBA)"
    unfolding q_def using pack_seq_field[OF ok backup_ok(2) that, of 0] by simp
  show "sub q off n = sub p off n"
    if "off + n \<le> 16 \<or> 20 \<le> off \<and> off + n \<le> 24 \<or> 40 \<le> off \<and> off + n \<le> 72 \<or> 80 \<le> off"
    unfolding q_def using that
    by (intro sub_apply_writes_frame[OF pack_log_in_range[OF ok]]) (auto simp: backup_stmts_def)
qed

lemma backup_header:
  assumes l: "length p = SECTOR_SIZE" and p: "parse_header p = Some (header_of my alt ents du es)"
  shows "\<exists>q b. pack_seq (backup_stmts BACKUP_ENTRIES_LBA) p = Inr q \<and> seal_header q = Inr b \<and>
    length b = SECTOR_SIZE \<and> parse_header b = Some (header_of (TOTAL_SECTORS - 1) GPT_HEADER_LBA BACKUP_ENTRIES_LBA du es)"
proof -
  let ?q = "apply_writes (pack_log (backup_stmts BACKUP_ENTRIES_LBA)) p"
  note r = backup_run[OF l]
  have f: "sub ?q off n = field_le f" if "(off, [f]) \<in> set (backup_stmts BACKUP_ENTRIES_LBA)" "n = field_size f" for off n f
    using r(3)[OF that(1)] that(2) by simp
  note m = backup_stmts_def
  have P: "sub p 0 8 = raw_bytes ''EFI PART''" "u32_at p 8 = 0x00010000" "u32_at p 12 = 92" "u64_at p 40 = ESP_START_LBA"
    "u64_at p 48 = ROOT_END_LBA" "sub p 56 16 = guid_to_mixed_endian du" "u32_at p 80 = GPT_NUM_ENTRIES"
    "u32_at p 84 = GPT_ENTRY_SIZE" "u32_at p 88 = zlib_crc32 es"
    using p by (auto simp: parse_header_def header_of_def split: if_splits)
  have "\<exists>b. seal_header ?q = Inr b \<and> length b = SECTOR_SIZE \<and>
    parse_header b = Some (header_of (TOTAL_SECTORS - 1) GPT_HEADER_LBA BACKUP_ENTRIES_LBA du es) \<and>
    (\<forall>off n. off + n \<le> 16 \<or> 20 \<le> off \<longrightarrow> sub b off n = sub ?q off n)"
  proof (rule parse_sealed[OF r(2)])
    show "sub ?q 16 4 = zeros 4" using f[of 16 "U 4 0" 4] by (simp add: m le_bytes_zero del: le_bytes.simps)
    show "u64_at ?q 24 = TOTAL_SECTORS - 1"
      using f[of 24 "U 8 (int (TOTAL_SECTORS - 1))" 8] by (simp add: m u64_at_def disk_layout del: le_bytes.simps)
    show "u64_at ?q 32 = GPT_HEADER_LBA"
      using f[of 32 "U 8 (int GPT_HEADER_LBA)" 8] by (simp add: m u64_at_def disk_layout del: le_bytes.simps)
    show "u64_at ?q 72 = BACKUP_ENTRIES_LBA" using f[of 72 "U 8 (int BACKUP_ENTRIES_LBA)" 8]
      by (simp add: m u64_at_def BACKUP_ENTRIES_LBA_def disk_layout del: le_bytes.simps)
  qed (use P r(4) in \<open>simp_all add: u32_at_def u64_at_def\<close>)
  with r(1) show ?thesis by blast
qed

lemma make_gpt_run:
  assumes "length du = 16"
  shows "\<exists>p b. make_gpt du eu ru = Inr (p, gpt_entries eu ru, b, BACKUP_ENTRIES_LBA) \<and>
    length p = SECTOR_SIZE \<and> length b = SECTOR_SIZE \<and>
    parse_header p = Some (header_of GPT_HEADER_LBA (TOTAL_SECTORS - 1) GPT_ENTRIES_START_LBA du (gpt_entries eu ru)) \<and>
    parse_header b = Some (header_of (TOTAL_SECTORS - 1) GPT_HEADER_LBA BACKUP_ENTRIES_LBA du (gpt_entries eu ru))"
proof -
  let ?es = "gpt_entries eu ru"
  obtain p where p: "seal_header (gpt_primary du ?es) = Inr p" "length p = SECTOR_SIZE"
    "parse_header p = Some (header_of GPT_HEADER_LBA (TOTAL_SECTORS - 1) GPT_ENTRIES_START_LBA du ?es)"
    using primary_header[OF assms, of ?es] by blast
  obtain q b where b: "pack_seq (backup_stmts BACKUP_ENTRIES_LBA) p = Inr q" "seal_header q = Inr b"
    "length b = SECTOR_SIZE" "parse_header b = Some (header_of (TOTAL_SECTORS - 1) GPT_HEADER_LBA BACKUP_ENTRIES_LBA du ?es)"
    using backup_header[OF p(2,3)] by blast
  have "make_gpt du eu ru = Inr (p, ?es, b, BACKUP_ENTRIES_LBA)"
    using p(1) b(1,2)
    by (simp add: make_gpt_def entries_run primary_run(1) Let_def BACKUP_ENTRIES_LBA_def del: pack_seq.simps)
  with p b show ?thesis by blast
qed

section \<open>The disk\<close>

lemma mbr_run:
  "\<exists>m. make_protective_mbr g = Inr m \<and> length m = SECTOR_SIZE \<and> m ! 450 = 0xEE \<and> u32_at m 454 = 1 \<and>
     u32_at m 458 = TOTAL_SECTORS - 1 \<and> u16_at m 510 = 0xAA55"
proof -
  have ok: "list_all (stmt_ok (length (zeros SECTOR_SIZE))) mbr_stmts" "stmts_ordered 0 mbr_stmts"
    by (simp_all add: mbr_stmts_def stmt_ok_def disk_layout)
  let ?m = "apply_writes (pack_log mbr_stmts) (zeros SECTOR_SIZE)"
  have f: "sub ?m off n = field_le f" if "(off, [f]) \<in> set mbr_stmts" "n = field_size f" for off n f
    using pack_seq_field[OF ok that(1), of 0] that(2) by simp
  have l: "length ?m = 512" using pack_log_in_range[OF ok(1)] by (simp add: disk_layout)
  have "sub ?m 450 1 ! 0 = 0xEE" using f[of 450 "U 1 238" 1] by (simp add: mbr_stmts_def)
  then have "?m ! 450 = 0xEE" using l by (simp add: nth_sub)
  moreover have "u32_at ?m 454 = 1" using f[of 454 "U 4 1" 4] by (simp add: mbr_stmts_def u32_at_def del: le_bytes.simps)
  moreover have "u32_at ?m 458 = TOTAL_SECTORS - 1"
    using f[of 458 "U 4 (int (min (TOTAL_SECTORS - 1) 4294967295))" 4]
    by (simp add: mbr_stmts_def u32_at_def disk_layout del: le_bytes.simps)
  moreover have "u16_at ?m 510 = 0xAA55" using f[of 510 "U 2 43605" 2] by (simp add: mbr_stmts_def u16_at_def del: le_bytes.simps)
  moreover have "make_protective_mbr g = Inr ?m" unfolding make_protective_mbr_def by (rule pack_seq_run[OF ok(1)])
  ultimately show ?thesis using l by (auto simp: disk_layout)
qed

definition gce_disk :: "bytes \<Rightarrow> bytes \<Rightarrow> bytes \<Rightarrow> bytes \<Rightarrow> bytes option \<Rightarrow> bytes result" where
  "gce_disk disk_uuid esp_uuid root_uuid esp_image ext4_data =
     res_bind (make_gpt disk_uuid esp_uuid root_uuid) (\<lambda>gpt.
     res_bind (make_protective_mbr (guid_to_mixed_endian disk_uuid)) (\<lambda>mbr.
     write_disk mbr gpt esp_image ext4_data))"

definition ROOT_SIZE :: nat where
  "ROOT_SIZE = (ROOT_END_LBA - ROOT_START_LBA + 1) * SECTOR_SIZE"

lemma length_root_image [simp]: "length (root_image n d) = n"
  by (simp add: root_image_def split: option.splits)

lemma write_disk_run:
  assumes "length m = SECTOR_SIZE" "length p = SECTOR_SIZE" "length b = SECTOR_SIZE" "length es = 16384"
    and "length esp = ESP_SECTORS * SECTOR_SIZE"
  shows "write_disk m (p, es, b, BACKUP_ENTRIES_LBA) esp ext4 = Inr (concat [m, p, es, esp, root_image ROOT_SIZE ext4, es, b])"
  using assms by (simp add: write_disk_def f_assert_def Let_def ROOT_SIZE_def BACKUP_ENTRIES_LBA_def disk_layout)

lemma write_disk_asserts:
  assumes "length m = SECTOR_SIZE" "length p = SECTOR_SIZE" "length es = 16384"
    and "length esp \<noteq> ESP_SECTORS * SECTOR_SIZE"
  shows "write_disk m (p, es, b, lba) esp ext4 = Inl AssertionError"
  using assms by (simp add: write_disk_def f_assert_def Let_def disk_layout)

text \<open>Where the seven parts of the disk lie.\<close>

definition disk_parts :: "bytes \<Rightarrow> bytes \<Rightarrow> bytes \<Rightarrow> bytes \<Rightarrow> bytes \<Rightarrow> bytes \<Rightarrow> bytes \<Rightarrow> bool" where
  "disk_parts disk m p es esp root b \<longleftrightarrow>
     sub disk 0 SECTOR_SIZE = m \<and> sub disk SECTOR_SIZE SECTOR_SIZE = p \<and>
     sub disk (GPT_ENTRIES_START_LBA * SECTOR_SIZE) 16384 = es \<and>
     sub disk (ESP_START_LBA * SECTOR_SIZE) (ESP_SECTORS * SECTOR_SIZE) = esp \<and>
     sub disk (ROOT_START_LBA * SECTOR_SIZE) ROOT_SIZE = root \<and>
     sub disk (BACKUP_ENTRIES_LBA * SECTOR_SIZE) 16384 = es \<and>
     sub disk ((TOTAL_SECTORS - 1) * SECTOR_SIZE) SECTOR_SIZE = b"

lemma disk_parts_concat:
  assumes "length m = SECTOR_SIZE" "length p = SECTOR_SIZE" "length b = SECTOR_SIZE" "length es = 16384"
    and "length esp = ESP_SECTORS * SECTOR_SIZE" "length root = ROOT_SIZE"
  shows "disk_parts (concat [m, p, es, esp, root, es, b]) m p es esp root b"
    and "length (concat [m, p, es, esp, root, es, b]) = DISK_SIZE"
proof -
  let ?l = "[m, p, es, esp, root, es, b]"
  have s: "sub (concat ?l) off n = ?l ! k"
    if "k < 7" "off = sum_list (map length (take k ?l))" "n = length (?l ! k)" for k off n
    unfolding that(3) using that(1,2) by (intro sub_concat_field) simp_all
  note a = assms ROOT_SIZE_def BACKUP_ENTRIES_LBA_def disk_layout
  have "sub (concat ?l) 0 SECTOR_SIZE = ?l ! 0" by (rule s) (simp_all add: assms)
  moreover have "sub (concat ?l) SECTOR_SIZE SECTOR_SIZE = ?l ! 1" by (rule s) (simp_all add: assms)
  moreover have "sub (concat ?l) (GPT_ENTRIES_START_LBA * SECTOR_SIZE) 16384 = ?l ! 2" by (rule s) (simp_all add: a)
  moreover have "sub (concat ?l) (ESP_START_LBA * SECTOR_SIZE) (ESP_SECTORS * SECTOR_SIZE) = ?l ! 3"
    by (rule s) (simp_all add: a)
  moreover have "sub (concat ?l) (ROOT_START_LBA * SECTOR_SIZE) ROOT_SIZE = ?l ! 4" by (rule s) (simp_all add: a)
  moreover have "sub (concat ?l) (BACKUP_ENTRIES_LBA * SECTOR_SIZE) 16384 = ?l ! 5" by (rule s) (simp_all add: a)
  moreover have "sub (concat ?l) ((TOTAL_SECTORS - 1) * SECTOR_SIZE) SECTOR_SIZE = ?l ! 6" by (rule s) (simp_all add: a)
  ultimately show "disk_parts (concat ?l) m p es esp root b"
    unfolding disk_parts_def by (simp del: concat.simps)
  show "length (concat ?l) = DISK_SIZE" by (simp add: a)
qed

lemma entry_reads_lift:
  assumes "entry_reads es off t p a b" and "sub disk base 16384 = es" and "off + 128 \<le> 16384"
  shows "(sub disk (base + off) 16, sub disk (base + off + 16) 16, u64_at disk (base + off + 32), u64_at disk (base + off + 40)) =
    (guid_to_mixed_endian t, guid_to_mixed_endian p, a, b)"
proof -
  have "sub es k n = sub disk (base + k) n" if "k + n \<le> 16384" for k n
    using assms(2) sub_sub[OF that, of disk base] by simp
  then show ?thesis using assms(1,3) unfolding entry_reads_def u64_at_def by (simp add: add.assoc)
qed

text \<open>A header that parses and points at the entries is accepted, and names the two partitions.\<close>

lemma read_gpt_parts:
  assumes h: "sub disk (my * SECTOR_SIZE) SECTOR_SIZE = hdr" "parse_header hdr = Some (header_of my alt ents du es)"
    and es: "es = gpt_entries eu ru" "sub disk (ents * SECTOR_SIZE) 16384 = es" and u: "length eu = 16" "length ru = 16"
  defines "H \<equiv> header_of my alt ents du es"
  shows "read_gpt disk my = Some H"
    and "partition_at disk H 0 = (guid_to_mixed_endian EFI_SYSTEM_GUID, guid_to_mixed_endian eu, ESP_START_LBA, ESP_END_LBA)"
    and "partition_at disk H 1 = (guid_to_mixed_endian LINUX_FS_GUID, guid_to_mixed_endian ru, ROOT_START_LBA, ROOT_END_LBA)"
proof -
  have H: "my_lba H = my" "entries_lba H = ents" "entries_crc H = zlib_crc32 es" "entry_size H = 128" "num_entries H * entry_size H = 16384"
    by (simp_all add: H_def header_of_def disk_layout)
  show "read_gpt disk my = Some H" using h es(2) H by (simp add: read_gpt_def H_def)
  show "partition_at disk H 0 = (guid_to_mixed_endian EFI_SYSTEM_GUID, guid_to_mixed_endian eu, ESP_START_LBA, ESP_END_LBA)"
    using entry_reads_lift[OF entries_read(1)[OF u] es(2)[unfolded es(1)]] H by (simp add: partition_at_def Let_def)
  show "partition_at disk H 1 = (guid_to_mixed_endian LINUX_FS_GUID, guid_to_mixed_endian ru, ROOT_START_LBA, ROOT_END_LBA)"
    using entry_reads_lift[OF entries_read(2)[OF u] es(2)[unfolded es(1)]] H by (simp add: partition_at_def Let_def)
qed

lemma gce_disk_parts:
  assumes "length du = 16" "length eu = 16" "length ru = 16" and "length esp = ESP_SECTORS * SECTOR_SIZE"
  shows "\<exists>disk h h'. gce_disk du eu ru esp ext4 = Inr disk \<and> length disk = 2 * 1024 ^ 3 \<and>
    disk ! 450 = 0xEE \<and> u16_at disk 510 = 0xAA55 \<and>
    read_gpt disk 1 = Some h \<and> read_gpt disk (TOTAL_SECTORS - 1) = Some h' \<and>
    alternate_lba h = my_lba h' \<and> alternate_lba h' = my_lba h \<and> disk_guid h = guid_to_mixed_endian du \<and> disk_guid h' = disk_guid h \<and>
    (\<forall>g \<in> {h, h'}.
       partition_at disk g 0 = (guid_to_mixed_endian EFI_SYSTEM_GUID, guid_to_mixed_endian eu, ESP_START_LBA, ESP_END_LBA) \<and>
       partition_at disk g 1 = (guid_to_mixed_endian LINUX_FS_GUID, guid_to_mixed_endian ru, ROOT_START_LBA, ROOT_END_LBA) \<and>
       first_usable g \<le> ESP_START_LBA \<and> ESP_END_LBA < ROOT_START_LBA \<and> ROOT_END_LBA \<le> last_usable g) \<and>
    partition_bytes disk ESP_START_LBA ESP_END_LBA = esp \<and>
    partition_bytes disk ROOT_START_LBA ROOT_END_LBA = root_image ROOT_SIZE ext4"
proof -
  let ?es = "gpt_entries eu ru" and ?root = "root_image ROOT_SIZE ext4"
  obtain p b where g: "make_gpt du eu ru = Inr (p, ?es, b, BACKUP_ENTRIES_LBA)"
    and l: "length p = SECTOR_SIZE" "length b = SECTOR_SIZE"
    and hp: "parse_header p = Some (header_of GPT_HEADER_LBA (TOTAL_SECTORS - 1) GPT_ENTRIES_START_LBA du ?es)"
    and hb: "parse_header b = Some (header_of (TOTAL_SECTORS - 1) GPT_HEADER_LBA BACKUP_ENTRIES_LBA du ?es)"
    using make_gpt_run[OF assms(1)] by blast
  obtain m where m: "make_protective_mbr (guid_to_mixed_endian du) = Inr m" "length m = SECTOR_SIZE"
    "m ! 450 = 0xEE" "u16_at m 510 = 0xAA55" using mbr_run by blast
  define disk where "disk = concat [m, p, ?es, esp, ?root, ?es, b]"
  have parts: "disk_parts disk m p ?es esp ?root b" and size: "length disk = DISK_SIZE"
    unfolding disk_def using m(2) l assms(4) entries_run(2) by (simp_all add: disk_parts_concat del: concat.simps)
  have run: "gce_disk du eu ru esp ext4 = Inr disk"
    unfolding gce_disk_def disk_def using g m(1) write_disk_run[OF m(2) l entries_run(2) assms(4)] by simp
  have p1: "sub disk (GPT_HEADER_LBA * SECTOR_SIZE) SECTOR_SIZE = p" using parts by (simp add: disk_parts_def GPT_HEADER_LBA_def)
  have b1: "sub disk ((TOTAL_SECTORS - 1) * SECTOR_SIZE) SECTOR_SIZE = b" using parts by (simp add: disk_parts_def)
  have e1: "sub disk (GPT_ENTRIES_START_LBA * SECTOR_SIZE) 16384 = ?es" "sub disk (BACKUP_ENTRIES_LBA * SECTOR_SIZE) 16384 = ?es"
    using parts by (simp_all add: disk_parts_def)
  note rp = read_gpt_parts[OF p1 hp refl e1(1) assms(2,3)] and rb = read_gpt_parts[OF b1 hb refl e1(2) assms(2,3)]
  have "disk ! 450 = 0xEE" "u16_at disk 510 = 0xAA55"
  proof -
    have m0: "sub disk 0 512 = m" using parts by (simp add: disk_parts_def disk_layout)
    have "disk ! (0 + 450) = sub disk 0 512 ! 450" using size by (subst nth_sub) (simp_all add: disk_layout)
    then show "disk ! 450 = 0xEE" using m(3) m0 by simp
    have "sub m 510 2 = sub disk 510 2" using m0 sub_sub[of 510 2 512 disk 0] by simp
    then show "u16_at disk 510 = 0xAA55" using m(4) by (simp add: u16_at_def)
  qed
  moreover have "partition_bytes disk ESP_START_LBA ESP_END_LBA = esp" "partition_bytes disk ROOT_START_LBA ROOT_END_LBA = ?root"
    using parts by (simp_all add: disk_parts_def partition_bytes_def ESP_END_LBA_def ROOT_SIZE_def) (simp add: disk_layout)
  ultimately show ?thesis
    using run size rp rb
    by (intro exI[of _ disk] exI[of _ "header_of GPT_HEADER_LBA (TOTAL_SECTORS - 1) GPT_ENTRIES_START_LBA du ?es"]
        exI[of _ "header_of (TOTAL_SECTORS - 1) GPT_HEADER_LBA BACKUP_ENTRIES_LBA du ?es"])
      (simp add: header_of_def disk_layout)
qed

text \<open>
  C20: the disk image of \<^verbatim>\<open>make_gce_disk.py\<close>.  For a boot file system of the size of its partition
  the script writes a disk of exactly 2 GB with a protective MBR.  Both GPT headers are accepted
  (signature, own checksum, checksum of the entries), each names the other as its alternate and
  their tables hold the same two partitions, which lie inside the usable area one after the
  other; the first partition holds the boot file system, the second the root image, padded with
  zeros or cut to the partition.
\<close>

theorem gce_disk_layout:
  assumes "length du = 16" "length eu = 16" "length ru = 16" and "length esp = ESP_SECTORS * SECTOR_SIZE"
  shows "\<exists>disk h h'. gce_disk du eu ru esp ext4 = Inr disk \<and> length disk = 2 * 1024 ^ 3 \<and>
    disk ! 450 = 0xEE \<and> u16_at disk 510 = 0xAA55 \<and>
    read_gpt disk 1 = Some h \<and> read_gpt disk (TOTAL_SECTORS - 1) = Some h' \<and>
    alternate_lba h = my_lba h' \<and> alternate_lba h' = my_lba h \<and> disk_guid h = guid_to_mixed_endian du \<and> disk_guid h' = disk_guid h \<and>
    (\<forall>g \<in> {h, h'}.
       partition_at disk g 0 = (guid_to_mixed_endian EFI_SYSTEM_GUID, guid_to_mixed_endian eu, ESP_START_LBA, ESP_END_LBA) \<and>
       partition_at disk g 1 = (guid_to_mixed_endian LINUX_FS_GUID, guid_to_mixed_endian ru, ROOT_START_LBA, ROOT_END_LBA) \<and>
       first_usable g \<le> ESP_START_LBA \<and> ESP_END_LBA < ROOT_START_LBA \<and> ROOT_END_LBA \<le> last_usable g) \<and>
    partition_bytes disk ESP_START_LBA ESP_END_LBA = esp \<and>
    partition_bytes disk ROOT_START_LBA ROOT_END_LBA = root_image ROOT_SIZE ext4"
  by (rule gce_disk_parts[OF assms])

theorem gce_disk_layout_witness:
  "\<exists>disk. gce_disk (zeros 16) (zeros 16) (zeros 16) (zeros (ESP_SECTORS * SECTOR_SIZE)) None = Inr disk \<and>
     length disk = 2 * 1024 ^ 3 \<and> read_gpt disk 1 \<noteq> None \<and> read_gpt disk (TOTAL_SECTORS - 1) \<noteq> None"
  using gce_disk_layout[of "zeros 16" "zeros 16" "zeros 16" "zeros (ESP_SECTORS * SECTOR_SIZE)" None] by auto

end
