(* ===== verification/Fat32.thy ===== *)
theory Fat32
  imports Gpt
begin

text \<open>
  \<^verbatim>\<open>make_fat32_esp\<close> of \<^verbatim>\<open>make_gce_disk.py\<close>: the boot file system.  This theory holds the model:
  the loop that settles the size of the allocation tables, the boot sector, cluster allocation,
  file and directory writing, and long file names.
\<close>

section \<open>Geometry\<close>

definition bytes_per_sector :: nat where
  "bytes_per_sector = 512"

definition sectors_per_cluster :: nat where
  "sectors_per_cluster = 1"

definition reserved_sectors :: nat where
  "reserved_sectors = 32"

definition num_fats :: nat where
  "num_fats = 2"

definition cluster_size :: nat where
  "cluster_size = bytes_per_sector * sectors_per_cluster"

named_theorems fat_layout \<open>the geometry of the boot file system\<close>

declare bytes_per_sector_def [fat_layout] sectors_per_cluster_def [fat_layout] reserved_sectors_def [fat_layout]
  num_fats_def [fat_layout] cluster_size_def [fat_layout]

text \<open>
  The loop body: sectors a table needs when the tables take \<open>fat_size\<close> sectors each (the number
  of data sectors may be negative on the way, so the computation is over the integers).
\<close>

definition needed_sectors :: "int \<Rightarrow> int" where
  "needed_sectors fat_size =
     (let data_start = int reserved_sectors + int num_fats * fat_size;
          usable = int ESP_SECTORS - data_start;
          max_clusters = usable div int sectors_per_cluster;
          needed_fat = (max_clusters + 2) * 4
      in (needed_fat + int bytes_per_sector - 1) div int bytes_per_sector)"

lemma needed_sectors_eq: "needed_sectors f = (819591 - 8 * f) div 512"
  by (simp add: needed_sectors_def Let_def fat_layout disk_layout)

lemma needed_sectors_antimono: "f \<le> g \<Longrightarrow> needed_sectors g \<le> needed_sectors f"
  unfolding needed_sectors_eq by (intro zdiv_mono1) auto

function fat_size_loop :: "int \<Rightarrow> int" where
  "fat_size_loop fat_size =
     (if needed_sectors fat_size \<le> fat_size then fat_size else fat_size_loop (fat_size + 1))"
  by pat_completeness auto
termination
proof (relation "measure (\<lambda>f. nat (needed_sectors f - f))")
  fix f :: int
  assume "\<not> needed_sectors f \<le> f"
  moreover have "needed_sectors (f + 1) \<le> needed_sectors f" by (rule needed_sectors_antimono) simp
  ultimately show "(f + 1, f) \<in> measure (\<lambda>f. nat (needed_sectors f - f))" by simp
qed simp

declare fat_size_loop.simps [simp del]

definition fat_size_sectors :: nat where
  "fat_size_sectors =
     (let data_sectors = ESP_SECTORS - reserved_sectors in
      nat (fat_size_loop (int ((data_sectors * 4 div bytes_per_sector + num_fats * 4) div
        (num_fats * bytes_per_sector + 4) + 1))))"

definition data_start_sector :: nat where
  "data_start_sector = reserved_sectors + num_fats * fat_size_sectors"

definition data_clusters :: nat where
  "data_clusters = (ESP_SECTORS - data_start_sector) div sectors_per_cluster"

section \<open>Boot sector and information sector\<close>

definition bpb_stmts :: "pack_stmt list" where
  "bpb_stmts =
     [(0, [S 3 [0xEB, 0x58, 0x90]]), (3, [S 8 (raw_bytes ''mkfs.fat'')]), (11, [U 2 (int bytes_per_sector)]),
      (13, [U 1 (int sectors_per_cluster)]), (14, [U 2 (int reserved_sectors)]), (16, [U 1 (int num_fats)]),
      (17, [U 2 0]), (19, [U 2 0]), (21, [U 1 0xF8]), (22, [U 2 0]), (24, [U 2 32]), (26, [U 2 8]), (28, [U 4 0]),
      (32, [U 4 (int ESP_SECTORS)]), (36, [U 4 (int fat_size_sectors)]), (40, [U 2 0]), (42, [U 2 0]),
      (44, [U 4 2]), (48, [U 2 1]), (50, [U 2 6]), (66, [U 1 0x29]), (67, [U 4 0x5A494749]),
      (71, [S 11 (raw_bytes ''ZIGIX ESP  '')]), (82, [S 8 (raw_bytes ''FAT32   '')]), (510, [U 2 0xAA55])]"

definition fsinfo_stmts :: "pack_stmt list" where
  "fsinfo_stmts =
     (let off = bytes_per_sector in
      [(off, [U 4 0x41615252]), (off + 484, [U 4 0x61417272]), (off + 488, [U 4 (int data_clusters - 10)]),
       (off + 492, [U 4 3]), (off + 508, [U 4 0xAA550000])])"

section \<open>Clusters\<close>

record fat_state =
  fat :: bytes
  next_cluster :: nat

definition fat_pack :: "field list \<Rightarrow> nat \<Rightarrow> (fat_state, unit) py" where
  "fat_pack fs off =
     py_bind (py_get fat) (\<lambda>b. py_bind (py_lift (pack_into fs off b)) (\<lambda>b'. py_mod (fat_update (\<lambda>_. b'))))"

definition fat_write :: "nat \<Rightarrow> bytes \<Rightarrow> (fat_state, unit) py" where
  "fat_write off d = py_mod (fat_update (put_at off d))"

definition alloc_cluster :: "(fat_state, nat) py" where
  "alloc_cluster =
     py_bind (py_get next_cluster) (\<lambda>c. py_seq (py_mod (next_cluster_update (\<lambda>n. n + 1))) (py_ret c))"

definition cluster_offset :: "nat \<Rightarrow> nat" where
  "cluster_offset cluster = data_start_sector * bytes_per_sector + (cluster - 2) * cluster_size"

definition set_fat_entry :: "nat \<Rightarrow> nat \<Rightarrow> (fat_state, unit) py" where
  "set_fat_entry cluster value =
     py_each (\<lambda>f. fat_pack [U 4 (int value)]
       ((reserved_sectors + f * fat_size_sectors) * bytes_per_sector + cluster * 4)) [0..<num_fats]"

definition write_cluster :: "bytes \<Rightarrow> nat \<Rightarrow> nat \<Rightarrow> nat \<Rightarrow> (fat_state, unit) py" where
  "write_cluster data num_clusters i c =
     (let off = cluster_offset c;
          chunk_start = i * cluster_size;
          chunk_end = min (chunk_start + cluster_size) (length data)
      in py_seq
          (if chunk_start < length data then fat_write off (sub data chunk_start (chunk_end - chunk_start)) else py_ret ())
          (if i < num_clusters - 1 then set_fat_entry c (c + 1) else set_fat_entry c 0x0FFFFFFF))"

definition write_file_to_clusters :: "bytes \<Rightarrow> (fat_state, nat) py" where
  "write_file_to_clusters data =
     (let num_clusters = max 1 (ceil_div (length data) cluster_size) in
      py_bind alloc_cluster (\<lambda>first.
      py_seq
        (py_each (\<lambda>i. py_bind (if i = 0 then py_ret (first + i) else alloc_cluster) (write_cluster data num_clusters i))
          [0..<num_clusters])
        (py_ret first)))"

section \<open>Directory entries\<close>

definition pad_name :: "bytes \<Rightarrow> bytes" where
  "pad_name nb = (if length nb < 11 then nb @ replicate (11 - length nb) 0x20 else nb)"

definition fat_dir_entry :: "string \<Rightarrow> nat \<Rightarrow> nat \<Rightarrow> nat \<Rightarrow> bytes result" where
  "fat_dir_entry name attr cluster fsize =
     res_bind (encode_ascii name) (\<lambda>nb.
     pack_seq [(0, [S 11 (take 11 (pad_name nb))]), (11, [U 1 (int attr)]),
       (20, [U 2 (int (drop_bit 16 cluster AND 0xFFFF))]), (26, [U 2 (int (cluster AND 0xFFFF))]),
       (28, [U 4 (int fsize)])] (zeros 32))"

definition lfn_checksum :: "bytes \<Rightarrow> nat" where
  "lfn_checksum short_bytes =
     foldl (\<lambda>cksum b. (drop_bit 1 cksum + push_bit 7 (cksum AND 1) + unat b) AND 0xFF) 0 (take 11 short_bytes)"

definition lfn_units :: "string \<Rightarrow> bytes" where
  "lfn_units chars =
     (let padded = chars @ [CHR 0x00];
          padded = padded @ replicate (13 - length padded) (CHR 0xFF)
      in concat (map (\<lambda>ch. if ch = CHR 0xFF then [0xFF, 0xFF] else utf16_le [ch]) (take 13 padded)))"

definition lfn_entry :: "string \<Rightarrow> nat \<Rightarrow> nat \<Rightarrow> nat \<Rightarrow> bytes result" where
  "lfn_entry long_name num_lfn cksum seq =
     (let ordinal = seq OR (if seq = num_lfn then 0x40 else 0);
          ucs2 = lfn_units (sub long_name ((seq - 1) * 13) 13)
      in pack_seq [(0, [U 1 (int ordinal)]), (11, [U 1 0x0F]), (13, [U 1 (int cksum)]), (1, [S 10 (sub ucs2 0 10)]),
           (14, [S 12 (sub ucs2 10 12)]), (28, [S 4 (sub ucs2 22 4)])] (zeros 32))"

fun res_collect :: "('a \<Rightarrow> 'b result) \<Rightarrow> 'a list \<Rightarrow> 'b list result" where
  "res_collect f [] = Inr []"
| "res_collect f (x # xs) = res_bind (f x) (\<lambda>y. res_bind (res_collect f xs) (\<lambda>ys. Inr (y # ys)))"

definition make_lfn_entries :: "string \<Rightarrow> string \<Rightarrow> nat \<Rightarrow> nat \<Rightarrow> nat \<Rightarrow> bytes list result" where
  "make_lfn_entries long_name short_name attr cluster fsize =
     (let num_lfn = ceil_div (length long_name) 13 in
      res_bind (encode_ascii short_name) (\<lambda>sb.
      res_bind (res_collect (lfn_entry long_name num_lfn (lfn_checksum (pad_name sb))) (rev [1..<num_lfn + 1])) (\<lambda>es.
      res_bind (fat_dir_entry short_name attr cluster fsize) (\<lambda>e.
      Inr (es @ [e])))))"

text \<open>\<^verbatim>\<open>fat[pos:pos + 32] = entry; pos += 32\<close>, repeated.\<close>

primrec put_entries :: "nat \<Rightarrow> bytes list \<Rightarrow> (fat_state, unit) py" where
  "put_entries pos [] = py_ret ()"
| "put_entries pos (e # es) =
     py_seq (py_mod (fat_update (slice_set pos (pos + 32) e))) (put_entries (pos + 32) es)"

section \<open>The whole image\<close>

definition alloc_directory :: "(fat_state, nat) py" where
  "alloc_directory = py_bind alloc_cluster (\<lambda>c. py_seq (set_fat_entry c 0x0FFFFFFF) (py_ret c))"

definition fat_boot :: "bytes result" where
  "fat_boot =
     res_bind (pack_seq bpb_stmts (zeros (ESP_SECTORS * SECTOR_SIZE))) (\<lambda>b.
     res_bind (pack_seq fsinfo_stmts b) (\<lambda>b.
     Inr (slice_set (6 * bytes_per_sector) (7 * bytes_per_sector) (take bytes_per_sector b) b)))"

definition dir_entries :: "(string \<times> nat \<times> nat \<times> nat) list \<Rightarrow> bytes list result" where
  "dir_entries es = res_collect (\<lambda>(name, attr, cluster, fsize). fat_dir_entry name attr cluster fsize) es"

definition put_dir :: "nat \<Rightarrow> (string \<times> nat \<times> nat \<times> nat) list \<Rightarrow> (fat_state, unit) py" where
  "put_dir pos es = py_bind (py_lift (dir_entries es)) (put_entries pos)"

definition fat_clusters :: "(fat_state, nat \<times> nat \<times> nat \<times> nat) py" where
  "fat_clusters =
     py_seq (set_fat_entry 0 0x0FFFFFF8)
     (py_seq (set_fat_entry 1 0x0FFFFFFF)
     (py_bind alloc_cluster (\<lambda>root_cluster.
      if root_cluster \<noteq> 2 then py_raise AssertionError else
      py_seq (set_fat_entry root_cluster 0x0FFFFFFF)
     (py_bind alloc_directory (\<lambda>efi_cluster.
      py_bind alloc_directory (\<lambda>boot_cluster.
      py_bind alloc_directory (\<lambda>zigix_cluster.
      py_ret (root_cluster, efi_cluster, boot_cluster, zigix_cluster))))))))"

definition fat_directories ::
  "nat \<times> nat \<times> nat \<times> nat \<Rightarrow> nat \<Rightarrow> nat \<Rightarrow> nat \<Rightarrow> nat \<Rightarrow> (fat_state, unit) py" where
  "fat_directories dirs bootloader_cluster bootloader_len kernel_cluster kernel_len =
     (case dirs of (root_cluster, efi_cluster, boot_cluster, zigix_cluster) \<Rightarrow>
      py_seq (put_dir (cluster_offset root_cluster)
        [(''ZIGIX ESP  '', 0x08, 0, 0), (''EFI        '', 0x10, efi_cluster, 0), (''ZIGIX      '', 0x10, zigix_cluster, 0)])
     (py_seq (put_dir (cluster_offset efi_cluster)
        [(''.          '', 0x10, efi_cluster, 0), (''..         '', 0x10, root_cluster, 0),
         (''BOOT       '', 0x10, boot_cluster, 0)])
     (py_seq (put_dir (cluster_offset boot_cluster)
        [(''.          '', 0x10, boot_cluster, 0), (''..         '', 0x10, efi_cluster, 0),
         (''BOOTAA64EFI'', 0x20, bootloader_cluster, bootloader_len)])
     (py_seq (put_dir (cluster_offset zigix_cluster)
        [(''.          '', 0x10, zigix_cluster, 0), (''..         '', 0x10, root_cluster, 0)])
     (py_bind (py_lift (make_lfn_entries ''zigix-aarch64'' ''ZIGIX-~1   '' 0x20 kernel_cluster kernel_len))
        (put_entries (cluster_offset zigix_cluster + 64)))))))"

definition fat_content :: "bytes \<Rightarrow> bytes \<Rightarrow> (fat_state, unit) py" where
  "fat_content bootloader_data kernel_data =
     py_bind fat_clusters (\<lambda>dirs.
     py_bind (write_file_to_clusters bootloader_data) (\<lambda>bootloader_cluster.
     py_bind (write_file_to_clusters kernel_data) (\<lambda>kernel_cluster.
     fat_directories dirs bootloader_cluster (length bootloader_data) kernel_cluster (length kernel_data))))"

definition make_fat32_esp :: "bytes \<Rightarrow> bytes \<Rightarrow> bytes result" where
  "make_fat32_esp bootloader_data kernel_data =
     res_bind fat_boot (\<lambda>b.
     res_bind (fat_content bootloader_data kernel_data \<lparr>fat = b, next_cluster = 2\<rparr>) (\<lambda>(_, s). Inr (fat s)))"

end
