(* ===== verification/Fat32_Layout.thy ===== *)
theory Fat32_Layout
  imports Fat32
begin

text \<open>
  The image as slots: the reserved area, the entries of the two allocation tables and the
  clusters.  A write inside one slot leaves all others alone, which is how the allocation chain
  of one file is kept apart from the next.  The theory shows that the table-size loop stops at
  the smallest sufficient size and that a file written to clusters is read back along its chain.
\<close>

section \<open>The table-size loop\<close>

lemma fat_size_loop_least:
  assumes "f \<le> g" and "needed_sectors g \<le> g" and "\<And>h. f \<le> h \<Longrightarrow> h < g \<Longrightarrow> h < needed_sectors h"
  shows "fat_size_loop f = g"
  using assms
proof (induction f rule: fat_size_loop.induct)
  case (1 f)
  show ?case
  proof (cases "needed_sectors f \<le> f")
    case True
    then have "f = g" using "1.prems"(1) "1.prems"(3)[of f] by force
    with True show ?thesis by (simp add: fat_size_loop.simps)
  next
    case False
    then have "f + 1 \<le> g" using "1.prems"(1,2) by (cases "f = g") auto
    then have "fat_size_loop (f + 1) = g" using "1.prems" False by (intro "1.IH") auto
    with False show ?thesis by (simp add: fat_size_loop.simps[of f])
  qed
qed

lemma fat_size_value [fat_layout]: "fat_size_sectors = 1576"
proof -
  have "fat_size_loop 2 = 1576"
  proof (rule fat_size_loop_least)
    fix h :: int assume h: "2 \<le> h" "h < 1576"
    then have "needed_sectors 1575 \<le> needed_sectors h" by (intro needed_sectors_antimono) simp
    with h show "h < needed_sectors h" by (simp add: needed_sectors_eq)
  qed (simp_all add: needed_sectors_eq)
  then show ?thesis by (simp add: fat_size_sectors_def Let_def fat_layout disk_layout)
qed

lemma data_start_value [fat_layout]: "data_start_sector = 3184"
  by (simp add: data_start_sector_def fat_layout)

lemma data_clusters_value [fat_layout]: "data_clusters = 201616"
  by (simp add: data_clusters_def fat_layout disk_layout)

text \<open>
  C22: the loop that sizes the allocation tables of the boot file system stops, and at the smallest
  size that works: a table of that size has an entry for every cluster that is left, and no
  smaller size at or above the start value of the loop does.
\<close>

theorem fat_size_minimal:
  "data_clusters + 2 \<le> fat_size_sectors * bytes_per_sector div 4 \<and>
   data_start_sector + data_clusters * sectors_per_cluster = ESP_SECTORS \<and>
   (\<forall>f < int fat_size_sectors. needed_sectors f > f)"
proof -
  have "needed_sectors 1575 \<le> needed_sectors f" if "f < 1576" for f
    using that by (intro needed_sectors_antimono) simp
  then have "f < needed_sectors f" if "f < 1576" for f
    using that by (force simp: needed_sectors_eq)
  then show ?thesis by (simp add: fat_layout disk_layout)
qed

theorem fat_size_minimal_witness: "(1575 :: int) < int fat_size_sectors \<and> needed_sectors 1575 > 1575"
  using fat_size_minimal by (simp add: fat_size_value)

section \<open>Slots\<close>

datatype slot = Reserved | Fat_Entry nat nat | Cluster nat

fun slot_off :: "slot \<Rightarrow> nat" where
  "slot_off Reserved = 0"
| "slot_off (Fat_Entry f c) = (reserved_sectors + f * fat_size_sectors) * bytes_per_sector + c * 4"
| "slot_off (Cluster c) = cluster_offset c"

fun slot_size :: "slot \<Rightarrow> nat" where
  "slot_size Reserved = reserved_sectors * bytes_per_sector"
| "slot_size (Fat_Entry f c) = 4"
| "slot_size (Cluster c) = cluster_size"

fun slot_ok :: "slot \<Rightarrow> bool" where
  "slot_ok Reserved \<longleftrightarrow> True"
| "slot_ok (Fat_Entry f c) \<longleftrightarrow> f < num_fats \<and> c < data_clusters + 2"
| "slot_ok (Cluster c) \<longleftrightarrow> 2 \<le> c \<and> c < data_clusters + 2"

definition slot_at :: "bytes \<Rightarrow> slot \<Rightarrow> bytes" where
  "slot_at im k = sub im (slot_off k) (slot_size k)"

definition esp_sized :: "bytes \<Rightarrow> bool" where
  "esp_sized im \<longleftrightarrow> length im = ESP_SECTORS * SECTOR_SIZE"

lemma slot_in_image: "slot_ok k \<Longrightarrow> slot_off k + slot_size k \<le> ESP_SECTORS * SECTOR_SIZE"
  by (cases k) (auto simp: fat_layout disk_layout cluster_offset_def)

lemma slots_disjoint:
  assumes "slot_ok k" "slot_ok l" "k \<noteq> l"
  shows "slot_off k + slot_size k \<le> slot_off l \<or> slot_off l + slot_size l \<le> slot_off k"
proof (cases k; cases l)
  fix f c g d assume "k = Fat_Entry f c" "l = Fat_Entry g d"
  moreover have "f = 0 \<or> f = 1" "g = 0 \<or> g = 1" using assms calculation by (auto simp: fat_layout)
  ultimately show ?thesis using assms by (auto simp: fat_layout)
qed (use assms in \<open>auto simp: fat_layout cluster_offset_def\<close>)

text \<open>Two images that agree outside a set of slots.\<close>

definition eq_except :: "slot set \<Rightarrow> bytes \<Rightarrow> bytes \<Rightarrow> bool" where
  "eq_except K im im' \<longleftrightarrow> length im' = length im \<and> (\<forall>k. slot_ok k \<longrightarrow> k \<notin> K \<longrightarrow> slot_at im' k = slot_at im k)"

lemma eq_except_refl [simp]: "eq_except K im im"
  by (simp add: eq_except_def)

lemma eq_except_trans: "eq_except K im im' \<Longrightarrow> eq_except L im' im'' \<Longrightarrow> K \<union> L \<subseteq> M \<Longrightarrow> eq_except M im im''"
  unfolding eq_except_def by (metis UnCI subsetD)

lemma eq_except_mono: "eq_except K im im' \<Longrightarrow> K \<subseteq> L \<Longrightarrow> eq_except L im im'"
  by (auto simp: eq_except_def)

lemma eq_except_slot: "eq_except K im im' \<Longrightarrow> slot_ok k \<Longrightarrow> k \<notin> K \<Longrightarrow> slot_at im' k = slot_at im k"
  by (simp add: eq_except_def)

lemma eq_except_length: "eq_except K im im' \<Longrightarrow> length im' = length im"
  by (simp add: eq_except_def)

lemma eq_except_esp: "eq_except K im im' \<Longrightarrow> esp_sized im \<Longrightarrow> esp_sized im'"
  by (simp add: eq_except_def esp_sized_def)

text \<open>A write inside a slot.\<close>

lemma put_in_slot:
  assumes "esp_sized im" and "slot_ok k" and "p + length d \<le> slot_size k"
  shows "eq_except {k} im (put_at (slot_off k + p) d im)"
    and "slot_at (put_at (slot_off k + p) d im) k = put_at p d (slot_at im k)"
proof -
  have r: "slot_off k + p + length d \<le> length im" "slot_off k + slot_size k \<le> length im"
    using assms slot_in_image[OF assms(2)] by (simp_all add: esp_sized_def)
  have "slot_at (put_at (slot_off k + p) d im) l = slot_at im l" if "slot_ok l" "l \<noteq> k" for l
    unfolding slot_at_def using r(1) slots_disjoint[OF assms(2) that(1)] that(2) assms(3)
    by (intro sub_put_at_disjoint) auto
  then show "eq_except {k} im (put_at (slot_off k + p) d im)" using r(1) by (simp add: eq_except_def)
  show "slot_at (put_at (slot_off k + p) d im) k = put_at p d (slot_at im k)"
  proof (rule nth_equalityI)
    fix i assume "i < length (slot_at (put_at (slot_off k + p) d im) k)"
    then have "i < slot_size k" by (simp add: slot_at_def length_sub)
    then show "slot_at (put_at (slot_off k + p) d im) k ! i = put_at p d (slot_at im k) ! i"
      using r assms(3) by (auto simp: slot_at_def nth_sub nth_put_at)
  qed (use r assms(3) in \<open>simp add: slot_at_def\<close>)
qed

section \<open>Allocation table entries\<close>

lemma fat_pack_run:
  assumes "esp_sized (fat s)" and "slot_ok (Fat_Entry f c)" and "v < 2 ^ 32"
  shows "fat_pack [U 4 (int v)] (slot_off (Fat_Entry f c)) s =
    Inr ((), fat_update (put_at (slot_off (Fat_Entry f c)) (le_bytes 4 v)) s)"
proof -
  have "slot_off (Fat_Entry f c) + 4 \<le> length (fat s)"
    using slot_in_image[OF assms(2)] assms(1) by (simp add: esp_sized_def)
  then show ?thesis
    using assms(3) by (simp add: fat_pack_def py_bind_run pack_into_def pack_le_def del: le_bytes.simps)
qed

definition entry_slots :: "nat \<Rightarrow> slot set" where
  "entry_slots c = {Fat_Entry 0 c, Fat_Entry 1 c}"

lemma set_fat_entry_run:
  assumes "esp_sized (fat s)" and "c < data_clusters + 2" and "v < 2 ^ 32"
  shows "\<exists>b. set_fat_entry c v s = Inr ((), s\<lparr>fat := b\<rparr>) \<and> eq_except (entry_slots c) (fat s) b \<and>
    (\<forall>k \<in> entry_slots c. slot_at b k = le_bytes 4 v)"
proof -
  let ?k0 = "Fat_Entry 0 c" and ?k1 = "Fat_Entry 1 c"
  have ok: "slot_ok ?k0" "slot_ok ?k1" using assms(2) by (simp_all add: fat_layout)
  define b0 where "b0 = put_at (slot_off ?k0) (le_bytes 4 v) (fat s)"
  define b1 where "b1 = put_at (slot_off ?k1) (le_bytes 4 v) b0"
  have e0: "eq_except {?k0} (fat s) b0" "slot_at b0 ?k0 = put_at 0 (le_bytes 4 v) (slot_at (fat s) ?k0)"
    using put_in_slot[OF assms(1) ok(1), of 0 "le_bytes 4 v"] by (simp_all add: b0_def del: le_bytes.simps)
  have z0: "esp_sized b0" using eq_except_esp[OF e0(1) assms(1)] .
  have e1: "eq_except {?k1} b0 b1" "slot_at b1 ?k1 = put_at 0 (le_bytes 4 v) (slot_at b0 ?k1)"
    using put_in_slot[OF z0 ok(2), of 0 "le_bytes 4 v"] by (simp_all add: b1_def del: le_bytes.simps)
  have full: "put_at 0 (le_bytes 4 v) x = le_bytes 4 v" if "length x = 4" for x
    using that by (simp add: put_at_def slice_set_def del: le_bytes.simps)
  have len: "length (slot_at x k) = slot_size k" if "esp_sized x" "slot_ok k" for x k
    using that slot_in_image[OF that(2)] by (simp add: slot_at_def esp_sized_def)
  have "slot_at b1 ?k1 = le_bytes 4 v" "slot_at b1 ?k0 = le_bytes 4 v"
    using e1(2) e0(2) full len[OF z0 ok(2)] len[OF assms(1) ok(1)] eq_except_slot[OF e1(1) ok(1)]
    by (simp_all del: le_bytes.simps)
  moreover have "set_fat_entry c v s = Inr ((), s\<lparr>fat := b1\<rparr>)"
  proof -
    have "fat_pack [U 4 (int v)] (slot_off ?k0) s = Inr ((), s\<lparr>fat := b0\<rparr>)"
      "fat_pack [U 4 (int v)] (slot_off ?k1) (s\<lparr>fat := b0\<rparr>) = Inr ((), s\<lparr>fat := b1\<rparr>)"
      using fat_pack_run[OF assms(1) ok(1) assms(3)] fat_pack_run[of "s\<lparr>fat := b0\<rparr>", OF _ ok(2) assms(3)] z0
      by (simp_all add: b0_def b1_def)
    then show ?thesis by (simp add: set_fat_entry_def num_fats_def upt_conv_Cons py_seq_run)
  qed
  ultimately show ?thesis
    using eq_except_trans[OF e0(1) e1(1), of "entry_slots c"] by (auto simp: entry_slots_def)
qed

section \<open>Files\<close>

lemma take_put_at_0 [simp]: "take (length d) (put_at 0 d x) = d"
  by (simp add: put_at_def slice_set_def)

definition file_slots :: "nat \<Rightarrow> slot set" where
  "file_slots c = insert (Cluster c) (entry_slots c)"

lemma file_slots_disjoint: "c \<noteq> d \<Longrightarrow> file_slots c \<inter> file_slots d = {}"
  by (simp add: file_slots_def entry_slots_def)

definition chain_next :: "nat \<Rightarrow> nat \<Rightarrow> nat \<Rightarrow> nat" where
  "chain_next c n i = (if i < n - 1 then c + i + 1 else 0x0FFFFFFF)"

definition cluster_holds :: "bytes \<Rightarrow> bytes \<Rightarrow> nat \<Rightarrow> nat \<Rightarrow> nat \<Rightarrow> bool" where
  "cluster_holds im data c n i \<longleftrightarrow>
     (\<forall>k \<in> entry_slots (c + i). slot_at im k = le_bytes 4 (chain_next c n i)) \<and>
     (let chunk = sub data (i * cluster_size) cluster_size in
      take (length chunk) (slot_at im (Cluster (c + i))) = chunk)"

lemma cluster_holds_frame:
  assumes "cluster_holds im data c n i" and "eq_except K im im'" and "2 \<le> c" "c + i < data_clusters + 2"
    and "K \<inter> file_slots (c + i) = {}"
  shows "cluster_holds im' data c n i"
proof -
  have "slot_at im' k = slot_at im k" if "k \<in> file_slots (c + i)" for k
    using assms(3-5) that by (intro eq_except_slot[OF assms(2)]) (auto simp: file_slots_def entry_slots_def fat_layout)
  then show ?thesis using assms(1) by (simp add: cluster_holds_def file_slots_def)
qed

lemma write_cluster_run:
  assumes "esp_sized (fat s)" and "2 \<le> c" "c + n \<le> data_clusters + 2" "i < n"
  shows "\<exists>b. write_cluster data n i (c + i) s = Inr ((), s\<lparr>fat := b\<rparr>) \<and>
    eq_except (file_slots (c + i)) (fat s) b \<and> cluster_holds b data c n i"
proof -
  let ?chunk = "sub data (i * cluster_size) cluster_size" and ?k = "Cluster (c + i)"
  define b0 where "b0 = (if i * cluster_size < length data then put_at (cluster_offset (c + i)) ?chunk (fat s) else fat s)"
  have ok: "slot_ok ?k" using assms by simp
  have cl: "length ?chunk \<le> cluster_size" by (simp add: length_sub)
  have empty: "?chunk = []" if "\<not> i * cluster_size < length data" using that by (simp add: sub_def)
  have e0: "eq_except {?k} (fat s) b0" "take (length ?chunk) (slot_at b0 ?k) = ?chunk"
    using put_in_slot[OF assms(1) ok, of 0 ?chunk] cl empty by (auto simp: b0_def)
  have z0: "esp_sized b0" using eq_except_esp[OF e0(1) assms(1)] .
  have v: "chain_next c n i < 2 ^ 32" using assms by (simp add: chain_next_def fat_layout)
  obtain b where b: "set_fat_entry (c + i) (chain_next c n i) (s\<lparr>fat := b0\<rparr>) = Inr ((), s\<lparr>fat := b\<rparr>)"
    "eq_except (entry_slots (c + i)) b0 b" "\<forall>k \<in> entry_slots (c + i). slot_at b k = le_bytes 4 (chain_next c n i)"
    using set_fat_entry_run[of "s\<lparr>fat := b0\<rparr>" "c + i", OF _ _ v] z0 assms by auto
  have "slot_at b ?k = slot_at b0 ?k" using b(2) ok by (rule eq_except_slot) (simp add: entry_slots_def)
  then have h: "cluster_holds b data c n i" using b(3) e0(2) by (simp add: cluster_holds_def Let_def)
  have "sub data (i * cluster_size) (min (i * cluster_size + cluster_size) (length data) - i * cluster_size) = ?chunk"
    by (simp add: sub_def min_def)
  moreover define W where "W = (if i * cluster_size < length data
      then fat_write (cluster_offset (c + i))
        (sub data (i * cluster_size) (min (i * cluster_size + cluster_size) (length data) - i * cluster_size))
      else py_ret ())"
  ultimately have w: "W s = Inr ((), s\<lparr>fat := b0\<rparr>)" by (simp add: fat_write_def b0_def)
  have "(if i < n - 1 then set_fat_entry (c + i) (c + i + 1) else set_fat_entry (c + i) 0x0FFFFFFF) =
      set_fat_entry (c + i) (chain_next c n i)" by (simp add: chain_next_def)
  then have "write_cluster data n i (c + i) s = py_seq W (set_fat_entry (c + i) (chain_next c n i)) s"
    by (simp add: write_cluster_def Let_def W_def)
  then have "write_cluster data n i (c + i) s = Inr ((), s\<lparr>fat := b\<rparr>)" using w b(1) by (simp add: py_seq_run)
  then show ?thesis
    using h eq_except_trans[OF e0(1) b(2), of "file_slots (c + i)"] by (auto simp: file_slots_def)
qed

lemma alloc_cluster_run: "alloc_cluster s = Inr (next_cluster s, s\<lparr>next_cluster := next_cluster s + 1\<rparr>)"
  by (simp add: alloc_cluster_def py_bind_run py_seq_run)

definition num_clusters_of :: "bytes \<Rightarrow> nat" where
  "num_clusters_of data = max 1 (ceil_div (length data) cluster_size)"

text \<open>The loop after \<open>m\<close> rounds.\<close>

lemma write_clusters_run:
  assumes "esp_sized (fat s)" and "next_cluster s = c + 1" and "2 \<le> c" "c + n \<le> data_clusters + 2"
    and "0 < m" "m \<le> n"
  shows "\<exists>b. py_each (\<lambda>i. py_bind (if i = 0 then py_ret (c + i) else alloc_cluster) (write_cluster data n i)) [0..<m] s =
      Inr ((), s\<lparr>fat := b, next_cluster := c + m\<rparr>) \<and>
    eq_except (\<Union>i < m. file_slots (c + i)) (fat s) b \<and> (\<forall>i < m. cluster_holds b data c n i)"
  using assms(5,6)
proof (induction m)
  case (Suc m)
  let ?f = "\<lambda>i. py_bind (if i = 0 then py_ret (c + i) else alloc_cluster) (write_cluster data n i)"
  obtain s' where s': "py_each ?f [0..<m] s = Inr ((), s')" "next_cluster s' = (if m = 0 then c + 1 else c + m)"
    and e: "eq_except (\<Union>i < m. file_slots (c + i)) (fat s) (fat s')" and h: "\<forall>i < m. cluster_holds (fat s') data c n i"
    and sh: "\<And>b k. s'\<lparr>fat := b, next_cluster := k\<rparr> = s\<lparr>fat := b, next_cluster := k\<rparr>"
  proof (cases "m = 0")
    case False
    with Suc obtain b where "py_each ?f [0..<m] s = Inr ((), s\<lparr>fat := b, next_cluster := c + m\<rparr>)"
      "eq_except (\<Union>i < m. file_slots (c + i)) (fat s) b" "\<forall>i < m. cluster_holds b data c n i" by auto
    then show ?thesis using that[of "s\<lparr>fat := b, next_cluster := c + m\<rparr>"] False by simp
  qed (use that[of s] assms(2) in simp)
  let ?s = "s'\<lparr>next_cluster := c + Suc m\<rparr>"
  have z: "esp_sized (fat s')" using eq_except_esp[OF e assms(1)] .
  obtain b where b: "write_cluster data n m (c + m) ?s = Inr ((), ?s\<lparr>fat := b\<rparr>)"
    "eq_except (file_slots (c + m)) (fat s') b" "cluster_holds b data c n m"
    using write_cluster_run[of ?s c n m data] z assms(3,4) Suc.prems by auto
  define A where "A = (if m = 0 then py_ret (c + m) else alloc_cluster)"
  have a: "A s' = Inr (c + m, ?s)" using s'(2) by (auto simp: A_def alloc_cluster_run)
  have "?f m s' = Inr ((), s\<lparr>fat := b, next_cluster := c + Suc m\<rparr>)"
    using a b(1) sh[of "c + Suc m" b] by (simp add: py_bind_run flip: A_def del: if_split)
  then have "py_each ?f [0..<Suc m] s = Inr ((), s\<lparr>fat := b, next_cluster := c + Suc m\<rparr>)"
    using s'(1) by (simp add: py_each_append py_seq_run del: if_split)
  moreover have "eq_except (\<Union>i < Suc m. file_slots (c + i)) (fat s) b"
    using e b(2) by (rule eq_except_trans) (auto simp: lessThan_Suc)
  moreover have "cluster_holds b data c n i" if "i < Suc m" for i
  proof (cases "i = m")
    case False
    then have "cluster_holds (fat s') data c n i" "file_slots (c + m) \<inter> file_slots (c + i) = {}"
      using that h by (simp_all add: file_slots_disjoint)
    then show ?thesis using that assms(3,4) Suc.prems by (intro cluster_holds_frame[OF _ b(2)]) simp_all
  qed (use b(3) in simp)
  ultimately show ?case by blast
qed simp

lemma write_file_run:
  assumes "esp_sized (fat s)" and "next_cluster s = c" and "2 \<le> c" "c + num_clusters_of data \<le> data_clusters + 2"
  shows "\<exists>b. write_file_to_clusters data s = Inr (c, s\<lparr>fat := b, next_cluster := c + num_clusters_of data\<rparr>) \<and>
    eq_except (\<Union>i < num_clusters_of data. file_slots (c + i)) (fat s) b \<and>
    (\<forall>i < num_clusters_of data. cluster_holds b data c (num_clusters_of data) i)"
proof -
  let ?n = "num_clusters_of data" and ?s = "s\<lparr>next_cluster := c + 1\<rparr>"
  have "0 < ?n" by (simp add: num_clusters_of_def)
  then obtain b where "py_each (\<lambda>i. py_bind (if i = 0 then py_ret (c + i) else alloc_cluster) (write_cluster data ?n i)) [0..<?n] ?s =
      Inr ((), ?s\<lparr>fat := b, next_cluster := c + ?n\<rparr>)" "eq_except (\<Union>i < ?n. file_slots (c + i)) (fat s) b"
      "\<forall>i < ?n. cluster_holds b data c ?n i"
    using write_clusters_run[of ?s c ?n ?n data] assms by auto
  moreover have "alloc_cluster s = Inr (c, ?s)" using assms(2) by (simp add: alloc_cluster_run)
  ultimately show ?thesis
    unfolding write_file_to_clusters_def Let_def num_clusters_of_def[symmetric]
    by (intro exI[of _ b]) (simp add: py_bind_run py_seq_run del: if_split)
qed

section \<open>Reading along a chain\<close>

definition fat_next :: "bytes \<Rightarrow> nat \<Rightarrow> nat" where
  "fat_next im c = le_val (slot_at im (Fat_Entry 0 c)) AND 0x0FFFFFFF"

fun read_chain :: "nat \<Rightarrow> bytes \<Rightarrow> nat \<Rightarrow> nat list option" where
  "read_chain 0 im c = None"
| "read_chain (Suc n) im c =
     (if c < 2 \<or> data_clusters + 2 \<le> c then None
      else if 0x0FFFFFF8 \<le> fat_next im c then Some [c]
      else map_option ((#) c) (read_chain n im (fat_next im c)))"

definition read_fat_file :: "bytes \<Rightarrow> nat \<Rightarrow> nat \<Rightarrow> bytes option" where
  "read_fat_file im c n =
     map_option (\<lambda>cs. take n (concat (map (\<lambda>c. slot_at im (Cluster c)) cs))) (read_chain data_clusters im c)"

lemma and_28: "v < 2 ^ 28 \<Longrightarrow> v AND 0x0FFFFFFF = v" for v :: nat
proof -
  assume "v < 2 ^ 28"
  moreover have "v AND 0x0FFFFFFF = v mod 2 ^ 28"
    using take_bit_eq_mask[of 28 v] by (simp add: take_bit_eq_mod mask_eq_exp_minus_1)
  ultimately show ?thesis by simp
qed

lemma read_chain_stored:
  assumes "\<And>i. i < n \<Longrightarrow> cluster_holds im data c n i" and "2 \<le> c" "c + n \<le> data_clusters + 2"
    and "i < n" and "n - i \<le> fuel"
  shows "read_chain fuel im (c + i) = Some [c + i..<c + n]"
  using assms(4,5)
proof (induction fuel arbitrary: i)
  case (Suc fuel)
  have "slot_at im (Fat_Entry 0 (c + i)) = le_bytes 4 (chain_next c n i)"
    using assms(1)[OF Suc.prems(1)] by (simp add: cluster_holds_def entry_slots_def)
  moreover have "chain_next c n i < 2 ^ 28" using Suc.prems assms(3) by (simp add: chain_next_def fat_layout)
  ultimately have nx: "fat_next im (c + i) = chain_next c n i"
    by (simp add: fat_next_def and_28 del: le_bytes.simps)
  have r: "\<not> (c + i < 2 \<or> data_clusters + 2 \<le> c + i)" using assms(2,3) Suc.prems by simp
  show ?case
  proof (cases "i < n - 1")
    case True
    then have "read_chain fuel im (c + Suc i) = Some [c + Suc i..<c + n]" using Suc.prems by (intro Suc.IH) auto
    moreover have "chain_next c n i = c + Suc i" "c + Suc i < 0x0FFFFFF8"
      using True assms(3) by (simp_all add: chain_next_def fat_layout)
    ultimately show ?thesis using r nx Suc.prems by (simp add: upt_conv_Cons)
  next
    case False
    then have "n = Suc i" using Suc.prems by simp
    then show ?thesis using r nx False by (simp add: chain_next_def)
  qed
qed simp

lemma length_slot_at: "esp_sized im \<Longrightarrow> slot_ok k \<Longrightarrow> length (slot_at im k) = slot_size k"
  using slot_in_image[of k] by (simp add: slot_at_def esp_sized_def)

lemma read_stored_file:
  assumes h: "\<And>i. i < num_clusters_of data \<Longrightarrow> cluster_holds im data c (num_clusters_of data) i"
    and "esp_sized im" "2 \<le> c" "c + num_clusters_of data \<le> data_clusters + 2"
  shows "read_fat_file im c (length data) = Some data"
proof -
  let ?n = "num_clusters_of data" and ?B = cluster_size
  have n: "0 < ?n" "ceil_div (length data) ?B \<le> ?n" and B: "0 < ?B" by (simp_all add: num_clusters_of_def fat_layout)
  have "?n \<le> data_clusters" using assms(3,4) by simp
  then have ch: "read_chain data_clusters im c = Some [c..<c + ?n]"
    using read_chain_stored[OF h assms(3,4) n(1)] by simp
  have "take (length data) (concat (map (\<lambda>i. slot_at im (Cluster (c + i))) [0..<?n])) = data"
  proof (rule chunks_read)
    show "length data \<le> ?n * ?B"
      using ceil_div_bounds(1)[OF B, of "length data"] n(2) by (meson mult_le_mono1 order_trans)
    show "Suc i * ?B \<le> length data" if "Suc i < ?n" for i
    proof -
      have "Suc i \<le> ceil_div (length data) ?B - 1" "0 < length data"
        using that by (auto simp: num_clusters_of_def fat_layout)
      then show ?thesis
        using ceil_div_bounds(2)[OF B, of "length data"] mult_le_mono1[of "Suc i" "ceil_div (length data) ?B - 1" ?B] by simp
    qed
    show "length (slot_at im (Cluster (c + i))) \<le> ?B" if "i < ?n" for i
      by (simp add: slot_at_def length_sub)
    show "take (length (sub data (i * ?B) ?B)) (slot_at im (Cluster (c + i))) = sub data (i * ?B) ?B" if "i < ?n" for i
      using h[OF that] by (simp add: cluster_holds_def Let_def)
  qed
  moreover have "map (\<lambda>d. slot_at im (Cluster d)) [c..<c + ?n] = map (\<lambda>i. slot_at im (Cluster (c + i))) [0..<?n]"
    by (rule nth_equalityI) simp_all
  ultimately show ?thesis by (simp add: read_fat_file_def ch)
qed

text \<open>
  C21: \<^verbatim>\<open>write_file_to_clusters\<close>: with enough clusters left the call succeeds, takes the next
  clusters in order (one even for an empty file), and reading along the allocation chain gives
  the file back; both tables hold the same chain and nothing outside the clusters of the file
  and their table entries changes.
\<close>

theorem fat_file_roundtrip:
  assumes "esp_sized (fat s)" and "2 \<le> next_cluster s" and "next_cluster s + num_clusters_of data \<le> data_clusters + 2"
  shows "\<exists>t. write_file_to_clusters data s = Inr (next_cluster s, t) \<and>
    next_cluster t = next_cluster s + num_clusters_of data \<and>
    read_fat_file (fat t) (next_cluster s) (length data) = Some data \<and>
    (\<forall>c \<in> {next_cluster s..<next_cluster t}. slot_at (fat t) (Fat_Entry 1 c) = slot_at (fat t) (Fat_Entry 0 c)) \<and>
    eq_except (\<Union>c \<in> {next_cluster s..<next_cluster t}. {Cluster c, Fat_Entry 0 c, Fat_Entry 1 c}) (fat s) (fat t)"
proof -
  let ?c = "next_cluster s" and ?n = "num_clusters_of data"
  obtain b where b: "write_file_to_clusters data s = Inr (?c, s\<lparr>fat := b, next_cluster := ?c + ?n\<rparr>)"
    "eq_except (\<Union>i < ?n. file_slots (?c + i)) (fat s) b" "\<forall>i < ?n. cluster_holds b data ?c ?n i"
    using write_file_run[OF assms(1) refl assms(2,3)] by blast
  have e: "esp_sized b" using eq_except_esp[OF b(2) assms(1)] .
  have "slot_at b (Fat_Entry 1 c) = slot_at b (Fat_Entry 0 c)" if "c \<in> {?c..<?c + ?n}" for c
    using b(3)[rule_format, of "c - ?c"] that by (simp add: cluster_holds_def entry_slots_def less_diff_conv2)
  moreover have "(\<Union>i < ?n. file_slots (?c + i)) \<subseteq> (\<Union>c \<in> {?c..<?c + ?n}. {Cluster c, Fat_Entry 0 c, Fat_Entry 1 c})"
    by (auto simp: file_slots_def entry_slots_def)
  ultimately show ?thesis
    using b read_stored_file[OF b(3)[rule_format] e assms(2,3)] eq_except_mono[OF b(2)]
    by (intro exI[of _ "s\<lparr>fat := b, next_cluster := ?c + ?n\<rparr>"]) simp
qed

theorem fat_file_roundtrip_witness:
  "\<exists>t. write_file_to_clusters (replicate 700 7) \<lparr>fat = zeros (ESP_SECTORS * SECTOR_SIZE), next_cluster = 6\<rparr> = Inr (6, t) \<and>
     next_cluster t = 8 \<and> read_fat_file (fat t) 6 700 = Some (replicate 700 7)"
  using fat_file_roundtrip[of "\<lparr>fat = zeros (ESP_SECTORS * SECTOR_SIZE), next_cluster = 6\<rparr>" "replicate 700 7"]
  by (auto simp: esp_sized_def num_clusters_of_def ceil_div_def fat_layout)

end
