(* ===== verification/Fat32_Names.thy ===== *)
theory Fat32_Names
  imports Fat32_Layout
begin

text \<open>
  Directory entries of the boot file system: the 32-byte entry, the entries of a long file name
  with their checksum, and what a reader of the format makes of them.
\<close>

section \<open>Short entries\<close>

definition entry_is :: "bytes \<Rightarrow> bytes \<Rightarrow> nat \<Rightarrow> nat \<Rightarrow> nat \<Rightarrow> bool" where
  "entry_is e name attr cluster fsize \<longleftrightarrow>
     length e = 32 \<and> sub e 0 11 = name \<and> e ! 11 = word_of_nat attr \<and>
     u16_at e 26 + 2 ^ 16 * u16_at e 20 = cluster \<and> u32_at e 28 = fsize"

lemma length_pad_name: "11 \<le> length (pad_name nb)"
  by (simp add: pad_name_def)

lemma split_16:
  fixes c :: nat
  assumes "c < 2 ^ 32"
  shows "c AND 0xFFFF < 2 ^ 16" "drop_bit 16 c AND 0xFFFF < 2 ^ 16"
    and "(c AND 0xFFFF) + 2 ^ 16 * (drop_bit 16 c AND 0xFFFF) = c"
proof -
  have m: "x AND 0xFFFF = x mod 2 ^ 16" for x :: nat
    using take_bit_eq_mask[of 16 x] by (simp add: take_bit_eq_mod mask_eq_exp_minus_1)
  have d: "drop_bit 16 c = c div 2 ^ 16" by (rule drop_bit_eq_div)
  have "c div 2 ^ 16 < 2 ^ 16" using assms by (simp add: less_mult_imp_div_less)
  then have "(c div 2 ^ 16) mod 2 ^ 16 = c div 2 ^ 16" by simp
  then show "(c AND 0xFFFF) + 2 ^ 16 * (drop_bit 16 c AND 0xFFFF) = c" unfolding m d by simp
  show "c AND 0xFFFF < 2 ^ 16" "drop_bit 16 c AND 0xFFFF < 2 ^ 16" unfolding m by simp_all
qed

lemma fat_dir_entry_run:
  assumes "is_ascii name" and "attr < 256" "cluster < 2 ^ 32" "fsize < 2 ^ 32"
  shows "\<exists>e. fat_dir_entry name attr cluster fsize = Inr e \<and> entry_is e (take 11 (pad_name (raw_bytes name))) attr cluster fsize"
proof -
  let ?nm = "take 11 (pad_name (raw_bytes name))"
  let ?hi = "drop_bit 16 cluster AND 0xFFFF" and ?lo = "cluster AND 0xFFFF"
  note sp = split_16[OF assms(3)]
  let ?ps = "[(0, [S 11 ?nm]), (11, [U 1 (int attr)]), (20, [U 2 (int ?hi)]), (26, [U 2 (int ?lo)]), (28, [U 4 (int fsize)])]"
  have ok: "list_all (stmt_ok (length (zeros 32))) ?ps" "stmts_ordered 0 ?ps"
    using assms sp(1,2) by (simp_all add: stmt_ok_def)
  let ?e = "apply_writes (pack_log ?ps) (zeros 32)"
  have run: "fat_dir_entry name attr cluster fsize = Inr ?e"
    using pack_seq_run[OF ok(1)] encode_ascii_eq[OF assms(1)] by (simp add: fat_dir_entry_def del: pack_seq.simps apply_writes.simps)
  have l: "length ?e = 32" using pack_log_in_range[OF ok(1)] by simp
  have f: "sub ?e off n = field_le f" if "(off, [f]) \<in> set ?ps" "n = field_size f" for off n f
    using pack_seq_field[OF ok that(1), of 0] that(2) by simp
  have "sub ?e 11 1 = [word_of_nat attr]" using f[of 11 "U 1 (int attr)" 1] assms(2) by simp
  then have "?e ! 11 = word_of_nat attr" using nth_sub[of 0 1 11 ?e] l by simp
  moreover have "sub ?e 0 11 = ?nm" using f[of 0 "S 11 ?nm" 11] length_pad_name[of "raw_bytes name"] by simp
  moreover have "u16_at ?e 26 = ?lo" "u16_at ?e 20 = ?hi" "u32_at ?e 28 = fsize"
    using f[of 26 "U 2 (int ?lo)" 2] f[of 20 "U 2 (int ?hi)" 2] f[of 28 "U 4 (int fsize)" 4] sp(1,2) assms(4)
    by (simp_all add: u16_at_def u32_at_def del: le_bytes.simps)
  ultimately show ?thesis using run l sp(3) unfolding entry_is_def by (intro exI[of _ ?e]) simp
qed

section \<open>Long names\<close>

fun ucs2_units :: "bytes \<Rightarrow> nat list" where
  "ucs2_units (a # b # xs) = (unat a + 256 * unat b) # ucs2_units xs"
| "ucs2_units _ = []"

definition lfn_chars :: "bytes \<Rightarrow> nat list" where
  "lfn_chars e = ucs2_units (sub e 1 10 @ sub e 14 12 @ sub e 28 4)"

definition lfn_valid :: "nat \<Rightarrow> nat \<Rightarrow> nat \<Rightarrow> bytes \<Rightarrow> bool" where
  "lfn_valid num cksum seq e \<longleftrightarrow>
     unat (e ! 0) = (if seq = num then seq + 0x40 else seq) \<and> e ! 11 = 0x0F \<and> unat (e ! 13) = cksum"

text \<open>
  The entries of a long name come in descending order before the short entry, whose name they
  carry a checksum of.
\<close>

definition read_long_name :: "bytes list \<Rightarrow> string option" where
  "read_long_name entries =
     (let es = butlast entries; num = length es; cksum = lfn_checksum (sub (last entries) 0 11) in
      if \<forall>i < num. lfn_valid num cksum (num - i) (es ! i)
      then Some (map char_of (takeWhile (\<lambda>u. u \<noteq> 0) (concat (map lfn_chars (rev es))))) else None)"

definition lfn_name_ok :: "string \<Rightarrow> bool" where
  "lfn_name_ok s \<longleftrightarrow> s \<noteq> [] \<and> length s \<le> 255 \<and> CHR 0x00 \<notin> set s \<and> CHR 0xFF \<notin> set s"

text \<open>The units of one entry: the characters, then a zero, then filler.\<close>

definition lfn_pad :: "nat \<Rightarrow> nat list" where
  "lfn_pad n = (if n < 13 then 0 # replicate (12 - n) 0xFFFF else [])"

lemma ucs2_units_concat:
  "(\<And>x. x \<in> set xs \<Longrightarrow> \<exists>a b. f x = [a, b]) \<Longrightarrow>
   ucs2_units (concat (map f xs)) = map (\<lambda>x. unat (f x ! 0) + 256 * unat (f x ! 1)) xs"
proof (induction xs)
  case (Cons x xs)
  obtain a b where "f x = [a, b]" using Cons.prems[of x] by auto
  then show ?case using Cons by simp
qed simp

lemma length_two: "(\<And>x. x \<in> set xs \<Longrightarrow> \<exists>a b. f x = [a, b]) \<Longrightarrow> length (concat (map f xs)) = 2 * length xs"
  by (induction xs) fastforce+

lemma lfn_units_eq:
  assumes "length chars \<le> 13" and "CHR 0xFF \<notin> set chars"
  shows "length (lfn_units chars) = 26" and "ucs2_units (lfn_units chars) = map of_char chars @ lfn_pad (length chars)"
proof -
  define f where "f = (\<lambda>ch. if ch = CHR 0xFF then [0xFF, 0xFF] else utf16_le [ch])"
  let ?p = "take 13 (chars @ CHR 0x00 # replicate (12 - length chars) (CHR 0xFF))"
  have "(chars @ [CHR 0x00]) @ replicate (13 - length (chars @ [CHR 0x00])) (CHR 0xFF) =
      chars @ CHR 0x00 # replicate (12 - length chars) (CHR 0xFF)" by simp
  then have u: "lfn_units chars = concat (map f ?p)" by (simp only: lfn_units_def f_def Let_def)
  have two: "\<exists>a b. f x = [a, b]" for x by (simp add: f_def utf16_le_def)
  have "length ?p = 13" using assms(1) by simp
  then show "length (lfn_units chars) = 26" unfolding u using length_two[of ?p f] two by simp
  have v: "unat (f x ! 0) + 256 * unat (f x ! 1) = (if x = CHR 0xFF then 0xFFFF else of_char x)" for x
    by (simp add: f_def utf16_le_def unat_byte_small)
  have "ucs2_units (lfn_units chars) = map (\<lambda>x. if x = CHR 0xFF then 0xFFFF else of_char x) ?p"
    unfolding u ucs2_units_concat[of ?p f, OF two] v ..
  moreover have "map (\<lambda>x. if x = CHR 0xFF then 0xFFFF else of_char x) chars = map of_char chars"
    using assms(2) by auto
  moreover have "?p = chars @ (if length chars < 13 then CHR 0x00 # replicate (12 - length chars) (CHR 0xFF) else [])"
    using assms(1) by (cases "length chars = 13") auto
  ultimately show "ucs2_units (lfn_units chars) = map of_char chars @ lfn_pad (length chars)"
    by (simp add: lfn_pad_def)
qed

definition lfn_stmts :: "nat \<Rightarrow> nat \<Rightarrow> bytes \<Rightarrow> pack_stmt list" where
  "lfn_stmts ordinal cksum ucs2 =
     [(0, [U 1 (int ordinal)]), (11, [U 1 0x0F]), (13, [U 1 (int cksum)]), (1, [S 10 (sub ucs2 0 10)]),
      (14, [S 12 (sub ucs2 10 12)]), (28, [S 4 (sub ucs2 22 4)])]"

lemma lfn_stmts_run:
  assumes "ordinal < 256" "cksum < 256" "length ucs2 = 26"
  shows "\<exists>e. pack_seq (lfn_stmts ordinal cksum ucs2) (zeros 32) = Inr e \<and> length e = 32 \<and> unat (e ! 0) = ordinal \<and>
    e ! 11 = 0x0F \<and> unat (e ! 13) = cksum \<and> sub e 1 10 @ sub e 14 12 @ sub e 28 4 = ucs2"
proof -
  let ?ps = "lfn_stmts ordinal cksum ucs2"
  have ok: "list_all (stmt_ok (length (zeros 32))) ?ps" using assms by (simp add: lfn_stmts_def stmt_ok_def)
  let ?e = "apply_writes (pack_log ?ps) (zeros 32)"
  have run: "pack_seq ?ps (zeros 32) = Inr ?e" by (rule pack_seq_run[OF ok])
  have l: "length ?e = 32" using pack_log_in_range[OF ok] by simp
  have f: "sub ?e off n = field_le f"
    if "j < 6" "?ps ! j = (off, [f])" "n = field_size f" "list_all (clear_of off n) (drop (Suc j) ?ps)" for j off n f
    using pack_seq_nth[OF ok _ that(2), of 0 off n] that by (simp add: lfn_stmts_def)
  note m = lfn_stmts_def clear_of_def
  have byte: "?e ! k = w" if "k < 32" "sub ?e k 1 = [w]" for k w
    using that nth_sub[of 0 1 k ?e] l by simp
  have "sub ?e 0 1 = [word_of_nat ordinal]" using f[of 0 0 "U 1 (int ordinal)" 1] assms(1) by (simp add: m)
  then have "unat (?e ! 0) = ordinal" using byte[of 0] assms(1) by (simp add: unat_byte_small)
  moreover have "sub ?e 11 1 = [0x0F]" using f[of 1 11 "U 1 15" 1] by (simp add: m)
  then have "?e ! 11 = 0x0F" using byte[of 11] by simp
  moreover have "sub ?e 13 1 = [word_of_nat cksum]" using f[of 2 13 "U 1 (int cksum)" 1] assms(2) by (simp add: m)
  then have "unat (?e ! 13) = cksum" using byte[of 13] assms(2) by (simp add: unat_byte_small)
  moreover have "sub ?e 1 10 = sub ucs2 0 10" "sub ?e 14 12 = sub ucs2 10 12" "sub ?e 28 4 = sub ucs2 22 4"
    using f[of 3 1 "S 10 (sub ucs2 0 10)" 10] f[of 4 14 "S 12 (sub ucs2 10 12)" 12] f[of 5 28 "S 4 (sub ucs2 22 4)" 4] assms(3)
    by (simp_all add: m)
  moreover have "sub ucs2 0 10 @ sub ucs2 10 12 @ sub ucs2 22 4 = ucs2"
    using sub_add[of ucs2 0 10 16] sub_add[of ucs2 10 12 4] assms(3) by (simp add: sub_def)
  ultimately show ?thesis using run l by auto
qed

lemma lfn_checksum_less: "lfn_checksum nb < 256"
proof -
  have m: "x AND 0xFF < 256" for x :: nat
    using take_bit_eq_mask[of 8 x] by (simp add: take_bit_eq_mod mask_eq_exp_minus_1)
  show ?thesis unfolding lfn_checksum_def by (cases "take 11 nb" rule: rev_cases) (use m in simp_all)
qed

lemma ordinal_eq: "seq < 64 \<Longrightarrow> seq OR 0x40 = seq + (0x40 :: nat)"
proof -
  assume a: "seq < 64"
  have "\<not> bit seq 6" using a by (simp add: bit_iff_odd)
  moreover have "bit (2 ^ 6 :: nat) n \<longleftrightarrow> n = 6" for n by (simp only: bit_exp_iff) auto
  ultimately have "seq AND 2 ^ 6 = 0" by (intro bit_eqI) (auto simp only: bit_and_iff bit_0_eq bot_apply bot_bool_def)
  then show ?thesis using disjunctive_add_eq_or[of seq "2 ^ 6"] by simp
qed

definition lfn_chunk :: "string \<Rightarrow> nat \<Rightarrow> string" where
  "lfn_chunk long_name seq = sub long_name ((seq - 1) * 13) 13"

lemma lfn_entry_run:
  assumes "lfn_name_ok name" and "num = ceil_div (length name) 13" and "1 \<le> seq" "seq \<le> num" and "cksum < 256"
  shows "\<exists>e. lfn_entry name num cksum seq = Inr e \<and> length e = 32 \<and> lfn_valid num cksum seq e \<and>
    lfn_chars e = map of_char (lfn_chunk name seq) @ lfn_pad (length (lfn_chunk name seq))"
proof -
  let ?c = "lfn_chunk name seq" and ?o = "seq OR (if seq = num then 0x40 else 0)"
  have "num * 13 < length name + 13" using assms(2) ceil_div_bounds(3)[of 13 "length name"] by simp
  then have s: "seq < 64" using assms(1,4) by (simp add: lfn_name_ok_def)
  then have o': "?o = (if seq = num then seq + 0x40 else seq)" by (simp add: ordinal_eq)
  then have lt: "?o < 256" using s by simp
  have "set ?c \<subseteq> set name" by (auto simp: lfn_chunk_def sub_def dest: in_set_takeD in_set_dropD)
  then have c: "length ?c \<le> 13" "CHR 0xFF \<notin> set ?c"
    using assms(1) by (auto simp: lfn_chunk_def length_sub lfn_name_ok_def)
  note u = lfn_units_eq[OF c]
  obtain e where e: "pack_seq (lfn_stmts ?o cksum (lfn_units ?c)) (zeros 32) = Inr e" "length e = 32" "unat (e ! 0) = ?o"
    "e ! 11 = 0x0F" "unat (e ! 13) = cksum" "sub e 1 10 @ sub e 14 12 @ sub e 28 4 = lfn_units ?c"
    using lfn_stmts_run[OF lt assms(5) u(1)] by blast
  have "lfn_entry name num cksum seq = Inr e"
    using e(1) by (simp only: lfn_entry_def Let_def lfn_stmts_def lfn_chunk_def)
  then show ?thesis using e u(2) o' by (auto simp: lfn_valid_def lfn_chars_def)
qed

lemma res_collect_ok:
  "(\<And>x. x \<in> set xs \<Longrightarrow> \<exists>y. f x = Inr y \<and> P x y) \<Longrightarrow> \<exists>ys. res_collect f xs = Inr ys \<and> list_all2 P xs ys"
proof (induction xs)
  case (Cons x xs)
  obtain y where "f x = Inr y" "P x y" using Cons.prems[of x] by auto
  moreover obtain ys where "res_collect f xs = Inr ys" "list_all2 P xs ys" using Cons by auto
  ultimately show ?case by auto
qed simp

lemma lfn_chunks:
  assumes "lfn_name_ok name" and "num = ceil_div (length name) 13"
  shows "0 < num" and "concat (map (lfn_chunk name) [1..<num + 1]) = name"
    and "1 \<le> seq \<Longrightarrow> seq < num \<Longrightarrow> length (lfn_chunk name seq) = 13"
proof -
  have l: "0 < length name" using assms(1) by (simp add: lfn_name_ok_def)
  show "0 < num" using ceil_div_pos[OF l, of 13] assms(2) by simp
  have "length name \<le> num * 13" using ceil_div_bounds(1)[of 13 "length name"] assms(2) by simp
  then have "concat (map (\<lambda>i. sub name (i * 13) 13) [0..<num]) = name" by (rule concat_chunks)
  moreover have "map (lfn_chunk name) [1..<num + 1] = map (\<lambda>i. sub name (i * 13) 13) [0..<num]"
    by (rule nth_equalityI) (simp_all add: lfn_chunk_def del: upt_Suc)
  ultimately show "concat (map (lfn_chunk name) [1..<num + 1]) = name" by simp
  show "length (lfn_chunk name seq) = 13" if "1 \<le> seq" "seq < num"
  proof -
    have "(num - 1) * 13 < length name" using ceil_div_bounds(2)[of 13 "length name"] l assms(2) by simp
    moreover have "seq * 13 \<le> (num - 1) * 13" using that by simp
    ultimately have "seq * 13 < length name" by linarith
    then have "(seq - 1) * 13 + 13 \<le> length name" using that(1) by (simp add: diff_mult_distrib)
    then show ?thesis by (simp add: lfn_chunk_def)
  qed
qed

lemma lfn_text:
  assumes "lfn_name_ok name" and "num = ceil_div (length name) 13"
  shows "concat (map (\<lambda>seq. map of_char (lfn_chunk name seq) @ lfn_pad (length (lfn_chunk name seq))) [1..<num + 1]) =
    (map of_char name @ lfn_pad (length (lfn_chunk name num)) :: nat list)"
proof -
  note c = lfn_chunks[OF assms]
  have e: "[1..<num + 1] = [1..<num] @ [num]" using c(1) by simp
  have m: "map (\<lambda>seq. map of_char (lfn_chunk name seq) @ lfn_pad (length (lfn_chunk name seq))) [1..<num] =
      map (\<lambda>seq. map of_char (lfn_chunk name seq)) [1..<num]"
    using c(3) by (auto simp: lfn_pad_def)
  have n: "name = concat (map (lfn_chunk name) [1..<num]) @ lfn_chunk name num" using c(2) unfolding e by simp
  have "(map of_char name :: nat list) = concat (map (\<lambda>seq. map of_char (lfn_chunk name seq)) [1..<num]) @ map of_char (lfn_chunk name num)"
    by (subst n) (simp add: map_concat comp_def)
  then show ?thesis unfolding e map_append m concat_append by simp
qed

lemma takeWhile_lfn:
  assumes "CHR 0x00 \<notin> set name"
  shows "map char_of (takeWhile (\<lambda>u. u \<noteq> 0) (map of_char name @ lfn_pad n)) = name"
proof -
  have z: "of_char c \<noteq> (0 :: nat)" if "c \<in> set name" for c
    using that assms by (intro of_char_nonzero) auto
  have "takeWhile (\<lambda>u. u \<noteq> 0) (map of_char name @ lfn_pad n) = map of_char name"
  proof -
    have "takeWhile (\<lambda>u. u \<noteq> 0) (lfn_pad n) = []" by (simp add: lfn_pad_def)
    then show ?thesis using z by (subst takeWhile_append2) auto
  qed
  then show ?thesis by (simp add: comp_def)
qed


lemma lfn_entries_run:
  assumes "lfn_name_ok long_name" and "is_ascii short_name" and "attr < 256" "cluster < 2 ^ 32" "fsize < 2 ^ 32"
  shows "\<exists>es. make_lfn_entries long_name short_name attr cluster fsize = Inr es \<and>
    length es = ceil_div (length long_name) 13 + 1 \<and> (\<forall>e \<in> set es. length e = 32) \<and>
    read_long_name es = Some long_name \<and>
    entry_is (last es) (take 11 (pad_name (raw_bytes short_name))) attr cluster fsize \<and>
    (\<forall>e \<in> set (butlast es). e ! 11 = 0x0F \<and> e ! 0 \<noteq> 0)"
proof -
  let ?num = "ceil_div (length long_name) 13" and ?nb = "pad_name (raw_bytes short_name)"
  let ?ck = "lfn_checksum ?nb" and ?f = "\<lambda>seq. map of_char (lfn_chunk long_name seq) @ lfn_pad (length (lfn_chunk long_name seq))"
  define P where "P = (\<lambda>seq e. length e = 32 \<and> lfn_valid ?num ?ck seq e \<and> lfn_chars e = ?f seq \<and> 1 \<le> seq)"
  have "\<exists>e. lfn_entry long_name ?num ?ck seq = Inr e \<and> P seq e" if "seq \<in> set (rev [1..<?num + 1])" for seq
    using lfn_entry_run[OF assms(1) refl _ _ lfn_checksum_less, of seq ?nb] that by (auto simp: P_def)
  then obtain es where es: "res_collect (lfn_entry long_name ?num ?ck) (rev [1..<?num + 1]) = Inr es"
    and P: "list_all2 P (rev [1..<?num + 1]) es" using res_collect_ok by blast
  have n: "length es = ?num" using list_all2_lengthD[OF P] by (simp del: upt_Suc)
  have Pi: "P (?num - i) (es ! i)" if "i < ?num" for i
    using list_all2_nthD[OF P, of i] that by (simp add: rev_nth Suc_diff_Suc del: upt_Suc)
  obtain e where e: "fat_dir_entry short_name attr cluster fsize = Inr e" "entry_is e (take 11 ?nb) attr cluster fsize"
    using fat_dir_entry_run[OF assms(2-5)] by blast
  have run: "make_lfn_entries long_name short_name attr cluster fsize = Inr (es @ [e])"
    using es e(1) encode_ascii_eq[OF assms(2)] by (simp add: make_lfn_entries_def Let_def del: upt_Suc)
  have all: "length x = 32 \<and> x ! 11 = 0x0F \<and> x ! 0 \<noteq> 0" if x: "x \<in> set es" for x
  proof -
    obtain i where i: "i < ?num" "x = es ! i" using x n by (auto simp: in_set_conv_nth)
    with Pi[OF i(1)] show ?thesis by (auto simp: P_def lfn_valid_def split: if_splits)
  qed
  have "map lfn_chars (rev es) = map ?f [1..<?num + 1]"
  proof (rule nth_equalityI)
    fix i assume "i < length (map lfn_chars (rev es))"
    then have i: "i < ?num" using n by simp
    then show "map lfn_chars (rev es) ! i = map ?f [1..<?num + 1] ! i"
      using Pi[of "?num - Suc i"] n by (simp add: rev_nth P_def del: upt_Suc)
  qed (simp add: n del: upt_Suc)
  then have "map char_of (takeWhile (\<lambda>u. u \<noteq> 0) (concat (map lfn_chars (rev es)))) = long_name"
    using lfn_text[OF assms(1) refl] takeWhile_lfn[of long_name] assms(1) by (simp add: lfn_name_ok_def del: upt_Suc)
  moreover have "lfn_checksum (sub e 0 11) = ?ck" using e(2) by (simp add: entry_is_def lfn_checksum_def)
  ultimately have "read_long_name (es @ [e]) = Some long_name"
    using Pi n by (simp add: read_long_name_def Let_def P_def)
  then show ?thesis using run n all e(2) by (intro exI[of _ "es @ [e]"]) (auto simp: entry_is_def)
qed



end
