(* ===== verification/Fat32_Esp.thy ===== *)
theory Fat32_Esp
  imports Fat32_Names
begin

text \<open>
  The boot file system as a whole: a reader of the format, given the image that
  \<^verbatim>\<open>make_fat32_esp\<close> returns, finds the bootloader and the kernel under the paths the firmware
  and the bootloader look them up with.
\<close>

section \<open>Reading directories\<close>

definition dir_bytes :: "bytes \<Rightarrow> nat \<Rightarrow> bytes option" where
  "dir_bytes im c = map_option (\<lambda>cs. concat (map (\<lambda>c. slot_at im (Cluster c)) cs)) (read_chain data_clusters im c)"

text \<open>A scan stops at a free entry and skips volume labels and parts of long names.\<close>

fun scan_dir :: "nat \<Rightarrow> bytes \<Rightarrow> bytes \<Rightarrow> (nat \<times> nat \<times> nat) option" where
  "scan_dir 0 d name = None"
| "scan_dir (Suc n) d name =
     (if d ! 0 = 0 then None
      else if \<not> bit (d ! 11) 3 \<and> sub d 0 11 = name
      then Some (unat (d ! 11), u16_at d 26 + 2 ^ 16 * u16_at d 20, u32_at d 28)
      else scan_dir n (drop 32 d) name)"

definition fat_lookup :: "bytes \<Rightarrow> nat \<Rightarrow> bytes \<Rightarrow> (nat \<times> nat \<times> nat) option" where
  "fat_lookup im c name = (case dir_bytes im c of None \<Rightarrow> None | Some d \<Rightarrow> scan_dir (length d div 32) d name)"

fun fat_walk :: "bytes \<Rightarrow> nat \<Rightarrow> string list \<Rightarrow> bytes option" where
  "fat_walk im c [] = None"
| "fat_walk im c (name # path) =
     (case fat_lookup im c (raw_bytes name) of
        None \<Rightarrow> None
      | Some (attr, c', n) \<Rightarrow>
          if path = [] then (if bit attr 4 then None else read_fat_file im c' n)
          else if bit attr 4 then fat_walk im c' path else None)"

definition fat_open :: "bytes \<Rightarrow> string list \<Rightarrow> bytes option" where
  "fat_open im path = fat_walk im (u32_at im 44) path"

lemma scan_dir_entry:
  assumes "entry_is e nm attr c n" and "attr < 256" and "nm ! 0 \<noteq> 0"
  shows "scan_dir (Suc k) (e @ rest) name =
    (if \<not> bit attr 3 \<and> nm = name then Some (attr, c, n) else scan_dir k rest name)"
proof -
  have l: "length e = 32" using assms(1) by (simp add: entry_is_def)
  have s: "sub (e @ rest) off m = sub e off m" if "off + m \<le> 32" for off m
    using that l by (simp add: sub_append_left)
  have e0: "sub e 0 11 ! 0 = e ! 0" using l by (simp add: nth_sub)
  have "(e @ rest) ! 0 \<noteq> 0" using assms(1,3) e0 l by (simp add: entry_is_def nth_append)
  moreover have "(e @ rest) ! 11 = word_of_nat attr" using assms(1) l by (simp add: entry_is_def nth_append)
  moreover have "bit (word_of_nat attr :: byte) 3 \<longleftrightarrow> bit attr 3" by (simp add: bit_of_nat_iff)
  moreover have "unat (word_of_nat attr :: byte) = attr" using assms(2) by (rule unat_byte_small)
  ultimately show ?thesis
    using assms(1) s l by (simp add: entry_is_def u16_at_def u32_at_def)
qed

lemma scan_dir_long:
  assumes "length e = 32" and "e ! 11 = 0x0F" and "e ! 0 \<noteq> 0"
  shows "scan_dir (Suc k) (e @ rest) name = scan_dir k rest name"
proof -
  have "bit (0x0F :: byte) 3" by simp
  then show ?thesis using assms by (simp add: nth_append)
qed

section \<open>Writing directories\<close>

lemma put_entries_run:
  assumes "esp_sized (fat s)" and "slot_ok (Cluster c)" and "\<And>e. e \<in> set es \<Longrightarrow> length e = 32"
    and "p + 32 * length es \<le> cluster_size"
  shows "\<exists>b. put_entries (cluster_offset c + p) es s = Inr ((), s\<lparr>fat := b\<rparr>) \<and> eq_except {Cluster c} (fat s) b \<and>
    slot_at b (Cluster c) = put_at p (concat es) (slot_at (fat s) (Cluster c))"
  using assms
proof (induction es arbitrary: s p)
  case Nil
  then show ?case by (intro exI[of _ "fat s"]) simp
next
  case (Cons e es)
  let ?k = "Cluster c"
  have e: "length e = 32" using Cons.prems(3) by simp
  define b0 where "b0 = put_at (cluster_offset c + p) e (fat s)"
  have w: "eq_except {?k} (fat s) b0" "slot_at b0 ?k = put_at p e (slot_at (fat s) ?k)"
    unfolding b0_def using put_in_slot[OF Cons.prems(1,2), of p e] Cons.prems(4) e by simp_all
  have z: "esp_sized b0" using eq_except_esp[OF w(1) Cons.prems(1)] .
  obtain b where b: "put_entries (cluster_offset c + (p + 32)) es (s\<lparr>fat := b0\<rparr>) = Inr ((), s\<lparr>fat := b\<rparr>)"
    "eq_except {?k} b0 b" "slot_at b ?k = put_at (p + 32) (concat es) (slot_at b0 ?k)"
    using Cons.IH[of "s\<lparr>fat := b0\<rparr>" "p + 32"] z Cons.prems(2-4) by auto
  have "fat_update (slice_set (cluster_offset c + p) (cluster_offset c + p + 32) e) s = s\<lparr>fat := b0\<rparr>"
    using e by (simp add: b0_def put_at_def)
  then have run: "put_entries (cluster_offset c + p) (e # es) s = Inr ((), s\<lparr>fat := b\<rparr>)"
    using b(1) by (simp add: py_seq_run add.assoc)
  have len: "length (slot_at (fat s) ?k) = cluster_size" using length_slot_at[OF Cons.prems(1,2)] by simp
  have cat: "length (concat es) = 32 * length es" using Cons.prems(3) by (induction es) auto
  have "put_at (p + 32) (concat es) (put_at p e x) = put_at p (e @ concat es) x" if "length x = cluster_size" for x
    using that e cat Cons.prems(4) by (intro nth_equalityI) (auto simp: nth_put_at nth_append)
  then have "slot_at b ?k = put_at p (concat (e # es)) (slot_at (fat s) ?k)" using b(3) w(2) len by simp
  then show ?case using run eq_except_trans[OF w(1) b(2)] by auto
qed

type_synonym dir_spec = "string \<times> nat \<times> nat \<times> nat"

fun spec_ok :: "dir_spec \<Rightarrow> bool" where
  "spec_ok (name, attr, c, n) \<longleftrightarrow> is_ascii name \<and> length name = 11 \<and> attr < 256 \<and> c < 2 ^ 32 \<and> n < 2 ^ 32"

fun spec_entry :: "dir_spec \<Rightarrow> bytes \<Rightarrow> bool" where
  "spec_entry (name, attr, c, n) e \<longleftrightarrow> entry_is e (raw_bytes name) attr c n"

lemma dir_entries_run:
  assumes "list_all spec_ok sp"
  shows "\<exists>es. dir_entries sp = Inr es \<and> list_all2 spec_entry sp es"
  unfolding dir_entries_def
proof (rule res_collect_ok)
  fix x assume "x \<in> set sp"
  then have "spec_ok x" using assms by (simp add: list_all_iff)
  then show "\<exists>y. (case x of (name, attr, cluster, fsize) \<Rightarrow> fat_dir_entry name attr cluster fsize) = Inr y \<and> spec_entry x y"
    using fat_dir_entry_run by (cases x) (fastforce simp: pad_name_def)
qed

lemma spec_entries_length: "list_all2 spec_entry sp es \<Longrightarrow> e \<in> set es \<Longrightarrow> length e = 32"
  by (induction sp es rule: list_all2_induct) (auto simp: entry_is_def)

lemma put_dir_run:
  assumes "esp_sized (fat s)" and "slot_ok (Cluster c)" and "list_all spec_ok sp" and "32 * length sp \<le> cluster_size"
  shows "\<exists>b es. put_dir (cluster_offset c) sp s = Inr ((), s\<lparr>fat := b\<rparr>) \<and> eq_except {Cluster c} (fat s) b \<and>
    list_all2 spec_entry sp es \<and> slot_at b (Cluster c) = put_at 0 (concat es) (slot_at (fat s) (Cluster c))"
proof -
  obtain es where es: "dir_entries sp = Inr es" "list_all2 spec_entry sp es" using dir_entries_run[OF assms(3)] by blast
  have "length es = length sp" using list_all2_lengthD[OF es(2)] by simp
  then obtain b where "put_entries (cluster_offset c + 0) es s = Inr ((), s\<lparr>fat := b\<rparr>)" "eq_except {Cluster c} (fat s) b"
    "slot_at b (Cluster c) = put_at 0 (concat es) (slot_at (fat s) (Cluster c))"
    using put_entries_run[OF assms(1,2), of es 0] spec_entries_length[OF es(2)] assms(4) by auto
  then show ?thesis using es by (auto simp: put_dir_def py_bind_run)
qed

section \<open>The reserved area\<close>

definition boot_sector_ok :: "bytes \<Rightarrow> bool" where
  "boot_sector_ok im \<longleftrightarrow>
     u16_at im 11 = bytes_per_sector \<and> im ! 13 = 1 \<and> u16_at im 14 = reserved_sectors \<and> im ! 16 = 2 \<and>
     u32_at im 32 = ESP_SECTORS \<and> u32_at im 36 = fat_size_sectors \<and> u32_at im 44 = 2 \<and> u16_at im 510 = 0xAA55 \<and>
     sub im (6 * bytes_per_sector) bytes_per_sector = sub im 0 bytes_per_sector"

lemma boot_stmts_ok:
  "list_all (stmt_ok (ESP_SECTORS * SECTOR_SIZE)) bpb_stmts" "stmts_ordered 0 bpb_stmts"
  "list_all (stmt_ok (ESP_SECTORS * SECTOR_SIZE)) fsinfo_stmts"
  by (simp_all add: bpb_stmts_def fsinfo_stmts_def Let_def stmt_ok_def fat_layout disk_layout)

lemma fsinfo_clear: "w \<in> set (pack_log fsinfo_stmts) \<Longrightarrow> 512 \<le> fst w \<and> fst w + length (snd w) \<le> 1024"
  by (auto simp: fsinfo_stmts_def Let_def fat_layout)

lemma bpb_clear: "w \<in> set (pack_log bpb_stmts) \<Longrightarrow> fst w + length (snd w) \<le> 512"
  by (auto simp: bpb_stmts_def)

lemma fat_boot_run:
  "\<exists>b. fat_boot = Inr b \<and> esp_sized b \<and> boot_sector_ok b \<and> (\<forall>c. slot_ok (Cluster c) \<longrightarrow> slot_at b (Cluster c) = zeros cluster_size)"
proof -
  define N where "N = ESP_SECTORS * SECTOR_SIZE"
  have N: "N = 104857600" by (simp add: N_def disk_layout)
  define b1 where "b1 = apply_writes (pack_log bpb_stmts) (zeros N)"
  define b2 where "b2 = apply_writes (pack_log fsinfo_stmts) b1"
  define b3 where "b3 = put_at 3072 (take 512 b2) b2"
  note ok = boot_stmts_ok[folded N_def]
  have r1: "list_all (in_range (length (zeros N))) (pack_log bpb_stmts)" using pack_log_in_range[OF ok(1)] by simp
  have l1: "length b1 = N" unfolding b1_def using r1 by simp
  have r2: "list_all (in_range (length b1)) (pack_log fsinfo_stmts)" using pack_log_in_range[OF ok(3)] l1 by simp
  have l2: "length b2 = N" unfolding b2_def using r2 l1 by simp
  have l3: "length b3 = N" unfolding b3_def using l2 N by simp
  have "pack_seq bpb_stmts (zeros N) = Inr b1" "pack_seq fsinfo_stmts b1 = Inr b2"
    unfolding b1_def b2_def using ok l1[unfolded b1_def] by (simp_all add: pack_seq_run)
  then have run: "fat_boot = Inr b3"
    using l2 N by (simp add: fat_boot_def b3_def put_at_def fat_layout flip: N_def)
  have low: "sub b3 off n = sub b1 off n" if "off + n \<le> 512" for off n
  proof -
    have "sub b3 off n = sub b2 off n" unfolding b3_def using that l2 N by (intro sub_put_at_disjoint) auto
    also have "\<dots> = sub b1 off n"
      unfolding b2_def using that fsinfo_clear by (intro sub_apply_writes_frame[OF r2]) fastforce
    finally show ?thesis .
  qed
  have high: "sub b3 off n = zeros n" if "3584 \<le> off" "off + n \<le> N" for off n
  proof -
    have "sub b3 off n = sub b2 off n" unfolding b3_def using that l2 N by (intro sub_put_at_disjoint) auto
    also have "\<dots> = sub b1 off n"
      unfolding b2_def using that fsinfo_clear by (intro sub_apply_writes_frame[OF r2]) fastforce
    also have "\<dots> = sub (zeros N) off n"
      unfolding b1_def using that bpb_clear by (intro sub_apply_writes_frame[OF r1]) fastforce
    finally show ?thesis using that by (simp add: sub_zeros)
  qed
  have f: "sub b3 off n = field_le f" if "(off, [f]) \<in> set bpb_stmts" "n = field_size f" "off + n \<le> 512" for off n f
    using pack_seq_field[of "zeros N" bpb_stmts off "[f]" 0] ok(1,2) that low[OF that(3)] unfolding b1_def by simp
  have byte: "b3 ! k = w" if "sub b3 k 1 = [w]" "k < 512" for k w
    using that nth_sub[of 0 1 k b3] l3 N by simp
  have "sub b3 3072 512 = sub b3 0 512"
    unfolding b3_def using l2 N sub_put_at_same[of 3072 "take 512 b2" b2]
    by (simp add: sub_put_at_disjoint take_eq_sub)
  moreover have "u16_at b3 11 = bytes_per_sector" "u16_at b3 14 = reserved_sectors" "u16_at b3 510 = 0xAA55"
    using f[of 11 "U 2 (int bytes_per_sector)" 2] f[of 14 "U 2 (int reserved_sectors)" 2] f[of 510 "U 2 43605" 2]
    by (simp_all add: bpb_stmts_def u16_at_def fat_layout del: le_bytes.simps)
  moreover have "u32_at b3 32 = ESP_SECTORS" "u32_at b3 36 = fat_size_sectors" "u32_at b3 44 = 2"
    using f[of 32 "U 4 (int ESP_SECTORS)" 4] f[of 36 "U 4 (int fat_size_sectors)" 4] f[of 44 "U 4 2" 4]
    by (simp_all add: bpb_stmts_def u32_at_def fat_layout disk_layout del: le_bytes.simps)
  moreover have "b3 ! 13 = 1" "b3 ! 16 = 2"
    using f[of 13 "U 1 (int sectors_per_cluster)" 1] f[of 16 "U 1 (int num_fats)" 1] byte[of 13] byte[of 16]
    by (simp_all add: bpb_stmts_def fat_layout)
  ultimately have "boot_sector_ok b3" by (simp add: boot_sector_ok_def fat_layout)
  moreover have "slot_at b3 (Cluster c) = zeros cluster_size" if "slot_ok (Cluster c)" for c
    unfolding slot_at_def slot_size.simps using slot_in_image[OF that]
    by (intro high) (simp_all add: N_def cluster_offset_def fat_layout)
  ultimately show ?thesis using run l3 by (auto simp: esp_sized_def N_def)
qed

lemma boot_sector_frame:
  assumes "boot_sector_ok im" and "eq_except K im im'" and "Reserved \<notin> K" and "esp_sized im"
  shows "boot_sector_ok im'"
proof -
  have s: "sub im' off n = sub im off n" if "off + n \<le> 16384" for off n
  proof -
    have "slot_at im' Reserved = slot_at im Reserved" using assms(2,3) by (intro eq_except_slot) simp_all
    then have "sub im' 0 16384 = sub im 0 16384" by (simp add: slot_at_def fat_layout)
    then show ?thesis using sub_sub[OF that, of im' 0] sub_sub[OF that, of im 0] by simp
  qed
  have l: "length im = 104857600" "length im' = 104857600"
    using assms(4) eq_except_length[OF assms(2)] by (simp_all add: esp_sized_def disk_layout)
  have b: "im' ! k = im ! k" if "k < 16384" for k
    using s[of k 1] that nth_sub[of 0 1 k im'] nth_sub[of 0 1 k im] l by simp
  show ?thesis using assms(1) s b by (simp add: boot_sector_ok_def u16_at_def u32_at_def fat_layout)
qed

section \<open>Clusters of the directories\<close>

lemma fat_update_order [simp]: "s\<lparr>next_cluster := n, fat := b\<rparr> = s\<lparr>fat := b, next_cluster := n\<rparr>"
  by simp

definition end_mark :: bytes where
  "end_mark = le_bytes 4 0x0FFFFFFF"

lemma alloc_directory_run:
  assumes "esp_sized (fat s)" and "next_cluster s = c" and "c < data_clusters + 2"
  shows "\<exists>b. alloc_directory s = Inr (c, s\<lparr>fat := b, next_cluster := c + 1\<rparr>) \<and>
    eq_except (entry_slots c) (fat s) b \<and> slot_at b (Fat_Entry 0 c) = end_mark"
proof -
  let ?s = "s\<lparr>next_cluster := c + 1\<rparr>"
  obtain b where "set_fat_entry c 0x0FFFFFFF ?s = Inr ((), ?s\<lparr>fat := b\<rparr>)" "eq_except (entry_slots c) (fat s) b"
    "\<forall>k \<in> entry_slots c. slot_at b k = le_bytes 4 0x0FFFFFFF"
    using set_fat_entry_run[of ?s c 268435455] assms by auto
  then show ?thesis
    using assms(2) by (intro exI[of _ b])
      (simp add: alloc_directory_def py_bind_run py_seq_run alloc_cluster_run end_mark_def entry_slots_def del: le_bytes.simps)
qed

lemma fat_clusters_run:
  assumes "esp_sized (fat s)" and "next_cluster s = 2"
  shows "\<exists>b. fat_clusters s = Inr ((2, 3, 4, 5), s\<lparr>fat := b, next_cluster := 6\<rparr>) \<and>
    eq_except (\<Union>c < 6. entry_slots c) (fat s) b \<and> (\<forall>c \<in> {2, 3, 4, 5}. slot_at b (Fat_Entry 0 c) = end_mark)"
proof -
  have small: "c < data_clusters + 2" if "c < 6" for c using that by (simp add: fat_layout)
  obtain b0 where b0: "set_fat_entry 0 0x0FFFFFF8 s = Inr ((), s\<lparr>fat := b0\<rparr>)" "eq_except (entry_slots 0) (fat s) b0"
    using set_fat_entry_run[of s 0 268435448] assms(1) small[of 0] by auto
  note z0 = eq_except_esp[OF b0(2) assms(1)]
  obtain b1 where b1: "set_fat_entry 1 0x0FFFFFFF (s\<lparr>fat := b0\<rparr>) = Inr ((), s\<lparr>fat := b1\<rparr>)" "eq_except (entry_slots 1) b0 b1"
    using set_fat_entry_run[of "s\<lparr>fat := b0\<rparr>" 1 268435455] z0 small[of 1] by auto
  note z1 = eq_except_esp[OF b1(2) z0]
  obtain b2 where b2: "set_fat_entry 2 0x0FFFFFFF (s\<lparr>fat := b1, next_cluster := 3\<rparr>) = Inr ((), s\<lparr>fat := b2, next_cluster := 3\<rparr>)"
    "eq_except (entry_slots 2) b1 b2" "slot_at b2 (Fat_Entry 0 2) = end_mark"
    using set_fat_entry_run[of "s\<lparr>fat := b1, next_cluster := 3\<rparr>" 2 268435455] z1 small[of 2]
    by (auto simp: end_mark_def entry_slots_def simp del: le_bytes.simps)
  note z2 = eq_except_esp[OF b2(2) z1]
  obtain b3 where b3: "alloc_directory (s\<lparr>fat := b2, next_cluster := 3\<rparr>) = Inr (3, s\<lparr>fat := b3, next_cluster := 4\<rparr>)"
    "eq_except (entry_slots 3) b2 b3" "slot_at b3 (Fat_Entry 0 3) = end_mark"
    using alloc_directory_run[of "s\<lparr>fat := b2, next_cluster := 3\<rparr>" 3] z2 small[of 3] by auto
  note z3 = eq_except_esp[OF b3(2) z2]
  obtain b4 where b4: "alloc_directory (s\<lparr>fat := b3, next_cluster := 4\<rparr>) = Inr (4, s\<lparr>fat := b4, next_cluster := 5\<rparr>)"
    "eq_except (entry_slots 4) b3 b4" "slot_at b4 (Fat_Entry 0 4) = end_mark"
    using alloc_directory_run[of "s\<lparr>fat := b3, next_cluster := 4\<rparr>" 4] z3 small[of 4] by auto
  note z4 = eq_except_esp[OF b4(2) z3]
  obtain b5 where b5: "alloc_directory (s\<lparr>fat := b4, next_cluster := 5\<rparr>) = Inr (5, s\<lparr>fat := b5, next_cluster := 6\<rparr>)"
    "eq_except (entry_slots 5) b4 b5" "slot_at b5 (Fat_Entry 0 5) = end_mark"
    using alloc_directory_run[of "s\<lparr>fat := b4, next_cluster := 5\<rparr>" 5] z4 small[of 5] by auto
  have "alloc_cluster (s\<lparr>fat := b1\<rparr>) = Inr (2, s\<lparr>fat := b1, next_cluster := 3\<rparr>)"
    using assms(2) by (simp add: alloc_cluster_run)
  then have run: "fat_clusters s = Inr ((2, 3, 4, 5), s\<lparr>fat := b5, next_cluster := 6\<rparr>)"
    using b0(1) b1(1) b2(1) b3(1) b4(1) b5(1) by (simp add: fat_clusters_def py_seq_run py_bind_run)
  have step: "slot_at b' (Fat_Entry 0 c) = slot_at b (Fat_Entry 0 c)"
    if "eq_except (entry_slots d) b b'" "c < 6" "c \<noteq> d" for b b' c d
    using that by (intro eq_except_slot[OF that(1)]) (simp_all add: entry_slots_def fat_layout)
  have "\<forall>c \<in> {2, 3, 4, 5}. slot_at b5 (Fat_Entry 0 c) = end_mark"
    using b2(3) b3(3) b4(3) b5(3) step[OF b3(2)] step[OF b4(2)] step[OF b5(2)] by simp
  moreover have "eq_except (\<Union>c < 6. entry_slots c) (fat s) b5"
    using b0(2) b1(2) b2(2) b3(2) b4(2) b5(2)
    by (simp add: eq_except_def lessThan_Suc eval_nat_numeral)
  ultimately show ?thesis using run by blast
qed

section \<open>Lookups\<close>

fun spec_visible :: "bytes \<Rightarrow> dir_spec \<Rightarrow> bool" where
  "spec_visible name (nm, attr, c, n) \<longleftrightarrow> \<not> bit attr 3 \<and> raw_bytes nm = name"

lemma scan_dir_specs:
  assumes "list_all2 spec_entry sp es" and "list_all spec_ok sp" and "list_all (\<lambda>(nm, _). nm ! 0 \<noteq> CHR 0x00) sp"
    and "length sp \<le> n"
  shows "scan_dir n (concat es @ rest) name =
    (case find (spec_visible name) sp of Some (nm, attr, c, m) \<Rightarrow> Some (attr, c, m)
     | None \<Rightarrow> scan_dir (n - length sp) rest name)"
  using assms
proof (induction sp es arbitrary: n rule: list_all2_induct)
  case (Cons x xs y ys)
  obtain nm attr c m where x: "x = (nm, attr, c, m)" by (cases x)
  obtain k where k: "n = Suc k" "length xs \<le> k" using Cons.prems(3) by (cases n) auto
  have "raw_bytes nm ! 0 \<noteq> 0"
  proof -
    have ok: "0 < length nm" "nm ! 0 \<noteq> CHR 0x00" using Cons.prems(1,2) x by simp_all
    have "unat (word_of_nat (of_char (nm ! 0)) :: byte) \<noteq> 0"
      using of_char_nonzero[OF ok(2)] by (simp add: unat_byte_small)
    then show ?thesis using ok(1) by (auto simp: raw_bytes_def)
  qed
  then have "scan_dir (Suc k) (y @ (concat ys @ rest)) name =
      (if \<not> bit attr 3 \<and> raw_bytes nm = name then Some (attr, c, m) else scan_dir k (concat ys @ rest) name)"
    using Cons.hyps(1) Cons.prems(1) x by (intro scan_dir_entry) simp_all
  then show ?case
    using Cons.IH[of k] Cons.prems by (simp add: x k del: scan_dir.simps split: option.split)
qed simp

lemma dir_bytes_single:
  assumes "slot_at im (Fat_Entry 0 c) = end_mark" and "slot_ok (Cluster c)"
  shows "dir_bytes im c = Some (slot_at im (Cluster c))"
proof -
  have "fat_next im c = 0x0FFFFFFF" using assms(1) by (simp add: fat_next_def end_mark_def and_28 del: le_bytes.simps)
  then have "read_chain (Suc k) im c = Some [c]" for k using assms(2) by simp
  moreover obtain m where "data_clusters = Suc m" by (cases data_clusters) (simp_all add: fat_layout)
  ultimately have "read_chain data_clusters im c = Some [c]" by metis
  then show ?thesis by (simp add: dir_bytes_def)
qed

text \<open>A directory cluster that begins with the given entries.\<close>

lemma fat_lookup_specs:
  assumes "slot_at im (Fat_Entry 0 c) = end_mark" and "slot_ok (Cluster c)"
    and "slot_at im (Cluster c) = put_at 0 (concat es) (zeros cluster_size)" and "list_all2 spec_entry sp es"
    and "list_all spec_ok sp" and "list_all (\<lambda>(nm, _). nm ! 0 \<noteq> CHR 0x00) sp" and "length sp \<le> 16"
    and "find (spec_visible (raw_bytes name)) sp = Some (nm, attr, c', n)"
  shows "fat_lookup im c (raw_bytes name) = Some (attr, c', n)"
proof -
  have "length (concat es) = 32 * length es" using spec_entries_length[OF assms(4)] by (induction es) auto
  then have l: "length (concat es) = 32 * length sp" using list_all2_lengthD[OF assms(4)] by simp
  then have "put_at 0 (concat es) (zeros cluster_size) = concat es @ zeros (512 - 32 * length sp)"
    using assms(7) by (simp add: put_at_def slice_set_def zeros_def fat_layout)
  moreover have "length (concat es @ zeros (512 - 32 * length sp)) = 512" using l assms(7) by simp
  ultimately show ?thesis
    using scan_dir_specs[OF assms(4-7), of _ "raw_bytes name"] assms(3,8)
    by (simp add: fat_lookup_def dir_bytes_single[OF assms(1,2)] del: concat.simps)
qed

section \<open>The whole image\<close>

definition esp_fits :: "bytes \<Rightarrow> bytes \<Rightarrow> bool" where
  "esp_fits bootloader_data kernel_data \<longleftrightarrow> 4 + num_clusters_of bootloader_data + num_clusters_of kernel_data \<le> data_clusters"

text \<open>Specifications of the four directories, for the first clusters \<open>bc\<close> and \<open>kc\<close> of the two files.\<close>

definition root_specs :: "dir_spec list" where
  "root_specs = [(''ZIGIX ESP  '', 0x08, 0, 0), (''EFI        '', 0x10, 3, 0), (''ZIGIX      '', 0x10, 5, 0)]"

definition efi_specs :: "dir_spec list" where
  "efi_specs = [(''.          '', 0x10, 3, 0), (''..         '', 0x10, 2, 0), (''BOOT       '', 0x10, 4, 0)]"

definition boot_specs :: "nat \<Rightarrow> nat \<Rightarrow> dir_spec list" where
  "boot_specs bc bl = [(''.          '', 0x10, 4, 0), (''..         '', 0x10, 3, 0), (''BOOTAA64EFI'', 0x20, bc, bl)]"

definition zigix_specs :: "dir_spec list" where
  "zigix_specs = [(''.          '', 0x10, 5, 0), (''..         '', 0x10, 2, 0)]"

lemmas specs_defs = root_specs_def efi_specs_def boot_specs_def zigix_specs_def

lemma specs_ok:
  "list_all spec_ok root_specs" "list_all spec_ok efi_specs" "list_all spec_ok zigix_specs"
  "bc < 2 ^ 32 \<Longrightarrow> bl < 2 ^ 32 \<Longrightarrow> list_all spec_ok (boot_specs bc bl)"
  by (simp_all add: specs_defs is_ascii_def)

lemma fat_directories_eq:
  "fat_directories (2, 3, 4, 5) bc bl kc kl =
     py_seq (put_dir (cluster_offset 2) root_specs)
     (py_seq (put_dir (cluster_offset 3) efi_specs)
     (py_seq (put_dir (cluster_offset 4) (boot_specs bc bl))
     (py_seq (put_dir (cluster_offset 5) zigix_specs)
     (py_bind (py_lift (make_lfn_entries ''zigix-aarch64'' ''ZIGIX-~1   '' 0x20 kc kl))
        (put_entries (cluster_offset 5 + 64))))))"
  by (simp add: fat_directories_def specs_defs)

definition dirs_written :: "bytes \<Rightarrow> bytes list \<Rightarrow> bytes list \<Rightarrow> bytes list \<Rightarrow> bytes list \<Rightarrow> bytes list \<Rightarrow> bool" where
  "dirs_written im rs es bs zs ls \<longleftrightarrow>
     slot_at im (Cluster 2) = put_at 0 (concat rs) (zeros cluster_size) \<and>
     slot_at im (Cluster 3) = put_at 0 (concat es) (zeros cluster_size) \<and>
     slot_at im (Cluster 4) = put_at 0 (concat bs) (zeros cluster_size) \<and>
     slot_at im (Cluster 5) = put_at 64 (concat ls) (put_at 0 (concat zs) (zeros cluster_size))"

lemma long_name_entries:
  assumes "kc < 2 ^ 32" "kl < 2 ^ 32"
  shows "\<exists>ls. make_lfn_entries ''zigix-aarch64'' ''ZIGIX-~1   '' 0x20 kc kl = Inr ls \<and> length ls = 2 \<and> (\<forall>e \<in> set ls. length e = 32) \<and>
    read_long_name ls = Some ''zigix-aarch64'' \<and> entry_is (last ls) (raw_bytes ''ZIGIX-~1   '') 0x20 kc kl \<and>
    (\<forall>e \<in> set (butlast ls). e ! 11 = 0x0F \<and> e ! 0 \<noteq> 0)"
  using lfn_entries_run[of "''zigix-aarch64''" "''ZIGIX-~1   ''" 32 kc kl] assms
  by (simp add: lfn_name_ok_def is_ascii_def ceil_div_def pad_name_def numeral_2_eq_2)

lemma fat_directories_run:
  assumes z: "esp_sized (fat s)" and zero: "\<And>c. c \<in> {2..5} \<Longrightarrow> slot_at (fat s) (Cluster c) = zeros cluster_size"
    and "bc < 2 ^ 32" "bl < 2 ^ 32" "kc < 2 ^ 32" "kl < 2 ^ 32"
  shows "\<exists>b rs es bs zs ls. fat_directories (2, 3, 4, 5) bc bl kc kl s = Inr ((), s\<lparr>fat := b\<rparr>) \<and>
    eq_except (Cluster ` {2..5}) (fat s) b \<and> dirs_written b rs es bs zs ls \<and>
    list_all2 spec_entry root_specs rs \<and> list_all2 spec_entry efi_specs es \<and>
    list_all2 spec_entry (boot_specs bc bl) bs \<and> list_all2 spec_entry zigix_specs zs \<and>
    make_lfn_entries ''zigix-aarch64'' ''ZIGIX-~1   '' 0x20 kc kl = Inr ls"
proof -
  have ok: "slot_ok (Cluster c)" if "c \<in> {2..5}" for c using that by (simp add: fat_layout)
  have fits: "32 * length sp \<le> cluster_size" if "length sp \<le> 3" for sp :: "dir_spec list" using that by (simp add: fat_layout)
  obtain b2 rs where b2: "put_dir (cluster_offset 2) root_specs s = Inr ((), s\<lparr>fat := b2\<rparr>)"
    "eq_except {Cluster 2} (fat s) b2" "list_all2 spec_entry root_specs rs"
    "slot_at b2 (Cluster 2) = put_at 0 (concat rs) (slot_at (fat s) (Cluster 2))"
    using put_dir_run[OF z ok specs_ok(1) fits, of 2] by (auto simp: root_specs_def)
  note z2 = eq_except_esp[OF b2(2) z]
  obtain b3 es where b3: "put_dir (cluster_offset 3) efi_specs (s\<lparr>fat := b2\<rparr>) = Inr ((), s\<lparr>fat := b3\<rparr>)"
    "eq_except {Cluster 3} b2 b3" "list_all2 spec_entry efi_specs es"
    "slot_at b3 (Cluster 3) = put_at 0 (concat es) (slot_at b2 (Cluster 3))"
    using put_dir_run[of "s\<lparr>fat := b2\<rparr>", OF _ ok specs_ok(2) fits, of 3] z2 by (auto simp: efi_specs_def)
  note z3 = eq_except_esp[OF b3(2) z2]
  obtain b4 bs where b4: "put_dir (cluster_offset 4) (boot_specs bc bl) (s\<lparr>fat := b3\<rparr>) = Inr ((), s\<lparr>fat := b4\<rparr>)"
    "eq_except {Cluster 4} b3 b4" "list_all2 spec_entry (boot_specs bc bl) bs"
    "slot_at b4 (Cluster 4) = put_at 0 (concat bs) (slot_at b3 (Cluster 4))"
    using put_dir_run[of "s\<lparr>fat := b3\<rparr>", OF _ ok specs_ok(4)[OF assms(3,4)] fits, of 4] z3 by (auto simp: boot_specs_def)
  note z4 = eq_except_esp[OF b4(2) z3]
  obtain b5 zs where b5: "put_dir (cluster_offset 5) zigix_specs (s\<lparr>fat := b4\<rparr>) = Inr ((), s\<lparr>fat := b5\<rparr>)"
    "eq_except {Cluster 5} b4 b5" "list_all2 spec_entry zigix_specs zs"
    "slot_at b5 (Cluster 5) = put_at 0 (concat zs) (slot_at b4 (Cluster 5))"
    using put_dir_run[of "s\<lparr>fat := b4\<rparr>", OF _ ok specs_ok(3) fits, of 5] z4 by (auto simp: zigix_specs_def)
  note z5 = eq_except_esp[OF b5(2) z4]
  obtain ls where ls: "make_lfn_entries ''zigix-aarch64'' ''ZIGIX-~1   '' 0x20 kc kl = Inr ls" "length ls = 2" "\<forall>e \<in> set ls. length e = 32"
    using long_name_entries[OF assms(5,6)] by blast
  obtain b where b: "put_entries (cluster_offset 5 + 64) ls (s\<lparr>fat := b5\<rparr>) = Inr ((), s\<lparr>fat := b\<rparr>)"
    "eq_except {Cluster 5} b5 b" "slot_at b (Cluster 5) = put_at 64 (concat ls) (slot_at b5 (Cluster 5))"
    using put_entries_run[of "s\<lparr>fat := b5\<rparr>", OF _ ok, of 5 ls 64] z5 ls(2,3) by (auto simp: fat_layout)
  have run: "fat_directories (2, 3, 4, 5) bc bl kc kl s = Inr ((), s\<lparr>fat := b\<rparr>)"
    using b2(1) b3(1) b4(1) b5(1) ls(1) b(1) by (simp add: fat_directories_eq py_seq_run py_bind_run)
  have step: "slot_at y (Cluster c) = slot_at x (Cluster c)"
    if "eq_except {Cluster d} x y" "c \<in> {2..5}" "c \<noteq> d" for x y c d
    using that ok by (intro eq_except_slot[OF that(1)]) simp_all
  have "dirs_written b rs es bs zs ls"
    using b2(4) b3(4) b4(4) b5(4) b(3) step[OF b2(2)] step[OF b3(2)] step[OF b4(2)] step[OF b5(2)] step[OF b(2)] zero
    by (simp add: dirs_written_def)
  moreover have "eq_except (Cluster ` {2..5}) (fat s) b"
    using b2(2) b3(2) b4(2) b5(2) b(2) by (auto simp: eq_except_def image_iff)
  ultimately show ?thesis using run b2(3) b3(3) b4(3) b5(3) ls(1) by blast
qed

lemma length_le_clusters: "length data \<le> num_clusters_of data * cluster_size"
proof -
  have "length data \<le> ceil_div (length data) cluster_size * cluster_size"
    by (rule ceil_div_bounds(1)) (simp add: fat_layout)
  also have "\<dots> \<le> num_clusters_of data * cluster_size" by (simp add: num_clusters_of_def)
  finally show ?thesis .
qed

lemma file_slots_member:
  "Reserved \<notin> file_slots d" "Cluster c \<in> file_slots d \<longleftrightarrow> c = d" "Fat_Entry f c \<in> file_slots d \<longleftrightarrow> c = d \<and> f < 2"
  by (auto simp: file_slots_def entry_slots_def less_2_cases_iff)

text \<open>Image and layout after the clusters were taken and both files were written.\<close>

definition files_written :: "bytes \<Rightarrow> bytes \<Rightarrow> bytes \<Rightarrow> bool" where
  "files_written im bd kd \<longleftrightarrow> esp_sized im \<and> boot_sector_ok im \<and>
     (\<forall>c \<in> {2..5}. slot_at im (Fat_Entry 0 c) = end_mark) \<and>
     (\<forall>i < num_clusters_of bd. cluster_holds im bd 6 (num_clusters_of bd) i) \<and>
     (\<forall>i < num_clusters_of kd. cluster_holds im kd (6 + num_clusters_of bd) (num_clusters_of kd) i)"

lemma fat_files_run:
  assumes "esp_fits bd kd" and "esp_sized b0" "boot_sector_ok b0"
    and zero: "\<And>c. slot_ok (Cluster c) \<Longrightarrow> slot_at b0 (Cluster c) = zeros cluster_size"
  shows "\<exists>b n. fat_content bd kd \<lparr>fat = b0, next_cluster = 2\<rparr> =
      fat_directories (2, 3, 4, 5) 6 (length bd) (6 + num_clusters_of bd) (length kd) \<lparr>fat = b, next_cluster = n\<rparr> \<and>
    files_written b bd kd \<and> (\<forall>c \<in> {2..5}. slot_at b (Cluster c) = zeros cluster_size)"
proof -
  let ?n1 = "num_clusters_of bd" and ?n2 = "num_clusters_of kd"
  have room: "6 + ?n1 \<le> data_clusters + 2" "6 + ?n1 + ?n2 \<le> data_clusters + 2" using assms(1) by (simp_all add: esp_fits_def)
  obtain b1 where b1: "fat_clusters \<lparr>fat = b0, next_cluster = 2\<rparr> = Inr ((2, 3, 4, 5), \<lparr>fat = b1, next_cluster = 6\<rparr>)"
    "eq_except (\<Union>c < 6. entry_slots c) b0 b1" "\<forall>c \<in> {2, 3, 4, 5}. slot_at b1 (Fat_Entry 0 c) = end_mark"
    using fat_clusters_run[of "\<lparr>fat = b0, next_cluster = 2\<rparr>"] assms(2) by auto
  note z1 = eq_except_esp[OF b1(2) assms(2)]
  obtain b2 where b2: "write_file_to_clusters bd \<lparr>fat = b1, next_cluster = 6\<rparr> = Inr (6, \<lparr>fat = b2, next_cluster = 6 + ?n1\<rparr>)"
    "eq_except (\<Union>i < ?n1. file_slots (6 + i)) b1 b2" "\<forall>i < ?n1. cluster_holds b2 bd 6 ?n1 i"
    using write_file_run[of "\<lparr>fat = b1, next_cluster = 6\<rparr>" 6 bd] z1 room by auto
  note z2 = eq_except_esp[OF b2(2) z1]
  obtain b3 where b3: "write_file_to_clusters kd \<lparr>fat = b2, next_cluster = 6 + ?n1\<rparr> =
      Inr (6 + ?n1, \<lparr>fat = b3, next_cluster = 6 + ?n1 + ?n2\<rparr>)"
    "eq_except (\<Union>i < ?n2. file_slots (6 + ?n1 + i)) b2 b3" "\<forall>i < ?n2. cluster_holds b3 kd (6 + ?n1) ?n2 i"
    using write_file_run[of "\<lparr>fat = b2, next_cluster = 6 + ?n1\<rparr>" "6 + ?n1" kd] z2 room by auto
  note z3 = eq_except_esp[OF b3(2) z2]
  have run: "fat_content bd kd \<lparr>fat = b0, next_cluster = 2\<rparr> =
      fat_directories (2, 3, 4, 5) 6 (length bd) (6 + ?n1) (length kd) \<lparr>fat = b3, next_cluster = 6 + ?n1 + ?n2\<rparr>"
    using b1(1) b2(1) b3(1) by (simp add: fat_content_def py_bind_run)
  have res: "boot_sector_ok b3"
  proof -
    have "boot_sector_ok b1" using assms(3) b1(2) by (rule boot_sector_frame) (use assms(2) in \<open>auto simp: entry_slots_def\<close>)
    then have "boot_sector_ok b2" using b2(2) by (rule boot_sector_frame) (use z1 in \<open>simp_all add: file_slots_member\<close>)
    then show ?thesis using b3(2) by (rule boot_sector_frame) (use z2 in \<open>simp_all add: file_slots_member\<close>)
  qed
  have keep: "slot_at b3 k = slot_at b1 k" if "slot_ok k" "k \<in> {Cluster c, Fat_Entry 0 c}" "c < 6" for k c
  proof -
    have "slot_at b3 k = slot_at b2 k" using that by (intro eq_except_slot[OF b3(2)]) (auto simp: file_slots_member)
    also have "\<dots> = slot_at b1 k" using that by (intro eq_except_slot[OF b2(2)]) (auto simp: file_slots_member)
    finally show ?thesis .
  qed
  have "slot_at b3 (Cluster c) = zeros cluster_size" if c: "c \<in> {2..5}" for c
  proof -
    have ok: "slot_ok (Cluster c)" using c by (simp add: fat_layout)
    have "slot_at b1 (Cluster c) = slot_at b0 (Cluster c)" using ok by (intro eq_except_slot[OF b1(2)]) (auto simp: entry_slots_def)
    then show ?thesis using keep[OF ok, of c] zero[OF ok] c by simp
  qed
  moreover have "slot_at b3 (Fat_Entry 0 c) = end_mark" if c: "c \<in> {2..5}" for c
  proof -
    have "slot_ok (Fat_Entry 0 c)" "c \<in> {2, 3, 4, 5}" using c by (auto simp: fat_layout)
    then show ?thesis using keep[of "Fat_Entry 0 c" c] b1(3) c by simp
  qed
  moreover have "cluster_holds b3 bd 6 ?n1 i" if i: "i < ?n1" for i
  proof (rule cluster_holds_frame[OF _ b3(2)])
    have "file_slots (6 + ?n1 + j) \<inter> file_slots (6 + i) = {}" for j using i by (intro file_slots_disjoint) simp
    then show "(\<Union>j < ?n2. file_slots (6 + ?n1 + j)) \<inter> file_slots (6 + i) = {}" by blast
  qed (use b2(3) i room in simp_all)
  ultimately show ?thesis using run z3 res b3(3) unfolding files_written_def by blast
qed

lemma files_written_frame:
  assumes "files_written im bd kd" and "eq_except (Cluster ` {2..5}) im im'" and "esp_fits bd kd"
  shows "files_written im' bd kd"
proof -
  have z: "esp_sized im" and bs: "boot_sector_ok im" using assms(1) by (simp_all add: files_written_def)
  have dj: "Cluster ` {2..5} \<inter> file_slots (6 + j) = {}" for j by (auto simp: file_slots_member)
  have room: "6 + num_clusters_of bd + num_clusters_of kd \<le> data_clusters + 2" using assms(3) by (simp add: esp_fits_def)
  have "boot_sector_ok im'" using bs assms(2) by (rule boot_sector_frame) (use z in auto)
  moreover have "slot_at im' (Fat_Entry 0 c) = slot_at im (Fat_Entry 0 c)" if "c \<in> {2..5}" for c
    using that by (intro eq_except_slot[OF assms(2)]) (auto simp: fat_layout)
  moreover have "cluster_holds im' bd 6 (num_clusters_of bd) i" if "i < num_clusters_of bd" for i
    using assms(1) that room dj[of i] by (intro cluster_holds_frame[OF _ assms(2)]) (simp_all add: files_written_def)
  moreover have "cluster_holds im' kd (6 + num_clusters_of bd) (num_clusters_of kd) i" if "i < num_clusters_of kd" for i
    using assms(1) that room dj[of "num_clusters_of bd + i"]
    by (intro cluster_holds_frame[OF _ assms(2)]) (simp_all add: files_written_def add.assoc)
  ultimately show ?thesis using assms(1) eq_except_esp[OF assms(2) z] by (simp add: files_written_def)
qed

lemma files_written_read:
  assumes "files_written im bd kd" and "esp_fits bd kd"
  shows "read_fat_file im 6 (length bd) = Some bd" and "read_fat_file im (6 + num_clusters_of bd) (length kd) = Some kd"
  using assms by (auto simp: files_written_def esp_fits_def intro!: read_stored_file)

lemma zigix_lookup:
  assumes "slot_at im (Fat_Entry 0 5) = end_mark" and "dirs_written im rs es bs zs ls"
    and "list_all2 spec_entry zigix_specs zs" and "make_lfn_entries ''zigix-aarch64'' ''ZIGIX-~1   '' 0x20 kc kl = Inr ls"
    and "kc < 2 ^ 32" "kl < 2 ^ 32"
  shows "fat_lookup im 5 (raw_bytes ''ZIGIX-~1   '') = Some (0x20, kc, kl)"
    and "read_long_name [sub (slot_at im (Cluster 5)) 64 32, sub (slot_at im (Cluster 5)) 96 32] = Some ''zigix-aarch64''"
proof -
  obtain l e where ls: "ls = [l, e]" and le: "length l = 32" "length e = 32" "l ! 11 = 0x0F" "l ! 0 \<noteq> 0"
    and nm: "read_long_name ls = Some ''zigix-aarch64''" and en: "entry_is e (raw_bytes ''ZIGIX-~1   '') 0x20 kc kl"
    using long_name_entries[OF assms(5,6)] assms(4) by (auto simp: length_Suc_conv numeral_2_eq_2)
  have zl: "length (concat zs) = 64"
    using assms(3) spec_entries_length[OF assms(3)] by (auto simp: zigix_specs_def list_all2_Cons1)
  have d: "slot_at im (Cluster 5) = concat zs @ l @ e @ zeros 384"
    using assms(2) zl le(1,2) by (simp add: dirs_written_def ls put_at_def slice_set_def zeros_def fat_layout)
  then show "read_long_name [sub (slot_at im (Cluster 5)) 64 32, sub (slot_at im (Cluster 5)) 96 32] = Some ''zigix-aarch64''"
    using nm zl le(1,2) by (simp add: ls sub_def)
  have "scan_dir 16 (concat zs @ l @ e @ zeros 384) (raw_bytes ''ZIGIX-~1   '') =
      scan_dir 14 (l @ e @ zeros 384) (raw_bytes ''ZIGIX-~1   '')"
    using scan_dir_specs[OF assms(3) specs_ok(3), of 16 "l @ e @ zeros 384" "raw_bytes ''ZIGIX-~1   ''"]
    by (simp add: zigix_specs_def del: scan_dir.simps)
  moreover have "scan_dir (Suc 13) (l @ e @ zeros 384) nm = scan_dir 13 (e @ zeros 384) nm" for nm
    by (rule scan_dir_long[OF le(1,3,4)])
  moreover have "scan_dir (Suc 12) (e @ zeros 384) (raw_bytes ''ZIGIX-~1   '') = Some (0x20, kc, kl)"
    using scan_dir_entry[OF en, of 12 "zeros 384" "raw_bytes ''ZIGIX-~1   ''"] by (simp add: raw_bytes_def del: scan_dir.simps)
  ultimately have "scan_dir 16 (concat zs @ l @ e @ zeros 384) (raw_bytes ''ZIGIX-~1   '') = Some (0x20, kc, kl)"
    by (simp del: scan_dir.simps)
  moreover have ok: "slot_ok (Cluster 5)" by (simp add: fat_layout)
  ultimately show "fat_lookup im 5 (raw_bytes ''ZIGIX-~1   '') = Some (0x20, kc, kl)"
    unfolding fat_lookup_def dir_bytes_single[OF assms(1) ok] d using zl le(1,2) by (simp del: scan_dir.simps)
qed

lemma boot_lookups:
  assumes "files_written im bd kd" and "dirs_written im rs es bs zs ls"
    and "list_all2 spec_entry root_specs rs" "list_all2 spec_entry efi_specs es" "list_all2 spec_entry (boot_specs bc bl) bs"
    and "bc < 2 ^ 32" "bl < 2 ^ 32"
  shows "fat_lookup im 2 (raw_bytes ''EFI        '') = Some (0x10, 3, 0)"
    and "fat_lookup im 2 (raw_bytes ''ZIGIX      '') = Some (0x10, 5, 0)"
    and "fat_lookup im 3 (raw_bytes ''BOOT       '') = Some (0x10, 4, 0)"
    and "fat_lookup im 4 (raw_bytes ''BOOTAA64EFI'') = Some (0x20, bc, bl)"
proof -
  have m: "slot_at im (Fat_Entry 0 c) = end_mark" if "c \<in> {2..5}" for c using assms(1) that by (simp add: files_written_def)
  have ok: "slot_ok (Cluster c)" if "c \<in> {2..5}" for c using that by (simp add: fat_layout)
  note w = assms(2)[unfolded dirs_written_def]
  show "fat_lookup im 2 (raw_bytes ''EFI        '') = Some (0x10, 3, 0)"
    by (rule fat_lookup_specs[OF m ok _ assms(3) specs_ok(1)]) (use w in \<open>simp_all add: root_specs_def\<close>)
  show "fat_lookup im 2 (raw_bytes ''ZIGIX      '') = Some (0x10, 5, 0)"
    by (rule fat_lookup_specs[OF m ok _ assms(3) specs_ok(1)]) (use w in \<open>simp_all add: root_specs_def\<close>)
  show "fat_lookup im 3 (raw_bytes ''BOOT       '') = Some (0x10, 4, 0)"
    by (rule fat_lookup_specs[OF m ok _ assms(4) specs_ok(2)]) (use w in \<open>simp_all add: efi_specs_def\<close>)
  show "fat_lookup im 4 (raw_bytes ''BOOTAA64EFI'') = Some (0x20, bc, bl)"
    by (rule fat_lookup_specs[OF m ok _ assms(5) specs_ok(4)[OF assms(6,7)]]) (use w in \<open>simp_all add: boot_specs_def\<close>)
qed

lemma esp_image_files:
  assumes "esp_fits bd kd"
  shows "\<exists>im. make_fat32_esp bd kd = Inr im \<and> length im = ESP_SECTORS * SECTOR_SIZE \<and> boot_sector_ok im \<and>
    fat_open im [''EFI        '', ''BOOT       '', ''BOOTAA64EFI''] = Some bd \<and>
    fat_open im [''ZIGIX      '', ''ZIGIX-~1   ''] = Some kd \<and>
    (\<exists>d. dir_bytes im 5 = Some d \<and> read_long_name [sub d 64 32, sub d 96 32] = Some ''zigix-aarch64'')"
proof -
  let ?n = "num_clusters_of bd" and ?kc = "6 + num_clusters_of bd"
  have small: "?kc < 2 ^ 32" "length bd < 2 ^ 32" "length kd < 2 ^ 32"
    using assms length_le_clusters[of bd] length_le_clusters[of kd] by (simp_all add: esp_fits_def fat_layout)
  obtain b0 where b0: "fat_boot = Inr b0" "esp_sized b0" "boot_sector_ok b0"
    "\<And>c. slot_ok (Cluster c) \<Longrightarrow> slot_at b0 (Cluster c) = zeros cluster_size" using fat_boot_run by blast
  obtain b n where b: "fat_content bd kd \<lparr>fat = b0, next_cluster = 2\<rparr> =
      fat_directories (2, 3, 4, 5) 6 (length bd) ?kc (length kd) \<lparr>fat = b, next_cluster = n\<rparr>"
    "files_written b bd kd" "\<forall>c \<in> {2..5}. slot_at b (Cluster c) = zeros cluster_size"
    using fat_files_run[OF assms b0(2-4)] by blast
  have z: "esp_sized b" using b(2) by (simp add: files_written_def)
  obtain im rs es bs zs ls where im: "fat_directories (2, 3, 4, 5) 6 (length bd) ?kc (length kd) \<lparr>fat = b, next_cluster = n\<rparr> =
      Inr ((), \<lparr>fat = im, next_cluster = n\<rparr>)" "eq_except (Cluster ` {2..5}) b im" "dirs_written im rs es bs zs ls"
    and sp: "list_all2 spec_entry root_specs rs" "list_all2 spec_entry efi_specs es"
      "list_all2 spec_entry (boot_specs 6 (length bd)) bs" "list_all2 spec_entry zigix_specs zs"
      "make_lfn_entries ''zigix-aarch64'' ''ZIGIX-~1   '' 0x20 ?kc (length kd) = Inr ls"
    using fat_directories_run[of "\<lparr>fat = b, next_cluster = n\<rparr>" 6 "length bd" ?kc "length kd"] z b(3) small by auto
  have w: "files_written im bd kd" by (rule files_written_frame[OF b(2) im(2) assms])
  then have root: "u32_at im 44 = 2" "slot_at im (Fat_Entry 0 5) = end_mark"
    by (simp_all add: files_written_def boot_sector_ok_def)
  note lk = boot_lookups[OF w im(3) sp(1-3) _ small(2)] and zg = zigix_lookup[OF root(2) im(3) sp(4,5) small(1,3)]
  note rd = files_written_read[OF w assms]
  have "make_fat32_esp bd kd = Inr im" unfolding make_fat32_esp_def b0(1) using b(1) im(1) by simp
  moreover have "fat_open im [''EFI        '', ''BOOT       '', ''BOOTAA64EFI''] = Some bd"
    using lk rd(1) root(1) by (simp add: fat_open_def bit_0)
  moreover have "fat_open im [''ZIGIX      '', ''ZIGIX-~1   ''] = Some kd"
    using lk zg(1) rd(2) root(1) by (simp add: fat_open_def bit_0)
  moreover have "dir_bytes im 5 = Some (slot_at im (Cluster 5))" using root(2) by (rule dir_bytes_single) (simp add: fat_layout)
  ultimately show ?thesis using w zg(2) by (auto simp: files_written_def esp_sized_def)
qed

text \<open>
  C24: \<^verbatim>\<open>make_fat32_esp\<close> as a whole.  When bootloader and kernel fit, the image has the size of
  the partition, a valid boot sector with its backup, and a reader of the format that starts at
  the root directory and follows the tables finds the bootloader at \<^verbatim>\<open>/EFI/BOOT/BOOTAA64.EFI\<close> and
  the kernel in \<^verbatim>\<open>/zigix\<close>, under its short name and with the long name \<^verbatim>\<open>zigix-aarch64\<close>, byte
  for byte.
\<close>

theorem esp_files_readable:
  assumes "esp_fits bd kd"
  shows "\<exists>im. make_fat32_esp bd kd = Inr im \<and> length im = ESP_SECTORS * SECTOR_SIZE \<and> boot_sector_ok im \<and>
    fat_open im [''EFI        '', ''BOOT       '', ''BOOTAA64EFI''] = Some bd \<and>
    fat_open im [''ZIGIX      '', ''ZIGIX-~1   ''] = Some kd \<and>
    (\<exists>d. dir_bytes im 5 = Some d \<and> read_long_name [sub d 64 32, sub d 96 32] = Some ''zigix-aarch64'')"
  by (rule esp_image_files[OF assms])

theorem esp_files_readable_witness:
  "\<exists>im. make_fat32_esp [0x4D, 0x5A] (replicate 1000 0x7F) = Inr im \<and>
     fat_open im [''EFI        '', ''BOOT       '', ''BOOTAA64EFI''] = Some [0x4D, 0x5A] \<and>
     fat_open im [''ZIGIX      '', ''ZIGIX-~1   ''] = Some (replicate 1000 0x7F)"
proof -
  have "esp_fits [0x4D, 0x5A] (replicate 1000 0x7F)"
    by (simp add: esp_fits_def num_clusters_of_def ceil_div_def fat_layout)
  from esp_files_readable[OF this] show ?thesis by blast
qed

end
