(* ===== verification/Gce_Main.thy ===== *)
theory Gce_Main
  imports Fat32_Esp
begin

text \<open>
  \<^verbatim>\<open>main\<close> of \<^verbatim>\<open>make_gce_disk.py\<close>: arguments, input files, boot file system, partition table,
  disk.  The random identifiers of \<^verbatim>\<open>uuid.uuid4()\<close> and the files of the host are arguments; what
  the script prints is left out.
\<close>

type_synonym host_files = "string \<Rightarrow> bytes option"

definition open_read :: "host_files \<Rightarrow> string \<Rightarrow> bytes result" where
  "open_read files path = (case files path of None \<Rightarrow> Inl FileNotFoundError | Some d \<Rightarrow> Inr d)"

definition gce_main :: "host_files \<Rightarrow> bytes \<Rightarrow> bytes \<Rightarrow> bytes \<Rightarrow> string list \<Rightarrow> (string \<times> bytes) result" where
  "gce_main files disk_uuid esp_uuid root_uuid argv =
     (if length argv < 4 then Inl (SystemExit 1)
      else
        let output_path = argv ! 1; bootloader_path = argv ! 2; kernel_path = argv ! 3;
            ext4_path = (if length argv > 4 then argv ! 4 else []) in
        res_bind (open_read files bootloader_path) (\<lambda>bootloader_data.
        res_bind (open_read files kernel_path) (\<lambda>kernel_data.
        res_bind (if ext4_path \<noteq> [] then res_bind (open_read files ext4_path) (\<lambda>d. Inr (Some d)) else Inr None) (\<lambda>ext4_data.
        res_bind (make_fat32_esp bootloader_data kernel_data) (\<lambda>esp_image.
        res_bind (gce_disk disk_uuid esp_uuid root_uuid esp_image ext4_data) (\<lambda>disk.
        Inr (output_path, disk)))))))"



text \<open>
  C25: from the input files to the disk.  With a bootloader and a kernel that fit, the script writes
  a disk of 2 GB; whoever reads its partition table, from either copy, finds as first entry the
  boot partition, and in it, as a FAT32 file system, the bootloader and the kernel under the paths
  of the boot chain; the second partition begins with the root image that was passed.
\<close>

theorem gce_main_boots:
  assumes "files bootloader_path = Some bd" "files kernel_path = Some kd" "files root_path = Some rd"
    and "esp_fits bd kd" and "root_path \<noteq> []" and "length du = 16" "length eu = 16" "length ru = 16"
  shows "\<exists>disk. gce_main files du eu ru [prog, out, bootloader_path, kernel_path, root_path] = Inr (out, disk) \<and>
    length disk = 2 * 1024 ^ 3 \<and>
    (\<forall>lba \<in> {1, TOTAL_SECTORS - 1}. \<exists>h esp_first esp_last root_first root_last t g t' g'.
       read_gpt disk lba = Some h \<and> partition_at disk h 0 = (t, g, esp_first, esp_last) \<and>
       partition_at disk h 1 = (t', g', root_first, root_last) \<and>
       fat_open (partition_bytes disk esp_first esp_last) [''EFI        '', ''BOOT       '', ''BOOTAA64EFI''] = Some bd \<and>
       fat_open (partition_bytes disk esp_first esp_last) [''ZIGIX      '', ''ZIGIX-~1   ''] = Some kd \<and>
       (length rd \<le> ROOT_SIZE \<longrightarrow> take (length rd) (partition_bytes disk root_first root_last) = rd))"
proof -
  obtain esp where esp: "make_fat32_esp bd kd = Inr esp" "length esp = ESP_SECTORS * SECTOR_SIZE"
    "fat_open esp [''EFI        '', ''BOOT       '', ''BOOTAA64EFI''] = Some bd"
    "fat_open esp [''ZIGIX      '', ''ZIGIX-~1   ''] = Some kd"
    using esp_image_files[OF assms(4)] by blast
  obtain disk h h' where d: "gce_disk du eu ru esp (Some rd) = Inr disk" "length disk = 2 * 1024 ^ 3"
    "read_gpt disk 1 = Some h" "read_gpt disk (TOTAL_SECTORS - 1) = Some h'"
    and pt: "\<forall>g \<in> {h, h'}. \<exists>t u t' u'. partition_at disk g 0 = (t, u, ESP_START_LBA, ESP_END_LBA) \<and>
      partition_at disk g 1 = (t', u', ROOT_START_LBA, ROOT_END_LBA)"
    and pb: "partition_bytes disk ESP_START_LBA ESP_END_LBA = esp"
      "partition_bytes disk ROOT_START_LBA ROOT_END_LBA = root_image ROOT_SIZE (Some rd)"
    using gce_disk_parts[OF assms(6-8) esp(2), of "Some rd"] by blast
  have run: "gce_main files du eu ru [prog, out, bootloader_path, kernel_path, root_path] = Inr (out, disk)"
    using assms(1-3,5) esp(1) d(1) by (simp add: gce_main_def open_read_def Let_def)
  have rt: "length rd \<le> ROOT_SIZE \<longrightarrow> take (length rd) (root_image ROOT_SIZE (Some rd)) = rd" by (simp add: root_image_def)
  show ?thesis
  proof (intro exI[of _ disk] conjI ballI run d(2))
    fix lba assume "lba \<in> {1, TOTAL_SECTORS - 1}"
    then obtain g where g: "read_gpt disk lba = Some g" "g \<in> {h, h'}" using d(3,4) by auto
    from pt g(2) obtain t u t' u' where "partition_at disk g 0 = (t, u, ESP_START_LBA, ESP_END_LBA)"
      "partition_at disk g 1 = (t', u', ROOT_START_LBA, ROOT_END_LBA)" by blast
    with g(1) esp(3,4) pb rt show "\<exists>h esp_first esp_last root_first root_last t g t' g'.
       read_gpt disk lba = Some h \<and> partition_at disk h 0 = (t, g, esp_first, esp_last) \<and>
       partition_at disk h 1 = (t', g', root_first, root_last) \<and>
       fat_open (partition_bytes disk esp_first esp_last) [''EFI        '', ''BOOT       '', ''BOOTAA64EFI''] = Some bd \<and>
       fat_open (partition_bytes disk esp_first esp_last) [''ZIGIX      '', ''ZIGIX-~1   ''] = Some kd \<and>
       (length rd \<le> ROOT_SIZE \<longrightarrow> take (length rd) (partition_bytes disk root_first root_last) = rd)"
      by metis
  qed
qed

theorem gce_main_boots_witness:
  "\<exists>disk. gce_main (\<lambda>p. if p = ''boot.efi'' then Some [0x4D, 0x5A] else if p = ''kernel'' then Some [0x7F]
        else if p = ''root.img'' then Some (zeros 4096) else None) (zeros 16) (zeros 16) (zeros 16)
      [''make_gce_disk.py'', ''disk.raw'', ''boot.efi'', ''kernel'', ''root.img''] = Inr (''disk.raw'', disk) \<and>
     length disk = 2 * 1024 ^ 3"
proof -
  let ?f = "\<lambda>p. if p = ''boot.efi'' then Some [0x4D, 0x5A] else if p = ''kernel'' then Some [0x7F]
        else if p = ''root.img'' then Some (zeros 4096) else None"
  have "esp_fits [0x4D, 0x5A] [0x7F]" by (simp add: esp_fits_def num_clusters_of_def ceil_div_def fat_layout)
  with gce_main_boots[of ?f "''boot.efi''" "[0x4D, 0x5A]" "''kernel''" "[0x7F]" "''root.img''" "zeros 4096"
      "zeros 16" "zeros 16" "zeros 16" "''make_gce_disk.py''" "''disk.raw''"]
  show ?thesis by auto
qed

end
