(* ===== verification/Py_Text.thy ===== *)
theory Py_Text
  imports Main "HOL-Library.Sublist" "HOL-Library.AList" "HOL-Library.List_Lexorder" "HOL-Library.Char_ord"
begin

text \<open>
  Python text as the log analyzer \<^verbatim>\<open>tools/parse-serial-log.py\<close> uses it: strings of Unicode code
  points, the character classes of \<^verbatim>\<open>re\<close>, \<^verbatim>\<open>str.strip\<close>, \<^verbatim>\<open>in\<close>, \<^verbatim>\<open>startswith\<close>, \<^verbatim>\<open>lower\<close>, \<^verbatim>\<open>split\<close> and
  \<^verbatim>\<open>int\<close>, and a backtracking matcher for the patterns the script compiles.  What the Unicode
  character database says of code points from 128 on is a parameter; the ASCII part is defined
  here.
\<close>

section \<open>Code points\<close>

type_synonym utext = "nat list"

definition ustr :: "string \<Rightarrow> utext" where
  "ustr s = map of_char s"

text \<open>
  The Unicode database beyond ASCII: the value of a decimal digit, letters and digits,
  white space, lower case.
\<close>

record unicode =
  decimal_of :: "nat \<Rightarrow> nat option"
  alnum_of :: "nat \<Rightarrow> bool"
  space_of :: "nat \<Rightarrow> bool"
  lower_of :: "nat \<Rightarrow> utext"

definition ascii_digit :: "nat \<Rightarrow> bool" where
  "ascii_digit c \<longleftrightarrow> 48 \<le> c \<and> c \<le> 57"

definition ascii_upper :: "nat \<Rightarrow> bool" where
  "ascii_upper c \<longleftrightarrow> 65 \<le> c \<and> c \<le> 90"

definition ascii_letter :: "nat \<Rightarrow> bool" where
  "ascii_letter c \<longleftrightarrow> ascii_upper c \<or> 97 \<le> c \<and> c \<le> 122"

definition is_digit :: "unicode \<Rightarrow> nat \<Rightarrow> bool" where
  "is_digit u c = (if c < 128 then ascii_digit c else decimal_of u c \<noteq> None)"

definition is_word :: "unicode \<Rightarrow> nat \<Rightarrow> bool" where
  "is_word u c = (if c < 128 then ascii_letter c \<or> ascii_digit c \<or> c = 95 else alnum_of u c)"

definition is_space :: "unicode \<Rightarrow> nat \<Rightarrow> bool" where
  "is_space u c = (if c < 128 then 9 \<le> c \<and> c \<le> 13 \<or> 28 \<le> c \<and> c \<le> 32 else space_of u c)"

definition hex_digit :: "nat \<Rightarrow> bool" where
  "hex_digit c \<longleftrightarrow> ascii_digit c \<or> 65 \<le> c \<and> c \<le> 70 \<or> 97 \<le> c \<and> c \<le> 102"

definition any_char :: "nat \<Rightarrow> bool" where
  "any_char c \<longleftrightarrow> c \<noteq> 10"

definition lower_char :: "unicode \<Rightarrow> nat \<Rightarrow> utext" where
  "lower_char u c = (if c < 128 then (if ascii_upper c then [c + 32] else [c]) else lower_of u c)"

definition lower :: "unicode \<Rightarrow> utext \<Rightarrow> utext" where
  "lower u s = concat (map (lower_char u) s)"

definition strip :: "unicode \<Rightarrow> utext \<Rightarrow> utext" where
  "strip u s = rev (dropWhile (is_space u) (rev (dropWhile (is_space u) s)))"

text \<open>\<^verbatim>\<open>w in s\<close> and \<^verbatim>\<open>s.startswith(w)\<close>.\<close>

fun contains :: "utext \<Rightarrow> utext \<Rightarrow> bool" where
  "contains w [] \<longleftrightarrow> w = []"
| "contains w (c # cs) \<longleftrightarrow> prefix w (c # cs) \<or> contains w cs"

text \<open>\<^verbatim>\<open>s.split(c)\<close> for a separator of one character.\<close>

fun split_on :: "nat \<Rightarrow> utext \<Rightarrow> utext list" where
  "split_on c [] = [[]]"
| "split_on c (x # xs) =
     (if x = c then [] # split_on c xs
      else case split_on c xs of [] \<Rightarrow> [[x]] | w # ws \<Rightarrow> (x # w) # ws)"

definition digit_val :: "unicode \<Rightarrow> nat \<Rightarrow> nat" where
  "digit_val u c = (if c < 128 then c - 48 else case decimal_of u c of Some d \<Rightarrow> d | None \<Rightarrow> 0)"

definition int_of :: "unicode \<Rightarrow> utext \<Rightarrow> int" where
  "int_of u s =
     (case s of
        [] \<Rightarrow> 0
      | c # cs \<Rightarrow> if c = 45 then - int (foldl (\<lambda>n d. 10 * n + digit_val u d) 0 cs)
                  else int (foldl (\<lambda>n d. 10 * n + digit_val u d) 0 s))"

section \<open>Patterns\<close>

text \<open>
  The constructs of \<^verbatim>\<open>re\<close> that occur in the script: a character of a class, \<^verbatim>\<open>x*\<close> and \<^verbatim>\<open>x*?\<close> for a
  class \<open>x\<close>, the empty pattern, \<^verbatim>\<open>$\<close>, sequence, alternative and capture group.
\<close>

datatype rx =
    Chr "nat \<Rightarrow> bool"
  | Many "nat \<Rightarrow> bool"
  | Lazy "nat \<Rightarrow> bool"
  | Eps
  | Eos
  | Seq rx rx
  | Alt rx rx
  | Grp rx

definition Plus :: "(nat \<Rightarrow> bool) \<Rightarrow> rx" where
  "Plus p = Seq (Chr p) (Many p)"

definition lit :: "string \<Rightarrow> rx" where
  "lit s = foldr (\<lambda>c. Seq (Chr (\<lambda>x. x = of_char c))) s Eps"

definition seqs :: "rx list \<Rightarrow> rx" where
  "seqs rs = foldr Seq rs Eps"

fun greedy_rests :: "(nat \<Rightarrow> bool) \<Rightarrow> utext \<Rightarrow> utext list" where
  "greedy_rests p [] = [[]]"
| "greedy_rests p (c # cs) = (if p c then greedy_rests p cs @ [c # cs] else [c # cs])"

fun lazy_rests :: "(nat \<Rightarrow> bool) \<Rightarrow> utext \<Rightarrow> utext list" where
  "lazy_rests p [] = [[]]"
| "lazy_rests p (c # cs) = (c # cs) # (if p c then lazy_rests p cs else [])"

text \<open>
  All ways a pattern matches at the start of a text, in the order the backtracking engine tries
  them: the groups captured and what is left of the text.
\<close>

primrec matches :: "rx \<Rightarrow> utext \<Rightarrow> (utext list \<times> utext) list" where
  "matches (Chr p) s = (case s of [] \<Rightarrow> [] | c # cs \<Rightarrow> if p c then [([], cs)] else [])"
| "matches (Many p) s = map (Pair []) (greedy_rests p s)"
| "matches (Lazy p) s = map (Pair []) (lazy_rests p s)"
| "matches Eps s = [([], s)]"
| "matches Eos s = (if s = [] \<or> s = [10] then [([], s)] else [])"
| "matches (Seq a b) s = concat (map (\<lambda>(g, r). map (\<lambda>(h, t). (g @ h, t)) (matches b r)) (matches a s))"
| "matches (Alt a b) s = matches a s @ matches b s"
| "matches (Grp a) s = map (\<lambda>(g, r). (take (length s - length r) s # g, r)) (matches a s)"

definition re_match :: "rx \<Rightarrow> utext \<Rightarrow> (utext list \<times> utext) option" where
  "re_match r s = (case matches r s of [] \<Rightarrow> None | m # _ \<Rightarrow> Some m)"

fun re_search :: "rx \<Rightarrow> utext \<Rightarrow> (utext list \<times> utext) option" where
  "re_search r [] = re_match r []"
| "re_search r (c # cs) = (case re_match r (c # cs) of Some m \<Rightarrow> Some m | None \<Rightarrow> re_search r cs)"

text \<open>
  \<^verbatim>\<open>re.finditer\<close> and \<^verbatim>\<open>re.sub(.., '', ..)\<close> for patterns that match at least one character, as all
  patterns of the script do.
\<close>

lemma matches_suffix: "(g, r) \<in> set (matches x s) \<Longrightarrow> suffix r s"
proof (induction x arbitrary: g r s)
  case (Many p)
  have "t \<in> set (greedy_rests p s) \<Longrightarrow> suffix t s" for t
    by (induction s) (auto simp: suffix_Cons split: if_splits)
  with Many show ?case by auto
next
  case (Lazy p)
  have "t \<in> set (lazy_rests p s) \<Longrightarrow> suffix t s" for t
    by (induction s) (auto simp: suffix_Cons split: if_splits)
  with Lazy show ?case by auto
next
  case (Seq a b)
  then obtain g1 r1 g2 where "(g1, r1) \<in> set (matches a s)" "(g2, r) \<in> set (matches b r1)" by auto
  then show ?case using Seq.IH by (meson suffix_order.trans)
qed (auto simp: suffix_Cons split: list.splits if_splits)

lemma re_match_shorter: "re_match r s = Some (g, t) \<Longrightarrow> length t \<le> length s"
  using matches_suffix[of g t r s] by (auto simp: re_match_def dest: suffix_length_le split: list.splits)

function re_finditer :: "rx \<Rightarrow> utext \<Rightarrow> utext list list" where
  "re_finditer r [] = []"
| "re_finditer r (c # cs) =
     (case re_match r (c # cs) of
        None \<Rightarrow> re_finditer r cs
      | Some (g, t) \<Rightarrow> g # re_finditer r (if length t \<le> length cs then t else cs))"
  by pat_completeness auto
termination
  by (relation "measure (\<lambda>(r, s). length s)") auto

function re_delete :: "rx \<Rightarrow> utext \<Rightarrow> utext" where
  "re_delete r [] = []"
| "re_delete r (c # cs) =
     (case re_match r (c # cs) of
        None \<Rightarrow> c # re_delete r cs
      | Some (g, t) \<Rightarrow> if length t \<le> length cs then re_delete r t else c # re_delete r cs)"
  by pat_completeness auto
termination
  by (relation "measure (\<lambda>(r, s). length s)") auto

declare re_search.simps [simp del] re_finditer.simps [simp del] re_delete.simps [simp del]

end
