(* ===== verification/Log_Parse.thy ===== *)
theory Log_Parse
  imports Py_Text
begin

text \<open>
  The line parsers of \<^verbatim>\<open>tools/parse-serial-log.py\<close>: colour codes, subsystem tags, key-value pairs,
  crash blocks and syscall traces.  A dict is an association list in insertion order.
\<close>

section \<open>Patterns of the script\<close>

definition ansi_rx :: rx where
  "ansi_rx =
     Alt (seqs [Chr (\<lambda>c. c = 0x1B), lit ''['', Many (\<lambda>c. ascii_digit c \<or> c = 59), Chr ascii_letter])
         (seqs [Chr (\<lambda>c. c = 0x1B), lit ''['', Many (\<lambda>c. \<not> ascii_letter c), Chr ascii_letter])"

definition tag_char :: "nat \<Rightarrow> bool" where
  "tag_char c \<longleftrightarrow> ascii_letter c \<or> ascii_digit c \<or> c = 95 \<or> c = 45"

definition tag_rx :: "unicode \<Rightarrow> rx" where
  "tag_rx u = seqs [lit ''['', Grp (Plus tag_char), lit '']'', Many (is_space u), Grp (Many any_char)]"

definition pair_rx :: "unicode \<Rightarrow> rx" where
  "pair_rx u = seqs [Grp (Plus (is_word u)), lit ''='', Grp (Plus (is_digit u))]"

definition hex_rx :: rx where
  "hex_rx = Grp (seqs [lit ''0x'', Plus hex_digit])"

definition crash_rx :: "unicode \<Rightarrow> rx" where
  "crash_rx u = seqs
     [Grp (Alt (seqs [lit ''KERNEL '', Plus (is_word u), lit '' ABORT'']) (lit ''SYNC EXCEPTION'')), Lazy any_char,
      lit ''FAR='', hex_rx, Plus (is_space u), lit ''ELR='', hex_rx, Plus (is_space u),
      lit ''ESR='', hex_rx, Plus (is_space u), lit ''PID='', Grp (Plus (is_digit u))]"

definition field_rx :: "string \<Rightarrow> rx" where
  "field_rx name = seqs [lit name, lit ''='', hex_rx]"

definition register_rx :: "unicode \<Rightarrow> rx" where
  "register_rx u = seqs
     [Grp (Alt (seqs [lit ''X'', Plus (is_digit u)]) (Alt (lit ''SPSR'') (Alt (lit ''LR'') (lit ''SP'')))),
      lit ''='', hex_rx]"

definition frame_rx :: rx where
  "frame_rx = seqs [Grp (Alt (lit ''frame_at'') (Alt (lit ''kstack'') (lit ''kstop''))), lit ''='', hex_rx]"

definition chain_rx :: "unicode \<Rightarrow> rx" where
  "chain_rx u = seqs [lit ''FP chain:'', Many (is_space u), Grp (Many any_char)]"

definition trace_rx :: "unicode \<Rightarrow> rx" where
  "trace_rx u = seqs
     [lit ''P'', Grp (Plus (is_digit u)), Plus (is_space u), lit ''nr='', Grp (Plus (is_digit u)), Plus (is_space u),
      lit ''x0='', hex_rx, Plus (is_space u), lit ''x1='', hex_rx, Many (is_space u), lit ''->'', Many (is_space u),
      Grp (Seq (Alt (lit ''-'') Eps) (Plus (is_digit u)))]"

definition tick_rx :: "unicode \<Rightarrow> rx" where
  "tick_rx u = seqs
     [lit ''t='', Grp (Plus (is_digit u)), Plus (is_space u), lit ''cpu='', Grp (Plus (is_digit u)), Plus (is_space u),
      lit ''pid='', Grp (Plus (is_digit u)), Plus (is_space u), lit ''elr='', hex_rx]"

definition execve_rx :: "unicode \<Rightarrow> rx" where
  "execve_rx u = seqs [lit ''P'', Grp (Plus (is_digit u)), Lazy any_char, Grp (Plus (\<lambda>c. \<not> is_space u c)), Eos]"

definition pid_rx :: "unicode \<Rightarrow> rx" where
  "pid_rx u = seqs [lit ''P'', Grp (Plus (is_digit u))]"

section \<open>Lines\<close>

definition strip_ansi :: "utext \<Rightarrow> utext" where
  "strip_ansi s = re_delete ansi_rx s"

definition parse_subsystem_tag :: "unicode \<Rightarrow> utext \<Rightarrow> utext option \<times> utext" where
  "parse_subsystem_tag u line =
     (case re_match (tag_rx u) line of Some ([tag, rest], _) \<Rightarrow> (Some tag, rest) | _ \<Rightarrow> (None, line))"

definition parse_ext2_write :: "unicode \<Rightarrow> utext \<Rightarrow> (utext \<times> int) list" where
  "parse_ext2_write u rest =
     foldl (\<lambda>d g. case g of [k, v] \<Rightarrow> AList.update k (int_of u v) d | _ \<Rightarrow> d) [] (re_finditer (pair_rx u) rest)"

section \<open>Crash blocks\<close>

record syscall_entry =
  sc_pid :: int
  sc_nr :: int
  sc_x0 :: utext
  sc_x1 :: utext
  sc_ret :: int

record crash_info =
  crash_type :: utext
  crash_far :: utext
  crash_elr :: utext
  crash_esr :: utext
  crash_pid :: int
  crash_lr :: utext
  crash_sp :: utext
  crash_registers :: "(utext \<times> utext) list"
  crash_fp_chain :: "utext list"
  crash_syscall_trace :: "syscall_entry list"
  crash_line_num :: nat

definition group_1 :: "(utext list \<times> utext) option \<Rightarrow> utext" where
  "group_1 m = (case m of Some (g # _, _) \<Rightarrow> g | _ \<Rightarrow> [])"

definition add_pairs :: "utext list list \<Rightarrow> (utext \<times> utext) list \<Rightarrow> (utext \<times> utext) list" where
  "add_pairs gs d = foldl (\<lambda>d g. case g of [k, v] \<Rightarrow> AList.update k v d | _ \<Rightarrow> d) d gs"

definition crash_line :: "unicode \<Rightarrow> utext \<Rightarrow> crash_info \<Rightarrow> crash_info" where
  "crash_line u line c =
     (let c = c\<lparr>crash_registers := add_pairs (re_finditer (register_rx u) line) (crash_registers c)\<rparr>;
          c = c\<lparr>crash_registers := add_pairs (re_finditer frame_rx line) (crash_registers c)\<rparr>
      in case re_search (chain_rx u) line of
           Some (g # _, _) \<Rightarrow>
             c\<lparr>crash_fp_chain := filter (\<lambda>x. x \<noteq> []) (map (strip u) (split_on 0x2192 g))\<rparr>
         | _ \<Rightarrow> c)"

fun crash_lines :: "unicode \<Rightarrow> utext list \<Rightarrow> crash_info \<Rightarrow> crash_info" where
  "crash_lines u [] c = c"
| "crash_lines u (l # ls) c =
     (let line = strip u l in
      if line = [] \<or> prefix (ustr ''['') line \<and> \<not> prefix (ustr ''  '') line then c
      else crash_lines u ls (crash_line u line c))"

definition parse_crash_block :: "unicode \<Rightarrow> utext list \<Rightarrow> nat \<Rightarrow> crash_info option" where
  "parse_crash_block u lines start_idx =
     (let crash_text = lines ! start_idx in
      case re_search (crash_rx u) crash_text of
        Some ([ty, far, elr, esr, pid], _) \<Rightarrow>
          (let c = \<lparr>crash_type = ty, crash_far = far, crash_elr = elr, crash_esr = esr, crash_pid = int_of u pid,
                    crash_lr = group_1 (re_search (field_rx ''LR'') crash_text),
                    crash_sp = group_1 (re_search (field_rx ''SP'') crash_text),
                    crash_registers = [], crash_fp_chain = [], crash_syscall_trace = [],
                    crash_line_num = start_idx + 1\<rparr>
           in Some (crash_lines u (drop (start_idx + 1) lines) c))
      | _ \<Rightarrow> None)"

section \<open>Syscall traces\<close>

definition trace_line :: "unicode \<Rightarrow> utext \<Rightarrow> syscall_entry option" where
  "trace_line u line =
     (case re_match (trace_rx u) line of
        Some ([pid, nr, x0, x1, ret], _) \<Rightarrow>
          Some \<lparr>sc_pid = int_of u pid, sc_nr = int_of u nr, sc_x0 = x0, sc_x1 = x1, sc_ret = int_of u ret\<rparr>
      | _ \<Rightarrow> None)"

fun trace_lines :: "unicode \<Rightarrow> utext list \<Rightarrow> syscall_entry list" where
  "trace_lines u [] = []"
| "trace_lines u (l # ls) =
     (case trace_line u (strip u l) of Some e \<Rightarrow> e # trace_lines u ls | None \<Rightarrow> [])"

definition parse_syscall_trace :: "unicode \<Rightarrow> utext list \<Rightarrow> nat \<Rightarrow> syscall_entry list" where
  "parse_syscall_trace u lines start_idx = trace_lines u (drop (start_idx + 1) lines)"

end
