(* ===== verification/Log_Report.thy ===== *)
theory Log_Report
  imports Log_Parse
begin

text \<open>
  \<^verbatim>\<open>analyze_log\<close> of \<^verbatim>\<open>tools/parse-serial-log.py\<close>: one pass over the lines of a serial log that sorts
  them into the event lists of a report, counts them per subsystem and accumulates the file
  system writes per inode.
\<close>

section \<open>Report\<close>

datatype detail = DBool bool | DInt int | DText utext

record event =
  line_num :: nat
  subsystem :: utext
  category :: string
  raw :: utext
  details :: "(string \<times> detail) list"

text \<open>The totals kept per inode during the pass, and the record of the report.\<close>

record write_stats =
  total_bytes :: int
  write_count :: nat
  final_size :: int
  disk_writes :: int

record write_record = write_stats +
  inode :: int

record tick =
  tick_line :: nat
  tick_no :: int
  tick_cpu :: int
  tick_pid :: int
  tick_elr :: utext

record report =
  filename :: utext
  total_lines :: nat
  boot_events :: "event list"
  hw_events :: "event list"
  fs_events :: "event list"
  process_events :: "event list"
  net_events :: "event list"
  test_events :: "event list"
  errors :: "event list"
  ticks :: "tick list"
  write_summary :: "(int \<times> write_record) list"
  crash :: "crash_info option"
  subsystem_counts :: "(utext \<times> nat) list"
  syscall_trace :: "syscall_entry list"

definition CATEGORY_MAP :: "(string \<times> string) list" where
  "CATEGORY_MAP =
     [(''boot'', ''boot''), (''mmu'', ''boot''), (''pmm'', ''boot''), (''vmm'', ''boot''),
      (''cpu'', ''boot''), (''rng'', ''boot''),
      (''nvme'', ''hw''), (''pci'', ''hw''), (''gic'', ''hw''), (''gicv3'', ''hw''),
      (''gicv3-its'', ''hw''), (''timer'', ''hw''), (''wdog'', ''hw''), (''smp'', ''hw''),
      (''gpt'', ''hw''), (''acpi'', ''hw''),
      (''ext2'', ''fs''), (''ext2-wr'', ''fs''), (''ext2-create'', ''fs''),
      (''ext3'', ''fs''), (''ext4'', ''fs''), (''vfs-test'', ''test''),
      (''ramfs'', ''fs''), (''stat-e'', ''fs''), (''rename-e'', ''fs''),
      (''init'', ''process''), (''execve'', ''process''), (''exit'', ''process''),
      (''sched'', ''process''), (''dp'', ''process''),
      (''gvnic'', ''net''), (''net'', ''net''), (''dhcp'', ''net''),
      (''exc'', ''error''), (''sc-trace'', ''error''),
      (''tick'', ''tick'')]"

definition category_of :: "utext \<Rightarrow> string" where
  "category_of tag =
     (case map_of (map (\<lambda>(k, c). (ustr k, c)) CATEGORY_MAP) tag of Some c \<Rightarrow> c | None \<Rightarrow> ''other'')"

definition empty_report :: "utext \<Rightarrow> nat \<Rightarrow> report" where
  "empty_report filepath n =
     \<lparr>filename = filepath, total_lines = n, boot_events = [], hw_events = [], fs_events = [], process_events = [],
      net_events = [], test_events = [], errors = [], ticks = [], write_summary = [], crash = None,
      subsystem_counts = [], syscall_trace = []\<rparr>"

definition no_writes :: write_stats where
  "no_writes = \<lparr>total_bytes = 0, write_count = 0, final_size = 0, disk_writes = 0\<rparr>"

text \<open>Dicts: \<^verbatim>\<open>d.get(k, default)\<close>.\<close>

definition get_or :: "('k \<times> 'v) list \<Rightarrow> 'k \<Rightarrow> 'v \<Rightarrow> 'v" where
  "get_or d k v = (case map_of d k of Some x \<Rightarrow> x | None \<Rightarrow> v)"

section \<open>The pass\<close>

definition track_write :: "unicode \<Rightarrow> utext \<Rightarrow> (int \<times> write_stats) list \<Rightarrow> (int \<times> write_stats) list" where
  "track_write u rest tracker =
     (let d = parse_ext2_write u rest;
          ino = get_or d (ustr ''ino'') 0;
          t = get_or tracker ino no_writes
      in AList.update ino
           (t\<lparr>total_bytes := total_bytes t + get_or d (ustr ''wrote'') 0, write_count := write_count t + 1,
              final_size := get_or d (ustr ''new_sz'') (final_size t),
              disk_writes := disk_writes t + get_or d (ustr ''wdisk'') 0\<rparr>) tracker)"

definition mk_event :: "nat \<Rightarrow> utext \<Rightarrow> string \<Rightarrow> utext \<Rightarrow> (string \<times> detail) list \<Rightarrow> event" where
  "mk_event i tag cat line ds = \<lparr>line_num = i + 1, subsystem = tag, category = cat, raw = line, details = ds\<rparr>"

definition event_details :: "unicode \<Rightarrow> utext \<Rightarrow> utext \<Rightarrow> (string \<times> detail) list" where
  "event_details u tag rest =
     (if tag = ustr ''execve'' then
        (case re_search (execve_rx u) rest of
           Some ([pid, binary], _) \<Rightarrow> [(''pid'', DInt (int_of u pid)), (''binary'', DText binary)]
         | _ \<Rightarrow> [])
      else if tag = ustr ''init'' then [(''message'', DText rest)]
      else if tag = ustr ''exit'' then
        (case re_search (pid_rx u) rest of Some ([pid], _) \<Rightarrow> [(''pid'', DInt (int_of u pid))] | _ \<Rightarrow> [])
      else [])"

definition add_event :: "string \<Rightarrow> event \<Rightarrow> report \<Rightarrow> report" where
  "add_event cat e r =
     (if cat = ''boot'' then r\<lparr>boot_events := boot_events r @ [e]\<rparr>
      else if cat = ''hw'' then r\<lparr>hw_events := hw_events r @ [e]\<rparr>
      else if cat = ''fs'' then r\<lparr>fs_events := fs_events r @ [e]\<rparr>
      else if cat = ''process'' then r\<lparr>process_events := process_events r @ [e]\<rparr>
      else if cat = ''net'' then r\<lparr>net_events := net_events r @ [e]\<rparr>
      else if cat = ''test'' then r\<lparr>test_events := test_events r @ [e]\<rparr>
      else if cat = ''error'' then r\<lparr>errors := errors r @ [e]\<rparr>
      else r)"

definition is_crash :: "utext \<Rightarrow> bool" where
  "is_crash rest \<longleftrightarrow> contains (ustr ''ABORT'') rest \<or> contains (ustr ''EXCEPTION'') rest"

definition untagged_line :: "nat \<Rightarrow> utext \<Rightarrow> report \<Rightarrow> report" where
  "untagged_line i line r =
     (if contains (ustr ''UEFI'') line \<or> contains (ustr ''Bootloader'') line \<or> contains (ustr ''BdsDxe'') line
      then r\<lparr>boot_events := boot_events r @ [mk_event i (ustr ''uefi'') ''boot'' line []]\<rparr>
      else if contains (ustr ''Zigix OS'') line \<or> contains (ustr ''QUANTUM ENCODING'') line \<or>
        contains (ustr ''bare-metal'') line
      then r\<lparr>boot_events := boot_events r @ [mk_event i (ustr ''banner'') ''boot'' line []]\<rparr>
      else r)"

definition tagged_line :: "unicode \<Rightarrow> utext list \<Rightarrow> nat \<Rightarrow> utext \<Rightarrow> utext \<Rightarrow> utext \<Rightarrow> report \<Rightarrow> report" where
  "tagged_line u lines i line tag rest r =
     (if tag = ustr ''exc'' \<and> \<not> is_crash rest then
        r\<lparr>boot_events := boot_events r @ [mk_event i tag ''boot'' line []]\<rparr>
      else if tag = ustr ''exc'' \<and> is_crash rest then
        (case parse_crash_block u lines i of
           Some c \<Rightarrow> r\<lparr>crash := Some c, errors := errors r @ [mk_event i tag ''error'' line [(''crash'', DBool True)]]\<rparr>
         | None \<Rightarrow> r)
      else if tag = ustr ''sc-trace'' then r\<lparr>syscall_trace := parse_syscall_trace u lines i\<rparr>
      else if tag = ustr ''nvme'' \<and> contains (ustr ''timeout'') (lower u rest) then
        r\<lparr>errors := errors r @ [mk_event i tag ''error'' line [(''nvme_timeout'', DBool True)]]\<rparr>
      else if tag = ustr ''tick'' then
        (case re_search (tick_rx u) rest of
           Some ([t, cpu, pid, elr], _) \<Rightarrow>
             r\<lparr>ticks := ticks r @ [\<lparr>tick_line = i + 1, tick_no = int_of u t, tick_cpu = int_of u cpu,
                tick_pid = int_of u pid, tick_elr = elr\<rparr>]\<rparr>
         | _ \<Rightarrow> r)
      else let cat = category_of tag in add_event cat (mk_event i tag cat line (event_details u tag rest)) r)"

definition analyze_line ::
  "unicode \<Rightarrow> utext list \<Rightarrow> nat \<times> utext \<Rightarrow> report \<times> (int \<times> write_stats) list \<Rightarrow>
   report \<times> (int \<times> write_stats) list" where
  "analyze_line u lines = (\<lambda>(i, line) (r, tracker).
     case parse_subsystem_tag u line of
       (None, _) \<Rightarrow> (untagged_line i line r, tracker)
     | (Some tag, rest) \<Rightarrow>
         let r = r\<lparr>subsystem_counts := AList.update tag (get_or (subsystem_counts r) tag 0 + 1) (subsystem_counts r)\<rparr>
         in if tag = ustr ''ext2-wr'' then (r, track_write u rest tracker)
            else (tagged_line u lines i line tag rest r, tracker))"

definition rstrip_newline :: "utext \<Rightarrow> utext" where
  "rstrip_newline l = rev (dropWhile (\<lambda>c. c = 10) (rev l))"

definition mk_record :: "int \<Rightarrow> write_stats \<Rightarrow> write_record" where
  "mk_record ino t = \<lparr>total_bytes = total_bytes t, write_count = write_count t, final_size = final_size t,
     disk_writes = disk_writes t, inode = ino\<rparr>"

definition analyze_log :: "unicode \<Rightarrow> utext \<Rightarrow> utext list \<Rightarrow> report" where
  "analyze_log u filepath raw_lines =
     (let lines = map (\<lambda>l. strip_ansi (rstrip_newline l)) raw_lines;
          (r, tracker) = fold (analyze_line u lines) (List.enumerate 0 lines) (empty_report filepath (length lines), [])
      in r\<lparr>write_summary := map (\<lambda>(ino, t). (ino, mk_record ino t)) (sort_key (\<lambda>(ino, t). - total_bytes t) tracker)\<rparr>)"

end
