(* ===== verification/Log_Match.thy ===== *)
theory Log_Match
  imports Log_Report
begin

text \<open>
  How the patterns of the log analyzer run on the lines the kernel prints: the first match of
  each construct, decimal and hexadecimal numbers, and the round trips of the line parsers.
\<close>

section \<open>First matches\<close>

definition stops :: "(nat \<Rightarrow> bool) \<Rightarrow> utext \<Rightarrow> bool" where
  "stops p r \<longleftrightarrow> (case r of [] \<Rightarrow> True | c # _ \<Rightarrow> \<not> p c)"

lemma stops_simps [simp]: "stops p []" "stops p (c # cs) \<longleftrightarrow> \<not> p c"
  by (simp_all add: stops_def)

lemma ustr_simps [simp]:
  "ustr [] = []" "ustr (c # s) = of_char c # ustr s" "ustr (s @ t) = ustr s @ ustr t" "length (ustr s) = length s"
  by (simp_all add: ustr_def)

lemma lit_simps: "lit [] = Eps" "lit (c # s) = Seq (Chr (\<lambda>x. x = of_char c)) (lit s)"
  by (simp_all add: lit_def)

lemma matches_lit: "matches (lit w) s = (if prefix (ustr w) s then [([], drop (length w) s)] else [])"
proof (induction w arbitrary: s)
  case (Cons c w)
  then show ?case by (cases s) (auto simp: lit_simps)
qed (simp add: lit_simps)

lemma greedy_first: "list_all p xs \<Longrightarrow> stops p r \<Longrightarrow> \<exists>ts. greedy_rests p (xs @ r) = r # ts"
proof (induction xs)
  case Nil
  then show ?case by (cases r) auto
next
  case (Cons x xs)
  then obtain ts where "greedy_rests p (xs @ r) = r # ts" by auto
  with Cons.prems show ?case by auto
qed

lemma re_match_lit [simp]: "re_match (lit w) (ustr w @ r) = Some ([], r)"
  by (simp add: re_match_def matches_lit)

lemma re_match_lit_None: "\<not> prefix (ustr w) s \<Longrightarrow> re_match (lit w) s = None"
  by (simp add: re_match_def matches_lit)

lemma re_match_Eps [simp]: "re_match Eps s = Some ([], s)"
  by (simp add: re_match_def)

lemma re_match_Many:
  assumes "list_all p xs" "stops p r"
  shows "re_match (Many p) (xs @ r) = Some ([], r)"
  using greedy_first[OF assms] by (auto simp: re_match_def)

lemma re_match_Seq:
  assumes "re_match a s = Some (g, r)" and "re_match b r = Some (h, t)"
  shows "re_match (Seq a b) s = Some (g @ h, t)"
  using assms by (auto simp: re_match_def split: list.splits)

lemma re_match_Seq_None: "re_match a s = None \<Longrightarrow> re_match (Seq a b) s = None"
  by (auto simp: re_match_def split: list.splits)

lemma re_match_Plus:
  assumes "list_all p xs" "xs \<noteq> []" "stops p r"
  shows "re_match (Plus p) (xs @ r) = Some ([], r)"
proof -
  obtain x ys where x: "xs = x # ys" using assms(2) by (cases xs) auto
  have "re_match (Chr p) (x # ys @ r) = Some ([], ys @ r)" using assms(1) by (simp add: re_match_def x)
  from re_match_Seq[OF this re_match_Many[of p ys r]] assms show ?thesis by (simp add: Plus_def x)
qed

lemma re_match_Grp:
  assumes "re_match a (xs @ r) = Some (g, r)"
  shows "re_match (Grp a) (xs @ r) = Some (xs # g, r)"
  using assms by (auto simp: re_match_def split: list.splits)

lemma re_match_Alt:
  "re_match a s = Some m \<Longrightarrow> re_match (Alt a b) s = Some m"
  "re_match a s = None \<Longrightarrow> re_match (Alt a b) s = re_match b s"
  by (auto simp: re_match_def split: list.splits)

lemma seqs_simps: "seqs [] = Eps" "seqs (r # rs) = Seq r (seqs rs)"
  by (simp_all add: seqs_def)

lemma seqs_match:
  "re_match (seqs []) s = Some ([], s)"
  "re_match r s = Some (g, t) \<Longrightarrow> re_match (seqs rs) t = Some (h, v) \<Longrightarrow> re_match (seqs (r # rs)) s = Some (g @ h, v)"
  by (simp_all add: seqs_simps re_match_Seq)

text \<open>A pattern that starts with a word is not found before the word occurs.\<close>

lemma search_skip:
  assumes "\<And>k. k < length pre \<Longrightarrow> re_match r (drop k (pre @ s)) = None"
  shows "re_search r (pre @ s) = re_search r s"
  using assms
proof (induction pre)
  case (Cons c pre)
  have "re_match r (c # pre @ s) = None" using Cons.prems[of 0] by simp
  moreover have "re_search r (pre @ s) = re_search r s"
    using Cons.prems[of "Suc k" for k] by (intro Cons.IH) auto
  ultimately show ?case by (simp add: re_search.simps)
qed simp

lemma search_here: "re_match r s = Some m \<Longrightarrow> re_search r s = Some m"
  by (cases s) (auto simp: re_search.simps)

section \<open>Numbers\<close>

fun dec :: "nat \<Rightarrow> utext" where
  "dec n = (if n < 10 then [48 + n] else dec (n div 10) @ [48 + n mod 10])"

definition hex_char :: "nat \<Rightarrow> nat" where
  "hex_char d = (if d < 10 then 48 + d else 87 + d)"

fun hex :: "nat \<Rightarrow> utext" where
  "hex n = (if n < 16 then [hex_char n] else hex (n div 16) @ [hex_char (n mod 16)])"

declare dec.simps [simp del] hex.simps [simp del]

lemma dec_digits: "list_all ascii_digit (dec n)"
proof (induction n rule: dec.induct)
  case (1 n)
  have "ascii_digit (48 + k)" if "k < 10" for k using that by (simp add: ascii_digit_def)
  with 1 show ?case by (subst dec.simps) auto
qed

lemma dec_nonempty [simp]: "dec n \<noteq> []"
  by (subst dec.simps) simp

lemma hex_char_digit: "d < 16 \<Longrightarrow> hex_digit (hex_char d)"
  by (auto simp: hex_char_def hex_digit_def ascii_digit_def)

lemma hex_digits: "list_all hex_digit (hex n)"
proof (induction n rule: hex.induct)
  case (1 n)
  then show ?case by (subst hex.simps) (auto simp: hex_char_digit)
qed

lemma hex_nonempty [simp]: "hex n \<noteq> []"
  by (subst hex.simps) simp

lemma ascii_digit_val: "ascii_digit c \<Longrightarrow> digit_val u c = c - 48" "ascii_digit c \<Longrightarrow> is_digit u c"
  by (simp_all add: ascii_digit_def digit_val_def is_digit_def)

lemma dec_value: "foldl (\<lambda>n d. 10 * n + digit_val u d) 0 (dec n) = n"
proof (induction n rule: dec.induct)
  case (1 n)
  have "digit_val u (48 + k) = k" if "k < 10" for k using that by (simp add: digit_val_def)
  with 1 show ?case by (subst dec.simps) auto
qed

lemma int_of_dec [simp]: "int_of u (dec n) = int n"
proof -
  obtain c cs where c: "dec n = c # cs" by (cases "dec n") simp_all
  then have "c \<noteq> 45" using dec_digits[of n] by (auto simp: ascii_digit_def)
  then show ?thesis using dec_value[of u n] by (simp add: int_of_def c)
qed

lemma dec_is_digits [simp]: "list_all (is_digit u) (dec n)"
  using dec_digits[of n] by (auto simp: list_all_iff ascii_digit_val)

lemma int_of_minus_dec: "int_of u (45 # dec n) = - int n"
  using dec_value[of u n] by (simp add: int_of_def)

lemma match_dec: "stops (is_digit u) r \<Longrightarrow> re_match (Grp (Plus (is_digit u))) (dec n @ r) = Some ([dec n], r)"
  using re_match_Plus[of "is_digit u" "dec n" r] by (intro re_match_Grp) simp

lemma match_hex:
  assumes "stops hex_digit r"
  shows "re_match hex_rx ((ustr ''0x'' @ hex n) @ r) = Some ([ustr ''0x'' @ hex n], r)"
  unfolding hex_rx_def
proof (rule re_match_Grp)
  have "re_match (Plus hex_digit) (hex n @ r) = Some ([], r)" using assms hex_digits by (intro re_match_Plus) simp_all
  from seqs_match(2)[OF this seqs_match(1)]
  have "re_match (seqs [Plus hex_digit]) (hex n @ r) = Some ([], r)" by simp
  from seqs_match(2)[OF re_match_lit this]
  show "re_match (seqs [lit ''0x'', Plus hex_digit]) ((ustr ''0x'' @ hex n) @ r) = Some ([], r)" by (simp del: ustr_simps)
qed


section \<open>Deterministic runs\<close>

text \<open>
  When what follows a run cannot start with a character of the run, giving characters back
  never helps: the pattern goes on after the longest run only.
\<close>

definition avoids :: "rx \<Rightarrow> utext \<Rightarrow> bool" where
  "avoids b xs \<longleftrightarrow> (\<forall>c \<in> set xs. \<forall>cs. matches b (c # cs) = [])"

lemma greedy_run:
  assumes "list_all p xs" "stops p r" "avoids b xs" and "\<And>t. f t [] = []"
  shows "concat (map (\<lambda>t. f t (matches b t)) (greedy_rests p (xs @ r))) = f r (matches b r)"
  using assms(1,3)
proof (induction xs)
  case Nil
  then show ?case using assms(2) by (cases r) simp_all
next
  case (Cons x xs)
  then have "matches b (x # xs @ r) = []" by (simp add: avoids_def)
  with Cons show ?case by (simp add: assms(4) avoids_def)
qed

lemma matches_Many_run:
  assumes "list_all p xs" "stops p r" "avoids b xs"
  shows "matches (Seq (Many p) b) (xs @ r) = matches b r"
  using greedy_run[OF assms, of "\<lambda>_ ms. ms"] by (simp add: comp_def)

lemma matches_Plus_run:
  assumes "list_all p xs" "xs \<noteq> []" "stops p r" "avoids b xs"
  shows "matches (Seq (Plus p) b) (xs @ r) = matches b r"
    and "matches (Seq (Grp (Plus p)) b) (xs @ r) = map (\<lambda>(h, t). (xs # h, t)) (matches b r)"
proof -
  obtain x ys where x: "xs = x # ys" "p x" "list_all p ys" using assms(1,2) by (cases xs) auto
  have av: "avoids b ys" using assms(4) by (simp add: avoids_def x(1))
  show "matches (Seq (Plus p) b) (xs @ r) = matches b r"
    using greedy_run[OF x(3) assms(3) av, of "\<lambda>_ ms. ms"] x(2) by (simp add: x(1) Plus_def comp_def)
  have "matches (Seq (Grp (Plus p)) b) (xs @ r) = concat (map (\<lambda>t. map (\<lambda>(h, v).
      (take (length (xs @ r) - length t) (xs @ r) # h, v)) (matches b t)) (greedy_rests p (ys @ r)))"
    using x(2) by (simp add: x(1) Plus_def comp_def)
  also have "\<dots> = map (\<lambda>(h, v). (take (length (xs @ r) - length r) (xs @ r) # h, v)) (matches b r)"
    by (rule greedy_run[OF x(3) assms(3) av]) simp
  finally show "matches (Seq (Grp (Plus p)) b) (xs @ r) = map (\<lambda>(h, t). (xs # h, t)) (matches b r)" by simp
qed

lemma matches_lit_run [simp]: "matches (Seq (lit w) b) (ustr w @ r) = matches b r"
  by (simp add: matches_lit)

lemma avoids_lit: "of_char c \<notin> set xs \<Longrightarrow> avoids (Seq (lit (c # w)) b) xs"
  by (auto simp: avoids_def matches_lit)

lemma avoids_Plus: "list_all (\<lambda>c. \<not> q c) xs \<Longrightarrow> avoids (Seq (Plus q) b) xs"
  by (auto simp: avoids_def Plus_def list_all_iff)

section \<open>Line formats of the kernel\<close>

text \<open>The blanks and digits of ASCII, whatever the Unicode database says of the rest.\<close>

lemma class_simps [simp]:
  "is_space u 32" "\<not> is_digit u 32" "\<not> is_word u 32" "\<not> is_word u 61" "\<not> is_digit u 61" "\<not> hex_digit 32"
  by (simp_all add: is_space_def is_digit_def is_word_def ascii_digit_def ascii_letter_def ascii_upper_def hex_digit_def)

lemma digit_not_space: "is_digit u c \<Longrightarrow> c < 128 \<Longrightarrow> \<not> is_space u c"
  by (auto simp: is_digit_def is_space_def ascii_digit_def)

lemma parse_tag:
  assumes "list_all tag_char tag" "tag \<noteq> []" "list_all (is_space u) sp" "stops (is_space u) rest" "list_all any_char rest"
  shows "parse_subsystem_tag u (ustr ''['' @ tag @ ustr '']'' @ sp @ rest) = (Some tag, rest)"
proof -
  have 1: "re_match (Grp (Many any_char)) (rest @ []) = Some ([rest], [])"
    using re_match_Many[OF assms(5), of "[]"] by (intro re_match_Grp) simp
  have 2: "re_match (Many (is_space u)) (sp @ rest @ []) = Some ([], rest @ [])" using assms by (intro re_match_Many) auto
  have "re_match (Plus tag_char) (tag @ ustr '']'' @ sp @ rest @ []) = Some ([], ustr '']'' @ sp @ rest @ [])"
    using assms(1,2) by (intro re_match_Plus) (simp_all add: tag_char_def ascii_letter_def ascii_upper_def ascii_digit_def)
  then have 3: "re_match (Grp (Plus tag_char)) (tag @ ustr '']'' @ sp @ rest @ []) = Some ([tag], ustr '']'' @ sp @ rest @ [])"
    by (rule re_match_Grp)
  note seqs_match(2)[OF re_match_lit[of "''[''"] seqs_match(2)[OF 3 seqs_match(2)[OF re_match_lit seqs_match(2)[OF 2 seqs_match(2)[OF 1 seqs_match(1)]]]]]
  then show ?thesis by (simp add: parse_subsystem_tag_def tag_rx_def)
qed


text \<open>Key-value pairs separated by blanks.\<close>

lemma finditer_pair:
  assumes "list_all (is_word u) key" "key \<noteq> []" "stops (is_digit u) r"
  shows "re_finditer (pair_rx u) (key @ ustr ''='' @ dec n @ r) = [key, dec n] # re_finditer (pair_rx u) r"
proof -
  have "re_match (Plus (is_word u)) (key @ ustr ''='' @ dec n @ r) = Some ([], ustr ''='' @ dec n @ r)"
    using assms by (intro re_match_Plus) simp_all
  then have k: "re_match (Grp (Plus (is_word u))) (key @ ustr ''='' @ dec n @ r) = Some ([key], ustr ''='' @ dec n @ r)"
    by (rule re_match_Grp)
  note seqs_match(2)[OF k seqs_match(2)[OF re_match_lit seqs_match(2)[OF match_dec[OF assms(3)] seqs_match(1)]]]
  then have m: "re_match (pair_rx u) (key @ ustr ''='' @ dec n @ r) = Some ([key, dec n], r)"
    by (simp add: pair_rx_def)
  obtain c cs where c: "key @ ustr ''='' @ dec n @ r = c # cs" using assms(2) by (cases key) auto
  have "length r \<le> length cs" using arg_cong[OF c, of length] by simp
  then show ?thesis using m unfolding c by (simp add: re_finditer.simps)
qed

lemma finditer_blank: "re_finditer (pair_rx u) (32 # s) = re_finditer (pair_rx u) s"
proof -
  have "re_match (pair_rx u) (32 # s) = None"
    by (simp add: pair_rx_def seqs_simps re_match_Seq_None re_match_def Plus_def)
  then show ?thesis by (simp add: re_finditer.simps)
qed

definition write_text :: "nat \<Rightarrow> nat \<Rightarrow> nat \<Rightarrow> nat \<Rightarrow> utext" where
  "write_text ino wrote new_sz wdisk =
     ustr ''ino='' @ dec ino @ ustr '' wrote='' @ dec wrote @ ustr '' new_sz='' @ dec new_sz @ ustr '' wdisk='' @ dec wdisk"

lemma key_words:
  "list_all (is_word u) (ustr ''ino'')" "list_all (is_word u) (ustr ''wrote'')"
  "list_all (is_word u) (ustr ''new_sz'')" "list_all (is_word u) (ustr ''wdisk'')"
  by (simp_all add: is_word_def ascii_letter_def ascii_upper_def ascii_digit_def)

lemma write_text_pairs:
  "parse_ext2_write u (write_text ino wrote new_sz wdisk) =
     [(ustr ''ino'', int ino), (ustr ''wrote'', int wrote), (ustr ''new_sz'', int new_sz), (ustr ''wdisk'', int wdisk)]"
proof -
  note f = key_words[THEN finditer_pair, where u = u]
  have "re_finditer (pair_rx u) (write_text ino wrote new_sz wdisk) =
      [[ustr ''ino'', dec ino], [ustr ''wrote'', dec wrote], [ustr ''new_sz'', dec new_sz], [ustr ''wdisk'', dec wdisk]]"
    using f(1)[of "ustr '' wrote='' @ dec wrote @ ustr '' new_sz='' @ dec new_sz @ ustr '' wdisk='' @ dec wdisk" ino]
      f(2)[of "ustr '' new_sz='' @ dec new_sz @ ustr '' wdisk='' @ dec wdisk" wrote]
      f(3)[of "ustr '' wdisk='' @ dec wdisk" new_sz] f(4)[of "[]" wdisk]
    by (simp add: write_text_def finditer_blank re_finditer.simps(1))
  then show ?thesis by (simp add: parse_ext2_write_def)
qed

end
