(* ===== verification/Py_Format.thy ===== *)
theory Py_Format
  imports Log_Match
begin

text \<open>
  What the log analyzer uses of Python's output: \<^verbatim>\<open>print\<close>, the format specifications of its
  f-strings, true division with its rounding to a double, \<^verbatim>\<open>repr\<close> of a double and \<^verbatim>\<open>json.dumps\<close>.
\<close>

section \<open>Output\<close>

datatype print_error = OverflowError | ValueError | TypeError | ZeroDivisionError | ArgumentError

text \<open>The text printed so far, and the exception that ended the printing, if any.\<close>

type_synonym out = "utext \<times> print_error option"

definition say :: "utext \<Rightarrow> out" where
  "say t = (t @ [10], None)"

definition then_out :: "out \<Rightarrow> out \<Rightarrow> out" where
  "then_out p q = (case snd p of None \<Rightarrow> (fst p @ fst q, snd q) | Some _ \<Rightarrow> p)"

definition outs :: "out list \<Rightarrow> out" where
  "outs ps = foldr then_out ps ([], None)"

text \<open>An expression that may raise, before what uses its value.\<close>

definition with_val :: "print_error + 'a \<Rightarrow> ('a \<Rightarrow> out) \<Rightarrow> out" where
  "with_val v f = (case v of Inl e \<Rightarrow> ([], Some e) | Inr x \<Rightarrow> f x)"

definition when_out :: "bool \<Rightarrow> out list \<Rightarrow> out" where
  "when_out b ps = (if b then outs ps else ([], None))"

lemma outs_ok: "snd (outs ps) = None \<longleftrightarrow> (\<forall>p \<in> set ps. snd p = None)"
proof (induction ps)
  case (Cons p ps)
  then show ?case by (cases "snd p") (auto simp: outs_def then_out_def)
qed (simp add: outs_def)

lemma outs_text: "\<forall>p \<in> set ps. snd p = None \<Longrightarrow> outs ps = (concat (map fst ps), None)"
  by (induction ps) (auto simp: outs_def then_out_def)

lemma say_ok [simp]: "snd (say t) = None" "fst (say t) = t @ [10]"
  by (simp_all add: say_def)

lemma with_val_ok [simp]: "snd (with_val (Inr x) f) = snd (f x)"
  by (simp add: with_val_def)

lemma when_out_ok [simp]: "snd (when_out b ps) = None \<longleftrightarrow> (b \<longrightarrow> (\<forall>p \<in> set ps. snd p = None))"
  by (simp add: when_out_def outs_ok)

section \<open>Numbers and padding\<close>

definition dec_int :: "int \<Rightarrow> utext" where
  "dec_int n = (if n < 0 then 45 # dec (nat (- n)) else dec (nat n))"

text \<open>\<^verbatim>\<open>:+d\<close>, \<^verbatim>\<open>:15s\<close>, \<^verbatim>\<open>:>10s\<close> or \<^verbatim>\<open>:6d\<close>, and \<^verbatim>\<open>:02x\<close>.\<close>

definition signed :: "int \<Rightarrow> utext" where
  "signed n = (if n < 0 then dec_int n else 43 # dec_int n)"

definition ljust :: "nat \<Rightarrow> utext \<Rightarrow> utext" where
  "ljust w t = t @ replicate (w - length t) 32"

definition rjust :: "nat \<Rightarrow> utext \<Rightarrow> utext" where
  "rjust w t = replicate (w - length t) 32 @ t"

definition zeros_left :: "nat \<Rightarrow> utext \<Rightarrow> utext" where
  "zeros_left w t = replicate (w - length t) 48 @ t"

text \<open>\<^verbatim>\<open>int(s, 16)\<close> for a text that starts with \<^verbatim>\<open>0x\<close>.\<close>

definition hex_val :: "nat \<Rightarrow> nat" where
  "hex_val c = (if c \<le> 57 then c - 48 else if c \<le> 70 then c - 55 else c - 87)"

definition int_16 :: "utext \<Rightarrow> print_error + nat" where
  "int_16 s =
     (case s of
        z # x # ds \<Rightarrow>
          if z = 48 \<and> x = 120 \<and> ds \<noteq> [] \<and> list_all hex_digit ds
          then Inr (foldl (\<lambda>n d. 16 * n + hex_val d) 0 ds) else Inl ValueError
      | _ \<Rightarrow> Inl ValueError)"

section \<open>Doubles\<close>

text \<open>A double that is not negative, as a fraction \<open>m / 2 ^ s\<close>.\<close>

type_synonym double = "nat \<times> nat"

fun bit_length :: "nat \<Rightarrow> nat" where
  "bit_length n = (if n = 0 then 0 else Suc (bit_length (n div 2)))"

declare bit_length.simps [simp del]

text \<open>The quotient rounded to the nearest integer, ties to the even one.\<close>

definition half_even :: "nat \<Rightarrow> nat \<Rightarrow> nat" where
  "half_even a b = (let q = a div b; r = a mod b in
     if 2 * r < b then q else if b < 2 * r then q + 1 else if even q then q else q + 1)"

text \<open>The exponent \<open>x\<close> with \<open>2 ^ x \<le> a / b < 2 ^ (x + 1)\<close>.\<close>

definition quot_exp :: "nat \<Rightarrow> nat \<Rightarrow> int" where
  "quot_exp a b = (let d = int (bit_length a) - int (bit_length b) in
     if b * 2 ^ nat d \<le> a * 2 ^ nat (- d) then d else d - 1)"

text \<open>
  \<^verbatim>\<open>a / b\<close>: the quotient rounded to 53 significant bits, fewer below the smallest normal double.
\<close>

definition true_div :: "nat \<Rightarrow> nat \<Rightarrow> print_error + double" where
  "true_div a b =
     (if b = 0 then Inl ZeroDivisionError
      else if a = 0 then Inr (0, 0)
      else let e = min 1074 (52 - quot_exp a b);
               (m, s) = (if 0 \<le> e then (half_even (a * 2 ^ nat e) b, nat e)
                         else (half_even a (b * 2 ^ nat (- e)) * 2 ^ nat (- e), 0))
           in if m < 2 ^ 1024 * 2 ^ s then Inr (m, s) else Inl OverflowError)"

text \<open>\<^verbatim>\<open>:.1f\<close> in general: \<open>k\<close> decimals, exactly rounded.\<close>

definition fixed_point :: "nat \<Rightarrow> double \<Rightarrow> utext" where
  "fixed_point k = (\<lambda>(m, s).
     let t = half_even (m * 10 ^ k) (2 ^ s) in
     if k = 0 then dec t else dec (t div 10 ^ k) @ [46] @ zeros_left k (dec (t mod 10 ^ k)))"

text \<open>\<^verbatim>\<open>int(x / 2)\<close>.\<close>

definition half_floor :: "double \<Rightarrow> nat" where
  "half_floor = (\<lambda>(m, s). m div 2 ^ Suc s)"

subsection \<open>Shortest representation\<close>

definition same_double :: "double \<Rightarrow> double \<Rightarrow> bool" where
  "same_double x y \<longleftrightarrow> fst x * 2 ^ snd y = fst y * 2 ^ snd x"

text \<open>The position \<open>p\<close> of the decimal point: \<open>10 ^ (p - 1) \<le> m / 2 ^ s < 10 ^ p\<close>.\<close>

function dec_point :: "nat \<Rightarrow> nat \<Rightarrow> int" where
  "dec_point m s = (if m = 0 \<or> 2 ^ s \<le> m then int (length (dec (m div 2 ^ s))) else dec_point (10 * m) s - 1)"
  by pat_completeness auto
termination
  by (relation "measure (\<lambda>(m, s). 2 ^ s - m)") auto

declare dec_point.simps [simp del]

text \<open>The nearest decimal with \<open>n\<close> digits, and the double it is read as.\<close>

definition nearest_dec :: "nat \<Rightarrow> double \<Rightarrow> nat" where
  "nearest_dec n = (\<lambda>(m, s). let k = int n - dec_point m s in
     half_even (m * 10 ^ nat k) (2 ^ s * 10 ^ nat (- k)))"

definition read_dec :: "nat \<Rightarrow> int \<Rightarrow> print_error + double" where
  "read_dec d k = true_div (d * 10 ^ nat (- k)) (10 ^ nat k)"

definition reads_back :: "nat \<Rightarrow> double \<Rightarrow> bool" where
  "reads_back n x = (case read_dec (nearest_dec n x) (int n - dec_point (fst x) (snd x)) of
     Inr y \<Rightarrow> same_double x y | Inl _ \<Rightarrow> False)"

definition shortest :: "double \<Rightarrow> nat" where
  "shortest x = (case filter (\<lambda>n. reads_back n x) [1..<17] of n # _ \<Rightarrow> n | [] \<Rightarrow> 17)"

definition float_repr :: "double \<Rightarrow> utext" where
  "float_repr x =
     (if fst x = 0 then ustr ''0.0''
      else let q = shortest x; ds = dec (nearest_dec q x);
               p = dec_point (fst x) (snd x) + int (length ds - q); ds = take q ds in
        if - 4 < p \<and> p \<le> 16 then
          (if p \<le> 0 then ustr ''0.'' @ replicate (nat (- p)) 48 @ ds
           else if int q \<le> p then ds @ replicate (nat p - q) 48 @ ustr ''.0''
           else take (nat p) ds @ [46] @ drop (nat p) ds)
        else take 1 ds @ (if q = 1 then [] else 46 # drop 1 ds) @ [101] @
          (if p - 1 < 0 then [45] else [43]) @ zeros_left 2 (dec (nat \<bar>p - 1\<bar>)))"

section \<open>JSON\<close>

datatype json =
    JNull
  | JBool bool
  | JInt int
  | JFloat double
  | JStr utext
  | JList "json list"
  | JObj "(utext \<times> json) list"

definition hex4 :: "nat \<Rightarrow> utext" where
  "hex4 n = [92, 117] @ zeros_left 4 (hex n)"

text \<open>One character of a string; beyond 16 bits as a surrogate pair.\<close>

definition json_char :: "nat \<Rightarrow> utext" where
  "json_char c =
     (if c = 34 \<or> c = 92 then [92, c]
      else if c = 10 then [92, 110] else if c = 13 then [92, 114] else if c = 9 then [92, 116]
      else if c = 8 then [92, 98] else if c = 12 then [92, 102]
      else if 32 \<le> c \<and> c \<le> 126 then [c]
      else if c < 0x10000 then hex4 c
      else hex4 (0xD800 + (c - 0x10000) div 0x400) @ hex4 (0xDC00 + (c - 0x10000) mod 0x400))"

definition json_string :: "utext \<Rightarrow> utext" where
  "json_string s = [34] @ concat (map json_char s) @ [34]"

definition new_line :: "nat \<Rightarrow> utext" where
  "new_line level = 10 # replicate (2 * level) 32"

definition comma_lines :: "nat \<Rightarrow> utext list \<Rightarrow> utext" where
  "comma_lines level ts = concat (map (\<lambda>(i, t). (if i = 0 then [] else [44]) @ new_line level @ t) (List.enumerate 0 ts))"

text \<open>\<^verbatim>\<open>json.dumps(v, indent=2)\<close> inside \<open>level\<close> containers.\<close>

function json_dumps :: "nat \<Rightarrow> json \<Rightarrow> utext" where
  "json_dumps level v =
     (case v of
        JNull \<Rightarrow> ustr ''null''
      | JBool b \<Rightarrow> if b then ustr ''true'' else ustr ''false''
      | JInt n \<Rightarrow> dec_int n
      | JFloat x \<Rightarrow> float_repr x
      | JStr s \<Rightarrow> json_string s
      | JList vs \<Rightarrow>
          if vs = [] then ustr ''[]''
          else [91] @ comma_lines (Suc level) (map (\<lambda>v. json_dumps (Suc level) v) vs) @ new_line level @ [93]
      | JObj kvs \<Rightarrow>
          if kvs = [] then ustr ''{}''
          else [123] @ comma_lines (Suc level) (map (\<lambda>(k, v). json_string k @ ustr '': '' @ json_dumps (Suc level) v) kvs) @
            new_line level @ [125])"
  by pat_completeness auto
termination
proof (relation "measure (\<lambda>(l, v). size v)", goal_cases)
  case (2 level v vs w)
  then show ?case using size_list_estimation'[of w vs "size w" size] by (simp add: less_Suc_eq_le)
next
  case (3 level v kvs w k x)
  have "snd w \<in> snd ` set kvs" using 3 by auto
  with 3 show ?case using size_list_estimation'[of w kvs "size x" "size_prod (\<lambda>_. 0) size"] by auto
qed simp

declare json_dumps.simps [simp del]

end
