(* ===== verification/Log_Print.thy ===== *)
theory Log_Print
  imports Py_Format
begin

text \<open>
  The output of \<^verbatim>\<open>tools/parse-serial-log.py\<close>: the sections of a report, the comparison of two
  reports, the report as JSON, and \<^verbatim>\<open>main\<close>.
\<close>

section \<open>Sizes and counts\<close>

definition fmt_size :: "int \<Rightarrow> print_error + utext" where
  "fmt_size n =
     (if n \<ge> 1048576 then map_sum id (\<lambda>x. fixed_point 1 x @ ustr '' MB'') (true_div (nat n) 1048576)
      else if n \<ge> 1024 then map_sum id (\<lambda>x. fixed_point 1 x @ ustr '' KB'') (true_div (nat n) 1024)
      else Inr (dec_int n @ ustr '' B''))"

text \<open>\<^verbatim>\<open>defaultdict(int)\<close> filled with the keys of a list, in order of first occurrence.\<close>

definition count_by :: "('a \<Rightarrow> 'k) \<Rightarrow> 'a list \<Rightarrow> ('k \<times> nat) list" where
  "count_by key xs = foldl (\<lambda>d x. AList.update (key x) (get_or d (key x) 0 + 1) d) [] xs"

text \<open>\<^verbatim>\<open>sorted(d.items(), key=lambda x: -x[1])\<close>.\<close>

definition by_count :: "('k \<times> nat) list \<Rightarrow> ('k \<times> nat) list" where
  "by_count d = sort_key (\<lambda>x. - int (snd x)) d"

definition write_values :: "report \<Rightarrow> write_record list" where
  "write_values r = map snd (write_summary r)"

definition sum_bytes :: "report \<Rightarrow> int" where
  "sum_bytes r = sum_list (map total_bytes (write_values r))"

definition sum_ops :: "report \<Rightarrow> nat" where
  "sum_ops r = sum_list (map write_count (write_values r))"

definition sum_disk :: "report \<Rightarrow> int" where
  "sum_disk r = sum_list (map disk_writes (write_values r))"

definition SYSCALL_NAMES :: "(int \<times> string) list" where
  "SYSCALL_NAMES =
     [(24, ''sched_yield''), (29, ''ioctl''), (35, ''nanosleep''),
      (56, ''openat''), (57, ''close''), (59, ''pipe2''), (61, ''getdents64''),
      (62, ''lseek''), (63, ''read''), (64, ''write''), (66, ''writev''),
      (78, ''readlinkat''), (79, ''fstatat''), (80, ''fstat''),
      (93, ''exit''), (94, ''exit_group''), (95, ''waitid''), (96, ''set_tid_address''),
      (98, ''futex''), (99, ''set_robust_list''), (100, ''nanosleep''),
      (129, ''kill''), (131, ''tgkill''), (135, ''sigaction''),
      (172, ''getpid''), (174, ''getuid''), (175, ''geteuid''),
      (176, ''getgid''), (177, ''getegid''), (178, ''gettid''),
      (215, ''munmap''), (220, ''clone''), (221, ''execve''),
      (222, ''mmap''), (226, ''mprotect''), (233, ''madvise''),
      (261, ''prlimit64''), (278, ''getrandom''), (281, ''execveat''),
      (291, ''statx''), (296, ''pwritev2'')]"

definition syscall_name :: "int \<Rightarrow> utext" where
  "syscall_name nr = (case map_of SYSCALL_NAMES nr of Some n \<Rightarrow> ustr n | None \<Rightarrow> ustr ''nr_'' @ dec_int nr)"

text \<open>\<^verbatim>\<open>e.details.get('nvme_timeout')\<close> as a condition.\<close>

definition detail_true :: "detail \<Rightarrow> bool" where
  "detail_true d = (case d of DBool b \<Rightarrow> b | DInt n \<Rightarrow> n \<noteq> 0 | DText t \<Rightarrow> t \<noteq> [])"

definition nvme_timeout :: "event \<Rightarrow> bool" where
  "nvme_timeout e = (case map_of (details e) ''nvme_timeout'' of Some d \<Rightarrow> detail_true d | None \<Rightarrow> False)"

definition detail_str :: "detail \<Rightarrow> utext" where
  "detail_str d = (case d of DBool b \<Rightarrow> if b then ustr ''True'' else ustr ''False'' | DInt n \<Rightarrow> dec_int n | DText t \<Rightarrow> t)"

definition detail_cut :: "nat \<Rightarrow> detail \<Rightarrow> print_error + utext" where
  "detail_cut n d = (case d of DText t \<Rightarrow> Inr (take n t) | _ \<Rightarrow> Inl TypeError)"

section \<open>Sections\<close>

definition rule_line :: utext where
  "rule_line = replicate 60 61"

abbreviation arrow :: utext where
  "arrow \<equiv> [32, 0x2192, 32]"

definition event_line :: "nat \<Rightarrow> event \<Rightarrow> utext" where
  "event_line n e = ustr ''  L'' @ rjust 5 (dec (line_num e)) @ ustr ''  '' @ take n (raw e)"

definition process_detail :: "event \<Rightarrow> print_error + utext" where
  "process_detail e =
     (case map_of (details e) ''binary'' of
        Some d \<Rightarrow> Inr (arrow @ detail_str d)
      | None \<Rightarrow> (case map_of (details e) ''message'' of
          Some d \<Rightarrow> map_sum id (\<lambda>t. [32, 0x2014, 32] @ t) (detail_cut 80 d)
        | None \<Rightarrow> Inr []))"

definition test_status :: "event \<Rightarrow> utext" where
  "test_status e = (if contains (ustr ''PASS'') (raw e) then [0x2713] else if contains (ustr ''FAIL'') (raw e) then [0x2717] else [32])"

definition heading :: "string \<Rightarrow> nat \<Rightarrow> utext" where
  "heading name n = ustr name @ ustr '' ('' @ dec n @ ustr '' events):''"

definition print_summary :: "report \<Rightarrow> out" where
  "print_summary r = outs
    [say rule_line,
     say (ustr ''  Zigix Serial Log Analysis''),
     say (ustr ''  '' @ filename r),
     say (ustr ''  '' @ dec (total_lines r) @ ustr '' lines''),
     say (rule_line @ [10]),
     say (ustr ''SUBSYSTEM COUNTS:''),
     outs (map (\<lambda>(sub, count). say (ustr ''  '' @ ljust 15 sub @ [32] @ rjust 6 (dec count) @ ustr ''  '' @
       (if count > 0 then replicate (min (count div 50 + 1) 40) 0x2588 else []))) (by_count (subsystem_counts r))),
     say [],
     say (heading ''BOOT SEQUENCE'' (length (boot_events r))),
     outs (map (\<lambda>e. say (event_line 100 e)) (boot_events r)),
     say [],
     say (heading ''HARDWARE'' (length (hw_events r))),
     outs (map (\<lambda>e. say (event_line 100 e)) (hw_events r)),
     say [],
     say (heading ''PROCESS LIFECYCLE'' (length (process_events r))),
     outs (map (\<lambda>e. with_val (process_detail e) (\<lambda>detail.
       say (ustr ''  L'' @ rjust 5 (dec (line_num e)) @ ustr ''  ['' @ subsystem e @ ustr '']'' @ detail))) (process_events r)),
     say [],
     when_out (test_events r \<noteq> [])
       [say (heading ''TESTS'' (length (test_events r))),
        outs (map (\<lambda>e. say (ustr ''  '' @ test_status e @ ustr '' L'' @ rjust 5 (dec (line_num e)) @ ustr ''  '' @ take 100 (raw e)))
          (test_events r)),
        say []],
     when_out (net_events r \<noteq> [])
       [say (heading ''NETWORK'' (length (net_events r))),
        outs (map (\<lambda>e. say (event_line 100 e)) (take 20 (net_events r))),
        when_out (length (net_events r) > 20) [say (ustr ''  ... +'' @ dec (length (net_events r) - 20) @ ustr '' more'')],
        say []]]"

text \<open>The inodes with most bytes written.\<close>

definition top_writes :: "nat \<Rightarrow> report \<Rightarrow> write_record list" where
  "top_writes n r = take n (sort_key (\<lambda>w. - total_bytes w) (write_values r))"

definition write_line :: "write_record \<Rightarrow> out" where
  "write_line w =
     with_val (fmt_size (total_bytes w)) (\<lambda>total.
     with_val (fmt_size (final_size w)) (\<lambda>final.
     say (ustr ''  '' @ rjust 7 (dec_int (inode w)) @ ustr ''  '' @ rjust 7 (dec (write_count w)) @ ustr ''  '' @
       rjust 10 total @ ustr ''  '' @ rjust 10 final @ ustr ''  '' @ rjust 7 (dec_int (disk_writes w)))))"

definition print_writes :: "report \<Rightarrow> out" where
  "print_writes r = outs
    [say (ustr ''FILESYSTEM WRITES:''),
     with_val (fmt_size (sum_bytes r)) (\<lambda>total.
       say (ustr ''  Total: '' @ total @ ustr '' across '' @ dec (sum_ops r) @ ustr '' write ops to '' @
         dec (length (write_summary r)) @ ustr '' inodes'' @ [10])),
     say (ustr ''  '' @ rjust 7 (ustr ''inode'') @ ustr ''  '' @ rjust 7 (ustr ''writes'') @ ustr ''  '' @ rjust 10 (ustr ''total'') @
       ustr ''  '' @ rjust 10 (ustr ''final_sz'') @ ustr ''  '' @ rjust 7 (ustr ''disk_wr'')),
     say (ustr ''  '' @ replicate 7 0x2500 @ ustr ''  '' @ replicate 7 0x2500 @ ustr ''  '' @ replicate 10 0x2500 @
       ustr ''  '' @ replicate 10 0x2500 @ ustr ''  '' @ replicate 7 0x2500),
     outs (map write_line (top_writes 20 r)),
     when_out (length (write_summary r) > 20)
       [say (ustr ''  ... +'' @ dec (length (write_summary r) - 20) @ ustr '' more inodes'')],
     say []]"

section \<open>Crashes\<close>

definition ec_names :: "(nat \<times> string) list" where
  "ec_names = [(0x20, ''Inst Abort (lower EL)''), (0x21, ''Inst Abort (same EL)''),
     (0x24, ''Data Abort (lower EL)''), (0x25, ''Data Abort (same EL)'')]"

definition dfsc_names :: "(nat \<times> string) list" where
  "dfsc_names = [(0x04, ''Translation fault L0''), (0x05, ''Translation fault L1''),
     (0x06, ''Translation fault L2''), (0x07, ''Translation fault L3''),
     (0x09, ''Access flag fault L1''), (0x0A, ''Access flag fault L2''),
     (0x0B, ''Access flag fault L3''), (0x0D, ''Permission fault L1''),
     (0x0E, ''Permission fault L2''), (0x0F, ''Permission fault L3'')]"

definition esr_ec :: "nat \<Rightarrow> nat" where
  "esr_ec esr_val = (esr_val div 2 ^ 26) mod 64"

definition esr_dfsc :: "nat \<Rightarrow> nat" where
  "esr_dfsc esr_val = esr_val mod 64"

text \<open>
  \<^verbatim>\<open>'FFFFFFFF' in c.far.upper()\<close>: a character whose upper case is \<^verbatim>\<open>F\<close> is \<^verbatim>\<open>f\<close> or \<^verbatim>\<open>F\<close>, or a ligature
  of them beyond ASCII; the address is made of hexadecimal digits.
\<close>

definition upper_char :: "nat \<Rightarrow> nat" where
  "upper_char c = (if 97 \<le> c \<and> c \<le> 122 then c - 32 else c)"

definition diagnosis :: "crash_info \<Rightarrow> utext list" where
  "diagnosis c =
     (if crash_far c = ustr ''0x0'' \<and> crash_elr c = ustr ''0x0'' then
        [ustr ''    All-zero FAR/ELR: corrupted context '' @ [0x2014] @ ustr '' likely cascaded from NVMe timeout'',
         ustr ''    or use-after-free in process cleanup path (closeAllFds, releaseFileDescription)'']
      else if contains (ustr ''FFFFFFFF'') (map upper_char (crash_far c)) then
        [ustr ''    Sign-extended null: corrupted function pointer (ops.close or similar)'',
         ustr ''    Likely inode ops table corruption or cache eviction while FD still open'']
      else if prefix (ustr ''0x4'') (crash_far c) then
        [ustr ''    Kernel address fault: possible stack overflow or page table corruption'']
      else if prefix (ustr ''0x7'') (crash_far c) then
        [ustr ''    User address fault in kernel mode: demand paging or VMA issue'']
      else [])"

text \<open>\<^verbatim>\<open>sep.join(ts)\<close>.\<close>

fun join :: "utext \<Rightarrow> utext list \<Rightarrow> utext" where
  "join sep [] = []"
| "join sep [t] = t"
| "join sep (t # ts) = t @ sep @ join sep ts"

definition print_crash :: "crash_info \<Rightarrow> out" where
  "print_crash c = outs
    [say (ustr ''CRASH ANALYSIS:''),
     say (ustr ''  Type:   '' @ crash_type c),
     say (ustr ''  FAR:    '' @ crash_far c),
     say (ustr ''  ELR:    '' @ crash_elr c),
     say (ustr ''  ESR:    '' @ crash_esr c),
     say (ustr ''  PID:    '' @ dec_int (crash_pid c)),
     say (ustr ''  LR:     '' @ crash_lr c),
     say (ustr ''  SP:     '' @ crash_sp c),
     say (ustr ''  Line:   '' @ dec (crash_line_num c)),
     when_out (crash_registers c \<noteq> [])
       [say (10 # ustr ''  Registers:''),
        outs (map (\<lambda>(k, v). say (ustr ''    '' @ ljust 10 k @ ustr '' = '' @ v)) (crash_registers c))],
     when_out (crash_fp_chain c \<noteq> []) [say (10 # ustr ''  FP Chain: '' @ join arrow (crash_fp_chain c))],
     say (10 # ustr ''  DIAGNOSIS:''),
     outs (map say (diagnosis c)),
     with_val (int_16 (crash_esr c)) (\<lambda>esr_val.
       let ec = esr_ec esr_val; dfsc = esr_dfsc esr_val in
       say (ustr ''    ESR EC=0x'' @ zeros_left 2 (hex ec) @ ustr '' ('' @ ustr (get_or ec_names ec ''unknown'') @
         ustr '') DFSC=0x'' @ zeros_left 2 (hex dfsc) @ ustr '' ('' @ ustr (get_or dfsc_names dfsc ''unknown'') @ ustr '')'')),
     say []]"

definition print_errors :: "report \<Rightarrow> out" where
  "print_errors r = outs
    [say (heading ''ERRORS'' (length (errors r))),
     outs (map (\<lambda>e. say (event_line 120 e)) (errors r)),
     say [],
     (case crash r of Some c \<Rightarrow> print_crash c | None \<Rightarrow> ([], None))]"


section \<open>Syscalls, disk and ticks\<close>

definition ret_str :: "int \<Rightarrow> utext" where
  "ret_str ret = (if ret \<ge> 0 then dec_int ret else [45] @ dec_int \<bar>ret\<bar> @ ustr '' (E?)'')"

definition print_syscalls :: "report \<Rightarrow> out" where
  "print_syscalls r =
     (if syscall_trace r = [] then say (ustr ''SYSCALL TRACE: (none captured)'' @ [10])
      else outs
       [say (ustr ''SYSCALL TRACE (last '' @ dec (length (syscall_trace r)) @ ustr '' before crash):''),
        outs (map (\<lambda>s. say (ustr ''  P'' @ dec_int (sc_pid s) @ ustr ''  '' @ ljust 16 (syscall_name (sc_nr s)) @ ustr '' ('' @
          rjust 3 (dec_int (sc_nr s)) @ ustr '')  x0='' @ sc_x0 s @ ustr ''  x1='' @ sc_x1 s @ [32] @ arrow @ ret_str (sc_ret s)))
          (syscall_trace r)),
        say [],
        say (ustr ''  Syscall distribution:''),
        outs (map (\<lambda>(nr, count). say (ustr ''    '' @ ljust 16 (syscall_name nr) @ ustr '' ('' @ rjust 3 (dec_int nr) @
          ustr ''): '' @ dec count)) (by_count (count_by sc_nr (syscall_trace r)))),
        say []])"

definition idle_ticks :: "report \<Rightarrow> nat" where
  "idle_ticks r = length (filter (\<lambda>t. tick_pid t = 0) (ticks r))"

definition timeouts :: "report \<Rightarrow> event list" where
  "timeouts r = filter nvme_timeout (errors r)"

definition print_nvme :: "report \<Rightarrow> out" where
  "print_nvme r = outs
    [say (ustr ''NVMe ANALYSIS:''),
     say (ustr ''  Disk writes:     '' @ dec_int (sum_disk r)),
     with_val (fmt_size (sum_bytes r)) (\<lambda>total. say (ustr ''  Data written:    '' @ total)),
     say (ustr ''  Poll timeouts:   '' @ dec (length (timeouts r))),
     outs (map (\<lambda>t. say (ustr ''    L'' @ dec (line_num t) @ ustr '': '' @ take 100 (raw t))) (timeouts r)),
     when_out (ticks r \<noteq> [])
       [let first_tick = tick_no (hd (ticks r)); last_tick = tick_no (last (ticks r)) in
        say (10 # ustr ''  Tick range:      '' @ dec_int first_tick @ arrow @ dec_int last_tick @ ustr '' ('' @
          dec_int (last_tick - first_tick) @ ustr '' ticks)''),
        say (ustr ''  Idle ticks:      '' @ dec (idle_ticks r) @ [47] @ dec (length (ticks r)) @ ustr '' ('' @
          dec (100 * idle_ticks r div max (length (ticks r)) 1) @ ustr ''%)''),
        when_out (length (ticks r) > 5)
          [when_out (list_all (\<lambda>t. tick_pid t = 0) (drop (length (ticks r) - 5) (ticks r)))
            [say (ustr ''  WARNING: System stuck in idle (PID 0) '' @ [0x2014] @ ustr '' likely crashed or all processes dead'')]]],
     say []]"

definition pid_line :: "nat \<Rightarrow> int \<times> nat \<Rightarrow> out" where
  "pid_line n = (\<lambda>(pid, count).
     with_val (true_div (100 * count) n) (\<lambda>pct.
     let bar = replicate (half_floor pct) 0x2588;
         label = (if pid = 0 then ustr ''idle'' else ustr ''PID '' @ dec_int pid)
     in say (ustr ''    '' @ ljust 10 label @ ustr ''  '' @ rjust 4 (dec count) @ ustr '' ('' @ rjust 5 (fixed_point 1 pct) @
          ustr ''%)  '' @ bar)))"

definition print_ticks :: "report \<Rightarrow> out" where
  "print_ticks r =
     (if ticks r = [] then say (ustr ''TICK TIMELINE: (none captured)'' @ [10])
      else outs
       [say (ustr ''TICK TIMELINE ('' @ dec (length (ticks r)) @ ustr '' ticks):''),
        say (ustr ''  PID distribution:''),
        outs (map (pid_line (length (ticks r))) (by_count (count_by tick_pid (ticks r)))),
        say []])"

section \<open>JSON\<close>

definition detail_json :: "detail \<Rightarrow> json" where
  "detail_json d = (case d of DBool b \<Rightarrow> JBool b | DInt n \<Rightarrow> JInt n | DText t \<Rightarrow> JStr t)"

definition details_json :: "event \<Rightarrow> json" where
  "details_json e = JObj (map (\<lambda>(k, d). (ustr k, detail_json d)) (details e))"

abbreviation jnat :: "nat \<Rightarrow> json" where
  "jnat n \<equiv> JInt (int n)"

definition write_json :: "write_record \<Rightarrow> json" where
  "write_json w = JObj [(ustr ''inode'', JInt (inode w)), (ustr ''total_bytes'', JInt (total_bytes w)),
     (ustr ''write_count'', jnat (write_count w)), (ustr ''final_size'', JInt (final_size w)), (ustr ''disk_writes'', JInt (disk_writes w))]"

definition crash_json :: "crash_info \<Rightarrow> json" where
  "crash_json c = JObj [(ustr ''type'', JStr (crash_type c)), (ustr ''far'', JStr (crash_far c)), (ustr ''elr'', JStr (crash_elr c)),
     (ustr ''esr'', JStr (crash_esr c)), (ustr ''pid'', JInt (crash_pid c)), (ustr ''lr'', JStr (crash_lr c)), (ustr ''sp'', JStr (crash_sp c)),
     (ustr ''registers'', JObj (map (\<lambda>(k, v). (k, JStr v)) (crash_registers c))),
     (ustr ''fp_chain'', JList (map JStr (crash_fp_chain c)))]"

definition trace_json :: "syscall_entry \<Rightarrow> json" where
  "trace_json s = JObj [(ustr ''pid'', JInt (sc_pid s)), (ustr ''nr'', JInt (sc_nr s)), (ustr ''x0'', JStr (sc_x0 s)),
     (ustr ''x1'', JStr (sc_x1 s)), (ustr ''ret'', JInt (sc_ret s)), (ustr ''name'', JStr (syscall_name (sc_nr s)))]"

definition report_json :: "double \<Rightarrow> report \<Rightarrow> json" where
  "report_json idle_pct r = JObj (
    [(ustr ''filename'', JStr (filename r)),
     (ustr ''total_lines'', jnat (total_lines r)),
     (ustr ''subsystem_counts'', JObj (map (\<lambda>(k, n). (k, jnat n)) (subsystem_counts r))),
     (ustr ''boot_events'', jnat (length (boot_events r))),
     (ustr ''hw_events'', jnat (length (hw_events r))),
     (ustr ''fs_events'', jnat (length (fs_events r))),
     (ustr ''process_events'', JList (map (\<lambda>e. JObj [(ustr ''line'', jnat (line_num e)), (ustr ''subsystem'', JStr (subsystem e)),
        (ustr ''details'', details_json e)]) (process_events r))),
     (ustr ''net_events'', jnat (length (net_events r))),
     (ustr ''test_events'', JList (map (\<lambda>e. JObj [(ustr ''line'', jnat (line_num e)), (ustr ''raw'', JStr (raw e))]) (test_events r))),
     (ustr ''errors'', JList (map (\<lambda>e. JObj [(ustr ''line'', jnat (line_num e)), (ustr ''subsystem'', JStr (subsystem e)),
        (ustr ''raw'', JStr (raw e))]) (errors r))),
     (ustr ''write_summary'', JObj
       [(ustr ''total_inodes'', jnat (length (write_summary r))),
        (ustr ''total_bytes'', JInt (sum_bytes r)),
        (ustr ''total_ops'', jnat (sum_ops r)),
        (ustr ''top_inodes'', JList (map write_json (top_writes 10 r)))]),
     (ustr ''nvme'', JObj
       [(ustr ''disk_writes'', JInt (sum_disk r)),
        (ustr ''timeouts'', jnat (length (timeouts r)))]),
     (ustr ''ticks'', JObj
       [(ustr ''count'', jnat (length (ticks r))),
        (ustr ''range'', if ticks r = [] then JNull else JList [JInt (tick_no (hd (ticks r))), JInt (tick_no (last (ticks r)))]),
        (ustr ''idle_pct'', JFloat idle_pct)])] @
    (case crash r of Some c \<Rightarrow> [(ustr ''crash'', crash_json c)] | None \<Rightarrow> []) @
    (if syscall_trace r \<noteq> [] then [(ustr ''syscall_trace'', JList (map trace_json (syscall_trace r)))] else []))"

definition print_json :: "report \<Rightarrow> out" where
  "print_json r =
     with_val (true_div (100 * idle_ticks r) (max (length (ticks r)) 1)) (\<lambda>idle_pct.
     say (json_dumps 0 (report_json idle_pct r)))"

section \<open>Comparison\<close>

text \<open>The messages of the init process, which are always text.\<close>

definition init_messages :: "report \<Rightarrow> utext list" where
  "init_messages r = remdups (map (\<lambda>e. case map_of (details e) ''message'' of Some (DText t) \<Rightarrow> t | _ \<Rightarrow> [])
     (filter (\<lambda>e. subsystem e = ustr ''init'') (process_events r)))"

text \<open>\<open>order\<close> is the order in which Python iterates over a set with these elements.\<close>

definition count_changes :: "(utext list \<Rightarrow> utext list) \<Rightarrow> report \<Rightarrow> report \<Rightarrow> (utext \<times> nat \<times> nat) list" where
  "count_changes order old new =
     filter (\<lambda>(sub, oc, nc). oc \<noteq> nc)
       (map (\<lambda>sub. (sub, get_or (subsystem_counts old) sub 0, get_or (subsystem_counts new) sub 0))
         (order (remdups (map fst (subsystem_counts old) @ map fst (subsystem_counts new)))))"

definition fixed_mark :: utext where
  "fixed_mark = [32, 0x2713] @ ustr '' FIXED''"

definition new_mark :: utext where
  "new_mark = [32, 0x2717] @ ustr '' NEW''"

definition crash_diff :: "crash_info \<Rightarrow> crash_info \<Rightarrow> out" where
  "crash_diff oc nc =
     (if crash_far oc \<noteq> crash_far nc \<or> crash_elr oc \<noteq> crash_elr nc then outs
       [say (ustr ''    FAR: '' @ crash_far oc @ arrow @ crash_far nc),
        say (ustr ''    ELR: '' @ crash_elr oc @ arrow @ crash_elr nc),
        say (ustr ''    '' @ [0x2192] @ ustr '' DIFFERENT crash signature'')]
      else say (ustr ''    '' @ [0x2192] @ ustr '' SAME crash (FAR='' @ crash_far nc @ ustr '' ELR='' @ crash_elr nc @ ustr '')''))"

definition message_lines :: "string \<Rightarrow> nat \<Rightarrow> utext list \<Rightarrow> out" where
  "message_lines title sign ms = when_out (ms \<noteq> [])
     [say (10 # ustr title),
      outs (map (\<lambda>m. when_out (m \<noteq> []) [say (ustr ''    '' @ [sign, 32] @ take 80 m)]) (sort ms))]"

text \<open>\<^verbatim>\<open>f"{100*idle:.0f}"\<close> with \<^verbatim>\<open>idle\<close> the share of idle ticks.\<close>

definition idle_percent :: "report \<Rightarrow> print_error + utext" where
  "idle_percent r =
     (case true_div (idle_ticks r) (max (length (ticks r)) 1) of
        Inl e \<Rightarrow> Inl e
      | Inr (m, s) \<Rightarrow> map_sum id (fixed_point 0) (true_div (100 * m) (2 ^ s)))"

definition print_diff :: "(utext list \<Rightarrow> utext list) \<Rightarrow> report \<Rightarrow> report \<Rightarrow> out" where
  "print_diff order old new =
    (let old_to = length (timeouts old); new_to = length (timeouts new);
         changes = count_changes order old new;
         old_msgs = init_messages old; new_msgs = init_messages new
     in outs
    [say rule_line,
     say (ustr ''  Zigix Log Diff''),
     say (ustr ''  OLD: '' @ filename old),
     say (ustr ''  NEW: '' @ filename new),
     say (rule_line @ [10]),
     say (ustr ''  Lines:        '' @ dec (total_lines old) @ arrow @ dec (total_lines new)),
     say (ustr ''  Write ops:    '' @ dec (sum_ops old) @ arrow @ dec (sum_ops new) @ ustr '' ('' @
       signed (int (sum_ops new) - int (sum_ops old)) @ ustr '')''),
     with_val (fmt_size (sum_bytes old)) (\<lambda>o_size. with_val (fmt_size (sum_bytes new)) (\<lambda>n_size.
       say (ustr ''  Data written: '' @ o_size @ arrow @ n_size))),
     say (ustr ''  NVMe timeouts: '' @ dec old_to @ arrow @ dec new_to @
       (if old_to > 0 \<and> new_to = 0 then fixed_mark else if new_to > old_to then new_mark else [])),
     say (ustr ''  Crash:        '' @ (if crash old \<noteq> None then ustr ''YES'' else ustr ''NO'') @ arrow @
       (if crash new \<noteq> None then ustr ''YES'' else ustr ''NO'') @ (if crash old \<noteq> None \<and> crash new = None then fixed_mark else [])),
     (case (crash old, crash new) of (Some oc, Some nc) \<Rightarrow> crash_diff oc nc | _ \<Rightarrow> ([], None)),
     when_out (changes \<noteq> [])
       [say (10 # ustr ''  Subsystem changes:''),
        outs (map (\<lambda>(sub, oc, nc). say (ustr ''    '' @ ljust 15 sub @ ustr ''  '' @ rjust 6 (dec oc) @ arrow @ rjust 6 (dec nc) @
          ustr '' ('' @ signed (int nc - int oc) @ ustr '')''))
          (take 15 (sort_key (\<lambda>(sub, oc, nc). - \<bar>int nc - int oc\<bar>) changes)))],
     message_lines ''  NEW init messages:'' 43 (filter (\<lambda>m. m \<notin> set old_msgs) new_msgs),
     message_lines ''  REMOVED init messages:'' 45 (filter (\<lambda>m. m \<notin> set new_msgs) old_msgs),
     when_out (ticks old \<noteq> [] \<and> ticks new \<noteq> [])
       [with_val (idle_percent old) (\<lambda>o_idle. with_val (idle_percent new) (\<lambda>n_idle.
          say (10 # ustr ''  Idle %:       '' @ o_idle @ ustr ''%'' @ arrow @ n_idle @ ustr ''%'')))],
     say []])"

section \<open>main\<close>

definition SECTIONS :: "(string \<times> (report \<Rightarrow> out)) list" where
  "SECTIONS = [(''summary'', print_summary), (''boot'', print_summary), (''writes'', print_writes), (''crash'', print_errors),
     (''nvme'', print_nvme), (''syscalls'', print_syscalls), (''ticks'', print_ticks)]"

text \<open>The arguments; a log comes with its name and its lines.\<close>

record log_args =
  arg_logfile :: "utext \<times> utext list"
  arg_diff :: "(utext \<times> utext list) option"
  arg_section :: string
  arg_json :: bool

definition print_all :: "report \<Rightarrow> out" where
  "print_all r = outs [print_summary r, print_writes r, print_nvme r, print_errors r, print_syscalls r, print_ticks r]"

definition log_main :: "unicode \<Rightarrow> (utext list \<Rightarrow> utext list) \<Rightarrow> log_args \<Rightarrow> out" where
  "log_main u order a =
     (if arg_section a \<notin> set (map fst SECTIONS @ [''all'']) then ([], Some ArgumentError)
      else let report = analyze_log u (fst (arg_logfile a)) (snd (arg_logfile a)) in
        case arg_diff a of
          Some (c # path, lines) \<Rightarrow> print_diff order (analyze_log u (c # path) lines) report
        | _ \<Rightarrow>
            if arg_json a then print_json report
            else if arg_section a = ''all'' then print_all report
            else (case map_of SECTIONS (arg_section a) of Some show \<Rightarrow> show report | None \<Rightarrow> ([], None)))"

end
