(* ===== verification/Log_Formats.thy ===== *)
theory Log_Formats
  imports Log_Match
begin

text \<open>
  The line parsers against the lines that the kernel prints: file system writes and colour codes
  are read as written; the link register of a crash and the syscall trace are not.
\<close>

section \<open>Writes\<close>

definition plain_unicode :: unicode where
  "plain_unicode = \<lparr>decimal_of = (\<lambda>_. None), alnum_of = (\<lambda>_. False), space_of = (\<lambda>_. False), lower_of = (\<lambda>c. [c])\<rparr>"

lemma dec_any [simp]: "list_all any_char (dec n)"
  using dec_digits[of n] by (auto simp: list_all_iff any_char_def ascii_digit_def)

lemma hex_any [simp]: "list_all any_char (hex n)"
  using hex_digits[of n] by (auto simp: list_all_iff any_char_def hex_digit_def ascii_digit_def)

text \<open>
  C36: a line \<^verbatim>\<open>[ext2-wr] ino=N wrote=N new_sz=N wdisk=N\<close>, as the kernel prints it for a write, is
  recognised by its tag and gives back the four numbers under their keys, in order, whatever
  their size.
\<close>

theorem ext2_write_roundtrip:
  "parse_subsystem_tag u (ustr ''[ext2-wr] '' @ write_text ino wrote new_sz wdisk) =
     (Some (ustr ''ext2-wr''), write_text ino wrote new_sz wdisk) \<and>
   parse_ext2_write u (write_text ino wrote new_sz wdisk) =
     [(ustr ''ino'', int ino), (ustr ''wrote'', int wrote), (ustr ''new_sz'', int new_sz), (ustr ''wdisk'', int wdisk)]"
proof -
  have "list_all any_char (write_text ino wrote new_sz wdisk)" by (simp add: write_text_def any_char_def)
  moreover have "stops (is_space u) (write_text ino wrote new_sz wdisk)" by (simp add: write_text_def is_space_def)
  moreover have "list_all tag_char (ustr ''ext2-wr'')"
    by (simp add: tag_char_def ascii_letter_def ascii_upper_def ascii_digit_def)
  ultimately have "parse_subsystem_tag u (ustr ''['' @ ustr ''ext2-wr'' @ ustr '']'' @ ustr '' '' @ write_text ino wrote new_sz wdisk) =
      (Some (ustr ''ext2-wr''), write_text ino wrote new_sz wdisk)"
    by (intro parse_tag) simp_all
  then show ?thesis using write_text_pairs by simp
qed

section \<open>Colour codes\<close>

definition escape :: "utext \<Rightarrow> nat \<Rightarrow> utext" where
  "escape ps c = [0x1B] @ ustr ''['' @ ps @ [c]"

definition coloured :: "(utext \<times> utext \<times> nat) list \<Rightarrow> utext \<Rightarrow> utext" where
  "coloured segs last_seg = concat (map (\<lambda>(plain, ps, c). plain @ escape ps c) segs) @ last_seg"

lemma ansi_escape:
  assumes "list_all (\<lambda>c. ascii_digit c \<or> c = 59) ps" "ascii_letter c"
  shows "re_match ansi_rx (escape ps c @ r) = Some ([], r)"
proof -
  have c: "\<not> (ascii_digit c \<or> c = 59)" using assms(2) by (auto simp: ascii_letter_def ascii_upper_def ascii_digit_def)
  have "re_match (seqs [Chr ascii_letter]) (c # r) = Some ([], r)"
    using assms(2) by (simp add: seqs_simps re_match_def)
  moreover have "re_match (Many (\<lambda>c. ascii_digit c \<or> c = 59)) (ps @ c # r) = Some ([], c # r)"
    using assms(1) c by (intro re_match_Many) simp_all
  ultimately have "re_match (seqs [lit ''['', Many (\<lambda>c. ascii_digit c \<or> c = 59), Chr ascii_letter]) (ustr ''['' @ ps @ c # r) =
      Some ([] @ [] @ [], r)"
    by (intro seqs_match(2)[OF re_match_lit] seqs_match(2)[of "Many _"])
  moreover have "re_match (Chr (\<lambda>c. c = 0x1B)) (0x1B # ustr ''['' @ ps @ c # r) = Some ([], ustr ''['' @ ps @ c # r)"
    by (simp add: re_match_def)
  ultimately have "re_match (seqs [Chr (\<lambda>c. c = 0x1B), lit ''['', Many (\<lambda>c. ascii_digit c \<or> c = 59), Chr ascii_letter])
      (0x1B # ustr ''['' @ ps @ c # r) = Some ([] @ [] @ [] @ [], r)"
    by (rule seqs_match(2)[rotated])
  then show ?thesis unfolding ansi_rx_def escape_def by (intro re_match_Alt(1)) simp
qed

lemma delete_plain: "0x1B \<notin> set plain \<Longrightarrow> re_delete ansi_rx (plain @ s) = plain @ re_delete ansi_rx s"
proof (induction plain)
  case (Cons c plain)
  then have "re_match ansi_rx (c # plain @ s) = None" by (simp add: ansi_rx_def seqs_simps re_match_def)
  with Cons show ?case by (simp add: re_delete.simps)
qed simp

lemma delete_escape:
  assumes "list_all (\<lambda>c. ascii_digit c \<or> c = 59) ps" "ascii_letter c"
  shows "re_delete ansi_rx (escape ps c @ s) = re_delete ansi_rx s"
  using ansi_escape[OF assms, of s] by (simp add: escape_def re_delete.simps(2)[of _ "0x1B"])

text \<open>
  C37: \<^verbatim>\<open>strip_ansi\<close> removes exactly the colour codes: wherever \<^verbatim>\<open>ESC [\<close> codes with numeric parameters
  are put into a text without escape characters, what is left is the text.
\<close>

theorem strip_ansi_exact:
  assumes "\<forall>(plain, ps, c) \<in> set segs. 0x1B \<notin> set plain \<and> list_all (\<lambda>c. ascii_digit c \<or> c = 59) ps \<and> ascii_letter c"
    and "0x1B \<notin> set last_seg"
  shows "strip_ansi (coloured segs last_seg) = concat (map fst segs) @ last_seg"
proof -
  have "re_delete ansi_rx (coloured segs last_seg) = concat (map fst segs) @ last_seg" using assms(1)
  proof (induction segs)
    case Nil
    then show ?case using delete_plain[OF assms(2), of "[]"] by (simp add: coloured_def re_delete.simps(1))
  next
    case (Cons s segs)
    obtain plain ps c where s: "s = (plain, ps, c)" by (cases s)
    with Cons show ?case by (auto simp: coloured_def delete_plain delete_escape)
  qed
  then show ?thesis by (simp add: strip_ansi_def)
qed

theorem strip_ansi_exact_witness:
  "strip_ansi (coloured [(ustr ''ok '', ustr ''1;32'', 109), (ustr ''done'', [], 109)] (ustr ''!'')) = ustr ''ok done!''"
  using strip_ansi_exact[of "[(ustr ''ok '', ustr ''1;32'', 109), (ustr ''done'', [], 109)]" "ustr ''!''"]
  by (simp add: ascii_digit_def ascii_letter_def)


section \<open>Crash lines\<close>

definition hx :: "nat \<Rightarrow> utext" where
  "hx n = ustr ''0x'' @ hex n"

lemma match_hx: "stops hex_digit r \<Longrightarrow> re_match hex_rx (hx n @ r) = Some ([hx n], r)"
  unfolding hx_def by (rule match_hex)

definition abort_text :: "string \<Rightarrow> nat \<Rightarrow> nat \<Rightarrow> nat \<Rightarrow> nat \<Rightarrow> utext \<Rightarrow> utext" where
  "abort_text kind far elr esr pid tail_text =
     ustr ''KERNEL '' @ ustr kind @ ustr '' ABORT'' @ ustr '' '' @ ustr ''FAR='' @ hx far @ ustr '' '' @ ustr ''ELR='' @ hx elr @
     ustr '' '' @ ustr ''ESR='' @ hx esr @ ustr '' '' @ ustr ''PID='' @ dec pid @ tail_text"

lemma match_blank: "stops (is_space u) r \<Longrightarrow> re_match (Plus (is_space u)) (ustr '' '' @ r) = Some ([], r)"
  by (rule re_match_Plus) simp_all

lemma matches_lazy:
  "matches (seqs (Lazy p # rs)) (c # cs) = matches (seqs rs) (c # cs) @ (if p c then matches (seqs (Lazy p # rs)) cs else [])"
  by (simp add: seqs_simps comp_def)

lemma lazy_skip:
  assumes "p c" "re_match (seqs rs) (c # cs) = None"
  shows "re_match (seqs (Lazy p # rs)) (c # cs) = re_match (seqs (Lazy p # rs)) cs"
proof -
  have "matches (seqs rs) (c # cs) = []" using assms(2) by (simp add: re_match_def split: list.splits)
  then show ?thesis unfolding re_match_def matches_lazy using assms(1) by simp
qed

lemma lazy_here: "re_match (seqs rs) s = Some m \<Longrightarrow> re_match (seqs (Lazy p # rs)) s = Some m"
  by (cases s) (auto simp: seqs_simps re_match_def comp_def split: list.splits)

lemma crash_match:
  assumes "list_all (is_word u) (ustr kind)" "kind \<noteq> []" "stops (is_digit u) tail_text"
  shows "re_match (crash_rx u) (abort_text kind far elr esr pid tail_text) =
    Some ([ustr ''KERNEL '' @ ustr kind @ ustr '' ABORT'', hx far, hx elr, hx esr, dec pid], tail_text)"
proof -
  let ?F = "ustr ''FAR='' @ hx far @ ustr '' '' @ ustr ''ELR='' @ hx elr @
     ustr '' '' @ ustr ''ESR='' @ hx esr @ ustr '' '' @ ustr ''PID='' @ dec pid @ tail_text"
  let ?rs = "[lit ''FAR='', hex_rx, Plus (is_space u), lit ''ELR='', hex_rx, Plus (is_space u),
      lit ''ESR='', hex_rx, Plus (is_space u), lit ''PID='', Grp (Plus (is_digit u))]"
  let ?K = "Grp (Alt (seqs [lit ''KERNEL '', Plus (is_word u), lit '' ABORT'']) (lit ''SYNC EXCEPTION''))"
  have sp: "stops (is_space u) (ustr ''ELR='' @ r)" "stops (is_space u) (ustr ''ESR='' @ r)" "stops (is_space u) (ustr ''PID='' @ r)" for r
    by (simp_all add: is_space_def)
  have hd: "stops hex_digit (ustr '' '' @ r)" for r by simp
  have "re_match (seqs ?rs) ?F = Some ([] @ [hx far] @ [] @ [] @ [hx elr] @ [] @ [] @ [hx esr] @ [] @ [] @ [dec pid] @ [], tail_text)"
    by (intro seqs_match(2)[OF re_match_lit] seqs_match(2)[OF match_hx] seqs_match(2)[OF match_blank]
        seqs_match(2)[OF match_dec] seqs_match(1) hd sp assms(3))
  from lazy_here[OF this, of any_char]
  have F: "re_match (seqs (Lazy any_char # ?rs)) ?F = Some ([hx far, hx elr, hx esr, dec pid], tail_text)" by simp
  have "re_match (seqs ?rs) (32 # ?F) = None" by (simp add: seqs_simps lit_simps re_match_def)
  from lazy_skip[OF _ this, of any_char] F
  have L: "re_match (seqs (Lazy any_char # ?rs)) (ustr '' '' @ ?F) = Some ([hx far, hx elr, hx esr, dec pid], tail_text)"
    by (simp add: any_char_def)
  have w: "re_match (Plus (is_word u)) (ustr kind @ ustr '' ABORT'' @ r) = Some ([], ustr '' ABORT'' @ r)" for r
    using assms(1,2) by (intro re_match_Plus) (simp_all add: ustr_def)
  have "re_match (seqs [lit ''KERNEL '', Plus (is_word u), lit '' ABORT'']) (ustr ''KERNEL '' @ ustr kind @ ustr '' ABORT'' @ r) =
      Some ([] @ [] @ [] @ [], r)" for r
    by (intro seqs_match(2)[OF re_match_lit] seqs_match(2)[OF w] seqs_match(1))
  then have "re_match (Alt (seqs [lit ''KERNEL '', Plus (is_word u), lit '' ABORT'']) (lit ''SYNC EXCEPTION''))
      ((ustr ''KERNEL '' @ ustr kind @ ustr '' ABORT'') @ r) = Some ([], r)" for r
    by (intro re_match_Alt(1)) (simp only: append_assoc append_Nil)
  from re_match_Grp[OF this]
  have K: "re_match ?K ((ustr ''KERNEL '' @ ustr kind @ ustr '' ABORT'') @ r) =
      Some ([ustr ''KERNEL '' @ ustr kind @ ustr '' ABORT''], r)" for r .
  show ?thesis
    unfolding crash_rx_def abort_text_def
    using seqs_match(2)[OF K L] by (simp only: append_assoc append_Cons append_Nil)
qed


lemma crash_start: "c \<noteq> 75 \<Longrightarrow> c \<noteq> 83 \<Longrightarrow> re_search (crash_rx u) (c # s) = re_search (crash_rx u) s"
  by (simp add: crash_rx_def seqs_simps lit_simps re_match_def re_search.simps)

text \<open>Where \<^verbatim>\<open>LR=\<close> and \<^verbatim>\<open>SP=\<close> are not found.\<close>

lemma field_none:
  "c \<noteq> of_char a \<Longrightarrow> re_match (field_rx [a, b]) (c # s) = None"
  "d \<noteq> of_char b \<Longrightarrow> re_match (field_rx [a, b]) (c # d # s) = None"
  "e \<noteq> 61 \<Longrightarrow> re_match (field_rx [a, b]) (c # d # e # s) = None"
  by (simp_all add: field_rx_def seqs_simps lit_simps re_match_def)

lemma field_skip:
  "c \<noteq> of_char a \<Longrightarrow> re_search (field_rx [a, b]) (c # s) = re_search (field_rx [a, b]) s"
  "d \<noteq> of_char b \<Longrightarrow> re_search (field_rx [a, b]) (c # d # s) = re_search (field_rx [a, b]) (d # s)"
  "e \<noteq> 61 \<Longrightarrow> re_search (field_rx [a, b]) (c # d # e # s) = re_search (field_rx [a, b]) (d # e # s)"
  by (simp_all add: re_search.simps(2) field_none)

lemma field_skip_list:
  "list_all (\<lambda>c. c \<noteq> of_char a) xs \<Longrightarrow> re_search (field_rx [a, b]) (xs @ s) = re_search (field_rx [a, b]) s"
  by (induction xs) (simp_all add: field_skip)

lemma field_here:
  "stops hex_digit r \<Longrightarrow> re_search (field_rx name) (ustr name @ ustr ''='' @ hx n @ r) = Some ([hx n], r)"
proof (rule search_here)
  assume r: "stops hex_digit r"
  have "re_match (seqs [lit name, lit ''='', hex_rx]) (ustr name @ ustr ''='' @ hx n @ r) = Some ([] @ [] @ [hx n] @ [], r)"
    by (intro seqs_match(2)[OF re_match_lit] seqs_match(2)[OF match_hx[OF r]] seqs_match(1))
  then show "re_match (field_rx name) (ustr name @ ustr ''='' @ hx n @ r) = Some ([hx n], r)" by (simp add: field_rx_def)
qed

lemma hex_no_upper: "list_all (\<lambda>c. c \<noteq> 76 \<and> c \<noteq> 83) (hx n)"
proof -
  have "list_all (\<lambda>c. c \<noteq> 76 \<and> c \<noteq> 83) (hex n)"
  proof (induction n rule: hex.induct)
    case (1 n)
    then show ?case by (subst hex.simps) (auto simp: hex_char_def)
  qed
  then show ?thesis by (simp add: hx_def)
qed

lemma number_skip:
  "re_search (field_rx ''LR'') (hx n @ s) = re_search (field_rx ''LR'') s"
  "re_search (field_rx ''SP'') (hx n @ s) = re_search (field_rx ''SP'') s"
  "re_search (field_rx ''SP'') (dec m @ s) = re_search (field_rx ''SP'') s"
  using hex_no_upper[of n] dec_digits[of m]
  by (fastforce intro!: field_skip_list simp: list_all_iff ascii_digit_def)+

lemma number_skip_end:
  "re_search (field_rx ''SP'') (hx n) = None"
  using number_skip(2)[of n "[]"] by (simp add: field_rx_def seqs_simps lit_simps re_match_def re_search.simps)

lemma crash_lines_keep:
  "crash_type (crash_lines u ls c) = crash_type c \<and> crash_far (crash_lines u ls c) = crash_far c \<and>
   crash_elr (crash_lines u ls c) = crash_elr c \<and> crash_esr (crash_lines u ls c) = crash_esr c \<and>
   crash_pid (crash_lines u ls c) = crash_pid c \<and> crash_lr (crash_lines u ls c) = crash_lr c \<and>
   crash_sp (crash_lines u ls c) = crash_sp c \<and> crash_line_num (crash_lines u ls c) = crash_line_num c"
  by (induction u ls c rule: crash_lines.induct)
     (auto simp: Let_def crash_line_def split: option.splits list.splits prod.splits)

lemma abort_search:
  assumes "list_all (is_word u) (ustr kind)" "kind \<noteq> []" "stops (is_digit u) tail_text"
  shows "re_search (crash_rx u) (ustr ''[exc] '' @ abort_text kind far elr esr pid tail_text) =
    Some ([ustr ''KERNEL '' @ ustr kind @ ustr '' ABORT'', hx far, hx elr, hx esr, dec pid], tail_text)"
  using search_here[OF crash_match[OF assms, of far elr esr pid]] by (simp add: crash_start)

text \<open>
  C38: for the line the kernel prints on an instruction abort, \<^verbatim>\<open>[exc] KERNEL INST ABORT FAR=.. ELR=..
  ESR=.. PID=.. LR=.. SP=..\<close>, at any place of a log, \<^verbatim>\<open>parse_crash_block\<close> returns the fault address,
  the exception registers, the process and the stack pointer as printed, but as link register
  the value of \<^verbatim>\<open>ELR\<close>: the search for \<^verbatim>\<open>LR=\<close> stops inside \<^verbatim>\<open>ELR=\<close>.
\<close>

theorem crash_lr_is_elr:
  "\<exists>c. parse_crash_block u (before @ (ustr ''[exc] '' @ abort_text ''INST'' far elr esr pid
      (ustr '' LR='' @ hx lr @ ustr '' SP='' @ hx sp)) # after) (length before) = Some c \<and>
     crash_type c = ustr ''KERNEL INST ABORT'' \<and> crash_far c = hx far \<and> crash_elr c = hx elr \<and> crash_esr c = hx esr \<and>
     crash_pid c = int pid \<and> crash_sp c = hx sp \<and> crash_line_num c = length before + 1 \<and> crash_lr c = hx elr"
proof -
  let ?t = "ustr '' LR='' @ hx lr @ ustr '' SP='' @ hx sp"
  define l where "l = ustr ''[exc] '' @ abort_text ''INST'' far elr esr pid ?t"
  have w: "list_all (is_word u) (ustr ''INST'')" by (simp add: is_word_def ascii_letter_def ascii_upper_def)
  have m: "re_search (crash_rx u) l = Some ([ustr ''KERNEL INST ABORT'', hx far, hx elr, hx esr, dec pid], ?t)"
    using abort_search[OF w, of ?t far elr esr pid] by (simp add: l_def)
  have lr: "group_1 (re_search (field_rx ''LR'') l) = hx elr"
    using field_here[of "ustr '' ESR='' @ hx esr @ ustr '' PID='' @ dec pid @ ?t" "''LR''" elr]
    by (simp add: l_def abort_text_def field_skip number_skip group_1_def)
  have sp: "group_1 (re_search (field_rx ''SP'') l) = hx sp"
    using field_here[of "[]" "''SP''" sp]
    by (simp add: l_def abort_text_def field_skip number_skip group_1_def)
  show ?thesis
    unfolding l_def[symmetric] using crash_lines_keep by (simp add: parse_crash_block_def m lr sp Let_def)
qed


section \<open>Syscall traces\<close>

definition trace_text :: "nat \<Rightarrow> nat \<Rightarrow> utext \<Rightarrow> utext \<Rightarrow> utext \<Rightarrow> utext" where
  "trace_text pid nr x0 x1 ret =
     ustr ''P'' @ dec pid @ ustr '' '' @ ustr ''nr='' @ dec nr @ ustr '' '' @ ustr ''x0='' @ x0 @ ustr '' '' @
     ustr ''x1='' @ x1 @ ustr '' '' @ ustr ''->'' @ ustr '' '' @ ret"

lemma dec_not_space: "list_all (\<lambda>c. \<not> is_space u c) (dec n)"
  using dec_digits[of n] by (auto simp: list_all_iff ascii_digit_def is_space_def)

lemma matches_trace_prefix:
  "matches (seqs (lit ''P'' # Grp (Plus (is_digit u)) # Plus (is_space u) # lit ''nr='' # Grp (Plus (is_digit u)) #
      Plus (is_space u) # lit ''x0='' # rs)) (trace_text pid nr x0 x1 ret) =
   map (\<lambda>(h, t). (dec pid # dec nr # h, t))
     (matches (seqs rs) (x0 @ ustr '' '' @ ustr ''x1='' @ x1 @ ustr '' '' @ ustr ''->'' @ ustr '' '' @ ret))"
proof -
  have sp: "matches (Seq (Plus (is_space u)) (Seq (lit (c # w)) b)) (ustr '' '' @ r) = matches (Seq (lit (c # w)) b) r"
    if "of_char c \<noteq> (32 :: nat)" "stops (is_space u) r" for c w b r
    using that by (intro matches_Plus_run(1) avoids_lit) simp_all
  have dg: "matches (Seq (Grp (Plus (is_digit u))) (Seq (Plus (is_space u)) b)) (dec n @ ustr '' '' @ r) =
      map (\<lambda>(h, t). (dec n # h, t)) (matches (Seq (Plus (is_space u)) b) (ustr '' '' @ r))" for n b r
    by (intro matches_Plus_run(2) avoids_Plus dec_not_space) simp_all
  have st: "stops (is_space u) (ustr ''nr='' @ r)" "stops (is_space u) (ustr ''x0='' @ r)" for r
    by (simp_all add: is_space_def)
  have oc: "of_char CHR ''n'' \<noteq> (32 :: nat)" "of_char CHR ''x'' \<noteq> (32 :: nat)" by simp_all
  show ?thesis
    unfolding seqs_simps trace_text_def matches_lit_run dg sp[OF oc(1) st(1)] sp[OF oc(2) st(2)]
    by (simp add: comp_def case_prod_unfold)
qed


lemma hex_no_prefix: "\<not> prefix (ustr ''0x'') (hex n @ 32 # r)"
proof -
  obtain c cs where c: "hex n = c # cs" by (cases "hex n") simp_all
  show ?thesis
  proof (cases cs)
    case (Cons d ds)
    then have "hex_digit d" using hex_digits[of n] by (simp add: c)
    then have "d \<noteq> 120" by (auto simp: hex_digit_def ascii_digit_def)
    then show ?thesis by (simp add: c Cons)
  qed (simp add: c)
qed

lemma strip_blank: "strip u (32 # s) = strip u s"
  by (simp add: strip_def)

lemma strip_id: "s \<noteq> [] \<Longrightarrow> \<not> is_space u (hd s) \<Longrightarrow> \<not> is_space u (last s) \<Longrightarrow> strip u s = s"
  by (simp add: strip_def dropWhile_eq_self_iff[THEN iffD2] hd_rev)

lemma hex_not_space: "list_all (\<lambda>c. \<not> is_space u c) (hex n)"
  using hex_digits[of n] by (auto simp: list_all_iff hex_digit_def ascii_digit_def is_space_def)

lemma trace_line_kernel: "trace_line u (trace_text pid nr (hex x0) (hex x1) ret) = None"
proof -
  have "matches (trace_rx u) (trace_text pid nr (hex x0) (hex x1) ret) = []"
    unfolding trace_rx_def matches_trace_prefix
    using hex_no_prefix by (simp add: seqs_simps hex_rx_def matches_lit del: ustr_simps) simp
  then show ?thesis by (simp add: trace_line_def re_match_def)
qed

lemma trace_line_expected:
  "trace_line u (trace_text pid nr (hx x0) (hx x1) (dec ret)) =
     Some \<lparr>sc_pid = int pid, sc_nr = int nr, sc_x0 = hx x0, sc_x1 = hx x1, sc_ret = int ret\<rparr>"
proof -
  have hd: "stops hex_digit (ustr '' '' @ r)" for r by simp
  have st: "stops (is_space u) (ustr ''x1='' @ r)" for r by (simp add: is_space_def)
  have sm: "re_match (Many (is_space u)) (ustr '' '' @ r) = Some ([], r)" if "stops (is_space u) r" for r
    using that by (intro re_match_Many) simp_all
  have mi: "re_match (Grp (Seq (Alt (lit ''-'') Eps) (Plus (is_digit u)))) (dec ret @ []) = Some ([dec ret], [])"
  proof (rule re_match_Grp)
    obtain c cs where c: "dec ret = c # cs" by (cases "dec ret") simp_all
    then have "c \<noteq> 45" using dec_digits[of ret] by (auto simp: ascii_digit_def)
    then have "re_match (lit ''-'') (dec ret @ []) = None" by (intro re_match_lit_None) (simp add: c)
    then have "re_match (Alt (lit ''-'') Eps) (dec ret @ []) = Some ([], dec ret @ [])" by (simp add: re_match_Alt)
    from re_match_Seq[OF this re_match_Plus[of "is_digit u" "dec ret" "[]"]]
    show "re_match (Seq (Alt (lit ''-'') Eps) (Plus (is_digit u))) (dec ret @ []) = Some ([], [])" by simp
  qed
  have ds: "stops (is_space u) (dec ret @ [])" using dec_not_space[of u ret] by (cases "dec ret") simp_all
  let ?rs = "[hex_rx, Plus (is_space u), lit ''x1='', hex_rx, Many (is_space u), lit ''->'', Many (is_space u),
      Grp (Seq (Alt (lit ''-'') Eps) (Plus (is_digit u)))]"
  have ar: "stops (is_space u) (ustr ''->'' @ r)" for r by (simp add: is_space_def)
  have "re_match (seqs ?rs) (hx x0 @ ustr '' '' @ ustr ''x1='' @ hx x1 @ ustr '' '' @ ustr ''->'' @ ustr '' '' @ dec ret @ []) =
      Some ([hx x0] @ [] @ [] @ [hx x1] @ [] @ [] @ [] @ [dec ret] @ [], [])"
    by (intro seqs_match(2)[OF re_match_lit] seqs_match(2)[OF match_hx] seqs_match(2)[OF match_blank]
        seqs_match(2)[OF sm] seqs_match(2)[OF mi] seqs_match(1) hd st ds ar)
  then obtain ms where "matches (seqs ?rs) (hx x0 @ ustr '' '' @ ustr ''x1='' @ hx x1 @ ustr '' '' @ ustr ''->'' @ ustr '' '' @ dec ret) =
      ([hx x0, hx x1, dec ret], []) # ms"
    by (auto simp: re_match_def split: list.splits)
  then show ?thesis
    unfolding trace_line_def trace_rx_def re_match_def matches_trace_prefix by simp
qed

text \<open>
  C39: \<^verbatim>\<open>parse_syscall_trace\<close> expects addresses with \<^verbatim>\<open>0x\<close> and a decimal result, and reads back every
  number of such a line; the kernel prints the entries of its trace ring in hexadecimal without a
  prefix, and of a trace in that format not a single entry is read.
\<close>

theorem syscall_trace_formats:
  "trace_line u (trace_text pid nr (hx x0) (hx x1) (dec ret)) =
     Some \<lparr>sc_pid = int pid, sc_nr = int nr, sc_x0 = hx x0, sc_x1 = hx x1, sc_ret = int ret\<rparr> \<and>
   parse_syscall_trace u (before @ header # (ustr ''  '' @ trace_text pid nr (hex x0) (hex x1) (hex ret)) # after)
     (length before) = []"
proof -
  let ?t = "trace_text pid nr (hex x0) (hex x1) (hex ret)"
  have l: "last ?t = last (hex ret)" by (simp add: trace_text_def)
  have "\<not> is_space u (last ?t)" unfolding l using hex_not_space[of u ret] by (simp add: list_all_iff)
  then have "strip u ?t = ?t" by (intro strip_id) (simp_all add: trace_text_def is_space_def)
  then show ?thesis
    using trace_line_expected trace_line_kernel by (simp add: parse_syscall_trace_def strip_blank)
qed

end
