(* ===== verification/Log_Events.thy ===== *)
theory Log_Events
  imports Log_Formats "HOL-Library.Multiset"
begin

text \<open>
  What the report of \<^verbatim>\<open>analyze_log\<close> says about the log: where each line goes, that the event lists
  are sound and in order, that counts and write totals are those of the lines.
\<close>

section \<open>Routing\<close>

definition CATEGORIES :: "string list" where
  "CATEGORIES = [''boot'', ''hw'', ''fs'', ''process'', ''net'', ''test'', ''error'']"

definition events_in :: "string \<Rightarrow> report \<Rightarrow> event list" where
  "events_in cat r =
     (if cat = ''boot'' then boot_events r else if cat = ''hw'' then hw_events r else if cat = ''fs'' then fs_events r
      else if cat = ''process'' then process_events r else if cat = ''net'' then net_events r
      else if cat = ''test'' then test_events r else if cat = ''error'' then errors r else [])"

text \<open>The list a line is added to, if any, and the event.\<close>

definition route :: "unicode \<Rightarrow> utext list \<Rightarrow> nat \<times> utext \<Rightarrow> (string \<times> event) option" where
  "route u lines = (\<lambda>(i, line).
     case parse_subsystem_tag u line of
       (None, _) \<Rightarrow>
         if contains (ustr ''UEFI'') line \<or> contains (ustr ''Bootloader'') line \<or> contains (ustr ''BdsDxe'') line
         then Some (''boot'', mk_event i (ustr ''uefi'') ''boot'' line [])
         else if contains (ustr ''Zigix OS'') line \<or> contains (ustr ''QUANTUM ENCODING'') line \<or>
           contains (ustr ''bare-metal'') line
         then Some (''boot'', mk_event i (ustr ''banner'') ''boot'' line [])
         else None
     | (Some tag, rest) \<Rightarrow>
         if tag = ustr ''ext2-wr'' \<or> tag = ustr ''sc-trace'' \<or> tag = ustr ''tick'' then None
         else if tag = ustr ''exc'' then
           if is_crash rest
           then map_option (\<lambda>_. (''error'', mk_event i tag ''error'' line [(''crash'', DBool True)])) (parse_crash_block u lines i)
           else Some (''boot'', mk_event i tag ''boot'' line [])
         else if tag = ustr ''nvme'' \<and> contains (ustr ''timeout'') (lower u rest)
         then Some (''error'', mk_event i tag ''error'' line [(''nvme_timeout'', DBool True)])
         else if category_of tag \<in> set CATEGORIES
         then Some (category_of tag, mk_event i tag (category_of tag) line (event_details u tag rest))
         else None)"

definition routed :: "unicode \<Rightarrow> utext list \<Rightarrow> string \<Rightarrow> nat \<times> utext \<Rightarrow> event list" where
  "routed u lines cat x = (case route u lines x of Some (c, e) \<Rightarrow> if c = cat then [e] else [] | None \<Rightarrow> [])"

lemma events_in_simps [simp]:
  "events_in cat (r\<lparr>ticks := a\<rparr>) = events_in cat r" "events_in cat (r\<lparr>crash := b\<rparr>) = events_in cat r"
  "events_in cat (r\<lparr>subsystem_counts := d\<rparr>) = events_in cat r" "events_in cat (r\<lparr>syscall_trace := e\<rparr>) = events_in cat r"
  "events_in cat (r\<lparr>write_summary := f\<rparr>) = events_in cat r"
  by (simp_all add: events_in_def)

lemma events_in_boot: "events_in cat (r\<lparr>boot_events := boot_events r @ [e]\<rparr>) =
    events_in cat r @ (if cat = ''boot'' then [e] else [])"
  by (simp add: events_in_def)

lemma events_in_error: "events_in cat (r\<lparr>errors := errors r @ [e]\<rparr>) =
    events_in cat r @ (if cat = ''error'' then [e] else [])"
  by (auto simp: events_in_def)

lemma events_in_add:
  "events_in cat (add_event c e r) = events_in cat r @ (if c = cat \<and> c \<in> set CATEGORIES then [e] else [])"
  by (auto simp: events_in_def add_event_def CATEGORIES_def)

lemma events_in_crash: "events_in cat (r\<lparr>crash := c, errors := errors r @ [e]\<rparr>) =
    events_in cat r @ (if cat = ''error'' then [e] else [])"
  by (auto simp: events_in_def)

lemma tagged_line_events:
  assumes "tag \<noteq> ustr ''ext2-wr''" and "parse_subsystem_tag u line = (Some tag, rest)"
  shows "events_in cat (tagged_line u lines i line tag rest r) = events_in cat r @ routed u lines cat (i, line)"
proof -
  have ne: "ustr ''exc'' \<noteq> ustr ''sc-trace''" "ustr ''exc'' \<noteq> ustr ''tick''" "ustr ''exc'' \<noteq> ustr ''nvme''"
    "ustr ''nvme'' \<noteq> ustr ''sc-trace''" "ustr ''nvme'' \<noteq> ustr ''tick''" "ustr ''sc-trace'' \<noteq> ustr ''tick''"
    "ustr ''exc'' \<noteq> ustr ''ext2-wr''" "ustr ''nvme'' \<noteq> ustr ''ext2-wr''"
    by simp_all
  consider "tag = ustr ''exc''" | "tag = ustr ''sc-trace''" | "tag = ustr ''tick''"
    | "tag = ustr ''nvme''" "contains (ustr ''timeout'') (lower u rest)"
    | "tag \<noteq> ustr ''exc''" "tag \<noteq> ustr ''sc-trace''" "tag \<noteq> ustr ''tick''"
      "\<not> (tag = ustr ''nvme'' \<and> contains (ustr ''timeout'') (lower u rest))" by blast
  then show ?thesis
  proof cases
    case 1
    then show ?thesis
      using assms(2) ne
      by (auto simp: tagged_line_def routed_def route_def events_in_boot events_in_error events_in_crash
          simp del: ustr_simps split: option.splits)
  next
    case 3
    then show ?thesis
      using assms(2) ne
      by (auto simp: tagged_line_def routed_def route_def simp del: ustr_simps split: option.splits prod.splits list.splits)
  qed (use assms ne in \<open>auto simp: tagged_line_def routed_def route_def events_in_error events_in_add Let_def simp del: ustr_simps\<close>)
qed


lemma untagged_line_events:
  "parse_subsystem_tag u line = (None, rest) \<Longrightarrow>
   events_in cat (untagged_line i line r) = events_in cat r @ routed u lines cat (i, line)"
  by (simp add: untagged_line_def routed_def route_def events_in_boot del: ustr_simps)

lemma analyze_line_events:
  "events_in cat (fst (analyze_line u lines (i, line) (r, w))) = events_in cat r @ routed u lines cat (i, line)"
proof (cases "parse_subsystem_tag u line")
  case (Pair t rest)
  show ?thesis
  proof (cases t)
    case None
    then show ?thesis using Pair by (simp add: analyze_line_def untagged_line_events)
  next
    case (Some tag)
    then show ?thesis
      using Pair tagged_line_events[of tag u line rest cat lines i]
      by (auto simp: analyze_line_def Let_def routed_def route_def simp del: ustr_simps)
  qed
qed

lemma analyze_events:
  "events_in cat (fst (fold (analyze_line u lines) xs (r, w))) = events_in cat r @ concat (map (routed u lines cat) xs)"
proof (induction xs arbitrary: r w)
  case (Cons x xs)
  obtain i line where x: "x = (i, line)" by (cases x)
  obtain r' w' where rw: "analyze_line u lines (i, line) (r, w) = (r', w')" by (cases "analyze_line u lines (i, line) (r, w)")
  have "events_in cat r' = events_in cat r @ routed u lines cat (i, line)"
    using analyze_line_events[of cat u lines i line r w] rw by simp
  then show ?case using Cons.IH[of r' w'] by (simp add: x rw)
qed simp

definition log_lines :: "utext list \<Rightarrow> utext list" where
  "log_lines raw_lines = map (\<lambda>l. strip_ansi (rstrip_newline l)) raw_lines"

lemma analyze_log_events:
  "events_in cat (analyze_log u fp raw_lines) =
     concat (map (routed u (log_lines raw_lines) cat) (List.enumerate 0 (log_lines raw_lines)))"
proof -
  have "events_in cat (empty_report fp n) = []" for n by (simp add: events_in_def empty_report_def)
  then show ?thesis
    using analyze_events[of cat u "log_lines raw_lines" "List.enumerate 0 (log_lines raw_lines)"
        "empty_report fp (length (log_lines raw_lines))" "[]"]
    by (simp add: analyze_log_def log_lines_def case_prod_unfold Let_def)
qed

section \<open>Soundness of the event lists\<close>

lemma route_event:
  "route u lines (i, line) = Some (c, e) \<Longrightarrow> line_num e = i + 1 \<and> raw e = line \<and> category e = c"
  by (auto simp: route_def mk_event_def simp del: ustr_simps split: prod.splits option.splits if_splits)

lemma routed_event:
  "e \<in> set (routed u lines cat (i, line)) \<Longrightarrow> line_num e = i + 1 \<and> raw e = line \<and> category e = cat"
  using route_event[of u lines i line, OF sym] by (auto simp: routed_def split: option.splits if_splits)

lemma routed_sorted:
  "sorted_wrt (<) (map line_num (concat (map (routed u lines cat) (List.enumerate k ls)))) \<and>
   (\<forall>e \<in> set (concat (map (routed u lines cat) (List.enumerate k ls))). k < line_num e \<and> line_num e \<le> k + length ls \<and>
      raw e = ls ! (line_num e - 1 - k) \<and> category e = cat)"
proof (induction ls arbitrary: k)
  case (Cons l ls)
  let ?rest = "concat (map (routed u lines cat) (List.enumerate (Suc k) ls))"
  have IH: "sorted_wrt (<) (map line_num ?rest)"
    "\<And>e. e \<in> set ?rest \<Longrightarrow> Suc k < line_num e \<and> line_num e \<le> Suc k + length ls \<and>
      raw e = ls ! (line_num e - 1 - Suc k) \<and> category e = cat"
    using Cons.IH[of "Suc k"] by auto
  have one: "length (routed u lines cat (k, l)) \<le> 1" by (auto simp: routed_def split: option.splits)
  have hd: "line_num e = k + 1 \<and> raw e = l \<and> category e = cat" if "e \<in> set (routed u lines cat (k, l))" for e
    using routed_event[OF that] .
  have "sorted_wrt (<) (map line_num (routed u lines cat (k, l)))" using one by (cases "routed u lines cat (k, l)") auto
  then have "sorted_wrt (<) (map line_num (routed u lines cat (k, l) @ ?rest))"
    using IH hd by (fastforce simp: sorted_wrt_append)
  moreover have "k < line_num e \<and> line_num e \<le> k + length (l # ls) \<and> raw e = (l # ls) ! (line_num e - 1 - k) \<and> category e = cat"
    if "e \<in> set (routed u lines cat (k, l) @ ?rest)" for e
  proof (cases "e \<in> set ?rest")
    case True
    have "Suc k < line_num e" using IH(2)[OF True] by simp
    then have "line_num e - 1 - k = Suc (line_num e - 1 - Suc k)" by simp
    then show ?thesis using IH(2)[OF True] by simp
  qed (use that hd in auto)
  ultimately show ?case by simp
qed simp

lemma enumerated:
  assumes "e \<in> set (concat (map f (List.enumerate 0 ls)))"
  obtains i where "i < length ls" "e \<in> set (f (i, ls ! i))"
  using assms by (force simp: in_set_enumerate_eq)

text \<open>
  C29: the event lists of the report are sound: in each list the line numbers strictly increase,
  every event carries the text of its line without colour codes and the category of its list,
  and no line is in two lists.
\<close>

theorem log_events_sound:
  assumes "cat \<noteq> cat'"
  shows "sorted_wrt (<) (map line_num (events_in cat (analyze_log u fp raw_lines))) \<and>
    (\<forall>e \<in> set (events_in cat (analyze_log u fp raw_lines)).
       1 \<le> line_num e \<and> line_num e \<le> length raw_lines \<and>
       raw e = strip_ansi (rstrip_newline (raw_lines ! (line_num e - 1))) \<and> category e = cat \<and>
       (\<forall>e' \<in> set (events_in cat' (analyze_log u fp raw_lines)). line_num e' \<noteq> line_num e))"
proof -
  let ?ls = "log_lines raw_lines"
  note s = routed_sorted[of u ?ls _ 0 ?ls, folded analyze_log_events[of _ u fp raw_lines]]
  have len: "length ?ls = length raw_lines" by (simp add: log_lines_def)
  have rw: "raw e = strip_ansi (rstrip_newline (raw_lines ! (line_num e - 1)))"
    if "e \<in> set (events_in c (analyze_log u fp raw_lines))" for e c
  proof -
    have "line_num e - 1 < length raw_lines" "raw e = ?ls ! (line_num e - 1)" using s[of c] that len by auto
    then show ?thesis by (simp add: log_lines_def)
  qed
  have "cat = cat'"
    if ev: "e \<in> set (events_in cat (analyze_log u fp raw_lines))" "e' \<in> set (events_in cat' (analyze_log u fp raw_lines))"
      "line_num e' = line_num e" for e e'
  proof -
    obtain i where i: "i < length ?ls" "e \<in> set (routed u ?ls cat (i, ?ls ! i))"
      using ev(1) unfolding analyze_log_events by (rule enumerated)
    obtain j where j: "j < length ?ls" "e' \<in> set (routed u ?ls cat' (j, ?ls ! j))"
      using ev(2) unfolding analyze_log_events by (rule enumerated)
    have "i = j" using routed_event[OF i(2)] routed_event[OF j(2)] ev(3) by simp
    then show ?thesis
      using i(2) j(2) by (cases "route u ?ls (j, ?ls ! j)") (auto simp: routed_def split: if_splits)
  qed
  then show ?thesis using s[of cat] s[of cat'] len rw assms by fastforce
qed

theorem log_events_sound_witness:
  "sorted_wrt (<) (map line_num (events_in ''hw'' (analyze_log plain_unicode [] [ustr ''[pci] a'', ustr ''x'', ustr ''[nvme] b''])))"
  using log_events_sound[of "''hw''" "''error''" plain_unicode "[]" "[ustr ''[pci] a'', ustr ''x'', ustr ''[nvme] b'']"] by simp


section \<open>Counts\<close>

lemma get_or_update: "get_or (AList.update k v d) j x = (if j = k then v else get_or d j x)"
  by (simp add: get_or_def update_conv')

lemma counts_kept:
  "subsystem_counts (untagged_line i line r) = subsystem_counts r"
  "subsystem_counts (add_event c e r) = subsystem_counts r"
  "subsystem_counts (tagged_line u lines i line tag rest r) = subsystem_counts r"
proof -
  show a: "subsystem_counts (add_event c e r) = subsystem_counts r" for c e r by (simp add: add_event_def)
  show "subsystem_counts (untagged_line i line r) = subsystem_counts r" by (simp add: untagged_line_def)
  show "subsystem_counts (tagged_line u lines i line tag rest r) = subsystem_counts r"
    by (simp add: tagged_line_def Let_def a del: ustr_simps split: option.splits prod.splits list.splits)
qed

definition line_tags :: "unicode \<Rightarrow> utext list \<Rightarrow> utext list" where
  "line_tags u lines = List.map_filter (\<lambda>l. fst (parse_subsystem_tag u l)) lines"

definition count_tag :: "utext \<Rightarrow> (utext \<times> nat) list \<Rightarrow> (utext \<times> nat) list" where
  "count_tag t d = AList.update t (get_or d t 0 + 1) d"

lemma analyze_counts:
  "subsystem_counts (fst (fold (analyze_line u lines) xs (r, w))) =
     fold count_tag (line_tags u (map snd xs)) (subsystem_counts r)"
proof (induction xs arbitrary: r w)
  case (Cons x xs)
  obtain i line where x: "x = (i, line)" by (cases x)
  obtain r' w' where rw: "analyze_line u lines (i, line) (r, w) = (r', w')" by (cases "analyze_line u lines (i, line) (r, w)")
  have "subsystem_counts r' = (case fst (parse_subsystem_tag u line) of None \<Rightarrow> subsystem_counts r
      | Some t \<Rightarrow> count_tag t (subsystem_counts r))"
    using rw by (auto simp: analyze_line_def Let_def counts_kept count_tag_def simp del: ustr_simps
        split: prod.splits option.splits if_splits)
  then show ?case
    using Cons.IH[of r' w'] by (simp add: x rw line_tags_def List.map_filter_simps split: option.splits)
qed (simp add: line_tags_def List.map_filter_simps)

lemma count_tag_simps:
  "get_or (count_tag a d) t 0 = get_or d t 0 + (if a = t then 1 else 0)"
  "fst ` set (count_tag a d) = insert a (fst ` set d)"
  "distinct (map fst d) \<Longrightarrow> distinct (map fst (count_tag a d))"
  by (auto simp: count_tag_def get_or_update dom_update distinct_update)

lemma count_tags:
  "get_or (fold count_tag ts d) t 0 = get_or d t 0 + count_list ts t"
  "fst ` set (fold count_tag ts d) = fst ` set d \<union> set ts"
  "distinct (map fst d) \<Longrightarrow> distinct (map fst (fold count_tag ts d))"
proof (induction ts arbitrary: d)
  case (Cons a ts)
  { case 1 then show ?case by (simp add: Cons.IH(1) count_tag_simps) }
  { case 2 then show ?case by (simp add: Cons.IH(2) count_tag_simps) }
  { case 3 then show ?case by (simp add: Cons.IH(3) count_tag_simps) }
qed simp_all

lemma counts_fold: "subsystem_counts (analyze_log u fp raw_lines) = fold count_tag (line_tags u (log_lines raw_lines)) []"
  using analyze_counts[of u "log_lines raw_lines" "List.enumerate 0 (log_lines raw_lines)"
      "empty_report fp (length (log_lines raw_lines))" "[]"]
  by (simp add: analyze_log_def log_lines_def case_prod_unfold Let_def empty_report_def)

text \<open>
  C31: the subsystem counts of the report have one entry per tag that occurs in the log, with the
  number of lines that carry it.
\<close>

theorem log_counts_exact:
  fixes u :: unicode and fp :: utext and raw_lines :: "utext list"
  defines "tags \<equiv> line_tags u (map (\<lambda>l. strip_ansi (rstrip_newline l)) raw_lines)"
    and "counts \<equiv> subsystem_counts (analyze_log u fp raw_lines)"
  shows "distinct (map fst counts) \<and> fst ` set counts = set tags \<and>
    (\<forall>(t, n) \<in> set counts. n = count_list tags t)"
proof -
  have c: "counts = fold count_tag tags []" using counts_fold[of u fp raw_lines] by (simp add: counts_def tags_def log_lines_def)
  have d: "distinct (map fst counts)" unfolding c by (simp add: count_tags(3))
  have "n = count_list tags t" if "(t, n) \<in> set counts" for t n
    using count_tags(1)[of tags "[]" t] map_of_is_SomeI[OF d that] by (simp add: c[symmetric] get_or_def)
  then show ?thesis using d count_tags(2)[of tags "[]"] by (auto simp: c[symmetric])
qed

theorem log_counts_exact_witness:
  "count_list (line_tags plain_unicode (map (\<lambda>l. strip_ansi (rstrip_newline l)) [ustr ''[pci] a'', ustr ''b'', ustr ''[pci] c'']))
     (ustr ''pci'') = 2"
proof -
  let ?L = "[ustr ''[pci] a'', ustr ''b'', ustr ''[pci] c'']"
  have mem: "(ustr ''pci'', 2) \<in> set (subsystem_counts (analyze_log plain_unicode [] ?L))" by code_simp
  note log_counts_exact[of plain_unicode "[]" ?L, THEN conjunct2, THEN conjunct2]
  from bspec[OF this mem] show ?thesis by (simp only: prod.case)
qed


section \<open>Writes\<close>

definition log_writes :: "unicode \<Rightarrow> utext list \<Rightarrow> (utext \<times> int) list list" where
  "log_writes u lines = List.map_filter (\<lambda>l. case parse_subsystem_tag u l of
     (Some tag, rest) \<Rightarrow> if tag = ustr ''ext2-wr'' then Some (parse_ext2_write u rest) else None | _ \<Rightarrow> None) lines"

definition write_ino :: "(utext \<times> int) list \<Rightarrow> int" where
  "write_ino d = get_or d (ustr ''ino'') 0"

definition add_write :: "(utext \<times> int) list \<Rightarrow> write_stats \<Rightarrow> write_stats" where
  "add_write d t = t\<lparr>total_bytes := total_bytes t + get_or d (ustr ''wrote'') 0, write_count := write_count t + 1,
     final_size := get_or d (ustr ''new_sz'') (final_size t), disk_writes := disk_writes t + get_or d (ustr ''wdisk'') 0\<rparr>"

definition put_write :: "(utext \<times> int) list \<Rightarrow> (int \<times> write_stats) list \<Rightarrow> (int \<times> write_stats) list" where
  "put_write d tr = AList.update (write_ino d) (add_write d (get_or tr (write_ino d) no_writes)) tr"

lemma track_write_put: "track_write u rest tr = put_write (parse_ext2_write u rest) tr"
  by (simp add: track_write_def put_write_def write_ino_def add_write_def Let_def)

lemma analyze_writes:
  "snd (fold (analyze_line u lines) xs (r, w)) = fold put_write (log_writes u (map snd xs)) w"
proof (induction xs arbitrary: r w)
  case (Cons x xs)
  obtain i line where x: "x = (i, line)" by (cases x)
  obtain r' w' where rw: "analyze_line u lines (i, line) (r, w) = (r', w')" by (cases "analyze_line u lines (i, line) (r, w)")
  obtain t rest where t: "parse_subsystem_tag u line = (t, rest)" by (cases "parse_subsystem_tag u line")
  have "w' = (if t = Some (ustr ''ext2-wr'') then put_write (parse_ext2_write u rest) w else w)"
    using rw by (auto simp: t analyze_line_def Let_def track_write_put simp del: ustr_simps split: option.splits if_splits)
  then show ?case
    using Cons.IH[of r' w'] by (auto simp: x rw t log_writes_def List.map_filter_simps simp del: ustr_simps split: option.splits)
qed (simp add: log_writes_def List.map_filter_simps)

lemma put_write_simps:
  "get_or (put_write d tr) i no_writes = (if write_ino d = i then add_write d (get_or tr i no_writes) else get_or tr i no_writes)"
  "fst ` set (put_write d tr) = insert (write_ino d) (fst ` set tr)"
  "distinct (map fst tr) \<Longrightarrow> distinct (map fst (put_write d tr))"
  by (auto simp: put_write_def get_or_update dom_update distinct_update)

lemma put_writes:
  "get_or (fold put_write ds tr) i no_writes = fold add_write (filter (\<lambda>d. write_ino d = i) ds) (get_or tr i no_writes)"
  "fst ` set (fold put_write ds tr) = fst ` set tr \<union> write_ino ` set ds"
  "distinct (map fst tr) \<Longrightarrow> distinct (map fst (fold put_write ds tr))"
proof (induction ds arbitrary: tr)
  case (Cons d ds)
  { case 1 then show ?case by (simp add: Cons.IH(1) put_write_simps) }
  { case 2 then show ?case by (simp add: Cons.IH(2) put_write_simps) }
  { case 3 then show ?case by (simp add: Cons.IH(3) put_write_simps) }
qed simp_all

lemma add_writes:
  "total_bytes (fold add_write ds t) = total_bytes t + sum_list (map (\<lambda>d. get_or d (ustr ''wrote'') 0) ds)"
  "write_count (fold add_write ds t) = write_count t + length ds"
  "disk_writes (fold add_write ds t) = disk_writes t + sum_list (map (\<lambda>d. get_or d (ustr ''wdisk'') 0) ds)"
  "final_size (fold add_write ds t) = fold (\<lambda>d s. get_or d (ustr ''new_sz'') s) ds (final_size t)"
  by (induction ds arbitrary: t) (simp_all add: add_write_def)

lemma sum_update:
  "sum_list (map (\<lambda>(k, v). f v) (AList.update k v al)) =
     sum_list (map (\<lambda>(k, v). f v) al) + f v - (case map_of al k of Some x \<Rightarrow> f x | None \<Rightarrow> (0 :: int))"
  by (induction al) (auto split: option.splits)

lemma sum_put_writes:
  "sum_list (map (\<lambda>(k, t). total_bytes t) (fold put_write ds tr)) =
     sum_list (map (\<lambda>(k, t). total_bytes t) tr) + sum_list (map (\<lambda>d. get_or d (ustr ''wrote'') 0) ds)"
proof (induction ds arbitrary: tr)
  case (Cons d ds)
  have "sum_list (map (\<lambda>(k, t). total_bytes t) (put_write d tr)) =
      sum_list (map (\<lambda>(k, t). total_bytes t) tr) + get_or d (ustr ''wrote'') 0"
    unfolding put_write_def sum_update
    by (simp add: add_write_def get_or_def no_writes_def split: option.splits)
  with Cons.IH[of "put_write d tr"] show ?case by simp
qed simp


text \<open>
  C30: the write summary of the report has one record per inode that the write lines of the log
  name.  It holds the sum of the bytes, the number of lines, the last size and the sum of the
  disk writes of that inode; the records come in decreasing order of bytes, and nothing is lost:
  the totals add up to the bytes of all write lines.
\<close>

theorem log_writes_exact:
  fixes u :: unicode and fp :: utext and raw_lines :: "utext list"
  defines "ws \<equiv> log_writes u (map (\<lambda>l. strip_ansi (rstrip_newline l)) raw_lines)"
    and "summary \<equiv> write_summary (analyze_log u fp raw_lines)"
  shows "distinct (map fst summary) \<and> fst ` set summary = write_ino ` set ws \<and>
    sorted_wrt (\<ge>) (map (\<lambda>(i, t). total_bytes t) summary) \<and>
    (\<forall>(i, t) \<in> set summary. let wi = filter (\<lambda>d. write_ino d = i) ws in inode t = i \<and>
       total_bytes t = sum_list (map (\<lambda>d. get_or d (ustr ''wrote'') 0) wi) \<and> write_count t = length wi \<and>
       disk_writes t = sum_list (map (\<lambda>d. get_or d (ustr ''wdisk'') 0) wi) \<and>
       final_size t = fold (\<lambda>d s. get_or d (ustr ''new_sz'') s) wi 0) \<and>
    sum_list (map (\<lambda>(i, t). total_bytes t) summary) = sum_list (map (\<lambda>d. get_or d (ustr ''wrote'') 0) ws)"
proof -
  define tr where "tr = fold put_write ws []"
  define st where "st = sort_key (\<lambda>(i, t). - total_bytes t) tr"
  let ?rec = "\<lambda>(i, t). (i, mk_record i t)"
  have s: "summary = map ?rec st"
    using analyze_writes[of u "log_lines raw_lines" "List.enumerate 0 (log_lines raw_lines)"
        "empty_report fp (length (log_lines raw_lines))" "[]"]
    by (simp add: summary_def ws_def tr_def st_def analyze_log_def log_lines_def case_prod_unfold Let_def)
  have d: "distinct (map fst tr)" unfolding tr_def by (simp add: put_writes(3))
  have m: "mset st = mset tr" by (simp add: st_def)
  then have set: "set st = set tr" by (rule mset_eq_setD)
  have keys: "map fst summary = map fst st" by (simp add: s case_prod_unfold comp_def)
  have tot: "map (\<lambda>(i, t). total_bytes t) summary = map (\<lambda>(i, t). total_bytes t) st"
    by (simp add: s case_prod_unfold comp_def mk_record_def)
  have dist: "distinct (map fst summary)" unfolding keys using d arg_cong[OF m, of "image_mset fst"]
    by (metis mset_eq_imp_distinct_iff mset_map)
  have "sorted (map (\<lambda>(i, t). - total_bytes t) st)" unfolding st_def by (rule sorted_sort_key)
  then have ord: "sorted_wrt (\<ge>) (map (\<lambda>(i, t). total_bytes t) summary)"
    unfolding tot by (simp add: sorted_map sorted_wrt_map case_prod_unfold)
  have rec: "let wi = filter (\<lambda>d. write_ino d = i) ws in inode t = i \<and>
       total_bytes t = sum_list (map (\<lambda>d. get_or d (ustr ''wrote'') 0) wi) \<and> write_count t = length wi \<and>
       disk_writes t = sum_list (map (\<lambda>d. get_or d (ustr ''wdisk'') 0) wi) \<and>
       final_size t = fold (\<lambda>d s. get_or d (ustr ''new_sz'') s) wi 0" if it: "(i, t) \<in> set summary" for i t
  proof -
    obtain v where v: "(i, v) \<in> set tr" "t = mk_record i v" using it set by (auto simp: s)
    have "v = fold add_write (filter (\<lambda>d. write_ino d = i) ws) no_writes"
      using put_writes(1)[of ws "[]" i] map_of_is_SomeI[OF d v(1)]
      by (simp add: tr_def[symmetric] get_or_def)
    then show ?thesis by (simp add: Let_def v(2) mk_record_def add_writes no_writes_def del: ustr_simps)
  qed
  have "sum_list (map (\<lambda>(i, t). total_bytes t) summary) = sum_list (map (\<lambda>d. get_or d (ustr ''wrote'') 0) ws)"
    unfolding tot
    using sum_put_writes[of ws "[]"] arg_cong[OF m, of "\<lambda>x. sum_mset (image_mset (\<lambda>(i, t). total_bytes t) x)"]
    by (simp add: tr_def[symmetric] sum_mset_sum_list[symmetric])
  moreover have "fst ` set summary = write_ino ` set ws"
    using arg_cong[OF keys, of set] set put_writes(2)[of ws "[]"] by (simp add: tr_def[symmetric])
  ultimately show ?thesis using dist ord rec by blast
qed

theorem log_writes_exact_witness:
  "sorted_wrt (\<ge>) (map (\<lambda>(i, t). total_bytes t) (write_summary (analyze_log plain_unicode []
     [ustr ''[ext2-wr] ino=7 wrote=5'', ustr ''[ext2-wr] ino=9 wrote=8'', ustr ''[ext2-wr] ino=7 wrote=1'']))) \<and>
   write_summary (analyze_log plain_unicode []
     [ustr ''[ext2-wr] ino=7 wrote=5'', ustr ''[ext2-wr] ino=9 wrote=8'', ustr ''[ext2-wr] ino=7 wrote=1'']) =
     [(9, \<lparr>total_bytes = 8, write_count = 1, final_size = 0, disk_writes = 0, inode = 9\<rparr>),
      (7, \<lparr>total_bytes = 6, write_count = 2, final_size = 0, disk_writes = 0, inode = 7\<rparr>)]"
proof
  let ?L = "[ustr ''[ext2-wr] ino=7 wrote=5'', ustr ''[ext2-wr] ino=9 wrote=8'', ustr ''[ext2-wr] ino=7 wrote=1'']"
  show "sorted_wrt (\<ge>) (map (\<lambda>(i, t). total_bytes t) (write_summary (analyze_log plain_unicode [] ?L)))"
    by (rule log_writes_exact[of plain_unicode "[]" ?L, THEN conjunct2, THEN conjunct2, THEN conjunct1])
  show "write_summary (analyze_log plain_unicode [] ?L) =
     [(9, \<lparr>total_bytes = 8, write_count = 1, final_size = 0, disk_writes = 0, inode = 9\<rparr>),
      (7, \<lparr>total_bytes = 6, write_count = 2, final_size = 0, disk_writes = 0, inode = 7\<rparr>)]" by code_simp
qed

section \<open>Kernel faults\<close>

definition fault_text :: "nat \<Rightarrow> nat \<Rightarrow> nat \<Rightarrow> nat \<Rightarrow> utext" where
  "fault_text far elr esr lr =
     ustr ''KERNEL FAULT FAR='' @ hex far @ ustr '' ELR='' @ hex elr @ ustr '' ESR='' @ hex esr @ ustr '' LR='' @ hex lr"

lemma contains_set: "contains w s \<Longrightarrow> set w \<subseteq> set s"
proof (induction w s rule: contains.induct)
  case (2 w c cs)
  then show ?case using set_mono_prefix[of w "c # cs"] by auto
qed simp

lemma hex_chars: "c \<in> set (hex n) \<Longrightarrow> 48 \<le> c \<and> c \<le> 57 \<or> 97 \<le> c \<and> c \<le> 102"
proof (induction n rule: hex.induct)
  case (1 n)
  have "48 \<le> hex_char d \<and> hex_char d \<le> 57 \<or> 97 \<le> hex_char d \<and> hex_char d \<le> 102" if "d < 16" for d
    using that by (simp add: hex_char_def)
  from this[of n] this[of "n mod 16"] 1 show ?case by (subst (asm) (2) hex.simps) (auto split: if_splits)
qed

lemma fault_not_crash: "\<not> is_crash (fault_text far elr esr lr)"
proof -
  have "c \<noteq> 66 \<and> c \<noteq> 88" if "c \<in> set (hex n)" for c n using hex_chars[OF that] by auto
  then have "66 \<notin> set (fault_text far elr esr lr)" "88 \<notin> set (fault_text far elr esr lr)"
    by (auto simp: fault_text_def)
  then show ?thesis using contains_set[of _ "fault_text far elr esr lr"] by (force simp: is_crash_def)
qed

text \<open>
  C40: the line the kernel prints before it halts on a fault of its own, \<^verbatim>\<open>[exc] KERNEL FAULT FAR=..\<close>,
  is filed under the boot events: the report never lists it as an error, at any place of any log.
\<close>

theorem kernel_fault_is_boot:
  assumes "i < length raw_lines" and "raw_lines ! i = ustr ''[exc] '' @ fault_text far elr esr lr @ [10]"
  shows "mk_event i (ustr ''exc'') ''boot'' (ustr ''[exc] '' @ fault_text far elr esr lr) []
      \<in> set (boot_events (analyze_log u fp raw_lines)) \<and>
    (\<forall>e \<in> set (errors (analyze_log u fp raw_lines)). line_num e \<noteq> i + 1)"
proof -
  let ?t = "fault_text far elr esr lr" and ?ls = "log_lines raw_lines"
  define l where "l = ustr ''[exc] '' @ ?t"
  have ch: "c \<noteq> 27 \<and> any_char c" if "c \<in> set ?t" for c
    using that hex_chars by (fastforce simp: fault_text_def any_char_def)
  have "rstrip_newline (l @ [10]) = l"
  proof -
    have "last l \<noteq> 10" "l \<noteq> []" using hex_chars[of "last (hex lr)" lr] by (auto simp: l_def fault_text_def)
    then show ?thesis by (simp add: rstrip_newline_def dropWhile_eq_self_iff[THEN iffD2] hd_rev)
  qed
  moreover have "strip_ansi l = l"
    using delete_plain[of l "[]"] ch by (auto simp: strip_ansi_def l_def re_delete.simps(1))
  ultimately have li: "?ls ! i = l" "i < length ?ls" using assms by (simp_all add: log_lines_def l_def)
  have "parse_subsystem_tag u (ustr ''['' @ ustr ''exc'' @ ustr '']'' @ ustr '' '' @ ?t) = (Some (ustr ''exc''), ?t)"
    using ch by (intro parse_tag)
      (auto simp: tag_char_def ascii_letter_def list_all_iff is_space_def fault_text_def)
  then have tag: "parse_subsystem_tag u l = (Some (ustr ''exc''), ?t)" by (simp add: l_def)
  have r: "route u ?ls (i, l) = Some (''boot'', mk_event i (ustr ''exc'') ''boot'' l [])"
    using fault_not_crash by (simp add: route_def tag)
  have mem: "(i, l) \<in> set (List.enumerate 0 ?ls)" using li by (simp add: in_set_enumerate_eq)
  have "events_in ''boot'' x = boot_events x" "events_in ''error'' x = errors x" for x by (simp_all add: events_in_def)
  note ev = this[symmetric]
  have "mk_event i (ustr ''exc'') ''boot'' l [] \<in> set (boot_events (analyze_log u fp raw_lines))"
    unfolding ev analyze_log_events using mem r by (force simp: routed_def simp del: ustr_simps)
  moreover have "line_num e \<noteq> i + 1" if e: "e \<in> set (errors (analyze_log u fp raw_lines))" for e
  proof -
    obtain j where j: "j < length ?ls" "e \<in> set (routed u ?ls ''error'' (j, ?ls ! j))"
      using e unfolding ev analyze_log_events by (rule enumerated)
    have "routed u ?ls ''error'' (i, ?ls ! i) = []" using r li by (simp add: routed_def)
    with j have "j \<noteq> i" by auto
    then show ?thesis using routed_event[OF j(2)] by simp
  qed
  ultimately show ?thesis by (simp add: l_def)
qed

theorem kernel_fault_is_boot_witness:
  "mk_event 0 (ustr ''exc'') ''boot'' (ustr ''[exc] '' @ fault_text 16 32 48 64) []
     \<in> set (boot_events (analyze_log plain_unicode [] [ustr ''[exc] '' @ fault_text 16 32 48 64 @ [10]]))"
  using kernel_fault_is_boot[of 0 "[ustr ''[exc] '' @ fault_text 16 32 48 64 @ [10]]" 16 32 48 64 plain_unicode "[]"] by simp

end
