(* ===== verification/Log_Output.thy ===== *)
theory Log_Output
  imports Log_Print Log_Events
begin

text \<open>
  What the output of the log analyzer is worth: sizes are rounded correctly, the comparison of two
  logs lists exactly the counts that differ, and no log makes the analyzer fail.
\<close>

section \<open>Sizes\<close>

lemma half_even_close:
  assumes "0 < b"
  shows "2 * \<bar>int a - int b * int (half_even a b)\<bar> \<le> int b"
proof -
  let ?q = "a div b" and ?r = "a mod b"
  have a: "int a = int b * int ?q + int ?r" using mult_div_mod_eq[of b a] by (simp flip: of_nat_mult of_nat_add)
  have r: "?r < b" using assms by simp
  have "half_even a b = ?q \<and> 2 * ?r \<le> b \<or> half_even a b = ?q + 1 \<and> b \<le> 2 * ?r"
    by (simp add: half_even_def Let_def)
  then consider "half_even a b = ?q" "2 * ?r \<le> b" | "half_even a b = ?q + 1" "b \<le> 2 * ?r" by blast
  then show ?thesis
  proof cases
    case 2
    then have "int a - int b * int (half_even a b) = int ?r - int b" by (simp add: a algebra_simps)
    then show ?thesis using 2 r by simp
  qed (simp add: a)
qed

lemma half_even_mult: "0 < b \<Longrightarrow> half_even (b * q) b = q"
  by (simp add: half_even_def)

lemma half_even_le: "0 < b \<Longrightarrow> half_even a b \<le> a div b + 1"
  by (simp add: half_even_def Let_def)

lemma bit_length_bounds: "n < 2 ^ bit_length n" "0 < n \<Longrightarrow> 2 ^ bit_length n \<le> 2 * n"
proof (induction n rule: bit_length.induct)
  case (1 n)
  { case 1
    show ?case
    proof (cases "n = 0")
      case False
      then have "n div 2 < 2 ^ bit_length (n div 2)" using "1.IH" by simp
      then show ?thesis using False by (subst bit_length.simps) simp
    qed simp }
  { case 2
    show ?case
    proof (cases "n div 2 = 0")
      case True
      then have "n = 1" using 2 by simp
      then show ?thesis by (simp add: bit_length.simps)
    next
      case False
      then have "2 ^ bit_length (n div 2) \<le> 2 * (n div 2)" using "1.IH" 2 by simp
      then show ?thesis using 2 by (subst bit_length.simps) simp
    qed }
qed

lemma bit_length_le: "n < 2 ^ k \<Longrightarrow> bit_length n \<le> k"
proof (rule ccontr)
  assume n: "n < 2 ^ k" and "\<not> bit_length n \<le> k"
  then have "2 ^ Suc k \<le> (2 :: nat) ^ bit_length n" by (intro power_increasing) simp_all
  moreover have "n \<noteq> 0" using \<open>\<not> bit_length n \<le> k\<close> by (cases "n = 0") (simp_all add: bit_length.simps)
  ultimately show False using bit_length_bounds(2)[of n] n by simp
qed

lemma bit_length_power: "bit_length (2 ^ k) = Suc k"
proof (induction k)
  case (Suc k)
  then show ?case by (subst bit_length.simps) simp
qed (simp add: bit_length.simps)

lemma quot_exp_le: "quot_exp a b \<le> int (bit_length a) - int (bit_length b)"
  by (simp add: quot_exp_def Let_def)

text \<open>A quotient that does not come near the largest double.\<close>

lemma true_div_runs:
  assumes "0 < b" "a < b * 2 ^ 1000"
  shows "\<exists>x. true_div a b = Inr x"
proof (cases "a = 0")
  case False
  define e where "e = min 1074 (52 - quot_exp a b)"
  have q: "a div b < 2 ^ 1000" using assms by (simp add: less_mult_imp_div_less mult.commute)
  show ?thesis
  proof (cases "0 \<le> e")
    case True
    have "a * 2 ^ nat e div b < 2 ^ 1000 * 2 ^ nat e"
      using assms(2) by (intro less_mult_imp_div_less) (simp add: mult.commute mult.left_commute)
    then have "half_even (a * 2 ^ nat e) b \<le> 2 ^ 1000 * 2 ^ nat e" using half_even_le[OF assms(1), of "a * 2 ^ nat e"] by linarith
    also have "\<dots> < 2 ^ 1024 * 2 ^ nat e" by (intro mult_strict_right_mono) simp_all
    finally show ?thesis
      using True assms False by (auto simp: true_div_def Let_def e_def[symmetric])
  next
    case neg: False
    let ?k = "nat (- e)"
    have "- e \<le> int (bit_length a) - int (bit_length b)" using quot_exp_le[of a b] neg by (simp add: e_def)
    then have "(2 :: nat) ^ ?k * 2 ^ bit_length b \<le> 2 ^ bit_length a"
      unfolding power_add[symmetric] by (intro power_increasing) (use neg in simp_all)
    also have "\<dots> \<le> 2 * a" using bit_length_bounds(2)[of a] False by simp
    also have "\<dots> < 2 ^ 1001 * b" using assms(2) by simp
    finally have "2 ^ ?k * b < 2 ^ 1001 * b"
      using bit_length_bounds(1)[of b] mult_le_mono2[of b "2 ^ bit_length b" "2 ^ ?k"] by linarith
    then have k: "2 ^ ?k < (2 :: nat) ^ 1001" using assms(1) by simp
    have "half_even a (b * 2 ^ ?k) * 2 ^ ?k \<le> (a div (b * 2 ^ ?k) + 1) * 2 ^ ?k"
      using assms(1) by (intro mult_right_mono half_even_le) simp_all
    also have "\<dots> = a div b div 2 ^ ?k * 2 ^ ?k + 2 ^ ?k" by (simp add: div_mult2_eq)
    also have "\<dots> < 2 ^ 1000 + 2 ^ 1001" using k q div_times_less_eq_dividend[of "a div b" "2 ^ ?k"] by linarith
    finally have "half_even a (b * 2 ^ ?k) * 2 ^ ?k < 2 ^ 1000 + 2 ^ 1001" .
    then have "half_even a (b * 2 ^ ?k) * 2 ^ ?k < 2 ^ 1024" by simp
    then show ?thesis
      using neg assms False by (auto simp: true_div_def Let_def e_def[symmetric])
  qed
qed (use assms in \<open>simp add: true_div_def\<close>)

lemma true_div_share:
  assumes "a \<le> b" "true_div a b = Inr (m, s)"
  shows "m \<le> 2 * 2 ^ s"
proof (cases "a = 0")
  case False
  then have b: "0 < b" using assms(1) by simp
  define e where "e = min 1074 (52 - quot_exp a b)"
  have "bit_length a \<le> bit_length b" using assms(1) bit_length_bounds(1)[of b] by (intro bit_length_le) simp
  then have e: "0 \<le> e" using quot_exp_le[of a b] by (simp add: e_def)
  then have m: "m = half_even (a * 2 ^ nat e) b" "s = nat e"
    using assms(2) b False by (auto simp: true_div_def Let_def e_def[symmetric] split: if_splits)
  have "a * 2 ^ nat e div b \<le> 2 ^ nat e"
    using assms(1) b div_le_mono[of "a * 2 ^ nat e" "b * 2 ^ nat e" b] by simp
  moreover have "1 \<le> (2 :: nat) ^ nat e" by simp
  ultimately show ?thesis using half_even_le[OF b, of "a * 2 ^ nat e"] unfolding m by linarith
qed (use assms in \<open>auto simp: true_div_def split: if_splits\<close>)

text \<open>A quotient that is a double.\<close>

lemma true_div_exact:
  assumes "0 < n" "n < 2 ^ 53" "k \<le> 52"
  shows "\<exists>e \<ge> k. true_div n (2 ^ k) = Inr (n * 2 ^ (e - k), e)"
proof -
  define e where "e = min 1074 (52 - quot_exp n (2 ^ k))"
  have "quot_exp n (2 ^ k) \<le> 53 - (int k + 1)"
    using quot_exp_le[of n "2 ^ k"] bit_length_le[OF assms(2)] by (simp add: bit_length_power)
  then have e: "int k \<le> e" using assms(3) by (simp add: e_def)
  then have "n * 2 ^ nat e = 2 ^ k * (n * 2 ^ (nat e - k))"
    by (simp add: power_add[symmetric])
  then have h: "half_even (n * 2 ^ nat e) (2 ^ k) = n * 2 ^ (nat e - k)"
    using half_even_mult[of "2 ^ k" "n * 2 ^ (nat e - k)"] by (simp only:) simp
  obtain x where "true_div n (2 ^ k) = Inr x" using true_div_runs[of "2 ^ k" n] assms(2) by (auto simp: less_le_trans)
  then have "true_div n (2 ^ k) = Inr (n * 2 ^ (nat e - k), nat e)"
    using assms(1) e h by (auto simp: true_div_def Let_def e_def[symmetric] split: if_splits)
  then show ?thesis using e by (intro exI[of _ "nat e"]) simp
qed


text \<open>The decimals of a size: its value in tenths of the unit, correctly rounded.\<close>

definition tenths :: "nat \<Rightarrow> utext" where
  "tenths k = dec (k div 10) @ ustr ''.'' @ [48 + k mod 10]"

lemma fixed_point_tenths:
  assumes "0 < n" "n < 2 ^ 53" "k \<le> 52"
  shows "\<exists>x t. true_div n (2 ^ k) = Inr x \<and> fixed_point 1 x = tenths t \<and> 2 * \<bar>10 * int n - 2 ^ k * int t\<bar> \<le> 2 ^ k"
proof -
  obtain e where e: "k \<le> e" "true_div n (2 ^ k) = Inr (n * 2 ^ (e - k), e)" using true_div_exact[OF assms] by blast
  let ?t = "half_even (n * 2 ^ (e - k) * 10) (2 ^ e)" and ?c = "2 ^ (e - k) :: int"
  have p: "(2 :: int) ^ e = ?c * 2 ^ k" using e(1) by (simp flip: power_add)
  have d: "zeros_left 1 (dec (?t mod 10)) = [48 + ?t mod 10]" by (subst dec.simps) (simp add: zeros_left_def)
  have "2 * \<bar>int (n * 2 ^ (e - k) * 10) - int (2 ^ e) * int ?t\<bar> \<le> int (2 ^ e)" by (rule half_even_close) simp
  then have "2 * \<bar>?c * (10 * int n - 2 ^ k * int ?t)\<bar> \<le> ?c * 2 ^ k" by (simp add: p algebra_simps)
  then have "?c * (2 * \<bar>10 * int n - 2 ^ k * int ?t\<bar>) \<le> ?c * 2 ^ k" by (simp add: abs_mult)
  then have "2 * \<bar>10 * int n - 2 ^ k * int ?t\<bar> \<le> 2 ^ k" by simp
  then show ?thesis using e(2) d by (intro exI[of _ "(n * 2 ^ (e - k), e)"] exI[of _ ?t]) (simp add: fixed_point_def tenths_def Let_def)
qed

text \<open>
  C33: a size below 8 PiB is printed in bytes below 1024, in KB below 1048576 and in MB from there on,
  and the decimal fraction that is printed is within half a tenth of the exact value: the
  division to a double and the rounding to one decimal lose nothing more.
\<close>

theorem fmt_size_close:
  assumes "0 \<le> n" and "n < 2 ^ 53"
  shows "n < 1024 \<and> fmt_size n = Inr (dec (nat n) @ ustr '' B'') \<or>
    1024 \<le> n \<and> n < 1048576 \<and> (\<exists>t. fmt_size n = Inr (tenths t @ ustr '' KB'') \<and> 2 * \<bar>10 * n - 1024 * int t\<bar> \<le> 1024) \<or>
    1048576 \<le> n \<and> (\<exists>t. fmt_size n = Inr (tenths t @ ustr '' MB'') \<and> 2 * \<bar>10 * n - 1048576 * int t\<bar> \<le> 1048576)"
proof -
  have small: "nat n < 2 ^ 53" using assms by (simp add: nat_less_iff)
  consider "n < 1024" | "1024 \<le> n" "n < 1048576" | "1048576 \<le> n" by linarith
  then show ?thesis
  proof cases
    case 1
    then show ?thesis using assms by (simp add: fmt_size_def dec_int_def)
  next
    case 2
    then show ?thesis using fixed_point_tenths[of "nat n" 10] small by (auto simp: fmt_size_def)
  next
    case 3
    then show ?thesis using fixed_point_tenths[of "nat n" 20] small by (auto simp: fmt_size_def)
  qed
qed

theorem fmt_size_close_witness:
  "\<exists>t. fmt_size 1572864 = Inr (tenths t @ ustr '' MB'') \<and> 2 * \<bar>15728640 - 1048576 * int t\<bar> \<le> 1048576"
  using fmt_size_close[of 1572864] by auto


section \<open>No log makes the analyzer fail\<close>

definition hex_number :: "utext \<Rightarrow> bool" where
  "hex_number s \<longleftrightarrow> (\<exists>ds. s = ustr ''0x'' @ ds \<and> ds \<noteq> [] \<and> list_all hex_digit ds)"

lemma int_16_runs: "hex_number s \<Longrightarrow> \<exists>n. int_16 s = Inr n"
  by (auto simp: hex_number_def int_16_def)

lemma greedy_taken: "r \<in> set (greedy_rests p s) \<Longrightarrow> \<exists>ds. s = ds @ r \<and> list_all p ds"
proof (induction s)
  case (Cons c s)
  show ?case
  proof (cases "r = c # s")
    case False
    then have "p c" "r \<in> set (greedy_rests p s)" using Cons.prems by (auto split: if_splits)
    then obtain ds where "s = ds @ r" "list_all p ds" using Cons.IH by blast
    then show ?thesis using \<open>p c\<close> by (intro exI[of _ "c # ds"]) simp
  qed simp
qed simp

lemma hex_rx_group:
  assumes "(g, r) \<in> set (matches hex_rx s)"
  shows "\<exists>x. g = [x] \<and> hex_number x"
proof -
  obtain h where h: "(h, r) \<in> set (matches (seqs [lit ''0x'', Plus hex_digit]) s)" and g: "g = take (length s - length r) s # h"
    using assms by (auto simp: hex_rx_def)
  then obtain t where t: "s = ustr ''0x'' @ t" "(h, r) \<in> set (matches (Plus hex_digit) t)"
    by (auto simp: seqs_simps matches_lit prefix_def split: if_splits)
  then obtain c cs where c: "t = c # cs" "hex_digit c" "h = []" "r \<in> set (greedy_rests hex_digit cs)"
    by (auto simp: Plus_def split: list.splits if_splits)
  then obtain ds where "cs = ds @ r" "list_all hex_digit ds" using greedy_taken by blast
  then have x: "s = (ustr ''0x'' @ c # ds) @ r" "list_all hex_digit (c # ds)" using t(1) c(1,2) by simp_all
  then have "take (length s - length r) s = ustr ''0x'' @ c # ds" by (simp del: ustr_simps)
  then show ?thesis using g c(3) x(2) unfolding hex_number_def by blast
qed

lemma seqs_groups:
  "(g, r) \<in> set (matches (seqs (x # xs)) s) \<longleftrightarrow>
     (\<exists>h t k. (h, t) \<in> set (matches x s) \<and> (k, r) \<in> set (matches (seqs xs) t) \<and> g = h @ k)"
  by (fastforce simp: seqs_simps)

definition no_group :: "rx \<Rightarrow> bool" where
  "no_group x \<longleftrightarrow> (\<forall>s. \<forall>m \<in> set (matches x s). fst m = [])"

lemma no_groups: "no_group (lit w)" "no_group (Plus p)" "no_group (Many p)" "no_group (Lazy p)"
  by (auto simp: no_group_def matches_lit Plus_def split: list.splits if_splits)

lemma one_group: "(g, r) \<in> set (matches (Grp x) s) \<Longrightarrow> no_group x \<Longrightarrow> length g = 1"
  by (fastforce simp: no_group_def)

lemma no_group_Alt: "no_group x \<Longrightarrow> no_group y \<Longrightarrow> no_group (Alt x y)" "no_group (seqs [])"
  "no_group x \<Longrightarrow> no_group (seqs xs) \<Longrightarrow> no_group (seqs (x # xs))"
  by (fastforce simp: no_group_def seqs_simps)+

lemma crash_rx_groups:
  assumes "(g, r) \<in> set (matches (crash_rx u) s)"
  shows "length g = 5 \<and> hex_number (g ! 1) \<and> hex_number (g ! 2) \<and> hex_number (g ! 3)"
proof -
  let ?a = "Alt (seqs [lit ''KERNEL '', Plus (is_word u), lit '' ABORT'']) (lit ''SYNC EXCEPTION'')"
  have na: "no_group ?a" by (intro no_group_Alt no_groups)
  have skip: "\<exists>t. (g, r) \<in> set (matches (seqs xs) t)"
    if "(g, r) \<in> set (matches (seqs (x # xs)) s)" "no_group x" for x xs g r s
    using that unfolding seqs_groups no_group_def by force
  have take1: "\<exists>h k t. g = h # k \<and> hex_number h \<and> (k, r) \<in> set (matches (seqs xs) t)"
    if "(g, r) \<in> set (matches (seqs (hex_rx # xs)) s)" for xs g r s
    using that hex_rx_group unfolding seqs_groups by fastforce
  obtain a k t where 1: "g = a # k" "(k, r) \<in> set (matches (seqs [Lazy any_char, lit ''FAR='', hex_rx, Plus (is_space u),
      lit ''ELR='', hex_rx, Plus (is_space u), lit ''ESR='', hex_rx, Plus (is_space u), lit ''PID='', Grp (Plus (is_digit u))]) t)"
    using assms one_group[OF _ na] unfolding crash_rx_def seqs_groups[of _ _ "Grp ?a"] by (fastforce simp: length_Suc_conv)
  obtain t1 where "(k, r) \<in> set (matches (seqs [hex_rx, Plus (is_space u),
      lit ''ELR='', hex_rx, Plus (is_space u), lit ''ESR='', hex_rx, Plus (is_space u), lit ''PID='', Grp (Plus (is_digit u))]) t1)"
    using 1(2) skip no_groups by meson
  then obtain b k2 t2 where 2: "k = b # k2" "hex_number b" "(k2, r) \<in> set (matches (seqs [Plus (is_space u),
      lit ''ELR='', hex_rx, Plus (is_space u), lit ''ESR='', hex_rx, Plus (is_space u), lit ''PID='', Grp (Plus (is_digit u))]) t2)"
    using take1 by blast
  obtain t3 where "(k2, r) \<in> set (matches (seqs [hex_rx, Plus (is_space u), lit ''ESR='', hex_rx, Plus (is_space u),
      lit ''PID='', Grp (Plus (is_digit u))]) t3)"
    using 2(3) skip no_groups by meson
  then obtain c k3 t4 where 3: "k2 = c # k3" "hex_number c" "(k3, r) \<in> set (matches (seqs [Plus (is_space u), lit ''ESR='', hex_rx,
      Plus (is_space u), lit ''PID='', Grp (Plus (is_digit u))]) t4)"
    using take1 by blast
  obtain t5 where "(k3, r) \<in> set (matches (seqs [hex_rx, Plus (is_space u), lit ''PID='', Grp (Plus (is_digit u))]) t5)"
    using 3(3) skip no_groups by meson
  then obtain d k4 t6 where 4: "k3 = d # k4" "hex_number d"
    "(k4, r) \<in> set (matches (seqs [Plus (is_space u), lit ''PID='', Grp (Plus (is_digit u))]) t6)"
    using take1 by blast
  obtain t7 where "(k4, r) \<in> set (matches (seqs [Grp (Plus (is_digit u))]) t7)" using 4(3) skip no_groups by meson
  then have "length k4 = 1" using one_group[OF _ no_groups(2)] by (fastforce simp: seqs_simps)
  then show ?thesis using 1(1) 2(1,2) 3(1,2) 4(1,2) by simp
qed


lemma re_search_match: "re_search x s = Some (g, r) \<Longrightarrow> \<exists>t. (g, r) \<in> set (matches x t)"
proof (induction s)
  case Nil
  then have "(g, r) \<in> set (matches x [])" by (auto simp: re_search.simps re_match_def split: list.splits)
  then show ?case by blast
next
  case (Cons c s)
  show ?case
  proof (cases "re_match x (c # s)")
    case None
    then show ?thesis using Cons by (simp add: re_search.simps)
  next
    case (Some m)
    then have "m = (g, r)" using Cons.prems by (simp add: re_search.simps)
    with Some have "(g, r) \<in> set (matches x (c # s))" by (auto simp: re_match_def split: list.splits)
    then show ?thesis by blast
  qed
qed

lemma crash_lines_esr: "crash_esr (crash_lines u ls c) = crash_esr c"
proof (induction ls arbitrary: c)
  case (Cons l ls)
  have "crash_esr (crash_line u x c) = crash_esr c" for x
    by (simp add: crash_line_def Let_def split: option.splits prod.splits list.splits)
  with Cons show ?case by (simp add: Let_def)
qed simp

lemma parse_crash_esr:
  assumes "parse_crash_block u lines i = Some c"
  shows "hex_number (crash_esr c)"
proof -
  obtain ty far elr esr pid r where s: "re_search (crash_rx u) (lines ! i) = Some ([ty, far, elr, esr, pid], r)"
    and e: "crash_esr c = esr"
    using assms by (auto simp: parse_crash_block_def Let_def crash_lines_esr split: option.splits list.splits prod.splits)
  obtain t where "([ty, far, elr, esr, pid], r) \<in> set (matches (crash_rx u) t)" using re_search_match[OF s] by blast
  from crash_rx_groups[OF this] show ?thesis by (simp add: e numeral_3_eq_3)
qed

text \<open>What printing relies on.\<close>

definition printable :: "report \<Rightarrow> bool" where
  "printable r \<longleftrightarrow> (\<forall>c. crash r = Some c \<longrightarrow> hex_number (crash_esr c)) \<and>
     (\<forall>e \<in> set (process_events r). \<exists>t. process_detail e = Inr t)"

lemma line_crash:
  "crash (fst (analyze_line u lines x (r, w))) = crash r \<or>
   (\<exists>i c. parse_crash_block u lines i = Some c \<and> crash (fst (analyze_line u lines x (r, w))) = Some c)"
proof -
  have "crash (tagged_line u lines i line tag rest r') = crash r' \<or>
      (\<exists>c. parse_crash_block u lines i = Some c \<and> crash (tagged_line u lines i line tag rest r') = Some c)" for i line tag rest r'
    by (auto simp: tagged_line_def add_event_def Let_def simp del: ustr_simps split: option.splits list.splits prod.splits)
  note t = this
  obtain i line where x: "x = (i, line)" by fastforce
  obtain tag rest where p: "parse_subsystem_tag u line = (tag, rest)" by fastforce
  let ?r = "\<lambda>tg. r\<lparr>subsystem_counts := AList.update tg (get_or (subsystem_counts r) tg 0 + 1) (subsystem_counts r)\<rparr>"
  show ?thesis
  proof (cases tag)
    case None
    then show ?thesis by (simp add: analyze_line_def x p untagged_line_def del: ustr_simps)
  next
    case (Some tg)
    then show ?thesis using t[of i line tg rest "?r tg"] by (auto simp: analyze_line_def x p Let_def simp del: ustr_simps)
  qed
qed

lemma analyze_crash:
  assumes "\<forall>c. crash r = Some c \<longrightarrow> hex_number (crash_esr c)"
  shows "crash (fst (fold (analyze_line u lines) xs (r, w))) = Some c \<Longrightarrow> hex_number (crash_esr c)"
  using assms
proof (induction xs arbitrary: r w)
  case (Cons x xs)
  obtain r' w' where rw: "analyze_line u lines x (r, w) = (r', w')" by fastforce
  have "\<forall>c. crash r' = Some c \<longrightarrow> hex_number (crash_esr c)"
    using line_crash[of u lines x r w] Cons.prems(2) parse_crash_esr rw by auto
  with Cons show ?case by (simp add: rw)
qed simp

lemma event_details_cases:
  "event_details u tag rest = [] \<or> event_details u tag rest = [(''message'', DText rest)] \<or>
   (\<exists>p b. event_details u tag rest = [(''pid'', DInt p), (''binary'', DText b)]) \<or> (\<exists>p. event_details u tag rest = [(''pid'', DInt p)])"
  unfolding event_details_def by (simp del: ustr_simps split: option.split prod.split list.split)

lemma event_details_text: "\<exists>t. process_detail (mk_event i tag cat line (event_details u tag rest)) = Inr t"
  using event_details_cases[of u tag rest] by (auto simp: process_detail_def mk_event_def detail_cut_def)

lemma routed_process:
  assumes "e \<in> set (routed u lines ''process'' x)"
  shows "\<exists>i tag line rest. e = mk_event i tag ''process'' line (event_details u tag rest)"
proof -
  obtain i line where x: "x = (i, line)" by fastforce
  obtain tag rest where p: "parse_subsystem_tag u line = (tag, rest)" by fastforce
  obtain c where "route u lines (i, line) = Some (c, e)" "c = ''process''"
    using assms by (auto simp: routed_def x split: option.splits if_splits)
  then have "e = mk_event i (the tag) ''process'' line (event_details u (the tag) rest)"
    by (cases tag) (auto simp: route_def p simp del: ustr_simps split: if_splits)
  then show ?thesis by blast
qed

lemma analyze_log_printable: "printable (analyze_log u fp raw_lines)"
proof -
  have "process_detail e \<in> range Inr" if "e \<in> set (process_events (analyze_log u fp raw_lines))" for e
  proof -
    have "e \<in> set (events_in ''process'' (analyze_log u fp raw_lines))" using that by (simp add: events_in_def)
    then obtain x where "e \<in> set (routed u (log_lines raw_lines) ''process'' x)" by (auto simp: analyze_log_events)
    then obtain i tag line rest where "e = mk_event i tag ''process'' line (event_details u tag rest)" using routed_process by blast
    then show ?thesis using event_details_text[of i tag "''process''" line u rest] by auto
  qed
  moreover have "hex_number (crash_esr c)" if "crash (analyze_log u fp raw_lines) = Some c" for c
    by (rule analyze_crash[where r = "empty_report fp (length (log_lines raw_lines))" and u = u and lines = "log_lines raw_lines"
          and xs = "List.enumerate 0 (log_lines raw_lines)" and w = "[]"])
      (use that in \<open>simp_all add: analyze_log_def log_lines_def case_prod_unfold Let_def empty_report_def\<close>)
  ultimately show ?thesis by (auto simp: printable_def)
qed


text \<open>Sizes that a double can hold.\<close>

definition sizes_ok :: "report \<Rightarrow> bool" where
  "sizes_ok r \<longleftrightarrow> sum_bytes r < 2 ^ 1000 \<and> (\<forall>w \<in> set (write_values r). total_bytes w < 2 ^ 1000 \<and> final_size w < 2 ^ 1000)"

lemma fmt_size_runs: "n < 2 ^ 1000 \<Longrightarrow> \<exists>t. fmt_size n = Inr t"
proof -
  assume n: "n < 2 ^ 1000"
  then have "nat n < 1048576 * 2 ^ 1000" "nat n < 1024 * 2 ^ 1000" by (simp_all add: nat_less_iff)
  then obtain x y where "true_div (nat n) 1048576 = Inr x" "true_div (nat n) 1024 = Inr y"
    using true_div_runs[of 1048576 "nat n"] true_div_runs[of 1024 "nat n"] by fastforce
  then show ?thesis by (simp add: fmt_size_def)
qed

lemma with_val_runs: "\<exists>x. v = Inr x \<Longrightarrow> (\<And>x. snd (f x) = None) \<Longrightarrow> snd (with_val v f) = None"
  by auto

lemma update_entry: "(k, n) \<in> set (AList.update j v d) \<Longrightarrow> (k, n) \<in> set d \<or> n = v"
  by (induction d) (auto split: if_splits)

lemma count_by_le: "(k, n) \<in> set (count_by key xs) \<Longrightarrow> n \<le> length xs"
proof (induction xs arbitrary: k n rule: rev_induct)
  case (snoc x xs)
  let ?d = "count_by key xs"
  have d: "get_or ?d (key x) 0 \<le> length xs"
    using snoc.IH map_of_SomeD[of ?d "key x"] by (auto simp: get_or_def split: option.splits)
  have "(k, n) \<in> set (AList.update (key x) (get_or ?d (key x) 0 + 1) ?d)" using snoc.prems by (simp add: count_by_def)
  then have "(k, n) \<in> set ?d \<or> n = get_or ?d (key x) 0 + 1" by (rule update_entry)
  then show ?case using snoc.IH[of k n] d by auto
qed (simp add: count_by_def)

lemma idle_le: "idle_ticks r \<le> max (length (ticks r)) 1"
  using length_filter_le[of "\<lambda>t. tick_pid t = 0" "ticks r"] unfolding idle_ticks_def by linarith

lemma percent_runs: "a \<le> b \<Longrightarrow> 0 < b \<Longrightarrow> \<exists>x. true_div (100 * a) b = Inr x"
  by (rule true_div_runs) auto

lemma idle_percent_runs: "\<exists>t. idle_percent r = Inr t"
proof -
  let ?b = "max (length (ticks r)) 1"
  obtain m s where x: "true_div (idle_ticks r) ?b = Inr (m, s)"
    using true_div_runs[of ?b "idle_ticks r"] idle_le[of r] by fastforce
  have "m \<le> 2 * 2 ^ s" by (rule true_div_share[OF idle_le x])
  then have "100 * m \<le> 2 ^ s * 200" by simp
  also have "\<dots> < 2 ^ s * 2 ^ 1000" by (intro mult_strict_left_mono) simp_all
  finally obtain y where "true_div (100 * m) (2 ^ s) = Inr y" using true_div_runs[of "2 ^ s" "100 * m"] by auto
  then show ?thesis by (simp add: idle_percent_def x[simplified])
qed

lemma sections_run:
  assumes p: "printable r" and z: "sizes_ok r"
  shows "snd (print_summary r) = None" "snd (print_writes r) = None" "snd (print_nvme r) = None" "snd (print_errors r) = None"
    "snd (print_syscalls r) = None" "snd (print_ticks r) = None" "snd (print_json r) = None"
proof -
  have sum: "\<exists>t. fmt_size (sum_bytes r) = Inr t" using z fmt_size_runs by (auto simp: sizes_ok_def)
  have "snd (write_line w) = None" if "w \<in> set (write_values r)" for w
    using that z fmt_size_runs[of "total_bytes w"] fmt_size_runs[of "final_size w"] by (auto simp: sizes_ok_def write_line_def)
  then have w: "snd (write_line w) = None" if "w \<in> set (top_writes 20 r)" for w
    using in_set_takeD[of w 20 "sort_key (\<lambda>w. - total_bytes w) (write_values r)"] that by (simp add: top_writes_def)
  have "snd (print_crash c) = None" if "crash r = Some c" for c
    using p that int_16_runs[of "crash_esr c"] by (auto simp: printable_def print_crash_def outs_ok Let_def case_prod_unfold)
  then show "snd (print_errors r) = None" by (auto simp: print_errors_def outs_ok split: option.splits)
  show "snd (print_summary r) = None"
    using p by (fastforce simp: print_summary_def outs_ok printable_def case_prod_unfold intro: with_val_runs)
  show "snd (print_writes r) = None" using sum w by (auto simp: print_writes_def outs_ok intro!: with_val_runs)
  show "snd (print_nvme r) = None" using sum by (auto simp: print_nvme_def outs_ok Let_def intro!: with_val_runs)
  show "snd (print_syscalls r) = None" by (auto simp: print_syscalls_def outs_ok case_prod_unfold)
  have "snd (pid_line (length (ticks r)) x) = None" if "x \<in> set (count_by tick_pid (ticks r))" "ticks r \<noteq> []" for x
    using percent_runs[of "snd x" "length (ticks r)"] count_by_le[of "fst x" "snd x" tick_pid "ticks r"] that
    by (auto simp: pid_line_def case_prod_unfold Let_def intro!: with_val_runs)
  then show "snd (print_ticks r) = None" by (auto simp: print_ticks_def outs_ok by_count_def)
  show "snd (print_json r) = None"
    using percent_runs[OF idle_le[of r]] by (auto simp: print_json_def intro!: with_val_runs)
qed

lemma diff_runs:
  assumes "sizes_ok old" "sizes_ok new"
  shows "snd (print_diff order old new) = None"
proof -
  have "\<exists>t. fmt_size (sum_bytes old) = Inr t" "\<exists>t. fmt_size (sum_bytes new) = Inr t"
    using assms fmt_size_runs by (auto simp: sizes_ok_def)
  moreover have "snd (crash_diff oc nc) = None" for oc nc by (simp add: crash_diff_def outs_ok)
  moreover have "snd (message_lines title sign ms) = None" for title sign ms by (simp add: message_lines_def outs_ok)
  ultimately show ?thesis
    using idle_percent_runs[of old] idle_percent_runs[of new]
    by (auto simp: print_diff_def outs_ok Let_def case_prod_unfold split: option.splits)
qed



definition sample_log :: "utext list" where
  "sample_log = [ustr ''[pci] a'', ustr ''[init] b'']"


section \<open>Comparison\<close>

definition counts_of :: "report \<Rightarrow> utext list \<Rightarrow> bool" where
  "counts_of r ts \<longleftrightarrow> fst ` set (subsystem_counts r) = set ts \<and> (\<forall>t. get_or (subsystem_counts r) t 0 = count_list ts t)"

lemma analyze_counts_of: "counts_of (analyze_log u f raw_lines) (line_tags u (map (\<lambda>l. strip_ansi (rstrip_newline l)) raw_lines))"
  using counts_fold[of u f raw_lines] count_tags(1,2)[of "line_tags u (log_lines raw_lines)" "[]"]
  by (simp add: counts_of_def log_lines_def get_or_def)

lemma count_changes_exact:
  assumes "counts_of old xs" "counts_of new ys" and order: "\<And>xs. distinct xs \<Longrightarrow> distinct (order xs) \<and> set (order xs) = set xs"
  shows "distinct (map fst (count_changes order old new)) \<and>
    (\<forall>t m n. (t, m, n) \<in> set (count_changes order old new) \<longleftrightarrow> m = count_list xs t \<and> n = count_list ys t \<and> m \<noteq> n)"
proof -
  let ?ts = "order (remdups (map fst (subsystem_counts old) @ map fst (subsystem_counts new)))"
  have v: "get_or (subsystem_counts old) t 0 = count_list xs t" "get_or (subsystem_counts new) t 0 = count_list ys t" for t
    using assms(1,2) by (simp_all add: counts_of_def)
  have ts: "distinct ?ts" "set ?ts = set xs \<union> set ys"
    using order[of "remdups (map fst (subsystem_counts old) @ map fst (subsystem_counts new))"] assms(1,2) by (simp_all add: counts_of_def)
  have mem: "t \<in> set ?ts" if "count_list xs t \<noteq> count_list ys t" for t
    using that unfolding ts(2) by (metis UnI1 UnI2 count_list_0_iff)
  have e: "count_changes order old new =
      map (\<lambda>t. (t, count_list xs t, count_list ys t)) (filter (\<lambda>t. count_list xs t \<noteq> count_list ys t) ?ts)"
    by (simp add: count_changes_def v filter_map comp_def)
  have "distinct (map fst (count_changes order old new))" unfolding e map_map using ts(1) by (simp add: comp_def)
  moreover have "(t, m, n) \<in> set (count_changes order old new) \<longleftrightarrow> m = count_list xs t \<and> n = count_list ys t \<and> m \<noteq> n" for t m n
    using mem[of t] unfolding e by (simp only: set_map set_filter image_iff mem_Collect_eq prod.inject) blast
  ultimately show ?thesis by blast
qed

text \<open>
  C34: the comparison of two logs finds every tag whose number of lines differs, once, with its number
  of lines in either log, in whatever order Python iterates over the set of tags.
\<close>

theorem diff_counts_exact:
  fixes u :: unicode and old_lines new_lines :: "utext list"
  defines "old_tags \<equiv> line_tags u (map (\<lambda>l. strip_ansi (rstrip_newline l)) old_lines)"
    and "new_tags \<equiv> line_tags u (map (\<lambda>l. strip_ansi (rstrip_newline l)) new_lines)"
  assumes "\<And>xs. distinct xs \<Longrightarrow> distinct (order xs) \<and> set (order xs) = set xs"
  shows "distinct (map fst (count_changes order (analyze_log u f old_lines) (analyze_log u g new_lines))) \<and>
    (\<forall>t m n. (t, m, n) \<in> set (count_changes order (analyze_log u f old_lines) (analyze_log u g new_lines)) \<longleftrightarrow>
       m = count_list old_tags t \<and> n = count_list new_tags t \<and> m \<noteq> n)"
  unfolding old_tags_def new_tags_def using analyze_counts_of analyze_counts_of assms(3) by (rule count_changes_exact)

theorem diff_counts_exact_witness:
  "(ustr ''pci'', 1, 0) \<in> set (count_changes (\<lambda>xs. xs) (analyze_log plain_unicode [] sample_log) (analyze_log plain_unicode [] []))"
proof -
  have "count_list (line_tags plain_unicode (map (\<lambda>l. strip_ansi (rstrip_newline l)) sample_log)) (ustr ''pci'') = 1 \<and>
      count_list (line_tags plain_unicode (map (\<lambda>l. strip_ansi (rstrip_newline l)) [])) (ustr ''pci'') = 0"
    by code_simp
  then show ?thesis
    using diff_counts_exact[of "\<lambda>xs. xs" plain_unicode "[]" sample_log "[]" "[]"] by (simp del: ustr_simps)
qed


section \<open>JSON text\<close>

definition plain_char :: "nat \<Rightarrow> bool" where
  "plain_char c \<longleftrightarrow> c = 10 \<or> 32 \<le> c \<and> c \<le> 126"

lemma plain_parts [simp]:
  "list_all plain_char (replicate n 48)" "list_all plain_char (replicate n 32)" "list_all plain_char (dec k)" "list_all plain_char (hex k)"
  "list_all plain_char (zeros_left n t) \<longleftrightarrow> list_all plain_char t" "list_all plain_char (dec_int i)"
  "list_all plain_char t \<Longrightarrow> list_all plain_char (take n t)" "list_all plain_char t \<Longrightarrow> list_all plain_char (drop n t)"
  using dec_digits[of k] hex_digits[of k] dec_digits[of "nat i"] dec_digits[of "nat (- i)"]
  by (auto simp: list_all_iff plain_char_def ascii_digit_def hex_digit_def zeros_left_def dec_int_def dest: in_set_takeD in_set_dropD)

lemma plain_float: "list_all plain_char (float_repr x)"
  by (simp add: float_repr_def Let_def) (simp add: plain_char_def)

lemma plain_json_string: "list_all plain_char (json_string s)"
proof -
  have "list_all plain_char (hex4 k)" for k by (simp add: hex4_def) (simp add: plain_char_def)
  then have "list_all plain_char (json_char c)" for c by (simp add: json_char_def) (simp add: plain_char_def)
  then have "list_all plain_char (concat (map json_char s))" by (induction s) simp_all
  then show ?thesis by (simp add: json_string_def plain_char_def)
qed

lemma plain_comma_lines: "list_all (list_all plain_char) ts \<Longrightarrow> list_all plain_char (comma_lines level ts)"
  unfolding comma_lines_def
  by (induction ts rule: rev_induct) (simp_all add: enumerate_append_eq new_line_def plain_char_def)

lemma plain_dumps: "list_all plain_char (json_dumps level v)"
proof (induction level v rule: json_dumps.induct)
  case (1 level v)
  note nl = plain_comma_lines[of _ "Suc level"]
  show ?case
  proof (cases v)
    case (JList vs)
    then have "list_all (list_all plain_char) (map (json_dumps (Suc level)) vs)" using 1(1)[OF JList] by (fastforce simp: list_all_iff)
    from nl[OF this] show ?thesis by (subst json_dumps.simps) (simp add: JList new_line_def plain_char_def)
  next
    case (JObj kvs)
    then have "list_all (list_all plain_char) (map (\<lambda>(k, v). json_string k @ ustr '': '' @ json_dumps (Suc level) v) kvs)"
      using 1(2) plain_json_string by (fastforce simp: list_all_iff plain_char_def)
    from nl[OF this] show ?thesis by (subst json_dumps.simps) (simp add: JObj new_line_def plain_char_def)
  qed (simp_all add: json_dumps.simps plain_json_string plain_float, simp_all add: plain_char_def)
qed


end
