(* ===== verification/Spec2Isabelle.thy ===== *)
theory Spec2Isabelle
  imports Ext4_Main Ext3_Main Ext2_Main Dir_Defects Gce_Main Log_Output
begin

text \<open>
  \<^bold>\<open>The host tools of Zigix.\<close>  Zigix is an operating system written in Zig; its Python tools make the
  media it boots from and read what it prints.  This library models the tools:

  \<^item> \<^verbatim>\<open>make_ext2_img.py\<close>, \<^verbatim>\<open>make_ext3_img.py\<close>, \<^verbatim>\<open>make_ext4_img.py\<close> write a 1 GB file-system image byte
    by byte: files, directories, a copy of host trees, a journal, bitmaps, descriptors, superblock;
  \<^item> \<^verbatim>\<open>make_gce_disk.py\<close> puts a FAT32 boot partition with bootloader and kernel and a root image
    into a 2 GB disk with a GUID partition table;
  \<^item> \<^verbatim>\<open>tools/parse-serial-log.py\<close> turns the serial log of a run into a report.

  \<^bold>\<open>How the code is modelled.\<close>  \<^verbatim>\<open>bytes\<close> and \<^verbatim>\<open>bytearray\<close> are lists of 8-bit words, Python integers
  are \<open>int\<close> or, where they cannot be negative, \<open>nat\<close>; \<^verbatim>\<open>struct\<close> formats are lists of sized fields
  whose packing fails when a value does not fit.  The functions nested in \<^verbatim>\<open>main\<close> share captured
  variables: a call is a function from the state record to an error or a result with the new
  state (\<open>py\<close>).  Exceptions, assertions and \<^verbatim>\<open>sys.exit\<close> are values of \<open>error\<close>.  Slice assignment
  that changes the length of a \<^verbatim>\<open>bytearray\<close> changes it in the model, too.  Loops are recursions
  whose termination is proved; no fuel is used in the models (the depth of \<open>read_node\<close>, a reader on the
  specification side, is a bound that the theorems ask to be at least the height of the tree).

  \<^bold>\<open>Theories.\<close>
  \<^item> \<open>Prelude\<close>: slices, logs of writes and how to read through them.
  \<^item> \<open>Py_Runtime\<close>, \<open>Py_Monad\<close>, \<open>Py_Text\<close>: byte packing, errors, the state monad with its loops; Unicode
    text and a backtracking matcher for the patterns of the log analyzer.
  \<^item> \<open>Image_Core\<close>, \<open>Allocators\<close>: the state of the three image builders, \<^verbatim>\<open>write_block\<close>, and the allocators
    of blocks and inodes as instances of the locale \<open>block_source\<close>.  Blocks are never handed out
    twice and never outside the image.
  \<^item> \<open>File_Blocks\<close>, \<open>File_Read\<close>, \<open>File_Store\<close>: \<^verbatim>\<open>alloc_file_blocks\<close>, \<^verbatim>\<open>write_file_data\<close> and \<^verbatim>\<open>write_inode\<close> of the
    ext2 and ext3 builders; a stored file is read back through direct, indirect and
    double-indirect pointers.
  \<^item> \<open>Dir_Entries\<close>, \<open>Dir_Blocks\<close>, \<open>Dir_Read\<close>, \<open>Dir_Defects\<close>: \<^verbatim>\<open>make_dir_entry\<close> and \<^verbatim>\<open>write_dir_blocks\<close> of the
    three scripts; which directories are read back, and what happens to those that are not.
  \<^item> \<open>Crc\<close>, \<open>Ext4_Extents\<close>, \<open>Ext4_Inode\<close>: CRC-32C by table against the bit-by-bit definition, extent trees,
    the checksummed 256-byte inode.
  \<^item> \<open>Stable\<close>, \<open>Host_Tree\<close>, \<open>Phases\<close>, \<open>Tree_Ext23\<close>, \<open>Tree_Ext4\<close>: \<^verbatim>\<open>add_tree\<close>.  The locale \<open>tree_target\<close> states what the
    recursive copy relies on; it is interpreted for the three scripts, and gives once for all that
    the host tree is read back from the image.  \<open>Phases\<close> has the rules by which the straight-line
    part of \<^verbatim>\<open>main\<close> is put together: each phase fills the slots of its own inodes and leaves the
    others alone.
  \<^item> \<open>Small_Dirs\<close>, \<open>Journals\<close>, \<open>Bitmaps\<close>, \<open>Meta23\<close>, \<open>Meta4\<close>: directories written into one block by hand,
    the JBD2 journals, and the metadata phases with bitmaps, group descriptors and superblock.
  \<^item> \<open>Main_Parts\<close>, \<open>Ext4_Main\<close>: what the three \<^verbatim>\<open>main\<close> functions share, and \<^verbatim>\<open>main\<close> of
    \<^verbatim>\<open>make_ext4_img.py\<close> from its inputs to the finished image.
  \<^item> \<open>Tree_Frame\<close>, \<open>Zones\<close>, \<open>Zone_Scripts\<close>: \<^verbatim>\<open>make_ext2_img.py\<close> fills two zones, that of the block bitmap and
    the overflow zone.  The locale \<open>zone_source\<close> states what a statement of a script relies on (fresh
    blocks of the zone in use, counters, a table of inode slots) and derives the rules of \<open>phase\<close>: a
    statement needs so many blocks and inodes, fills the slots of its own inodes, and what it
    wrote stays readable as long as its blocks and slots are kept.  It is interpreted for both scripts.
  \<^item> \<open>Main23\<close>, \<open>Triples\<close>, \<open>Root23\<close>: the statements shared by the \<^verbatim>\<open>main\<close> functions of \<^verbatim>\<open>make_ext2_img.py\<close> and
    \<^verbatim>\<open>make_ext3_img.py\<close>, their laws as triples over the counters, and the root directory.
  \<^item> \<open>Cache_Dirs\<close>, \<open>Ext2_Main\<close>, \<open>Ext3_Main\<close>: the two \<^verbatim>\<open>main\<close> functions.  For arguments that fit
    (\<open>e2_args_ok\<close>, \<open>e3_args_ok\<close>: names that directories can hold, blocks and inodes that suffice) the image
    is produced and read back as the intended tree.
  \<^item> \<open>Gpt\<close>, \<open>Fat32\<close>, \<open>Fat32_Layout\<close>, \<open>Fat32_Names\<close>, \<open>Fat32_Esp\<close>, \<open>Gce_Main\<close>: \<^verbatim>\<open>make_gce_disk.py\<close>: partition table,
    allocation tables, clusters, long names, the boot partition and \<^verbatim>\<open>main\<close>.
  \<^item> \<open>Log_Parse\<close>, \<open>Log_Match\<close>, \<open>Log_Report\<close>, \<open>Log_Formats\<close>, \<open>Log_Events\<close>: the parsers of
    \<^verbatim>\<open>parse-serial-log.py\<close>, \<^verbatim>\<open>analyze_log\<close>, and what a report says of the lines of a log.
  \<^item> \<open>Py_Format\<close>, \<open>Log_Print\<close>, \<open>Log_Output\<close>: formatted output, doubles as exact fractions, JSON; the sections of a
    report, the comparison of two logs and \<^verbatim>\<open>main\<close>; rounding of sizes, exactness of the comparison, and
    that no log makes the output fail.

  \<^bold>\<open>Readers.\<close>  What an image promises is stated through readers that do not share code with the
  writers: \<open>bmap\<close> and \<open>bm_file\<close> (block-mapped inodes), \<open>x4_file\<close> and \<open>x4_dir\<close> (verified inodes with extents),
  \<open>read_directory\<close> (record chains), \<open>read_node\<close> (whole trees), the FAT32 and GPT readers.

  \<^bold>\<open>Parameters.\<close>  \<^verbatim>\<open>hashlib.md5\<close> (only the length of a digest matters), the Unicode database beyond
  ASCII, the clock, the order in which Python iterates over a set, and what the operating system says of
  the host files.

  \<^bold>\<open>Not modelled.\<close>  The kernel, the bootloaders and user space (Zig); reading input files and writing the
  finished image; progress messages of the image builders; terminal encodings.  Python's limit of 4300 digits for \<^verbatim>\<open>int()\<close> is not modelled; the
  pattern matcher covers the constructs the analyzer uses.
\<close>

end
